(* ===== verification/Prelude.thy ===== *)
theory Prelude
  imports Main "HOL-Library.Word" "HOL-Library.Code_Target_Nat"
begin

text \<open>
  The vocabulary every component shares: the error codes and the result type, the opaque
  identifiers and digests of the core crate with their order, the limits of
  \<^verbatim>\<open>crates/reproit-sdk-rust/src/lib.rs\<close>, and Rust's checked, saturating and wrapping
  arithmetic on 64-bit unsigned integers (\<open>usize\<close> is 64 bits wide on every target the SDK
  packages).  An integer is a natural number, and the operations below write out what happens
  at the width: nothing else relies on a number being small.
\<close>

section \<open>Collections\<close>

named_theorems limits \<open>the numeric bounds of the sources, unfolded\<close>
named_theorems arith64 \<open>Rust's 64-bit operations, unfolded\<close>
named_theorems inv_intros \<open>operations keep an invariant\<close>

section \<open>Results\<close>

text \<open>
  \<open>Error\<close> carries a code, a message and a retry flag.  The code decides every branch of the
  sources but one (the delivery counters, which read the flag as well), so a failed result is
  its code; messages are not modelled.
\<close>

datatype error_code =
    RuntimeQuota | IncompleteCandidate | SchemaInvalid | NotFound | ServiceUnavailable
  | AuthorizationDenied | WorldNotClosed | ConfigConflict | AttestationScope | UploadExpired
  | Unsupported | UploadLimitExceeded | SubjectDigestMismatch | ObjectDigestMismatch
  | CaptureIdConflict

type_synonym 'a res = "error_code + 'a"

text \<open>\<open>ok_or c v\<close> is \<open>Option::ok_or\<close>; \<open>bind_res\<close> is the question mark operator.\<close>

definition ok_or :: "error_code \<Rightarrow> 'a option \<Rightarrow> 'a res" where
  "ok_or c v = (case v of None \<Rightarrow> Inl c | Some x \<Rightarrow> Inr x)"

definition bind_res :: "'a res \<Rightarrow> ('a \<Rightarrow> 'b res) \<Rightarrow> 'b res" where
  "bind_res r f = (case r of Inl e \<Rightarrow> Inl e | Inr x \<Rightarrow> f x)"

lemma ok_or_simps [simp]:
  "ok_or c None = Inl c" "ok_or c (Some x) = Inr x"
  by (simp_all add: ok_or_def)

lemma ok_or_eq_Inr [simp]: "ok_or c v = Inr x \<longleftrightarrow> v = Some x"
  by (cases v) auto

lemma bind_res_simps [simp]:
  "bind_res (Inl e) f = Inl e" "bind_res (Inr x) f = f x"
  by (simp_all add: bind_res_def)

lemma bind_res_eq_Inr: "bind_res r f = Inr y \<longleftrightarrow> (\<exists>x. r = Inr x \<and> f x = Inr y)"
  by (cases r) auto

definition is_ok :: "'a res \<Rightarrow> bool" where
  "is_ok r = (case r of Inl _ \<Rightarrow> False | Inr _ \<Rightarrow> True)"

lemma is_ok_simps [simp]: "\<not> is_ok (Inl e)" "is_ok (Inr x)"
  by (simp_all add: is_ok_def)

section \<open>Identifiers and digests\<close>

text \<open>
  \<open>OperationId\<close>, \<open>CaptureId\<close> and \<open>Digest\<close> are opaque fixed-width values of the core crate
  with a total order (they key \<open>BTreeMap\<close>s).  Each is the number its bytes denote.
\<close>

datatype operation_id = OperationId (operation_id_num: nat)
datatype capture_id = CaptureId (capture_id_num: nat)
datatype digest = Digest (digest_num: nat)

instantiation operation_id :: linorder
begin

definition less_eq_operation_id :: "operation_id \<Rightarrow> operation_id \<Rightarrow> bool" where
  "less_eq_operation_id a b \<longleftrightarrow> operation_id_num a \<le> operation_id_num b"

definition less_operation_id :: "operation_id \<Rightarrow> operation_id \<Rightarrow> bool" where
  "less_operation_id a b \<longleftrightarrow> operation_id_num a < operation_id_num b"

instance
  by standard
    (auto simp: less_eq_operation_id_def less_operation_id_def operation_id.expand)

end

instantiation capture_id :: linorder
begin

definition less_eq_capture_id :: "capture_id \<Rightarrow> capture_id \<Rightarrow> bool" where
  "less_eq_capture_id a b \<longleftrightarrow> capture_id_num a \<le> capture_id_num b"

definition less_capture_id :: "capture_id \<Rightarrow> capture_id \<Rightarrow> bool" where
  "less_capture_id a b \<longleftrightarrow> capture_id_num a < capture_id_num b"

instance
  by standard (auto simp: less_eq_capture_id_def less_capture_id_def capture_id.expand)

end

instantiation digest :: linorder
begin

definition less_eq_digest :: "digest \<Rightarrow> digest \<Rightarrow> bool" where
  "less_eq_digest a b \<longleftrightarrow> digest_num a \<le> digest_num b"

definition less_digest :: "digest \<Rightarrow> digest \<Rightarrow> bool" where
  "less_digest a b \<longleftrightarrow> digest_num a < digest_num b"

instance
  by standard (auto simp: less_eq_digest_def less_digest_def digest.expand)

end

section \<open>Bytes\<close>

type_synonym byte = "8 word"
type_synonym bytes = "byte list"

section \<open>Limits\<close>

definition MAX_GLOBAL_BYTES :: nat where [limits]: "MAX_GLOBAL_BYTES = 1048576"
definition MAX_OPERATION_BYTES :: nat where [limits]: "MAX_OPERATION_BYTES = 262144"
definition MAX_EVENT_BYTES :: nat where [limits]: "MAX_EVENT_BYTES = 65536"
definition MAX_EVENTS :: nat where [limits]: "MAX_EVENTS = 1024"
definition MAX_ACTIVE_OPERATIONS :: nat where [limits]: "MAX_ACTIVE_OPERATIONS = 512"
definition MAX_QUEUED_CANDIDATES :: nat where [limits]: "MAX_QUEUED_CANDIDATES = 16"
definition MAX_FAILURE_STORM_IDENTITIES :: nat where
  [limits]: "MAX_FAILURE_STORM_IDENTITIES = 256"
definition MAX_WORLD_ARTIFACT_BYTES :: nat where
  [limits]: "MAX_WORLD_ARTIFACT_BYTES = 1073741824"
definition MAX_WORLD_BYTES :: nat where [limits]: "MAX_WORLD_BYTES = 2147483648"
definition MAX_PROCESS_CAPTURE_BYTES :: nat where
  [limits]: "MAX_PROCESS_CAPTURE_BYTES = 4294967296"
definition CANDIDATE_DELIVERY_LIFETIME_MS :: nat where
  [limits]: "CANDIDATE_DELIVERY_LIFETIME_MS = 1800000"
definition FAILURE_SUPPRESSION_MS :: nat where [limits]: "FAILURE_SUPPRESSION_MS = 60000"
definition FAILURE_TOKENS_MILLI_CAPACITY :: nat where
  [limits]: "FAILURE_TOKENS_MILLI_CAPACITY = 4000"

section \<open>64-bit unsigned arithmetic\<close>

definition U64_MAX :: nat where [limits]: "U64_MAX = 18446744073709551615"
definition U16_MAX :: nat where [limits]: "U16_MAX = 65535"

definition checked_add :: "nat \<Rightarrow> nat \<Rightarrow> nat option" where
  "checked_add a b = (if a + b \<le> U64_MAX then Some (a + b) else None)"

definition checked_mul :: "nat \<Rightarrow> nat \<Rightarrow> nat option" where
  "checked_mul a b = (if a * b \<le> U64_MAX then Some (a * b) else None)"

definition saturating_add :: "nat \<Rightarrow> nat \<Rightarrow> nat" where
  [arith64]: "saturating_add a b = min (a + b) U64_MAX"

definition saturating_sub :: "nat \<Rightarrow> nat \<Rightarrow> nat" where
  [arith64]: "saturating_sub a b = (if a < b then 0 else a - b)"

definition saturating_mul :: "nat \<Rightarrow> nat \<Rightarrow> nat" where
  [arith64]: "saturating_mul a b = min (a * b) U64_MAX"

text \<open>The plain \<open>+\<close> of a release build.\<close>

definition wrapping_add :: "nat \<Rightarrow> nat \<Rightarrow> nat" where
  "wrapping_add a b = (a + b) mod (U64_MAX + 1)"

definition u16_try_from :: "nat \<Rightarrow> nat option" where
  "u16_try_from n = (if n \<le> U16_MAX then Some n else None)"

lemma checked_add_eq_Some [simp]:
  "checked_add a b = Some c \<longleftrightarrow> c = a + b \<and> a + b \<le> U64_MAX"
  by (auto simp: checked_add_def)

lemma checked_add_eq_None [simp]: "checked_add a b = None \<longleftrightarrow> U64_MAX < a + b"
  by (auto simp: checked_add_def)

lemma saturating_sub_eq [simp]: "saturating_sub a b = a - b"
  by (simp add: saturating_sub_def)

lemma wrapping_add_exact: "a + b \<le> U64_MAX \<Longrightarrow> wrapping_add a b = a + b"
  by (simp add: wrapping_add_def)

lemma saturating_add_exact: "a + b \<le> U64_MAX \<Longrightarrow> saturating_add a b = a + b"
  by (simp add: saturating_add_def)

lemma saturating_add_le: "saturating_add a b \<le> a + b"
  by (simp add: saturating_add_def)

lemma u16_try_from_eq_Some [simp]: "u16_try_from n = Some m \<longleftrightarrow> m = n \<and> n \<le> U16_MAX"
  by (auto simp: u16_try_from_def)

lemma u16_try_from_eq_None [simp]: "u16_try_from n = None \<longleftrightarrow> U16_MAX < n"
  by (auto simp: u16_try_from_def)

section \<open>Slices\<close>

text \<open>\<open>slice::chunks\<close>: pieces of \<open>n\<close> bytes, a shorter last one, none of an empty slice.\<close>

fun slice_chunks :: "nat \<Rightarrow> 'a list \<Rightarrow> 'a list list" where
  "slice_chunks n [] = []"
| "slice_chunks n (x # xs) = (x # take (n - 1) xs) # slice_chunks n (drop (n - 1) xs)"

lemma chunks_concat: "concat (slice_chunks n xs) = xs" if "n > 0"
  using that
proof (induction n xs rule: slice_chunks.induct)
  case (2 n x xs)
  then show ?case by simp
qed simp

lemma chunks_length: "n > 0 \<Longrightarrow> c \<in> set (slice_chunks n xs) \<Longrightarrow> c \<noteq> [] \<and> length c \<le> n"
  by (induction n xs rule: slice_chunks.induct) auto

end
