(* ===== verification/BTree_Map.thy ===== *)
theory BTree_Map
  imports Prelude
begin

text \<open>
  Rust's \<open>BTreeMap\<close> as the sequence of its entries in key order: a list of pairs sorted
  strictly by key.  Iteration, \<open>len\<close>, \<open>get\<close>, \<open>insert\<close>, \<open>remove\<close>, \<open>get_mut\<close> and \<open>retain\<close>
  are computed on it.  The locale \<open>charged_store\<close> states what a byte ledger relies on: a store
  whose entries have a weight, with the total weight after each update.
\<close>

section \<open>Entries in key order\<close>

type_synonym ('k, 'v) btree = "('k \<times> 'v) list"

definition bt_ok :: "('k::linorder, 'v) btree \<Rightarrow> bool" where
  "bt_ok m \<longleftrightarrow> sorted_wrt (<) (map fst m)"

definition bt_get :: "('k::linorder, 'v) btree \<Rightarrow> 'k \<Rightarrow> 'v option" where
  "bt_get m k = map_of m k"

definition bt_contains :: "('k::linorder, 'v) btree \<Rightarrow> 'k \<Rightarrow> bool" where
  "bt_contains m k = (bt_get m k \<noteq> None)"

fun bt_insert :: "'k::linorder \<Rightarrow> 'v \<Rightarrow> ('k, 'v) btree \<Rightarrow> ('k, 'v) btree" where
  "bt_insert k v [] = [(k, v)]"
| "bt_insert k v ((k', v') # m) =
     (if k < k' then (k, v) # (k', v') # m
      else if k = k' then (k, v) # m
      else (k', v') # bt_insert k v m)"

fun bt_remove :: "'k::linorder \<Rightarrow> ('k, 'v) btree \<Rightarrow> ('k, 'v) btree" where
  "bt_remove k [] = []"
| "bt_remove k ((k', v') # m) = (if k = k' then m else (k', v') # bt_remove k m)"

definition bt_retain :: "('k \<Rightarrow> 'v \<Rightarrow> bool) \<Rightarrow> ('k::linorder, 'v) btree \<Rightarrow> ('k, 'v) btree" where
  "bt_retain P m = filter (\<lambda>(k, v). P k v) m"

definition bt_total :: "('v \<Rightarrow> nat) \<Rightarrow> ('k::linorder, 'v) btree \<Rightarrow> nat" where
  "bt_total w m = sum_list (map (\<lambda>(k, v). w v) m)"

lemma bt_ok_Nil [simp, intro]: "bt_ok []"
  by (simp add: bt_ok_def)

lemma bt_get_Nil [simp]: "bt_get [] k = None"
  by (simp add: bt_get_def)

lemma bt_get_Cons [simp]: "bt_get ((k', v) # m) k = (if k = k' then Some v else bt_get m k)"
  by (auto simp: bt_get_def)

lemma bt_total_Nil [simp]: "bt_total w [] = 0"
  by (simp add: bt_total_def)

lemma bt_total_Cons [simp]: "bt_total w ((k, v) # m) = w v + bt_total w m"
  by (simp add: bt_total_def)

lemma bt_contains_Nil [simp]: "\<not> bt_contains [] k"
  by (simp add: bt_contains_def)

lemma bt_ok_Cons: "bt_ok ((k, v) # m) \<longleftrightarrow> (\<forall>(k', v') \<in> set m. k < k') \<and> bt_ok m"
  by (auto simp: bt_ok_def)

lemma bt_ok_tl: "bt_ok (e # m) \<Longrightarrow> bt_ok m"
  by (simp add: bt_ok_def)

lemma bt_get_in_set: "bt_get m k = Some v \<Longrightarrow> (k, v) \<in> set m"
  by (simp add: bt_get_def map_of_SomeD)

lemma bt_get_None_iff: "bt_get m k = None \<longleftrightarrow> k \<notin> fst ` set m"
  by (simp add: bt_get_def map_of_eq_None_iff)

lemma bt_ok_distinct: "bt_ok m \<Longrightarrow> distinct (map fst m)"
  unfolding bt_ok_def by (simp add: strict_sorted_iff)

lemma bt_get_set_iff: "bt_ok m \<Longrightarrow> bt_get m k = Some v \<longleftrightarrow> (k, v) \<in> set m"
  by (simp add: bt_get_def bt_ok_distinct)

lemma bt_get_less: "bt_ok ((k', v') # m) \<Longrightarrow> k \<le> k' \<Longrightarrow> bt_get m k = None"
  by (auto simp: bt_ok_Cons bt_get_None_iff)

lemma bt_ok_ConsD: "bt_ok ((k', v) # m) \<Longrightarrow> bt_ok m \<and> (\<forall>k \<le> k'. bt_get m k = None)"
  by (metis bt_ok_tl bt_get_less)

lemma set_bt_insert_subset: "set (bt_insert k v m) \<subseteq> insert (k, v) (set m)"
  by (induction m) (auto split: if_splits)

lemma bt_ok_insert [simp, intro]: "bt_ok m \<Longrightarrow> bt_ok (bt_insert k v m)"
proof (induction m)
  case Nil
  show ?case by (simp add: bt_ok_def)
next
  case (Cons e m)
  obtain k' v' where e: "e = (k', v')" by (cases e)
  show ?case
    using Cons set_bt_insert_subset [of k v m]
    by (auto simp: e bt_ok_Cons)
qed

lemma set_bt_remove_subset: "set (bt_remove k m) \<subseteq> set m"
  by (induction m) (auto split: if_splits)

lemma bt_ok_remove [simp, intro]: "bt_ok m \<Longrightarrow> bt_ok (bt_remove k m)"
proof (induction m)
  case Nil
  show ?case by simp
next
  case (Cons e m)
  obtain k' v' where e: "e = (k', v')" by (cases e)
  show ?case
    using Cons set_bt_remove_subset [of k m]
    by (auto simp: e bt_ok_Cons dest!: subsetD)
qed

lemma bt_get_insert [simp]:
  "bt_get (bt_insert k v m) k' = (if k' = k then Some v else bt_get m k')"
  by (induction m) auto

lemma bt_get_remove [simp]:
  "bt_ok m \<Longrightarrow> bt_get (bt_remove k m) k' = (if k' = k then None else bt_get m k')"
  by (induction m) (auto dest!: bt_ok_ConsD)

lemma bt_remove_absent [simp]: "bt_get m k = None \<Longrightarrow> bt_remove k m = m"
  by (induction m) (auto split: if_splits)

lemma bt_contains_insert [simp]: "bt_contains (bt_insert k v m) k' \<longleftrightarrow> k' = k \<or> bt_contains m k'"
  by (simp add: bt_contains_def)

lemma bt_contains_remove [simp]:
  "bt_ok m \<Longrightarrow> bt_contains (bt_remove k m) k' \<longleftrightarrow> k' \<noteq> k \<and> bt_contains m k'"
  by (simp add: bt_contains_def)

lemma bt_ok_retain [simp, intro]: "bt_ok m \<Longrightarrow> bt_ok (bt_retain P m)"
  by (induction m) (auto simp: bt_retain_def bt_ok_Cons)

lemma bt_get_retain:
  "bt_ok m \<Longrightarrow> bt_get (bt_retain P m) k =
     (case bt_get m k of None \<Rightarrow> None | Some v \<Rightarrow> if P k v then Some v else None)"
proof (induction m)
  case Nil
  show ?case by (simp add: bt_retain_def)
next
  case (Cons e m)
  obtain k' v' where e: "e = (k', v')" by (cases e)
  have "bt_get m k' = None" using Cons.prems bt_get_less [of k' v' m k'] by (simp add: e)
  with Cons show ?case
    by (auto simp: e bt_retain_def bt_ok_Cons split: option.splits)
qed

lemma length_bt_retain: "length (bt_retain P m) \<le> length m"
  by (simp add: bt_retain_def)

lemma set_bt_retain: "set (bt_retain P m) = {(k, v) \<in> set m. P k v}"
  by (auto simp: bt_retain_def)

lemma set_bt_insert:
  "bt_ok m \<Longrightarrow> set (bt_insert k v m) = insert (k, v) {e \<in> set m. fst e \<noteq> k}"
proof (induction m)
  case Nil
  show ?case by simp
next
  case (Cons e m)
  obtain k' v' where e: "e = (k', v')" by (cases e)
  show ?case using Cons by (auto simp: e bt_ok_Cons)
qed

lemma set_bt_remove:
  "bt_ok m \<Longrightarrow> set (bt_remove k m) = {e \<in> set m. fst e \<noteq> k}"
proof (induction m)
  case Nil
  show ?case by simp
next
  case (Cons e m)
  obtain k' v' where e: "e = (k', v')" by (cases e)
  show ?case using Cons by (auto simp: e bt_ok_Cons)
qed

lemma bt_ok_imp_map_filter: "bt_ok m \<Longrightarrow> bt_ok (filter P m)"
  using bt_ok_retain [of m "\<lambda>k v. P (k, v)"] by (simp add: bt_retain_def)

section \<open>Weights\<close>

lemma bt_total_insert_fresh:
  "bt_get m k = None \<Longrightarrow> bt_total w (bt_insert k v m) = bt_total w m + w v"
  by (induction m) (auto split: if_splits)

lemma bt_total_insert_over:
  "bt_ok m \<Longrightarrow> bt_get m k = Some u \<Longrightarrow>
     bt_total w (bt_insert k v m) + w u = bt_total w m + w v"
  by (induction m) (auto dest!: bt_ok_ConsD split: if_splits)

lemma bt_total_remove:
  "bt_get m k = Some v \<Longrightarrow> bt_total w (bt_remove k m) + w v = bt_total w m"
  by (induction m) (auto split: if_splits)

lemma length_bt_insert_fresh: "bt_get m k = None \<Longrightarrow> length (bt_insert k v m) = Suc (length m)"
  by (induction m) (auto split: if_splits)

lemma length_bt_insert_over:
  "bt_ok m \<Longrightarrow> bt_get m k = Some u \<Longrightarrow> length (bt_insert k v m) = length m"
  by (induction m) (auto dest!: bt_ok_ConsD split: if_splits)

lemma length_bt_remove: "length (bt_remove k m) \<le> length m"
  by (induction m) auto

lemma length_bt_remove_present:
  "bt_get m k = Some v \<Longrightarrow> Suc (length (bt_remove k m)) = length m"
  by (induction m) (auto split: if_splits)

section \<open>The interface of a byte ledger\<close>

text \<open>
  What the accounting code relies on from the map that holds its entries: lookups after each
  update, and how the total weight and the number of entries move.
\<close>

locale charged_store =
  fixes get :: "'s \<Rightarrow> 'k \<Rightarrow> 'v option"
    and put :: "'k \<Rightarrow> 'v \<Rightarrow> 's \<Rightarrow> 's"
    and del :: "'k \<Rightarrow> 's \<Rightarrow> 's"
    and ok :: "'s \<Rightarrow> bool"
    and total :: "'s \<Rightarrow> nat"
    and entries :: "'s \<Rightarrow> nat"
    and weight :: "'v \<Rightarrow> nat"
  assumes ok_put: "ok m \<Longrightarrow> ok (put k v m)"
    and ok_del: "ok m \<Longrightarrow> ok (del k m)"
    and get_put: "ok m \<Longrightarrow> get (put k v m) k' = (if k' = k then Some v else get m k')"
    and get_del: "ok m \<Longrightarrow> get (del k m) k' = (if k' = k then None else get m k')"
    and del_absent: "ok m \<Longrightarrow> get m k = None \<Longrightarrow> del k m = m"
    and total_fresh: "ok m \<Longrightarrow> get m k = None \<Longrightarrow> total (put k v m) = total m + weight v"
    and total_over:
      "ok m \<Longrightarrow> get m k = Some u \<Longrightarrow> total (put k v m) + weight u = total m + weight v"
    and total_del: "ok m \<Longrightarrow> get m k = Some v \<Longrightarrow> total (del k m) + weight v = total m"
    and entries_fresh: "ok m \<Longrightarrow> get m k = None \<Longrightarrow> entries (put k v m) = Suc (entries m)"
    and entries_over: "ok m \<Longrightarrow> get m k = Some u \<Longrightarrow> entries (put k v m) = entries m"
    and entries_del: "ok m \<Longrightarrow> entries (del k m) \<le> entries m"
begin

lemma weight_le_total: "ok m \<Longrightarrow> get m k = Some v \<Longrightarrow> weight v \<le> total m"
  using total_del [of m k v] by linarith

lemma total_del_eq: "ok m \<Longrightarrow> get m k = Some v \<Longrightarrow> total (del k m) = total m - weight v"
  using total_del [of m k v] by linarith

lemma total_del_le: "ok m \<Longrightarrow> total (del k m) \<le> total m"
  by (cases "get m k") (auto simp: del_absent total_del_eq)

lemma total_grow:
  "ok m \<Longrightarrow> get m k = Some u \<Longrightarrow> weight v = weight u + d \<Longrightarrow> total (put k v m) = total m + d"
  using total_over [of m k u v] by linarith

lemma total_same:
  "ok m \<Longrightarrow> get m k = Some u \<Longrightarrow> weight v = weight u \<Longrightarrow> total (put k v m) = total m"
  using total_over [of m k u v] by linarith

lemma put_then_del_total:
  "ok m \<Longrightarrow> get m k = None \<Longrightarrow> total (del k (put k v m)) = total m"
  using total_del_eq [of "put k v m" k v] by (simp add: ok_put get_put total_fresh)

end

interpretation bt: charged_store bt_get bt_insert bt_remove bt_ok "bt_total w" length w for w
  by unfold_locales
    (auto simp: bt_total_insert_fresh bt_total_insert_over bt_total_remove
      length_bt_insert_fresh length_bt_insert_over length_bt_remove)

end
