(* ===== verification/Storm_Gate.thy ===== *)
theory Storm_Gate
  imports BTree_Map "HOL-Library.Product_Lexorder"
begin

text \<open>
  The failure storm gate of \<^verbatim>\<open>crates/reproit-sdk-rust/src/resources.rs\<close>: a token bucket
  (4 admissions, refilled at two per second) in front of a table of the identities admitted in
  the last minute.  Time is the gate's own clock, the milliseconds since it was created
  (\<open>started.elapsed()\<close>), an argument of each step; \<open>Instant\<close> never goes back, so a run's times
  are sorted.

  The lemmas relate a run to the list of its admissions: the bucket bounds how many there can
  be in any interval, the table remembers each of them for a minute, and therefore never holds
  enough identities to evict one.
\<close>

section \<open>State and steps\<close>

datatype storm_decision = Admitted | SuppressedExact | SuppressedHighCardinality

record failure_storm_entry =
  admitted_at_ms :: nat
  observed_at_ms :: nat
  suppressed :: nat

record failure_storm_gate =
  admitted :: "(digest, failure_storm_entry) btree"
  last_refill_ms :: nat
  tokens_milli :: nat

definition new_gate :: failure_storm_gate where
  "new_gate =
     \<lparr>admitted = [], last_refill_ms = 0, tokens_milli = FAILURE_TOKENS_MILLI_CAPACITY\<rparr>"

definition refill :: "nat \<Rightarrow> failure_storm_gate \<Rightarrow> failure_storm_gate" where
  "refill now_ms g =
     (let elapsed_ms = saturating_sub now_ms (last_refill_ms g)
      in g\<lparr>tokens_milli :=
             min (saturating_add (tokens_milli g) (saturating_mul elapsed_ms 2))
               FAILURE_TOKENS_MILLI_CAPACITY,
           last_refill_ms := now_ms\<rparr>)"

text \<open>\<open>min_by_key(|(digest, entry)| (entry.observed_at_ms, **digest))\<close>\<close>

definition oldest_identity :: "(digest, failure_storm_entry) btree \<Rightarrow> digest option" where
  "oldest_identity m =
     (case m of
        [] \<Rightarrow> None
      | _ # _ \<Rightarrow> Some (fst (arg_min_list (\<lambda>(d, e). (observed_at_ms e, d)) m)))"

definition evict_oldest ::
  "(digest, failure_storm_entry) btree \<Rightarrow> (digest, failure_storm_entry) btree" where
  "evict_oldest m =
     (if length m \<ge> MAX_FAILURE_STORM_IDENTITIES
      then case oldest_identity m of None \<Rightarrow> m | Some oldest \<Rightarrow> bt_remove oldest m
      else m)"

definition admit ::
  "nat \<Rightarrow> digest \<Rightarrow> failure_storm_gate \<Rightarrow> storm_decision \<times> failure_storm_gate" where
  "admit now_ms identity g0 =
     (let g1 = refill now_ms g0;
          g2 = g1\<lparr>admitted := bt_retain
                    (\<lambda>_ e. saturating_sub now_ms (admitted_at_ms e) < FAILURE_SUPPRESSION_MS)
                    (admitted g1)\<rparr>
      in case bt_get (admitted g2) identity of
           Some e \<Rightarrow>
             (SuppressedExact,
              g2\<lparr>admitted := bt_insert identity
                   (e\<lparr>observed_at_ms := now_ms,
                      suppressed := saturating_add (suppressed e) 1\<rparr>) (admitted g2)\<rparr>)
         | None \<Rightarrow>
             if tokens_milli g2 < 1000 then (SuppressedHighCardinality, g2)
             else
               (Admitted,
                g2\<lparr>admitted := bt_insert identity
                     \<lparr>admitted_at_ms = now_ms, observed_at_ms = now_ms, suppressed = 0\<rparr>
                     (evict_oldest (admitted g2)),
                   tokens_milli := tokens_milli g2 - 1000\<rparr>))"

section \<open>Runs\<close>

text \<open>A run handles a list of failures, each with its time, and records every decision.\<close>

fun storm_run ::
  "failure_storm_gate \<Rightarrow> (nat \<times> digest) list
     \<Rightarrow> (nat \<times> digest \<times> storm_decision) list \<times> failure_storm_gate" where
  "storm_run g [] = ([], g)"
| "storm_run g ((now_ms, d) # es) =
     (let (decision, g') = admit now_ms d g;
          (out, g'') = storm_run g' es
      in ((now_ms, d, decision) # out, g''))"

definition admissions :: "(nat \<times> digest \<times> storm_decision) list \<Rightarrow> (nat \<times> digest) list" where
  "admissions out = map (\<lambda>(t, d, _). (t, d)) (filter (\<lambda>(_, _, x). x = Admitted) out)"

definition admitted_since :: "nat \<Rightarrow> (nat \<times> digest) list \<Rightarrow> nat" where
  "admitted_since s hist = length (filter (\<lambda>(t, _). s \<le> t) hist)"

text \<open>
  The invariant between the gate and the history of its admissions.  \<open>admitted_since\<close> and the
  tokens left share one budget, the capacity plus what was refilled since; the table holds
  admissions of the history, and every admission of the last minute.
\<close>

definition gate_inv :: "(nat \<times> digest) list \<Rightarrow> failure_storm_gate \<Rightarrow> bool" where
  "gate_inv hist g \<longleftrightarrow>
     bt_ok (admitted g)
     \<and> (\<forall>(t, d) \<in> set hist. t \<le> last_refill_ms g)
     \<and> tokens_milli g \<le> FAILURE_TOKENS_MILLI_CAPACITY
     \<and> (\<forall>s \<le> last_refill_ms g.
          1000 * admitted_since s hist + tokens_milli g
            \<le> FAILURE_TOKENS_MILLI_CAPACITY + 2 * (last_refill_ms g - s))
     \<and> (\<forall>(d, e) \<in> set (admitted g). (admitted_at_ms e, d) \<in> set hist)
     \<and> (\<forall>(t, d) \<in> set hist. last_refill_ms g - t < FAILURE_SUPPRESSION_MS \<longrightarrow>
          (\<exists>e. bt_get (admitted g) d = Some e \<and> admitted_at_ms e = t))
     \<and> sorted_wrt (\<lambda>a b. snd a = snd b \<longrightarrow> FAILURE_SUPPRESSION_MS \<le> fst a - fst b) hist"

lemma gate_inv_new: "gate_inv [] new_gate"
  by (simp add: gate_inv_def new_gate_def admitted_since_def)

lemma gate_inv_recent:
  "gate_inv hist g \<Longrightarrow> (t, d) \<in> set hist \<Longrightarrow> last_refill_ms g - t < FAILURE_SUPPRESSION_MS \<Longrightarrow>
     \<exists>e. bt_get (admitted g) d = Some e \<and> admitted_at_ms e = t"
  unfolding gate_inv_def by fast

lemma admitted_since_Cons:
  "admitted_since s ((t, d) # hist) = (if s \<le> t then Suc (admitted_since s hist) else admitted_since s hist)"
  by (simp add: admitted_since_def)

lemma admitted_since_late:
  "\<forall>(t, d) \<in> set hist. t \<le> m \<Longrightarrow> m < s \<Longrightarrow> admitted_since s hist = 0"
  by (induction hist) (auto simp: admitted_since_def)

subsection \<open>Refilling\<close>

lemma tokens_refill:
  "last_refill_ms g \<le> now_ms \<Longrightarrow>
     tokens_milli (refill now_ms g) \<le> tokens_milli g + 2 * (now_ms - last_refill_ms g)
     \<and> tokens_milli (refill now_ms g) \<le> FAILURE_TOKENS_MILLI_CAPACITY"
  by (auto simp: refill_def Let_def arith64)

lemma refill_sel [simp]:
  "last_refill_ms (refill now_ms g) = now_ms" "admitted (refill now_ms g) = admitted g"
  by (simp_all add: refill_def Let_def)

text \<open>What the first two statements of \<open>admit\<close> establish, the facts its branches start from.\<close>

definition prune :: "nat \<Rightarrow> failure_storm_gate \<Rightarrow> failure_storm_gate" where
  "prune now_ms g =
     (refill now_ms g)\<lparr>admitted := bt_retain
        (\<lambda>_ e. saturating_sub now_ms (admitted_at_ms e) < FAILURE_SUPPRESSION_MS) (admitted g)\<rparr>"

lemma prune_sel [simp]:
  "last_refill_ms (prune now_ms g) = now_ms"
  "tokens_milli (prune now_ms g) = tokens_milli (refill now_ms g)"
  by (simp_all add: prune_def)

lemma gate_inv_prune:
  assumes inv: "gate_inv hist g" and now: "last_refill_ms g \<le> now_ms"
  shows "gate_inv hist (prune now_ms g)"
proof -
  have old: "\<forall>(t, d) \<in> set hist. t \<le> last_refill_ms g" using inv by (simp add: gate_inv_def)
  have tok: "1000 * admitted_since s hist + tokens_milli (refill now_ms g)
      \<le> FAILURE_TOKENS_MILLI_CAPACITY + 2 * (now_ms - s)" if "s \<le> now_ms" for s
  proof (cases "s \<le> last_refill_ms g")
    case True
    then have "1000 * admitted_since s hist + tokens_milli g
        \<le> FAILURE_TOKENS_MILLI_CAPACITY + 2 * (last_refill_ms g - s)"
      using inv by (simp add: gate_inv_def)
    then show ?thesis using tokens_refill [OF now] True now by linarith
  next
    case False
    then have "admitted_since s hist = 0" using old by (intro admitted_since_late) auto
    then show ?thesis using tokens_refill [OF now] by simp
  qed
  have recent: "\<exists>e. bt_get (admitted (prune now_ms g)) d = Some e \<and> admitted_at_ms e = t"
    if "(t, d) \<in> set hist" "now_ms - t < FAILURE_SUPPRESSION_MS" for t d
  proof -
    have "last_refill_ms g - t < FAILURE_SUPPRESSION_MS" using that now by simp
    from gate_inv_recent [OF inv that(1) this]
    obtain e where e: "bt_get (admitted g) d = Some e" "admitted_at_ms e = t"
      by blast
    have "bt_ok (admitted g)" using inv by (simp add: gate_inv_def)
    then show ?thesis using e that by (simp add: prune_def bt_get_retain)
  qed
  show ?thesis
    using inv now tok recent tokens_refill [OF now]
    by (auto simp: gate_inv_def prune_def set_bt_retain)
qed

subsection \<open>The table is small\<close>

lemma admitted_since_ge_card:
  "distinct xs \<Longrightarrow> set xs \<subseteq> set hist \<Longrightarrow> \<forall>(t, d) \<in> set xs. s \<le> t \<Longrightarrow>
     length xs \<le> admitted_since s hist"
proof -
  assume a: "distinct xs" "set xs \<subseteq> set hist" "\<forall>(t, d) \<in> set xs. s \<le> t"
  have "length xs = card (set xs)" using a by (simp add: distinct_card)
  also have "\<dots> \<le> card (set (filter (\<lambda>(t, _). s \<le> t) hist))"
    using a by (intro card_mono) auto
  also have "\<dots> \<le> admitted_since s hist" unfolding admitted_since_def by (rule card_length)
  finally show ?thesis .
qed

lemma pruned_table_small:
  assumes inv: "gate_inv hist g" and now: "last_refill_ms g \<le> now_ms"
  shows "length (admitted (prune now_ms g)) \<le> 123"
proof -
  let ?g = "prune now_ms g" and ?s = "now_ms - 59999"
  have gi: "gate_inv hist ?g" by (rule gate_inv_prune [OF inv now])
  let ?xs = "map (\<lambda>(d, e). (admitted_at_ms e, d)) (admitted ?g)"
  have "distinct (map fst (admitted ?g))" using gi by (simp add: gate_inv_def bt_ok_distinct)
  then have "distinct ?xs"
    by (fastforce simp: distinct_map inj_on_def)
  moreover have "set ?xs \<subseteq> set hist" using gi by (auto simp: gate_inv_def)
  moreover have "\<forall>(t, d) \<in> set ?xs. ?s \<le> t"
    by (auto simp: prune_def set_bt_retain limits)
  ultimately have "length (admitted ?g) \<le> admitted_since ?s hist"
    using admitted_since_ge_card [of ?xs hist ?s] by simp
  moreover have "1000 * admitted_since ?s hist + tokens_milli ?g
      \<le> FAILURE_TOKENS_MILLI_CAPACITY + 2 * (now_ms - ?s)"
    using gi unfolding gate_inv_def by simp
  ultimately show ?thesis by (simp add: limits)
qed

lemma admit_prune:
  "admit now_ms d g =
    (let g2 = prune now_ms g
     in case bt_get (admitted g2) d of
          Some e \<Rightarrow>
            (SuppressedExact,
             g2\<lparr>admitted := bt_insert d
                  (e\<lparr>observed_at_ms := now_ms, suppressed := saturating_add (suppressed e) 1\<rparr>)
                  (admitted g2)\<rparr>)
        | None \<Rightarrow>
            if tokens_milli g2 < 1000 then (SuppressedHighCardinality, g2)
            else
              (Admitted,
               g2\<lparr>admitted := bt_insert d
                    \<lparr>admitted_at_ms = now_ms, observed_at_ms = now_ms, suppressed = 0\<rparr>
                    (evict_oldest (admitted g2)),
                  tokens_milli := tokens_milli g2 - 1000\<rparr>))"
  by (cases "bt_get (admitted (prune now_ms g)) d") (simp_all add: admit_def prune_def Let_def)

text \<open>So the eviction of \<open>admit\<close> never runs, and the step has a simpler form.\<close>

lemma admit_eq:
  assumes inv: "gate_inv hist g" and now: "last_refill_ms g \<le> now_ms"
  shows "admit now_ms d g =
    (let g2 = prune now_ms g
     in case bt_get (admitted g2) d of
          Some e \<Rightarrow>
            (SuppressedExact,
             g2\<lparr>admitted := bt_insert d
                  (e\<lparr>observed_at_ms := now_ms, suppressed := saturating_add (suppressed e) 1\<rparr>)
                  (admitted g2)\<rparr>)
        | None \<Rightarrow>
            if tokens_milli g2 < 1000 then (SuppressedHighCardinality, g2)
            else
              (Admitted,
               g2\<lparr>admitted := bt_insert d
                    \<lparr>admitted_at_ms = now_ms, observed_at_ms = now_ms, suppressed = 0\<rparr>
                    (admitted g2),
                  tokens_milli := tokens_milli g2 - 1000\<rparr>))"
proof -
  have "evict_oldest (admitted (prune now_ms g)) = admitted (prune now_ms g)"
    using pruned_table_small [OF inv now] by (simp add: evict_oldest_def limits)
  then show ?thesis by (simp add: admit_prune Let_def split: option.split)
qed

subsection \<open>One step\<close>

definition push_admission :: "nat \<Rightarrow> digest \<Rightarrow> storm_decision \<Rightarrow> (nat \<times> digest) list \<Rightarrow> (nat \<times> digest) list" where
  "push_admission now_ms d decision hist = (if decision = Admitted then (now_ms, d) # hist else hist)"

lemma gate_inv_admit:
  assumes inv: "gate_inv hist g" and now: "last_refill_ms g \<le> now_ms"
    and step: "admit now_ms d g = (decision, g')"
  shows "gate_inv (push_admission now_ms d decision hist) g' \<and> last_refill_ms g' = now_ms"
proof -
  let ?g = "prune now_ms g"
  have gi: "gate_inv hist ?g" by (rule gate_inv_prune [OF inv now])
  have ok: "bt_ok (admitted ?g)" using gi by (simp add: gate_inv_def)
  show ?thesis
  proof (cases "bt_get (admitted ?g) d")
    case (Some e)
    have g': "decision = SuppressedExact"
      "g' = ?g\<lparr>admitted := bt_insert d
         (e\<lparr>observed_at_ms := now_ms, suppressed := saturating_add (suppressed e) 1\<rparr>)
         (admitted ?g)\<rparr>"
      using step Some by (auto simp: admit_eq [OF inv now] Let_def)
    have "(admitted_at_ms e, d) \<in> set hist"
      using gi bt_get_in_set [OF Some] by (auto simp: gate_inv_def)
    then show ?thesis
      using gi ok Some unfolding g'
      by (fastforce simp: gate_inv_def push_admission_def set_bt_insert)
  next
    case None
    show ?thesis
    proof (cases "tokens_milli ?g < 1000")
      case True
      then show ?thesis
        using step None gi by (auto simp: admit_eq [OF inv now] push_admission_def)
    next
      case False
      have g': "decision = Admitted"
        "g' = ?g\<lparr>admitted := bt_insert d
           \<lparr>admitted_at_ms = now_ms, observed_at_ms = now_ms, suppressed = 0\<rparr> (admitted ?g),
           tokens_milli := tokens_milli ?g - 1000\<rparr>"
        using step None False by (auto simp: admit_eq [OF inv now] Let_def)
      have apart: "FAILURE_SUPPRESSION_MS \<le> now_ms - t" if "(t, d) \<in> set hist" for t
      proof (rule ccontr)
        assume "\<not> FAILURE_SUPPRESSION_MS \<le> now_ms - t"
        then have "last_refill_ms ?g - t < FAILURE_SUPPRESSION_MS" by simp
        then show False using gate_inv_recent [OF gi that] None by simp
      qed
      have tok: "1000 * admitted_since s ((now_ms, d) # hist) + (tokens_milli ?g - 1000)
          \<le> FAILURE_TOKENS_MILLI_CAPACITY + 2 * (now_ms - s)" if "s \<le> now_ms" for s
        using gi that False by (auto simp: gate_inv_def admitted_since_Cons)
      have tab: "\<exists>e. bt_get (admitted g') d' = Some e \<and> admitted_at_ms e = t"
        if "(t, d') \<in> set ((now_ms, d) # hist)" "now_ms - t < FAILURE_SUPPRESSION_MS" for t d'
        using that gi apart by (fastforce simp: g' gate_inv_def)
      show ?thesis
        using gi ok tok tab
        by (auto simp: g' gate_inv_def push_admission_def set_bt_insert dest: apart leD)
    qed
  qed
qed

subsection \<open>Runs keep the invariant\<close>

lemma gate_inv_run:
  assumes "gate_inv hist g" and "sorted (map fst es)" and "\<forall>(t, d) \<in> set es. last_refill_ms g \<le> t"
    and "storm_run g es = (out, g')"
  shows "gate_inv (rev (admissions out) @ hist) g'"
  using assms
proof (induction es arbitrary: hist g out)
  case Nil
  then show ?case by (simp add: admissions_def)
next
  case (Cons e es)
  obtain t d where e: "e = (t, d)" by (cases e)
  obtain decision g1 where step: "admit t d g = (decision, g1)" by (cases "admit t d g")
  obtain out1 where rest: "storm_run g1 es = (out1, g')" and out: "out = (t, d, decision) # out1"
    using Cons.prems(4) by (auto simp: e step split: prod.splits)
  have t: "last_refill_ms g \<le> t" using Cons.prems(3) by (auto simp: e)
  have inv: "gate_inv (push_admission t d decision hist) g1" and last: "last_refill_ms g1 = t"
    using gate_inv_admit [OF Cons.prems(1) t step] by auto
  have "gate_inv (rev (admissions out1) @ push_admission t d decision hist) g'"
    using Cons.prems(2) last by (intro Cons.IH [OF inv _ _ rest]) (auto simp: e)
  then show ?case by (simp add: out admissions_def push_admission_def split: if_splits)
qed

lemma last_refill_run:
  assumes "storm_run g es = (out, g')"
  shows "last_refill_ms g' = (if es = [] then last_refill_ms g else fst (last es))"
  using assms
proof (induction es arbitrary: g out)
  case Nil
  then show ?case by simp
next
  case (Cons e es)
  obtain t d where e: "e = (t, d)" by (cases e)
  obtain decision g1 where step: "admit t d g = (decision, g1)" by (cases "admit t d g")
  then have g1: "last_refill_ms g1 = t"
    by (auto simp: admit_prune Let_def split: option.splits if_splits)
  obtain out1 where "storm_run g1 es = (out1, g')"
    using Cons.prems by (auto simp: e step split: prod.splits)
  from Cons.IH [OF this] show ?case by (simp add: e g1)
qed

section \<open>What the gate promises\<close>

lemma admitted_since_rev [simp]: "admitted_since s (rev hist) = admitted_since s hist"
  by (simp add: admitted_since_def rev_filter [symmetric])

lemma run_from_new:
  "sorted (map fst es) \<Longrightarrow> storm_run new_gate es = (out, g) \<Longrightarrow>
     gate_inv (rev (admissions out)) g"
  using gate_inv_run [OF gate_inv_new, of es out g] by (simp add: new_gate_def)

text \<open>
  C38: Admission rate.  In every run of the gate from its start, the number of failures admitted
  at or after time \<open>s\<close> is at most 4 plus two for each second from \<open>s\<close> to the end of the run,
  whatever identities the failures have.
\<close>

theorem storm_rate_bound:
  assumes "sorted (map fst es)" and "storm_run new_gate es = (out, g)"
    and "es \<noteq> []" and "s \<le> fst (last es)"
  shows "1000 * admitted_since s (admissions out)
           \<le> FAILURE_TOKENS_MILLI_CAPACITY + 2 * (fst (last es) - s)"
proof -
  have "last_refill_ms g = fst (last es)"
    using last_refill_run [OF assms(2)] assms(3) by simp
  then show ?thesis
    using run_from_new [OF assms(1,2)] assms(4) unfolding gate_inv_def by fastforce
qed

definition storm_demo :: "(nat \<times> digest) list" where
  "storm_demo = [(0, Digest 1), (5, Digest 2), (5, Digest 1), (6, Digest 3), (7, Digest 4),
                 (8, Digest 5), (600, Digest 5)]"

lemma storm_demo_run:
  "map (\<lambda>(t, d, x). x) (fst (storm_run new_gate storm_demo)) =
     [Admitted, Admitted, SuppressedExact, Admitted, Admitted, SuppressedHighCardinality, Admitted]"
  by code_simp

theorem storm_rate_bound_witness:
  "1000 * admitted_since 5 (admissions (fst (storm_run new_gate storm_demo)))
     \<le> FAILURE_TOKENS_MILLI_CAPACITY + 2 * (600 - 5)"
proof -
  have "sorted (map fst storm_demo)" "storm_demo \<noteq> []" "fst (last storm_demo) = 600"
    by (simp_all add: storm_demo_def)
  then show ?thesis
    using storm_rate_bound [of storm_demo "fst (storm_run new_gate storm_demo)"
        "snd (storm_run new_gate storm_demo)" 5]
    by simp
qed

text \<open>
  Exact suppression.  A failure whose identity was admitted less than a minute ago is
  suppressed as an exact repetition: no flood of other identities can make the gate forget it.
\<close>

theorem storm_exact_suppression:
  assumes "sorted (map fst es)" and "storm_run new_gate es = (out, g)"
    and "(t, d) \<in> set (admissions out)"
    and "last_refill_ms g \<le> now_ms" and "now_ms - t < FAILURE_SUPPRESSION_MS"
  shows "fst (admit now_ms d g) = SuppressedExact"
proof -
  have inv: "gate_inv (rev (admissions out)) (prune now_ms g)"
    using gate_inv_prune [OF run_from_new [OF assms(1,2)] assms(4)] .
  obtain e where "bt_get (admitted (prune now_ms g)) d = Some e"
    using gate_inv_recent [OF inv, of t d] assms(3,5) by auto
  then show ?thesis by (simp add: admit_prune Let_def)
qed

theorem storm_exact_suppression_witness:
  "fst (admit 60004 (Digest 2) (snd (storm_run new_gate storm_demo))) = SuppressedExact"
proof -
  have "sorted (map fst storm_demo)" by (simp add: storm_demo_def)
  moreover have "(5, Digest 2) \<in> set (admissions (fst (storm_run new_gate storm_demo)))"
    and "last_refill_ms (snd (storm_run new_gate storm_demo)) \<le> 60004" by code_simp+
  ultimately show ?thesis
    using storm_exact_suppression [of storm_demo "fst (storm_run new_gate storm_demo)"
        "snd (storm_run new_gate storm_demo)" 5 "Digest 2" 60004]
    by (simp add: limits)
qed

text \<open>
  The eviction branch is dead.  The bucket admits too slowly to fill the table: after every
  run it holds at most 124 identities, so the limit of 256 is never reached and
  \<open>evict_oldest\<close> changes nothing in the next step either.
\<close>

theorem storm_never_evicts:
  assumes "sorted (map fst es)" and "storm_run new_gate es = (out, g)"
    and "last_refill_ms g \<le> now_ms"
  shows "length (admitted (snd (admit now_ms d g))) \<le> 124
    \<and> length (admitted (prune now_ms g)) < MAX_FAILURE_STORM_IDENTITIES"
proof -
  let ?g = "prune now_ms g"
  have small: "length (admitted ?g) \<le> 123"
    using pruned_table_small [OF run_from_new [OF assms(1,2)] assms(3)] .
  have ok: "bt_ok (admitted ?g)"
    using gate_inv_prune [OF run_from_new [OF assms(1,2)] assms(3)] by (simp add: gate_inv_def)
  have "length (admitted (snd (admit now_ms d g))) \<le> 124"
    using small ok unfolding admit_eq [OF run_from_new [OF assms(1,2)] assms(3)]
    by (auto simp: Let_def length_bt_insert_fresh length_bt_insert_over split: option.split)
  then show ?thesis using small by (simp add: limits)
qed

theorem storm_never_evicts_witness:
  "length (admitted (snd (admit 700 (Digest 9) (snd (storm_run new_gate storm_demo))))) \<le> 124"
proof -
  have "sorted (map fst storm_demo)" by (simp add: storm_demo_def)
  moreover have "last_refill_ms (snd (storm_run new_gate storm_demo)) \<le> 700" by code_simp
  ultimately show ?thesis
    using storm_never_evicts [of storm_demo "fst (storm_run new_gate storm_demo)"
        "snd (storm_run new_gate storm_demo)" 700 "Digest 9"]
    by simp
qed

end
