(* ===== verification/Resources.thy ===== *)
theory Resources
  imports Storm_Gate
begin

text \<open>
  The process-wide capture ledger of \<^verbatim>\<open>crates/reproit-sdk-rust/src/resources.rs\<close>: the bytes
  reserved by active operations and by queued candidates, the logical bytes of automatic
  Worlds, each under a fixed limit.  The state behind the mutex \<open>PROCESS_RESOURCES\<close> is passed
  explicitly.  The failure storm gate, the other half of the file, is in the theory
  \<open>Storm_Gate\<close>.
\<close>

section \<open>State\<close>

datatype candidate_state = Handoff | Retained

record candidate_entry =
  entry_bytes :: nat
  entry_state :: candidate_state

record process_resources =
  pr_active :: "(operation_id, nat) btree"
  pr_active_bytes :: nat
  pr_candidates :: "(capture_id, candidate_entry) btree"
  pr_candidate_bytes :: nat
  pr_capture_bytes :: nat
  pr_storm :: failure_storm_gate

definition new_resources :: process_resources where
  "new_resources =
     \<lparr>pr_active = [], pr_active_bytes = 0, pr_candidates = [], pr_candidate_bytes = 0,
      pr_capture_bytes = 0, pr_storm = new_gate\<rparr>"

section \<open>Operations\<close>

definition bytes_with :: "process_resources \<Rightarrow> nat \<Rightarrow> nat option" where
  "bytes_with r added =
     (case checked_add (pr_active_bytes r) (pr_candidate_bytes r) of
        None \<Rightarrow> None
      | Some subtotal \<Rightarrow> checked_add subtotal added)"

text \<open>\<open>bytes_with(n).is_none_or(|total| total > MAX_GLOBAL_BYTES)\<close>\<close>

definition over_global_bytes :: "process_resources \<Rightarrow> nat \<Rightarrow> bool" where
  "over_global_bytes r added =
     (case bytes_with r added of None \<Rightarrow> True | Some all \<Rightarrow> all > MAX_GLOBAL_BYTES)"

definition reserve_operation ::
  "operation_id \<Rightarrow> nat \<Rightarrow> process_resources \<Rightarrow> bool \<times> process_resources" where
  "reserve_operation op bytes r =
     (if bt_contains (pr_active r) op
         \<or> length (pr_active r) \<ge> MAX_ACTIVE_OPERATIONS
         \<or> over_global_bytes r bytes
      then (False, r)
      else (True, r\<lparr>pr_active_bytes := wrapping_add (pr_active_bytes r) bytes,
                    pr_active := bt_insert op bytes (pr_active r)\<rparr>))"

definition grow_operation ::
  "operation_id \<Rightarrow> nat \<Rightarrow> process_resources \<Rightarrow> bool \<times> process_resources" where
  "grow_operation op added r =
     (if over_global_bytes r added then (False, r)
      else case bt_get (pr_active r) op of
          None \<Rightarrow> (False, r)
        | Some bytes \<Rightarrow>
            (True, r\<lparr>pr_active := bt_insert op (saturating_add bytes added) (pr_active r),
                     pr_active_bytes := wrapping_add (pr_active_bytes r) added\<rparr>))"

definition release_operation :: "operation_id \<Rightarrow> process_resources \<Rightarrow> process_resources" where
  "release_operation op r =
     (case bt_get (pr_active r) op of
        None \<Rightarrow> r
      | Some bytes \<Rightarrow>
          r\<lparr>pr_active := bt_remove op (pr_active r),
            pr_active_bytes := saturating_sub (pr_active_bytes r) bytes\<rparr>)"

definition reserve_candidate_handoff ::
  "capture_id \<Rightarrow> nat \<Rightarrow> process_resources \<Rightarrow> bool \<times> process_resources" where
  "reserve_candidate_handoff cap bytes r =
     (if bt_contains (pr_candidates r) cap
         \<or> length (pr_candidates r) \<ge> MAX_QUEUED_CANDIDATES
         \<or> over_global_bytes r bytes
      then (False, r)
      else (True, r\<lparr>pr_candidate_bytes := wrapping_add (pr_candidate_bytes r) bytes,
                    pr_candidates :=
                      bt_insert cap \<lparr>entry_bytes = bytes, entry_state = Handoff\<rparr>
                        (pr_candidates r)\<rparr>))"

definition claim_candidate ::
  "capture_id \<Rightarrow> nat \<Rightarrow> process_resources \<Rightarrow> bool \<times> process_resources" where
  "claim_candidate cap bytes r =
     (case bt_get (pr_candidates r) cap of
        Some entry \<Rightarrow>
          if entry_bytes entry \<noteq> bytes \<or> entry_state entry \<noteq> Handoff then (False, r)
          else (True, r\<lparr>pr_candidates :=
                          bt_insert cap (entry\<lparr>entry_state := Retained\<rparr>) (pr_candidates r)\<rparr>)
      | None \<Rightarrow>
          if length (pr_candidates r) \<ge> MAX_QUEUED_CANDIDATES \<or> over_global_bytes r bytes
          then (False, r)
          else (True, r\<lparr>pr_candidate_bytes := wrapping_add (pr_candidate_bytes r) bytes,
                        pr_candidates :=
                          bt_insert cap \<lparr>entry_bytes = bytes, entry_state = Retained\<rparr>
                            (pr_candidates r)\<rparr>))"

definition candidate_is_retained :: "capture_id \<Rightarrow> process_resources \<Rightarrow> bool" where
  "candidate_is_retained cap r =
     (case bt_get (pr_candidates r) cap of
        None \<Rightarrow> False
      | Some entry \<Rightarrow> entry_state entry = Retained)"

definition release_candidate :: "capture_id \<Rightarrow> process_resources \<Rightarrow> process_resources" where
  "release_candidate cap r =
     (case bt_get (pr_candidates r) cap of
        None \<Rightarrow> r
      | Some entry \<Rightarrow>
          r\<lparr>pr_candidates := bt_remove cap (pr_candidates r),
            pr_candidate_bytes := saturating_sub (pr_candidate_bytes r) (entry_bytes entry)\<rparr>)"

text \<open>
  \<open>LogicalByteReservation\<close> is the number of bytes its owner holds.  \<open>reserve_capture_bytes\<close>
  returns the success flag, the ledger and the owner's new holding.
\<close>

definition reserve_capture_bytes ::
  "nat \<Rightarrow> nat \<Rightarrow> process_resources \<Rightarrow> bool \<times> nat \<times> process_resources" where
  "reserve_capture_bytes reserved bytes r =
     (case checked_add (pr_capture_bytes r) bytes of
        None \<Rightarrow> (False, reserved, r)
      | Some next \<Rightarrow>
          if next > MAX_PROCESS_CAPTURE_BYTES then (False, reserved, r)
          else (True, wrapping_add reserved bytes, r\<lparr>pr_capture_bytes := next\<rparr>))"

definition reservation_release ::
  "nat \<Rightarrow> nat \<Rightarrow> process_resources \<Rightarrow> nat \<times> process_resources" where
  "reservation_release reserved bytes r =
     (let released = min bytes reserved
      in (reserved - released,
          r\<lparr>pr_capture_bytes := saturating_sub (pr_capture_bytes r) released\<rparr>))"

definition reservation_drop :: "nat \<Rightarrow> process_resources \<Rightarrow> process_resources" where
  "reservation_drop reserved r =
     r\<lparr>pr_capture_bytes := saturating_sub (pr_capture_bytes r) reserved\<rparr>"

definition admit_storm ::
  "nat \<Rightarrow> digest \<Rightarrow> process_resources \<Rightarrow> storm_decision \<times> process_resources" where
  "admit_storm now_ms identity r =
     (let (decision, gate) = admit now_ms identity (pr_storm r)
      in (decision, r\<lparr>pr_storm := gate\<rparr>))"

lemmas ledger_defs =
  reserve_operation_def grow_operation_def release_operation_def
  reserve_candidate_handoff_def claim_candidate_def release_candidate_def

section \<open>The ledger invariant\<close>

definition ledger_ok :: "process_resources \<Rightarrow> bool" where
  "ledger_ok r \<longleftrightarrow>
     bt_ok (pr_active r) \<and> bt_ok (pr_candidates r)
     \<and> pr_active_bytes r = bt_total id (pr_active r)
     \<and> pr_candidate_bytes r = bt_total entry_bytes (pr_candidates r)
     \<and> pr_active_bytes r + pr_candidate_bytes r \<le> MAX_GLOBAL_BYTES
     \<and> length (pr_active r) \<le> MAX_ACTIVE_OPERATIONS
     \<and> length (pr_candidates r) \<le> MAX_QUEUED_CANDIDATES
     \<and> pr_capture_bytes r \<le> MAX_PROCESS_CAPTURE_BYTES"

lemma ledger_ok_new: "ledger_ok new_resources"
  by (simp add: ledger_ok_def new_resources_def limits)

lemma ledger_ok_bt:
  "ledger_ok r \<Longrightarrow> bt_ok (pr_active r)" "ledger_ok r \<Longrightarrow> bt_ok (pr_candidates r)"
  by (simp_all add: ledger_ok_def)

text \<open>Under the invariant no check of the code can meet an overflow.\<close>

lemma over_global_bytes_iff:
  "ledger_ok r \<Longrightarrow> over_global_bytes r n \<longleftrightarrow>
     MAX_GLOBAL_BYTES < pr_active_bytes r + pr_candidate_bytes r + n"
  by (auto simp: over_global_bytes_def bytes_with_def checked_add_def ledger_ok_def limits)

lemma wrapping_add_in_budget: "a + b \<le> MAX_GLOBAL_BYTES \<Longrightarrow> wrapping_add a b = a + b"
  by (rule wrapping_add_exact) (simp add: limits)

lemma saturating_add_in_budget: "a + b \<le> MAX_GLOBAL_BYTES \<Longrightarrow> saturating_add a b = a + b"
  by (rule saturating_add_exact) (simp add: limits)

lemma active_le_total:
  "ledger_ok r \<Longrightarrow> bt_get (pr_active r) op = Some b \<Longrightarrow> b \<le> pr_active_bytes r"
  using bt.weight_le_total [of "pr_active r" op b id] by (simp add: ledger_ok_def)

lemma reserve_operation_ok [inv_intros]:
  "ledger_ok r \<Longrightarrow> ledger_ok (snd (reserve_operation op n r))"
  using over_global_bytes_iff [of r n]
  by (auto simp: reserve_operation_def ledger_ok_def bt_contains_def bt.total_fresh
      bt.entries_fresh wrapping_add_in_budget)

lemma grow_operation_ok [inv_intros]:
  assumes "ledger_ok r"
  shows "ledger_ok (snd (grow_operation op n r))"
proof (cases "over_global_bytes r n \<or> bt_get (pr_active r) op = None")
  case True
  with assms show ?thesis by (auto simp: grow_operation_def)
next
  case False
  then obtain b where b: "bt_get (pr_active r) op = Some b" by auto
  have le: "pr_active_bytes r + pr_candidate_bytes r + n \<le> MAX_GLOBAL_BYTES"
    using False over_global_bytes_iff [OF assms] by auto
  have "saturating_add b n = b + n"
    using le active_le_total [OF assms b] by (intro saturating_add_in_budget) simp
  moreover have "wrapping_add (pr_active_bytes r) n = pr_active_bytes r + n"
    using le by (intro wrapping_add_in_budget) simp
  ultimately show ?thesis
    using assms False b le
    by (auto simp: grow_operation_def ledger_ok_def bt.entries_over
        bt.total_grow [where w = id and u = b and d = n])
qed

lemma release_operation_ok [inv_intros]:
  "ledger_ok r \<Longrightarrow> ledger_ok (release_operation op r)"
  using bt.entries_del [of "pr_active r" op]
  by (auto simp: release_operation_def ledger_ok_def bt.total_del_eq split: option.splits)

lemma reserve_candidate_handoff_ok [inv_intros]:
  "ledger_ok r \<Longrightarrow> ledger_ok (snd (reserve_candidate_handoff cap n r))"
  using over_global_bytes_iff [of r n]
  by (auto simp: reserve_candidate_handoff_def ledger_ok_def bt_contains_def bt.total_fresh
      bt.entries_fresh wrapping_add_in_budget)

lemma claim_candidate_ok [inv_intros]:
  "ledger_ok r \<Longrightarrow> ledger_ok (snd (claim_candidate cap n r))"
  using over_global_bytes_iff [of r n]
  by (auto simp: claim_candidate_def ledger_ok_def bt.total_fresh bt.total_same
      bt.entries_fresh bt.entries_over wrapping_add_in_budget split: option.splits)

lemma release_candidate_ok [inv_intros]:
  "ledger_ok r \<Longrightarrow> ledger_ok (release_candidate cap r)"
  using bt.entries_del [of "pr_candidates r" cap]
  by (auto simp: release_candidate_def ledger_ok_def bt.total_del_eq split: option.splits)

lemma reserve_capture_bytes_ok [inv_intros]:
  "ledger_ok r \<Longrightarrow> ledger_ok (snd (snd (reserve_capture_bytes held n r)))"
  by (auto simp: reserve_capture_bytes_def ledger_ok_def split: option.splits)

lemma reservation_release_ok [inv_intros]:
  "ledger_ok r \<Longrightarrow> ledger_ok (snd (reservation_release held n r))"
  by (auto simp: reservation_release_def ledger_ok_def Let_def)

lemma admit_storm_ok [inv_intros]:
  "ledger_ok r \<Longrightarrow> ledger_ok (snd (admit_storm now_ms d r))"
  by (simp add: admit_storm_def ledger_ok_def split: prod.splits)

lemma reservation_drop_ok [inv_intros]:
  "ledger_ok r \<Longrightarrow> ledger_ok (reservation_drop held r)"
  by (auto simp: reservation_drop_def ledger_ok_def)

section \<open>Every reachable ledger\<close>

text \<open>
  The process: the ledger and the holdings of every \<open>LogicalByteReservation\<close> in it, by owner.
  One rule per exported operation, called in any order by any thread (each holds the mutex for
  the whole call).
\<close>

type_synonym process = "process_resources \<times> (nat, nat) btree"

definition held_by :: "(nat, nat) btree \<Rightarrow> nat \<Rightarrow> nat" where
  "held_by h i = (case bt_get h i of None \<Rightarrow> 0 | Some n \<Rightarrow> n)"

inductive ledger_step :: "process \<Rightarrow> process \<Rightarrow> bool" where
  reserve_op: "ledger_step (r, h) (snd (reserve_operation op n r), h)"
| grow_op: "ledger_step (r, h) (snd (grow_operation op n r), h)"
| release_op: "ledger_step (r, h) (release_operation op r, h)"
| handoff: "ledger_step (r, h) (snd (reserve_candidate_handoff cap n r), h)"
| claim: "ledger_step (r, h) (snd (claim_candidate cap n r), h)"
| release_cand: "ledger_step (r, h) (release_candidate cap r, h)"
| storm: "ledger_step (r, h) (snd (admit_storm now_ms d r), h)"
| reserve_bytes: "reserve_capture_bytes (held_by h i) n r = (success, n', r') \<Longrightarrow>
    ledger_step (r, h) (r', bt_insert i n' h)"
| release_bytes: "reservation_release (held_by h i) n r = (n', r') \<Longrightarrow>
    ledger_step (r, h) (r', bt_insert i n' h)"
| drop_reservation: "ledger_step (r, h) (reservation_drop (held_by h i) r, bt_remove i h)"

inductive ledger_reachable :: "process \<Rightarrow> bool" where
  start: "ledger_reachable (new_resources, [])"
| step: "ledger_reachable p \<Longrightarrow> ledger_step p q \<Longrightarrow> ledger_reachable q"

definition process_ok :: "process \<Rightarrow> bool" where
  "process_ok p \<longleftrightarrow>
     ledger_ok (fst p) \<and> bt_ok (snd p) \<and> pr_capture_bytes (fst p) = bt_total id (snd p)"

lemma total_set_held:
  "bt_ok h \<Longrightarrow> bt_total id (bt_insert i n h) + held_by h i = bt_total id h + n"
  using bt.total_over [of h i "the (bt_get h i)" id n] bt.total_fresh [of h i id n]
  by (auto simp: held_by_def split: option.splits)

lemma held_le_total: "bt_ok h \<Longrightarrow> held_by h i \<le> bt_total id h"
  using bt.weight_le_total [of h i _ id] by (auto simp: held_by_def split: option.splits)

lemma total_drop_held: "bt_ok h \<Longrightarrow> bt_total id (bt_remove i h) + held_by h i = bt_total id h"
  using bt.total_del [of h i "the (bt_get h i)" id] by (auto simp: held_by_def split: option.splits)

lemma capture_bytes_frame [simp]:
  "pr_capture_bytes (snd (reserve_operation op n r)) = pr_capture_bytes r"
  "pr_capture_bytes (snd (grow_operation op n r)) = pr_capture_bytes r"
  "pr_capture_bytes (release_operation op r) = pr_capture_bytes r"
  "pr_capture_bytes (snd (reserve_candidate_handoff cap n r)) = pr_capture_bytes r"
  "pr_capture_bytes (snd (claim_candidate cap n r)) = pr_capture_bytes r"
  "pr_capture_bytes (release_candidate cap r) = pr_capture_bytes r"
  "pr_capture_bytes (snd (admit_storm now_ms d r)) = pr_capture_bytes r"
  by (auto simp: ledger_defs admit_storm_def split: option.splits prod.splits)

lemma reserve_bytes_keeps:
  assumes "process_ok (r, h)" and "reserve_capture_bytes (held_by h i) n r = (success, n', r')"
  shows "process_ok (r', bt_insert i n' h)"
proof -
  have ok: "ledger_ok r'" using reserve_capture_bytes_ok [of r "held_by h i" n] assms
    by (simp add: process_ok_def)
  have h: "bt_ok h" "pr_capture_bytes r = bt_total id h" using assms by (auto simp: process_ok_def)
  have "success \<Longrightarrow> n' = held_by h i + n \<and> pr_capture_bytes r' = pr_capture_bytes r + n"
    using assms(2) held_le_total [OF h(1), of i] h(2)
    by (auto simp: reserve_capture_bytes_def wrapping_add_exact split: option.splits if_splits)
  moreover have "\<not> success \<Longrightarrow> n' = held_by h i \<and> r' = r"
    using assms(2) by (auto simp: reserve_capture_bytes_def split: option.splits if_splits)
  ultimately show ?thesis
    using ok h total_set_held [OF h(1), of i n'] by (cases success) (auto simp: process_ok_def)
qed

lemma release_bytes_keeps:
  assumes "process_ok (r, h)" and "reservation_release (held_by h i) n r = (n', r')"
  shows "process_ok (r', bt_insert i n' h)"
proof -
  have h: "bt_ok h" "pr_capture_bytes r = bt_total id h" using assms by (auto simp: process_ok_def)
  have "n' = held_by h i - min n (held_by h i)"
    "pr_capture_bytes r' = pr_capture_bytes r - min n (held_by h i)"
    using assms(2) by (auto simp: reservation_release_def Let_def)
  then show ?thesis
    using reservation_release_ok [of r "held_by h i" n] assms h
      total_set_held [OF h(1), of i n'] held_le_total [OF h(1), of i]
    by (cases "n \<le> held_by h i") (auto simp: process_ok_def min_def)
qed

lemma drop_reservation_keeps:
  "process_ok (r, h) \<Longrightarrow> process_ok (reservation_drop (held_by h i) r, bt_remove i h)"
  using reservation_drop_ok [of r "held_by h i"] total_drop_held [of h i]
  by (auto simp: process_ok_def reservation_drop_def)

lemma ledger_step_keeps: "ledger_step p q \<Longrightarrow> process_ok p \<Longrightarrow> process_ok q"
proof (induction rule: ledger_step.induct)
  case (reserve_bytes h i n r success n' r')
  then show ?case by (blast intro: reserve_bytes_keeps)
next
  case (release_bytes h i n r n' r')
  then show ?case by (blast intro: release_bytes_keeps)
next
  case (drop_reservation r h i)
  then show ?case by (rule drop_reservation_keeps)
qed (auto simp: process_ok_def intro!: inv_intros)

lemma process_ok_start: "process_ok (new_resources, [])"
  using ledger_ok_new by (simp add: process_ok_def new_resources_def)

lemma reachable_process_ok: "ledger_reachable p \<Longrightarrow> process_ok p"
  by (induction rule: ledger_reachable.induct)
    (auto intro: process_ok_start ledger_step_keeps simp del: split_paired_All)

text \<open>
  Process-wide limits.  Whatever operations, candidates and reservations the threads of
  the process make and release, in any order: the recorded totals are exactly the sums over
  the entries, operation and candidate bytes together never pass 1 MiB, there are never more
  than 512 operations or 16 candidates, and the World bytes are the sum of what the live
  reservations hold and never pass 4 GiB.
\<close>

theorem ledger_within_limits:
  assumes "ledger_reachable (r, h)"
  shows "pr_active_bytes r = bt_total id (pr_active r)
    \<and> pr_candidate_bytes r = bt_total entry_bytes (pr_candidates r)
    \<and> pr_active_bytes r + pr_candidate_bytes r \<le> MAX_GLOBAL_BYTES
    \<and> length (pr_active r) \<le> MAX_ACTIVE_OPERATIONS
    \<and> length (pr_candidates r) \<le> MAX_QUEUED_CANDIDATES
    \<and> pr_capture_bytes r = bt_total id h
    \<and> pr_capture_bytes r \<le> MAX_PROCESS_CAPTURE_BYTES"
  using reachable_process_ok [OF assms] by (simp add: process_ok_def ledger_ok_def)

theorem ledger_within_limits_witness:
  "pr_capture_bytes (fst (snd (snd (reserve_capture_bytes 0 70 new_resources)), [(3, 70)])) = 70"
proof -
  let ?r = "snd (snd (reserve_capture_bytes 0 70 new_resources))"
  have "ledger_step (new_resources, []) (?r, bt_insert 3 70 [])"
    by (rule ledger_step.reserve_bytes [where i = 3 and n = 70 and success = True])
      (simp add: held_by_def reserve_capture_bytes_def new_resources_def wrapping_add_exact checked_add_def limits)
  then have "ledger_reachable (?r, [(3, 70)])"
    using ledger_reachable.step [OF ledger_reachable.start] by fastforce
  from ledger_within_limits [OF this] show ?thesis by simp
qed

section \<open>Conservation\<close>

lemma bt_remove_insert_fresh: "bt_get m k = None \<Longrightarrow> bt_remove k (bt_insert k v m) = m"
  by (induction m) (auto split: if_splits)

lemma bt_remove_insert: "bt_ok m \<Longrightarrow> bt_remove k (bt_insert k v m) = bt_remove k m"
proof (induction m)
  case Nil
  show ?case by simp
next
  case (Cons e m)
  then show ?case by (cases e) (auto dest!: bt_ok_ConsD)
qed

text \<open>The growth of one operation by a list of records, as far as each step succeeds.\<close>

fun grow_all :: "operation_id \<Rightarrow> nat list \<Rightarrow> process_resources \<Rightarrow> process_resources" where
  "grow_all op [] r = r"
| "grow_all op (n # ns) r = grow_all op ns (snd (grow_operation op n r))"

lemma release_after_reserve:
  "ledger_ok r \<Longrightarrow> fst (reserve_operation op n r) \<Longrightarrow>
     release_operation op (snd (reserve_operation op n r)) = r"
  using over_global_bytes_iff [of r n]
  by (auto simp: reserve_operation_def release_operation_def bt_contains_def
      bt_remove_insert_fresh wrapping_add_in_budget split: if_splits)

lemma release_after_grow:
  assumes "ledger_ok r"
  shows "release_operation op (snd (grow_operation op n r)) = release_operation op r"
proof (cases "over_global_bytes r n \<or> bt_get (pr_active r) op = None")
  case True
  then show ?thesis by (auto simp: grow_operation_def)
next
  case False
  then obtain b where b: "bt_get (pr_active r) op = Some b" by auto
  have le: "pr_active_bytes r + pr_candidate_bytes r + n \<le> MAX_GLOBAL_BYTES"
    using False over_global_bytes_iff [OF assms] by auto
  have "saturating_add b n = b + n" "wrapping_add (pr_active_bytes r) n = pr_active_bytes r + n"
    using le active_le_total [OF assms b]
    by (auto intro!: saturating_add_in_budget wrapping_add_in_budget)
  then show ?thesis
    using assms False b
    by (auto simp: grow_operation_def release_operation_def ledger_ok_def bt_remove_insert)
qed

lemma release_after_grow_all:
  "ledger_ok r \<Longrightarrow> release_operation op (grow_all op ns r) = release_operation op r"
  by (induction ns arbitrary: r) (auto simp: release_after_grow inv_intros)

text \<open>
  An operation leaves no trace.  Reserving an operation, growing it by any records, and
  releasing it gives back exactly the ledger there was before: no byte leaks, whichever of the
  growth steps were refused.
\<close>

theorem operation_charge_conserved:
  assumes "ledger_ok r" and "fst (reserve_operation op n r)"
  shows "release_operation op (grow_all op ns (snd (reserve_operation op n r))) = r"
  using assms by (simp add: release_after_grow_all release_after_reserve inv_intros)

theorem operation_charge_conserved_witness:
  "release_operation (OperationId 7)
     (grow_all (OperationId 7) [30, 2000000, 5] (snd (reserve_operation (OperationId 7) 100 new_resources)))
     = new_resources"
proof -
  have "fst (reserve_operation (OperationId 7) 100 new_resources)" by code_simp
  from operation_charge_conserved [OF ledger_ok_new this] show ?thesis .
qed

text \<open>Handing a candidate off and releasing it, claimed or not, leaves the ledger as it was.\<close>

lemma handoff_exact:
  assumes "ledger_ok r" and "reserve_candidate_handoff cap n r = (True, r1)"
  shows "bt_get (pr_candidates r) cap = None"
    and "bt_get (pr_candidates r1) cap = Some \<lparr>entry_bytes = n, entry_state = Handoff\<rparr>"
    and "pr_candidate_bytes r1 = pr_candidate_bytes r + n"
    and "release_candidate cap r1 = r"
    and "release_candidate cap (snd (claim_candidate cap n r1)) = r"
proof -
  show fresh: "bt_get (pr_candidates r) cap = None"
    using assms(2) by (auto simp: reserve_candidate_handoff_def bt_contains_def split: if_splits)
  have "\<not> over_global_bytes r n"
    using assms(2) by (auto simp: reserve_candidate_handoff_def split: if_splits)
  then have le: "pr_active_bytes r + pr_candidate_bytes r + n \<le> MAX_GLOBAL_BYTES"
    using over_global_bytes_iff [OF assms(1)] by auto
  have "wrapping_add (pr_candidate_bytes r) n = pr_candidate_bytes r + n"
    using le by (intro wrapping_add_in_budget) simp
  then have r1: "r1 = r\<lparr>pr_candidate_bytes := pr_candidate_bytes r + n,
      pr_candidates := bt_insert cap \<lparr>entry_bytes = n, entry_state = Handoff\<rparr> (pr_candidates r)\<rparr>"
    using assms(2) by (auto simp: reserve_candidate_handoff_def split: if_splits)
  have ok: "bt_ok (pr_candidates r)" using assms(1) by (rule ledger_ok_bt)
  note rm = bt_remove_insert_fresh [OF fresh] bt_remove_insert [OF bt_ok_insert [OF ok]]
  show "bt_get (pr_candidates r1) cap = Some \<lparr>entry_bytes = n, entry_state = Handoff\<rparr>"
    "pr_candidate_bytes r1 = pr_candidate_bytes r + n"
    by (simp_all add: r1)
  show "release_candidate cap r1 = r" by (simp add: r1 release_candidate_def rm)
  show "release_candidate cap (snd (claim_candidate cap n r1)) = r"
    by (simp add: r1 claim_candidate_def release_candidate_def rm)
qed

text \<open>
  The life of a queued candidate.  A candidate handed off with its size can be claimed by
  the sink once, at that size only; a second claim is refused; after its release the ledger is
  the one before the hand-off.
\<close>

theorem candidate_lifecycle:
  assumes "ledger_ok r" and "reserve_candidate_handoff cap n r = (True, r1)"
  shows "\<not> candidate_is_retained cap r1 \<and> release_candidate cap r1 = r
    \<and> (fst (claim_candidate cap m r1) \<longleftrightarrow> m = n)
    \<and> (let r2 = snd (claim_candidate cap n r1)
       in candidate_is_retained cap r2 \<and> \<not> fst (claim_candidate cap k r2)
          \<and> pr_candidate_bytes r2 = pr_candidate_bytes r + n
          \<and> release_candidate cap r2 = r)"
  using handoff_exact [OF assms]
  by (simp add: Let_def candidate_is_retained_def claim_candidate_def)

theorem candidate_lifecycle_witness:
  "fst (claim_candidate (CaptureId 3) 9
     (snd (reserve_candidate_handoff (CaptureId 3) 9 new_resources)))"
proof -
  have "reserve_candidate_handoff (CaptureId 3) 9 new_resources =
      (True, snd (reserve_candidate_handoff (CaptureId 3) 9 new_resources))" by code_simp
  from candidate_lifecycle [OF ledger_ok_new this, of 9] show ?thesis by simp
qed

end
