(* ===== verification/Core_Model.thy ===== *)
theory Core_Model
  imports Resources
begin

text \<open>
  The data of the core crate (\<^verbatim>\<open>reproit_core::model\<close>) that the SDK builds or reads, with the
  fields it uses; what it only carries is one opaque field (\<open>_rest\<close>).  The functions of the
  core crate are fields of the record \<open>core\<close>, an argument of every definition that calls them:
  canonical JSON, base64url, validation, the storm identity of a candidate.
\<close>

section \<open>Enumerations\<close>

datatype operation_kind = RequestResponse | Stream | DeliveredWork
datatype trigger_completion = Return | StreamEnd | Acknowledgment | TaskEnd
datatype discovery_source = Production | FuzzCampaign
datatype processing_mode = Managed | Private
datatype event_kind =
  Begin | Input | Dependency | Observation | ObservationFence | Failure | Terminal
datatype dependency_outcome = OutcomeError | OutcomeResponse
datatype observation_class =
  Clock | Database | Environment | Filesystem | OutboundHttp | Queue | Randomness

text \<open>\<open>AutomaticObservationClass::ALL\<close>, and the order that keys \<open>BTreeMap\<close>s.\<close>

definition ALL_CLASSES :: "observation_class list" where
  "ALL_CLASSES = [Clock, Database, Environment, Filesystem, OutboundHttp, Queue, Randomness]"

fun class_num :: "observation_class \<Rightarrow> nat" where
  "class_num Clock = 0"
| "class_num Database = 1"
| "class_num Environment = 2"
| "class_num Filesystem = 3"
| "class_num OutboundHttp = 4"
| "class_num Queue = 5"
| "class_num Randomness = 6"

lemma class_num_inj: "class_num a = class_num b \<Longrightarrow> a = b"
  by (cases a; cases b) auto

lemma set_ALL_CLASSES [simp]: "set ALL_CLASSES = UNIV"
proof -
  have "c \<in> set ALL_CLASSES" for c by (cases c) (simp_all add: ALL_CLASSES_def)
  then show ?thesis by auto
qed

instantiation observation_class :: linorder
begin

definition less_eq_observation_class :: "observation_class \<Rightarrow> observation_class \<Rightarrow> bool" where
  "less_eq_observation_class a b \<longleftrightarrow> class_num a \<le> class_num b"

definition less_observation_class :: "observation_class \<Rightarrow> observation_class \<Rightarrow> bool" where
  "less_observation_class a b \<longleftrightarrow> class_num a < class_num b"

instance
  by standard
    (auto simp: less_eq_observation_class_def less_observation_class_def dest: class_num_inj)

end

section \<open>Fuzz contexts\<close>

record fuzz_context =
  fc_campaign_id :: nat
  fc_case_id :: nat
  fc_service_id :: nat
  fc_rest :: bytes

record fuzz_context_identity =
  fci_campaign_id :: nat
  fci_case_id :: nat
  fci_context_digest :: digest

section \<open>Event payloads\<close>

record begin_payload =
  begin_campaign_context :: "fuzz_context_identity option"
  begin_operation_kind :: operation_kind
  begin_operation_name :: string
  begin_rest :: bytes

record input_payload =
  input_content_type :: string
  input_index :: nat
  input_value :: string
  input_value_digest :: digest

record dependency_cursor =
  dc_adapter_id :: string
  dc_adapter_version :: string
  dc_causal_parent_id :: "operation_id option"
  dc_cursor :: string
  dc_cursor_digest :: digest

record observation_payload =
  ob_boundary_id :: string
  ob_causal_parent_id :: "operation_id option"
  ob_evidence_digest :: digest
  ob_class :: observation_class
  ob_sequence :: nat
  ob_operation_id :: operation_id
  ob_owner_adapter_id :: "string option"

record adapter_ownership =
  own_adapter_id :: string
  own_adapter_version :: string
  own_boundary_id :: string
  own_implementation_digest :: digest
  own_class :: observation_class

record closure_receipt =
  cr_boundary_id :: string
  cr_evidence_digest :: digest
  cr_mechanism :: nat
  cr_class :: observation_class

record world_closure =
  wc_policy_digest :: digest
  wc_receipts :: "closure_receipt list"

record fence_receipt =
  fence_adapter_ownership :: "adapter_ownership list"
  fence_deployment_digest :: digest
  fence_dropped_observation_count :: nat
  fence_observation_count :: nat
  fence_observations_digest :: digest
  fence_operation_id :: operation_id
  fence_overflowed :: bool
  fence_signature :: string
  fence_signer_key_id :: string
  fence_subject_digest :: digest
  fence_unowned_observation_count :: nat
  fence_world_closure :: world_closure

record failure_reference =
  fr_identity :: digest
  fr_rest :: bytes

record failure_payload =
  fp_failure :: failure_reference
  fp_identity :: bytes

record terminal_payload =
  terminal_complete :: bool
  terminal_event_count :: nat

datatype payload =
    BeginPayload begin_payload
  | InputPayload input_payload
  | DependencyPayload dependency_cursor
  | ObservationPayload observation_payload
  | FencePayload fence_receipt
  | FailureEventPayload failure_payload
  | TerminalEventPayload terminal_payload

section \<open>Records, deployments, candidates\<close>

record event_record =
  er_kind :: event_kind
  er_payload :: string
  er_sequence :: nat

record subject_binding =
  sb_artifact_digest :: digest
  sb_artifact_media_type :: string
  sb_artifact_uri :: string
  sb_architecture :: string
  sb_operating_system :: string
  sb_arguments :: "string list"
  sb_environment_names :: "string list"
  sb_executable :: string
  sb_working_directory :: string

record deployment =
  dep_organization_id :: nat
  dep_processing_mode :: processing_mode
  dep_project_id :: nat
  dep_repository_id :: string
  dep_runtime_capabilities :: "string list"
  dep_runtime_endpoint :: string
  dep_service_id :: nat
  dep_service_path :: string
  dep_signature :: string
  dep_signed_at :: string
  dep_signer_key_id :: string
  dep_source_revision :: string
  dep_subject :: subject_binding

record candidate =
  cand_campaign_context :: "fuzz_context option"
  cand_capture_id :: capture_id
  cand_deployment :: deployment
  cand_discovery_source :: "discovery_source option"
  cand_failure :: failure_reference
  cand_operation_id :: operation_id
  cand_processing_mode :: processing_mode
  cand_records :: "event_record list"
  cand_world_id :: digest

section \<open>The core crate's functions\<close>

record core =
  canonical_payload :: "payload \<Rightarrow> bytes res"
  encode_base64url :: "bytes \<Rightarrow> string"
  canonical_candidate :: "candidate \<Rightarrow> bytes res"
  validate_candidate :: "candidate \<Rightarrow> unit res"
  failure_storm_key :: "candidate \<Rightarrow> digest res"

text \<open>
  Base64url without padding turns every three bytes into four characters, a shorter last group
  into at most four.  A named hypothesis of the properties that need the bound.
\<close>

definition base64_bounded :: "core \<Rightarrow> bool" where
  "base64_bounded c \<longleftrightarrow> (\<forall>bs. length (encode_base64url c bs) \<le> 4 * ((length bs + 2) div 3))"

text \<open>A core whose functions are the simplest that satisfy it: the instance of the witnesses.\<close>

definition demo_core :: core where
  "demo_core =
     \<lparr>canonical_payload = (\<lambda>_. Inr [1, 2, 3]),
      encode_base64url = (\<lambda>bs. replicate (length bs) CHR ''A''),
      canonical_candidate = (\<lambda>c. Inr (replicate (length (cand_records c)) 7)),
      validate_candidate = (\<lambda>_. Inr ()),
      failure_storm_key = (\<lambda>c. Inr (fr_identity (cand_failure c)))\<rparr>"

lemma demo_core_base64: "base64_bounded demo_core"
proof -
  have "n \<le> 4 * ((n + 2) div 3)" for n :: nat by presburger
  then show ?thesis by (simp add: base64_bounded_def demo_core_def)
qed

end
