(* ===== verification/Sdk_Core.thy ===== *)
theory Sdk_Core
  imports Core_Model
begin

text \<open>
  The capture state machine of \<^verbatim>\<open>crates/reproit-sdk-rust/src/lib.rs\<close>: an operation begins,
  records events, and is deleted when it succeeds, is cancelled or is incomplete; when it
  fails, its records are closed with a Failure and a Terminal event and become a candidate for
  the sink.  The state behind the SDK's mutex and the process ledger are passed explicitly; the
  trait \<open>CandidateSink\<close> is a record of functions over the sink's own state.
\<close>

section \<open>State\<close>

record recall_counters =
  rc_candidate_delivery_expired :: nat
  rc_candidate_durably_accepted :: nat
  rc_candidate_incomplete :: nat
  rc_candidate_queue_full :: nat
  rc_candidate_rejected :: nat
  rc_eligible_failure_observed :: nat
  rc_suppressed_exact_storm :: nat
  rc_suppressed_high_cardinality_storm :: nat

definition zero_counters :: recall_counters where
  "zero_counters =
     \<lparr>rc_candidate_delivery_expired = 0, rc_candidate_durably_accepted = 0,
      rc_candidate_incomplete = 0, rc_candidate_queue_full = 0, rc_candidate_rejected = 0,
      rc_eligible_failure_observed = 0, rc_suppressed_exact_storm = 0,
      rc_suppressed_high_cardinality_storm = 0\<rparr>"

definition merge_counters :: "recall_counters \<Rightarrow> recall_counters \<Rightarrow> recall_counters" where
  "merge_counters a b =
     \<lparr>rc_candidate_delivery_expired =
        saturating_add (rc_candidate_delivery_expired a) (rc_candidate_delivery_expired b),
      rc_candidate_durably_accepted =
        saturating_add (rc_candidate_durably_accepted a) (rc_candidate_durably_accepted b),
      rc_candidate_incomplete =
        saturating_add (rc_candidate_incomplete a) (rc_candidate_incomplete b),
      rc_candidate_queue_full =
        saturating_add (rc_candidate_queue_full a) (rc_candidate_queue_full b),
      rc_candidate_rejected =
        saturating_add (rc_candidate_rejected a) (rc_candidate_rejected b),
      rc_eligible_failure_observed =
        saturating_add (rc_eligible_failure_observed a) (rc_eligible_failure_observed b),
      rc_suppressed_exact_storm =
        saturating_add (rc_suppressed_exact_storm a) (rc_suppressed_exact_storm b),
      rc_suppressed_high_cardinality_storm =
        saturating_add (rc_suppressed_high_cardinality_storm a)
          (rc_suppressed_high_cardinality_storm b)\<rparr>"

record candidate_start =
  start_capture_id :: capture_id
  start_deployment :: deployment
  start_operation_id :: operation_id
  start_world_id :: digest

record active_operation =
  op_bytes :: nat
  op_campaign_context :: "fuzz_context option"
  op_discovery_source :: discovery_source
  op_records :: "event_record list"
  op_start :: candidate_start
  op_world_bound :: bool

record sdk =
  sdk_discovery_source :: discovery_source
  sdk_global_bytes :: nat
  sdk_operations :: "(operation_id, active_operation) btree"
  sdk_recall :: recall_counters

record 's candidate_sink =
  sink_queued_bytes :: "'s \<Rightarrow> nat"
  sink_retains_queued_candidates :: bool
  sink_try_send ::
    "candidate \<Rightarrow> process_resources \<Rightarrow> 's \<Rightarrow> bool \<times> process_resources \<times> 's"
  sink_recall_counters :: "'s \<Rightarrow> recall_counters"

definition new_sdk :: "discovery_source \<Rightarrow> sdk" where
  "new_sdk source =
     \<lparr>sdk_discovery_source = source, sdk_global_bytes = 0, sdk_operations = [],
      sdk_recall = zero_counters\<rparr>"

text \<open>\<open>new_from_environment\<close>: the value of \<open>REPROIT_FUZZ_TARGET\<close>, when it is set.\<close>

definition new_from_environment :: "string option \<Rightarrow> sdk" where
  "new_from_environment v =
     new_sdk (if v = Some ''1'' then FuzzCampaign else Production)"

section \<open>Records\<close>

definition make_event_record :: "core \<Rightarrow> event_kind \<Rightarrow> nat \<Rightarrow> payload \<Rightarrow> event_record res" where
  "make_event_record c kind sequence p =
     bind_res (canonical_payload c p)
       (\<lambda>bs. if length bs > MAX_EVENT_BYTES then Inl RuntimeQuota
             else Inr \<lparr>er_kind = kind, er_payload = encode_base64url c bs,
                       er_sequence = sequence\<rparr>)"

definition record_size :: "event_record \<Rightarrow> nat" where
  "record_size rec = saturating_add (length (er_payload rec)) 32"

definition within_operation_bounds :: "active_operation \<Rightarrow> nat \<Rightarrow> bool" where
  "within_operation_bounds a added \<longleftrightarrow>
     length (op_records a) < MAX_EVENTS
     \<and> saturating_add (op_bytes a) added \<le> MAX_OPERATION_BYTES"

section \<open>Begin\<close>

text \<open>The first statement of \<open>begin_inner\<close>: the payload and the caller agree on the context.\<close>

definition match_campaign_context ::
  "begin_payload \<Rightarrow> (fuzz_context_identity \<times> fuzz_context) option \<Rightarrow> fuzz_context option res" where
  "match_campaign_context p ctx =
     (case (begin_campaign_context p, ctx) of
        (Some expected, Some (identity, context)) \<Rightarrow>
          if identity = expected then Inr (Some context) else Inl SchemaInvalid
      | (None, None) \<Rightarrow> Inr None
      | _ \<Rightarrow> Inl SchemaInvalid)"

definition begin_inner ::
  "core \<Rightarrow> candidate_start \<Rightarrow> begin_payload \<Rightarrow> bool
     \<Rightarrow> (fuzz_context_identity \<times> fuzz_context) option
     \<Rightarrow> sdk \<Rightarrow> process_resources \<Rightarrow> unit res \<times> sdk \<times> process_resources" where
  "begin_inner c start p world_bound ctx sd r =
     (case match_campaign_context p ctx of
        Inl e \<Rightarrow> (Inl e, sd, r)
      | Inr campaign_context \<Rightarrow>
          let discovery_source =
                (if campaign_context \<noteq> None then FuzzCampaign else sdk_discovery_source sd)
          in case make_event_record c Begin 0 (BeginPayload p) of
               Inl e \<Rightarrow> (Inl e, sd, r)
             | Inr rec \<Rightarrow>
                 let record_bytes = record_size rec;
                     op = start_operation_id start
                 in if bt_contains (sdk_operations sd) op then (Inl SchemaInvalid, sd, r)
                    else case reserve_operation op record_bytes r of
                        (False, r') \<Rightarrow> (Inl RuntimeQuota, sd, r')
                      | (True, r') \<Rightarrow>
                          (Inr (),
                           sd\<lparr>sdk_global_bytes := wrapping_add (sdk_global_bytes sd) record_bytes,
                              sdk_operations := bt_insert op
                                \<lparr>op_bytes = record_bytes,
                                 op_campaign_context = campaign_context,
                                 op_discovery_source = discovery_source,
                                 op_records = [rec],
                                 op_start = start,
                                 op_world_bound = world_bound\<rparr> (sdk_operations sd)\<rparr>,
                           r'))"

definition sdk_begin ::
  "core \<Rightarrow> candidate_start \<Rightarrow> begin_payload \<Rightarrow> sdk \<Rightarrow> process_resources
     \<Rightarrow> unit res \<times> sdk \<times> process_resources" where
  "sdk_begin c start p = begin_inner c start p True None"

text \<open>
  \<open>begin_automatic\<close> takes the innermost fuzz context of the thread, if there is one, and the
  digest of \<open>pending automatic World\<close> as the World until the operation is bound.
\<close>

definition begin_automatic ::
  "core \<Rightarrow> digest \<Rightarrow> candidate_start \<Rightarrow> begin_payload
     \<Rightarrow> (fuzz_context_identity \<times> fuzz_context) option
     \<Rightarrow> sdk \<Rightarrow> process_resources \<Rightarrow> unit res \<times> sdk \<times> process_resources" where
  "begin_automatic c pending_world start p current =
     begin_inner c (start\<lparr>start_world_id := pending_world\<rparr>) p False current"

definition begin_with_fuzz_context ::
  "core \<Rightarrow> candidate_start \<Rightarrow> begin_payload \<Rightarrow> fuzz_context_identity \<times> fuzz_context
     \<Rightarrow> sdk \<Rightarrow> process_resources \<Rightarrow> unit res \<times> sdk \<times> process_resources" where
  "begin_with_fuzz_context c start p ctx = begin_inner c start p True (Some ctx)"

definition bind_automatic_world :: "operation_id \<Rightarrow> digest \<Rightarrow> sdk \<Rightarrow> unit res \<times> sdk" where
  "bind_automatic_world op world_id sd =
     (case bt_get (sdk_operations sd) op of
        None \<Rightarrow> (Inl IncompleteCandidate, sd)
      | Some a \<Rightarrow>
          if op_world_bound a then (Inl SchemaInvalid, sd)
          else (Inr (),
                sd\<lparr>sdk_operations := bt_insert op
                     (a\<lparr>op_start := (op_start a)\<lparr>start_world_id := world_id\<rparr>,
                        op_world_bound := True\<rparr>) (sdk_operations sd)\<rparr>))"

section \<open>Deleting and appending\<close>

definition state_delete :: "operation_id \<Rightarrow> sdk \<Rightarrow> process_resources \<Rightarrow> sdk \<times> process_resources" where
  "state_delete op sd r =
     (case bt_get (sdk_operations sd) op of
        None \<Rightarrow> (sd, r)
      | Some a \<Rightarrow>
          (sd\<lparr>sdk_operations := bt_remove op (sdk_operations sd),
              sdk_global_bytes := saturating_sub (sdk_global_bytes sd) (op_bytes a)\<rparr>,
           release_operation op r))"

text \<open>\<open>succeed\<close> and \<open>cancel\<close> are \<open>state_delete\<close>; \<open>abandon_incomplete\<close> also counts.\<close>

definition bump_incomplete :: "sdk \<Rightarrow> sdk" where
  "bump_incomplete sd =
     sd\<lparr>sdk_recall := (sdk_recall sd)\<lparr>rc_candidate_incomplete :=
          saturating_add (rc_candidate_incomplete (sdk_recall sd)) 1\<rparr>\<rparr>"

definition abandon_incomplete ::
  "operation_id \<Rightarrow> sdk \<Rightarrow> process_resources \<Rightarrow> sdk \<times> process_resources" where
  "abandon_incomplete op sd r =
     (if bt_contains (sdk_operations sd) op
      then let (sd', r') = state_delete op sd r in (bump_incomplete sd', r')
      else (sd, r))"

text \<open>\<open>append\<close>, the body of \<open>record_input\<close>, \<open>record_dependency\<close>, \<open>record_observation\<close> and
  \<open>record_observation_fence\<close>.\<close>

definition sdk_append ::
  "core \<Rightarrow> operation_id \<Rightarrow> event_kind \<Rightarrow> payload \<Rightarrow> sdk \<Rightarrow> process_resources
     \<Rightarrow> unit res \<times> sdk \<times> process_resources" where
  "sdk_append c op kind p sd r =
     (case bt_get (sdk_operations sd) op of
        None \<Rightarrow> (Inl IncompleteCandidate, sd, r)
      | Some a \<Rightarrow>
          case bind_res (ok_or RuntimeQuota (u16_try_from (length (op_records a))))
                 (\<lambda>sequence. make_event_record c kind sequence p) of
            Inl e \<Rightarrow> (Inl e, sd, r)
          | Inr rec \<Rightarrow>
              let added_bytes = record_size rec
              in if \<not> within_operation_bounds a added_bytes
                 then let (sd', r') = state_delete op sd r in (Inl RuntimeQuota, sd', r')
                 else case grow_operation op added_bytes r of
                     (False, r1) \<Rightarrow>
                       let (sd', r') = state_delete op sd r1 in (Inl RuntimeQuota, sd', r')
                   | (True, r1) \<Rightarrow>
                       (Inr (),
                        sd\<lparr>sdk_operations := bt_insert op
                             (a\<lparr>op_bytes := wrapping_add (op_bytes a) added_bytes,
                                op_records := op_records a @ [rec]\<rparr>) (sdk_operations sd),
                           sdk_global_bytes :=
                             wrapping_add (sdk_global_bytes sd) added_bytes\<rparr>,
                        r1))"

definition record_input where
  "record_input c op p = sdk_append c op Input (InputPayload p)"

definition record_dependency where
  "record_dependency c op p = sdk_append c op Dependency (DependencyPayload p)"

definition record_observation where
  "record_observation c op p = sdk_append c op Observation (ObservationPayload p)"

definition record_observation_fence where
  "record_observation_fence c op p = sdk_append c op ObservationFence (FencePayload p)"

section \<open>Failing\<close>

definition failure_record ::
  "core \<Rightarrow> operation_id \<Rightarrow> failure_payload \<Rightarrow> sdk \<Rightarrow> event_record res" where
  "failure_record c op p sd =
     (case bt_get (sdk_operations sd) op of
        None \<Rightarrow> Inl IncompleteCandidate
      | Some a \<Rightarrow>
          if \<not> op_world_bound a then Inl IncompleteCandidate
          else bind_res (ok_or RuntimeQuota (u16_try_from (length (op_records a))))
                 (\<lambda>sequence. make_event_record c Failure sequence (FailureEventPayload p)))"

text \<open>
  The candidate of a removed operation: its records, the Failure record, and a Terminal record
  that counts them; refused when the operation is out of bounds or the result is not valid.
\<close>

definition close_candidate ::
  "core \<Rightarrow> operation_id \<Rightarrow> failure_payload \<Rightarrow> event_record \<Rightarrow> active_operation
     \<Rightarrow> candidate res" where
  "close_candidate c op p frec a =
     (let added_bytes = record_size frec
      in if \<not> within_operation_bounds a added_bytes then Inl RuntimeQuota
         else
           let records = op_records a @ [frec]
           in bind_res (ok_or RuntimeQuota (u16_try_from (length records))) (\<lambda>count.
              bind_res (make_event_record c Terminal count
                  (TerminalEventPayload \<lparr>terminal_complete = True, terminal_event_count = count\<rparr>))
                (\<lambda>trec.
              if saturating_add (saturating_add (op_bytes a) added_bytes) (record_size trec)
                   > MAX_OPERATION_BYTES
              then Inl RuntimeQuota
              else
                let cand =
                  \<lparr>cand_campaign_context = op_campaign_context a,
                   cand_capture_id = start_capture_id (op_start a),
                   cand_deployment = start_deployment (op_start a),
                   cand_discovery_source =
                     (if op_discovery_source a \<noteq> Production then Some (op_discovery_source a)
                      else None),
                   cand_failure = fp_failure p,
                   cand_operation_id = op,
                   cand_processing_mode = dep_processing_mode (start_deployment (op_start a)),
                   cand_records = records @ [trec],
                   cand_world_id = start_world_id (op_start a)\<rparr>
                in bind_res (validate_candidate c cand) (\<lambda>_. Inr cand))))"

definition bump_eligible :: "recall_counters \<Rightarrow> recall_counters" where
  "bump_eligible k =
     k\<lparr>rc_eligible_failure_observed := saturating_add (rc_eligible_failure_observed k) 1\<rparr>"

definition bump_exact :: "recall_counters \<Rightarrow> recall_counters" where
  "bump_exact k = k\<lparr>rc_suppressed_exact_storm := saturating_add (rc_suppressed_exact_storm k) 1\<rparr>"

definition bump_high :: "recall_counters \<Rightarrow> recall_counters" where
  "bump_high k = k\<lparr>rc_suppressed_high_cardinality_storm :=
     saturating_add (rc_suppressed_high_cardinality_storm k) 1\<rparr>"

definition bump_queue_full :: "recall_counters \<Rightarrow> recall_counters" where
  "bump_queue_full k =
     k\<lparr>rc_candidate_queue_full := saturating_add (rc_candidate_queue_full k) 1\<rparr>"

text \<open>The hand-off to the sink, from \<open>reserve_candidate_handoff\<close> on.\<close>

definition hand_off ::
  "core \<Rightarrow> 's candidate_sink \<Rightarrow> candidate \<Rightarrow> bytes \<Rightarrow> recall_counters \<Rightarrow> process_resources \<Rightarrow> 's
     \<Rightarrow> unit res \<times> recall_counters \<times> process_resources \<times> 's" where
  "hand_off c sink cand bs k r s =
     (if length bs > MAX_OPERATION_BYTES then (Inl RuntimeQuota, bump_queue_full k, r, s)
      else case reserve_candidate_handoff (cand_capture_id cand) (length bs) r of
          (False, r1) \<Rightarrow> (Inl RuntimeQuota, bump_queue_full k, r1, s)
        | (True, r1) \<Rightarrow>
            let (sent, r2, s') = sink_try_send sink cand r1 s;
                retained = (sink_retains_queued_candidates sink
                            \<and> candidate_is_retained (cand_capture_id cand) r2);
                r3 = (if retained then r2 else release_candidate (cand_capture_id cand) r2)
            in if \<not> sent \<or> sink_retains_queued_candidates sink \<and> \<not> retained
               then (Inl RuntimeQuota, k, r3, s')
               else (Inr (), k, r3, s'))"

text \<open>
  \<open>fail\<close> is two critical sections.  The second, \<open>fail_commit\<close>, removes the operation and gives
  back its bytes before it builds the candidate; other threads may run in between, so it takes
  the Failure record of the first as an argument.
\<close>

definition fail_commit ::
  "core \<Rightarrow> 's candidate_sink \<Rightarrow> nat \<Rightarrow> operation_id \<Rightarrow> failure_payload \<Rightarrow> event_record
     \<Rightarrow> sdk \<Rightarrow> process_resources \<Rightarrow> 's \<Rightarrow> unit res \<times> sdk \<times> process_resources \<times> 's" where
  "fail_commit c sink now_ms op p frec sd r s =
     (case bt_get (sdk_operations sd) op of
        None \<Rightarrow> (Inl IncompleteCandidate, sd, r, s)
      | Some a \<Rightarrow>
          let (sd1, r1) = state_delete op sd r
          in case close_candidate c op p frec a of
               Inl e \<Rightarrow> (Inl e, sd1, r1, s)
             | Inr cand \<Rightarrow>
                 case failure_storm_key c cand of
                   Inl e \<Rightarrow> (Inl e, sd1, r1, s)
                 | Inr key \<Rightarrow>
                     case admit_storm now_ms key r1 of
                       (SuppressedExact, r2) \<Rightarrow>
                         (Inr (), sd1\<lparr>sdk_recall := bump_exact (sdk_recall sd1)\<rparr>, r2, s)
                     | (SuppressedHighCardinality, r2) \<Rightarrow>
                         (Inr (), sd1\<lparr>sdk_recall := bump_high (sdk_recall sd1)\<rparr>, r2, s)
                     | (Admitted, r2) \<Rightarrow>
                         case canonical_candidate c cand of
                           Inl e \<Rightarrow> (Inl e, sd1, r2, s)
                         | Inr bs \<Rightarrow>
                             let (res, k, r3, s') = hand_off c sink cand bs (sdk_recall sd1) r2 s
                             in (res, sd1\<lparr>sdk_recall := k\<rparr>, r3, s'))"

definition sdk_fail ::
  "core \<Rightarrow> 's candidate_sink \<Rightarrow> nat \<Rightarrow> operation_id \<Rightarrow> failure_payload
     \<Rightarrow> sdk \<Rightarrow> process_resources \<Rightarrow> 's \<Rightarrow> unit res \<times> sdk \<times> process_resources \<times> 's" where
  "sdk_fail c sink now_ms op p sd r s =
     (let sd1 = sd\<lparr>sdk_recall := bump_eligible (sdk_recall sd)\<rparr>
      in case failure_record c op p sd1 of
           Inl e \<Rightarrow> (Inl e, sd1, r, s)
         | Inr frec \<Rightarrow> fail_commit c sink now_ms op p frec sd1 r s)"

definition active_operations :: "sdk \<Rightarrow> nat" where
  "active_operations sd = length (sdk_operations sd)"

definition sdk_recall_counters :: "'s candidate_sink \<Rightarrow> sdk \<Rightarrow> 's \<Rightarrow> recall_counters" where
  "sdk_recall_counters sink sd s = merge_counters (sdk_recall sd) (sink_recall_counters sink s)"

text \<open>Dropping the state releases every operation it still holds.\<close>

fun release_all :: "operation_id list \<Rightarrow> process_resources \<Rightarrow> process_resources" where
  "release_all [] r = r"
| "release_all (op # ops) r = release_all ops (release_operation op r)"

definition drop_state :: "sdk \<Rightarrow> process_resources \<Rightarrow> process_resources" where
  "drop_state sd r = release_all (map fst (sdk_operations sd)) r"

end
