(* ===== verification/Sdk_Safety.thy ===== *)
theory Sdk_Safety
  imports Sdk_Core
begin

text \<open>
  The invariant of the capture state machine, that every operation keeps it, and the contract
  of the candidate sink under which \<open>fail\<close> keeps it too.  The invariant couples three records
  of the same bytes: the operation's own count, the SDK's total, and the process ledger.
\<close>

section \<open>The invariant\<close>

definition log_ok :: "active_operation \<Rightarrow> bool" where
  "log_ok a \<longleftrightarrow>
     op_bytes a = sum_list (map record_size (op_records a))
     \<and> map er_sequence (op_records a) = [0..<length (op_records a)]
     \<and> (\<exists>first rest. op_records a = first # rest \<and> er_kind first = Begin
          \<and> (\<forall>rec \<in> set rest. er_kind rec \<notin> {Begin, Failure, Terminal}))
     \<and> length (op_records a) \<le> MAX_EVENTS"

definition sdk_inv :: "sdk \<Rightarrow> process_resources \<Rightarrow> bool" where
  "sdk_inv sd r \<longleftrightarrow>
     ledger_ok r \<and> bt_ok (sdk_operations sd)
     \<and> sdk_global_bytes sd = bt_total op_bytes (sdk_operations sd)
     \<and> (\<forall>op a. bt_get (sdk_operations sd) op = Some a \<longrightarrow>
          bt_get (pr_active r) op = Some (op_bytes a) \<and> log_ok a)"

lemma sdk_inv_new: "ledger_ok r \<Longrightarrow> sdk_inv (new_sdk source) r"
  by (simp add: sdk_inv_def new_sdk_def)

lemma bt_total_keys:
  "bt_ok m \<Longrightarrow> bt_total w m = (\<Sum>k \<in> fst ` set m. w (the (bt_get m k)))"
proof (induction m)
  case Nil
  show ?case by simp
next
  case (Cons e m)
  obtain k v where e: "e = (k, v)" by (cases e)
  have fresh: "k \<notin> fst ` set m" and ok: "bt_ok m"
    using Cons.prems bt_ok_distinct [of "e # m"] bt_ok_tl by (auto simp: e)
  have "(\<Sum>x \<in> fst ` set m. w (the (bt_get (e # m) x))) = (\<Sum>x \<in> fst ` set m. w (the (bt_get m x)))"
    using fresh by (intro sum.cong) (auto simp: e)
  then show ?case using fresh Cons.IH [OF ok] by (simp add: e)
qed

lemma bt_total_submap:
  assumes "bt_ok m" "bt_ok h" and sub: "\<And>k v. bt_get m k = Some v \<Longrightarrow> bt_get h k = Some (w v)"
  shows "bt_total w m \<le> bt_total id h"
proof -
  have keys: "fst ` set m \<subseteq> fst ` set h"
  proof
    fix k assume "k \<in> fst ` set m"
    then obtain v where "bt_get m k = Some v" by (metis bt_get_None_iff option.exhaust)
    from sub [OF this] show "k \<in> fst ` set h" by (metis bt_get_None_iff option.distinct(1))
  qed
  have "w (the (bt_get m k)) = the (bt_get h k)" if "k \<in> fst ` set m" for k
    using that sub by (metis bt_get_None_iff option.exhaust_sel option.sel)
  then have "bt_total w m = (\<Sum>k \<in> fst ` set m. the (bt_get h k))"
    using bt_total_keys [OF assms(1)] by simp
  also have "\<dots> \<le> (\<Sum>k \<in> fst ` set h. the (bt_get h k))"
    using keys by (intro sum_mono2) auto
  finally show ?thesis using bt_total_keys [OF assms(2), of id] by simp
qed

lemma sdk_inv_ledger: "sdk_inv sd r \<Longrightarrow> ledger_ok r"
  by (simp add: sdk_inv_def)

lemma sdk_inv_bt: "sdk_inv sd r \<Longrightarrow> bt_ok (sdk_operations sd)"
  by (simp add: sdk_inv_def)

lemma sdk_inv_op:
  "sdk_inv sd r \<Longrightarrow> bt_get (sdk_operations sd) op = Some a \<Longrightarrow>
     bt_get (pr_active r) op = Some (op_bytes a) \<and> log_ok a"
  by (simp add: sdk_inv_def)

lemma sdk_inv_global_le:
  assumes "sdk_inv sd r" shows "sdk_global_bytes sd \<le> pr_active_bytes r"
proof -
  have ok: "ledger_ok r" using assms by (rule sdk_inv_ledger)
  have "bt_total op_bytes (sdk_operations sd) \<le> bt_total id (pr_active r)"
    using assms ledger_ok_bt(1) [OF ok] by (intro bt_total_submap) (auto simp: sdk_inv_def)
  then show ?thesis using assms ok by (simp add: sdk_inv_def ledger_ok_def)
qed

lemma saturating_bound:
  "saturating_add a b \<le> MAX_OPERATION_BYTES \<longleftrightarrow> a + b \<le> MAX_OPERATION_BYTES"
  by (auto simp: saturating_add_def limits)

lemma within_bounds_iff:
  "within_operation_bounds a n \<longleftrightarrow>
     length (op_records a) < MAX_EVENTS \<and> op_bytes a + n \<le> MAX_OPERATION_BYTES"
  by (simp add: within_operation_bounds_def saturating_bound)

lemma make_event_record_Inr:
  "make_event_record c kind q p = Inr rec \<Longrightarrow>
     er_kind rec = kind \<and> er_sequence rec = q
     \<and> (\<exists>bs. canonical_payload c p = Inr bs \<and> length bs \<le> MAX_EVENT_BYTES
            \<and> er_payload rec = encode_base64url c bs)"
  by (auto simp: make_event_record_def bind_res_eq_Inr split: if_splits)

section \<open>What the ledger does to an operation's entry\<close>

lemma reserve_operation_success:
  assumes "ledger_ok r" and "reserve_operation op n r = (True, r')"
  shows "bt_get (pr_active r) op = None"
    and "bt_get (pr_active r') k = (if k = op then Some n else bt_get (pr_active r) k)"
    and "pr_active_bytes r' = pr_active_bytes r + n"
    and "pr_active_bytes r + n \<le> MAX_GLOBAL_BYTES"
    and "pr_candidates r' = pr_candidates r"
  using assms over_global_bytes_iff [of r n]
  by (auto simp: reserve_operation_def bt_contains_def wrapping_add_in_budget split: if_splits)

lemma reserve_operation_failure: "reserve_operation op n r = (False, r') \<Longrightarrow> r' = r"
  by (auto simp: reserve_operation_def split: if_splits)

lemma grow_operation_success:
  assumes "ledger_ok r" and "grow_operation op n r = (True, r')" and "bt_get (pr_active r) op = Some b"
  shows "bt_get (pr_active r') k = (if k = op then Some (b + n) else bt_get (pr_active r) k)"
    and "pr_active_bytes r' = pr_active_bytes r + n"
    and "pr_active_bytes r + n \<le> MAX_GLOBAL_BYTES"
    and "pr_candidates r' = pr_candidates r"
  using assms over_global_bytes_iff [of r n] active_le_total [of r op b]
  by (auto simp: grow_operation_def wrapping_add_in_budget saturating_add_in_budget split: if_splits)

lemma grow_operation_failure: "grow_operation op n r = (False, r') \<Longrightarrow> r' = r"
  by (auto simp: grow_operation_def split: if_splits option.splits)

lemma release_operation_get:
  "ledger_ok r \<Longrightarrow>
     bt_get (pr_active (release_operation op r)) k = (if k = op then None else bt_get (pr_active r) k)"
  using ledger_ok_bt(1) [of r] by (auto simp: release_operation_def split: option.split)

lemma release_operation_candidates [simp]:
  "pr_candidates (release_operation op r) = pr_candidates r"
  by (simp add: release_operation_def split: option.split)

section \<open>Every operation keeps the invariant\<close>

lemma state_delete_inv:
  assumes "sdk_inv sd r" and "state_delete op sd r = (sd', r')"
  shows "sdk_inv sd' r'"
    and "bt_get (sdk_operations sd') k = (if k = op then None else bt_get (sdk_operations sd) k)"
proof -
  note ok = sdk_inv_ledger [OF assms(1)] and bt = sdk_inv_bt [OF assms(1)]
  have *: "sdk_inv sd' r' \<and>
      bt_get (sdk_operations sd') k = (if k = op then None else bt_get (sdk_operations sd) k)"
  proof (cases "bt_get (sdk_operations sd) op")
    case None
    then show ?thesis using assms by (auto simp: state_delete_def)
  next
    case (Some a)
    then have s: "sd' = sd\<lparr>sdk_operations := bt_remove op (sdk_operations sd),
        sdk_global_bytes := sdk_global_bytes sd - op_bytes a\<rparr>" and r: "r' = release_operation op r"
      using assms(2) by (auto simp: state_delete_def)
    have "bt_total op_bytes (bt_remove op (sdk_operations sd)) = sdk_global_bytes sd - op_bytes a"
      using bt.total_del_eq [OF bt Some, of op_bytes] assms(1) by (simp add: sdk_inv_def)
    then show ?thesis
      using assms(1) ok bt Some
      by (auto simp: s r sdk_inv_def release_operation_get intro!: release_operation_ok split: if_splits)
  qed
  show "sdk_inv sd' r'" using * by blast
  show "bt_get (sdk_operations sd') k = (if k = op then None else bt_get (sdk_operations sd) k)"
    using * by blast
qed

lemma sdk_inv_recall [simp]: "sdk_inv (sd\<lparr>sdk_recall := k\<rparr>) r \<longleftrightarrow> sdk_inv sd r"
  by (simp add: sdk_inv_def)

lemma state_delete_recall: "state_delete op sd r = (sd', r') \<Longrightarrow> sdk_recall sd' = sdk_recall sd"
  by (auto simp: state_delete_def split: option.splits)

lemma abandon_incomplete_inv:
  assumes "sdk_inv sd r" and "abandon_incomplete op sd r = (sd', r')"
  shows "sdk_inv sd' r'"
  using assms state_delete_inv(1) [OF assms(1), of op]
  by (auto simp: abandon_incomplete_def bump_incomplete_def split: if_splits prod.splits)

lemma begin_inner_inv:
  assumes inv: "sdk_inv sd r" and step: "begin_inner c start p bound ctx sd r = (res, sd', r')"
  shows "sdk_inv sd' r'"
proof (cases res)
  case (Inl e)
  then have "sd' = sd \<and> r' = r"
    using step
    by (auto simp: begin_inner_def Let_def dest: reserve_operation_failure
        split: sum.splits if_splits prod.splits bool.splits)
  with inv show ?thesis by simp
next
  case (Inr u)
  let ?op = "start_operation_id start"
  obtain rec source cc where rec: "make_event_record c Begin 0 (BeginPayload p) = Inr rec"
    and res: "reserve_operation ?op (record_size rec) r = (True, r')"
    and sd': "sd' = sd\<lparr>sdk_global_bytes := wrapping_add (sdk_global_bytes sd) (record_size rec),
       sdk_operations := bt_insert ?op
         \<lparr>op_bytes = record_size rec, op_campaign_context = cc, op_discovery_source = source,
          op_records = [rec], op_start = start, op_world_bound = bound\<rparr> (sdk_operations sd)\<rparr>"
    and fresh: "bt_get (sdk_operations sd) ?op = None"
    using step Inr
    by (auto simp: begin_inner_def Let_def bt_contains_def
        split: sum.splits if_splits prod.splits bool.splits)
  note ok = sdk_inv_ledger [OF inv] and get = reserve_operation_success [OF sdk_inv_ledger [OF inv] res]
  have "ledger_ok r'" using reserve_operation_ok [OF ok, of ?op "record_size rec"] res by simp
  moreover have "wrapping_add (sdk_global_bytes sd) (record_size rec) = sdk_global_bytes sd + record_size rec"
    using sdk_inv_global_le [OF inv] get(4) by (intro wrapping_add_in_budget) simp
  moreover have "er_kind rec = Begin" "er_sequence rec = 0"
    using make_event_record_Inr [OF rec] by auto
  ultimately show ?thesis
    using inv fresh get(1,2)
    by (auto simp: sd' sdk_inv_def bt.total_fresh log_ok_def limits)
qed

lemma bind_automatic_world_inv:
  assumes "sdk_inv sd r" and "bind_automatic_world op w sd = (res, sd')"
  shows "sdk_inv sd' r"
  using assms
  by (auto simp: bind_automatic_world_def sdk_inv_def log_ok_def bt.total_same
      split: option.splits if_splits)

lemma log_ok_append:
  assumes "log_ok a" and "er_sequence rec = length (op_records a)"
    and "er_kind rec \<notin> {Begin, Failure, Terminal}"
    and "length (op_records a) < MAX_EVENTS"
  shows "log_ok (a\<lparr>op_bytes := op_bytes a + record_size rec, op_records := op_records a @ [rec]\<rparr>)"
  using assms by (auto simp: log_ok_def)

lemma sdk_append_inv:
  assumes inv: "sdk_inv sd r" and kind: "kind \<notin> {Begin, Failure, Terminal}"
    and step: "sdk_append c op kind p sd r = (res, sd', r')"
  shows "sdk_inv sd' r'"
proof (cases "bt_get (sdk_operations sd) op")
  case None
  then show ?thesis using step inv by (simp add: sdk_append_def)
next
  case (Some a)
  note ok = sdk_inv_ledger [OF inv] and op = sdk_inv_op [OF inv Some]
  show ?thesis
  proof (cases "bind_res (ok_or RuntimeQuota (u16_try_from (length (op_records a))))
      (\<lambda>q. make_event_record c kind q p)")
    case (Inl e)
    then show ?thesis using step inv Some by (simp add: sdk_append_def)
  next
    case (Inr rec)
    then have rec: "make_event_record c kind (length (op_records a)) p = Inr rec"
      by (auto simp: bind_res_eq_Inr)
    show ?thesis
    proof (cases "within_operation_bounds a (record_size rec) \<and> fst (grow_operation op (record_size rec) r)")
      case False
      then have "state_delete op sd r = (sd', r')"
        using step Some Inr grow_operation_failure [of op "record_size rec" r]
        by (auto simp: sdk_append_def Let_def split: if_splits prod.splits bool.splits)
      then show ?thesis by (rule state_delete_inv(1) [OF inv])
    next
      case True
      then have bounds: "within_operation_bounds a (record_size rec)"
        and grow: "grow_operation op (record_size rec) r = (True, r')"
        and sd': "sd' = sd\<lparr>sdk_operations := bt_insert op
             (a\<lparr>op_bytes := wrapping_add (op_bytes a) (record_size rec),
                op_records := op_records a @ [rec]\<rparr>) (sdk_operations sd),
             sdk_global_bytes := wrapping_add (sdk_global_bytes sd) (record_size rec)\<rparr>"
        using step Some Inr
        by (auto simp: sdk_append_def Let_def split: if_splits prod.splits bool.splits)
      note get = grow_operation_success [OF ok grow op [THEN conjunct1]]
      have "ledger_ok r'" using grow_operation_ok [OF ok, of op "record_size rec"] grow by simp
      moreover have "wrapping_add (op_bytes a) (record_size rec) = op_bytes a + record_size rec"
        using bounds by (intro wrapping_add_exact) (simp add: within_bounds_iff limits)
      moreover have "wrapping_add (sdk_global_bytes sd) (record_size rec) = sdk_global_bytes sd + record_size rec"
        using sdk_inv_global_le [OF inv] get(3) by (intro wrapping_add_in_budget) simp
      moreover have "log_ok (a\<lparr>op_bytes := op_bytes a + record_size rec, op_records := op_records a @ [rec]\<rparr>)"
        using make_event_record_Inr [OF rec] op kind bounds
        by (intro log_ok_append) (auto simp: within_bounds_iff)
      ultimately show ?thesis
        using inv Some get(1)
        by (auto simp: sd' sdk_inv_def
            bt.total_grow [where w = op_bytes and u = a and d = "record_size rec"])
    qed
  qed
qed

section \<open>Steps of one SDK\<close>

text \<open>
  The state of one SDK in its process: the SDK, the ledger, its sink.  A step is one critical
  section of one call, made by any thread, or anything else in the process that changes the
  ledger: another SDK, a coordinator, the sink's worker.  The environment owns neither this
  SDK's operations nor the candidates its sink retains.
\<close>

type_synonym 's sdk_world = "sdk \<times> process_resources \<times> 's"

definition event_kinds :: "event_kind set" where
  "event_kinds = {Input, Dependency, Observation, ObservationFence}"

inductive sdk_step :: "core \<Rightarrow> 's candidate_sink \<Rightarrow> 's sdk_world \<Rightarrow> 's sdk_world \<Rightarrow> bool"
  for c sink where
  begin_op: "begin_inner c start p bound ctx sd r = (res, sd', r') \<Longrightarrow>
    sdk_step c sink (sd, r, s) (sd', r', s)"
| bind: "bind_automatic_world op w sd = (res, sd') \<Longrightarrow> sdk_step c sink (sd, r, s) (sd', r, s)"
| append: "kind \<in> event_kinds \<Longrightarrow> sdk_append c op kind p sd r = (res, sd', r') \<Longrightarrow>
    sdk_step c sink (sd, r, s) (sd', r', s)"
| delete: "state_delete op sd r = (sd', r') \<Longrightarrow> sdk_step c sink (sd, r, s) (sd', r', s)"
| abandon: "abandon_incomplete op sd r = (sd', r') \<Longrightarrow> sdk_step c sink (sd, r, s) (sd', r', s)"
| observe_failure: "sdk_step c sink (sd, r, s) (sd\<lparr>sdk_recall := bump_eligible (sdk_recall sd)\<rparr>, r, s)"
| commit: "fail_commit c sink now_ms op fp frec sd r s = (res, sd', r', s') \<Longrightarrow>
    sdk_step c sink (sd, r, s) (sd', r', s')"
| environment: "ledger_ok r' \<Longrightarrow>
    (\<And>op. bt_contains (sdk_operations sd) op \<Longrightarrow> bt_get (pr_active r') op = bt_get (pr_active r) op) \<Longrightarrow>
    (\<And>cap. candidate_is_retained cap r \<Longrightarrow> bt_get (pr_candidates r') cap = bt_get (pr_candidates r) cap) \<Longrightarrow>
    sdk_step c sink (sd, r, s) (sd, r', s)"

inductive sdk_reachable ::
  "core \<Rightarrow> 's candidate_sink \<Rightarrow> 's \<Rightarrow> 's sdk_world \<Rightarrow> bool"
  for c sink s0 where
  start: "ledger_ok r \<Longrightarrow> sdk_reachable c sink s0 (new_sdk source, r, s0)"
| step: "sdk_reachable c sink s0 w \<Longrightarrow> sdk_step c sink w w' \<Longrightarrow> sdk_reachable c sink s0 w'"

text \<open>Each operation is within the bound of one operation, if base64url is what it should be.\<close>

definition ops_bounded :: "sdk \<Rightarrow> bool" where
  "ops_bounded sd \<longleftrightarrow>
     (\<forall>op a. bt_get (sdk_operations sd) op = Some a \<longrightarrow> op_bytes a \<le> MAX_OPERATION_BYTES)"

lemma first_record_small:
  assumes "base64_bounded c" and "make_event_record c kind q p = Inr rec"
  shows "record_size rec \<le> MAX_OPERATION_BYTES"
proof -
  obtain bs where bs: "length bs \<le> MAX_EVENT_BYTES" "er_payload rec = encode_base64url c bs"
    using make_event_record_Inr [OF assms(2)] by auto
  have "(length bs + 2) div 3 \<le> (MAX_EVENT_BYTES + 2) div 3"
    using bs(1) by (intro div_le_mono) simp
  then have "length (er_payload rec) \<le> 4 * ((MAX_EVENT_BYTES + 2) div 3)"
    using assms(1) bs(2) by (metis base64_bounded_def le_trans mult_le_mono2)
  then show ?thesis
    using saturating_add_le [of "length (er_payload rec)" 32]
    by (simp add: record_size_def limits)
qed

lemma begin_inner_bounded:
  assumes "base64_bounded c" "ops_bounded sd" "begin_inner c start p bound ctx sd r = (res, sd', r')"
  shows "ops_bounded sd'"
  using assms first_record_small [OF assms(1)]
  by (auto simp: begin_inner_def ops_bounded_def Let_def split: sum.splits if_splits prod.splits bool.splits)

lemma state_delete_bounded:
  assumes "bt_ok (sdk_operations sd)" "ops_bounded sd" "state_delete op sd r = (sd', r')"
  shows "ops_bounded sd'"
  using assms by (auto simp: state_delete_def ops_bounded_def split: option.splits if_splits)

lemma ops_bounded_recall [simp]: "ops_bounded (sd\<lparr>sdk_recall := k\<rparr>) \<longleftrightarrow> ops_bounded sd"
  by (simp add: ops_bounded_def)

lemma sdk_append_bounded:
  assumes "bt_ok (sdk_operations sd)" "ops_bounded sd" "sdk_append c op kind p sd r = (res, sd', r')"
  shows "ops_bounded sd'"
proof -
  have wrap: "wrapping_add x y \<le> MAX_OPERATION_BYTES" if "x + y \<le> MAX_OPERATION_BYTES" for x y
    using that wrapping_add_exact [of x y] by (simp add: limits)
  show ?thesis
    using assms state_delete_bounded [OF assms(1,2)]
    by (auto simp: sdk_append_def Let_def ops_bounded_def within_bounds_iff wrap
        split: option.splits sum.splits if_splits prod.splits bool.splits)
qed

lemma sdk_inv_frame:
  "sdk_inv sd r \<Longrightarrow> ledger_ok r' \<Longrightarrow>
     (\<And>op. bt_contains (sdk_operations sd) op \<Longrightarrow> bt_get (pr_active r') op = bt_get (pr_active r) op) \<Longrightarrow>
     sdk_inv sd r'"
  unfolding sdk_inv_def bt_contains_def by fastforce

lemma reserve_operation_candidates:
  "reserve_operation op n r = (b, r') \<Longrightarrow> pr_candidates r' = pr_candidates r"
  by (auto simp: reserve_operation_def split: if_splits)

lemma grow_operation_candidates:
  "grow_operation op n r = (b, r') \<Longrightarrow> pr_candidates r' = pr_candidates r"
  by (auto simp: grow_operation_def split: if_splits option.splits)

lemma begin_inner_candidates:
  "begin_inner c start p bound ctx sd r = (res, sd', r') \<Longrightarrow> pr_candidates r' = pr_candidates r"
  by (auto simp: begin_inner_def Let_def dest: reserve_operation_candidates
      split: sum.splits if_splits prod.splits bool.splits)

lemma state_delete_candidates:
  "state_delete op sd r = (sd', r') \<Longrightarrow> pr_candidates r' = pr_candidates r"
  by (auto simp: state_delete_def split: option.splits)

lemma abandon_incomplete_candidates:
  "abandon_incomplete op sd r = (sd', r') \<Longrightarrow> pr_candidates r' = pr_candidates r"
  by (auto simp: abandon_incomplete_def dest: state_delete_candidates split: if_splits prod.splits)

lemma sdk_append_candidates:
  "sdk_append c op kind p sd r = (res, sd', r') \<Longrightarrow> pr_candidates r' = pr_candidates r"
  by (auto simp: sdk_append_def Let_def
      dest!: state_delete_candidates grow_operation_candidates
      split: option.splits sum.splits if_splits prod.splits bool.splits)

lemma admit_storm_frame [simp]:
  "pr_active (snd (admit_storm now_ms d r)) = pr_active r"
  "pr_candidates (snd (admit_storm now_ms d r)) = pr_candidates r"
  by (simp_all add: admit_storm_def split: prod.split)

lemma admit_storm_candidates:
  "admit_storm now_ms d r = (x, r') \<Longrightarrow> pr_candidates r' = pr_candidates r"
  by (metis admit_storm_frame(2) snd_conv)

section \<open>The sink's contract\<close>

text \<open>
  What \<open>fail\<close> relies on from a \<open>CandidateSink\<close>: offered a candidate that is in the ledger as a
  hand-off of its size, \<open>try_send\<close> keeps the ledger and its own invariant, touches no operation
  and no other candidate; a sink that retains candidates has claimed the one it accepts, and
  none otherwise.  Its invariant speaks of retained candidates only.
\<close>

locale sink_contract =
  fixes c :: core
    and sink :: "'s candidate_sink"
    and sink_ok :: "process_resources \<Rightarrow> 's \<Rightarrow> bool"
  assumes send_keeps:
      "ledger_ok r \<Longrightarrow> sink_ok r s \<Longrightarrow> canonical_candidate c cand = Inr bs \<Longrightarrow>
       bt_get (pr_candidates r) (cand_capture_id cand)
         = Some \<lparr>entry_bytes = length bs, entry_state = Handoff\<rparr> \<Longrightarrow>
       sink_try_send sink cand r s = (sent, r', s') \<Longrightarrow>
       ledger_ok r' \<and> sink_ok r' s' \<and> pr_active r' = pr_active r"
    and send_others:
      "ledger_ok r \<Longrightarrow> sink_ok r s \<Longrightarrow> canonical_candidate c cand = Inr bs \<Longrightarrow>
       bt_get (pr_candidates r) (cand_capture_id cand)
         = Some \<lparr>entry_bytes = length bs, entry_state = Handoff\<rparr> \<Longrightarrow>
       sink_try_send sink cand r s = (sent, r', s') \<Longrightarrow> cap \<noteq> cand_capture_id cand \<Longrightarrow>
       bt_get (pr_candidates r') cap = bt_get (pr_candidates r) cap"
    and send_accepted:
      "ledger_ok r \<Longrightarrow> sink_ok r s \<Longrightarrow> canonical_candidate c cand = Inr bs \<Longrightarrow>
       bt_get (pr_candidates r) (cand_capture_id cand)
         = Some \<lparr>entry_bytes = length bs, entry_state = Handoff\<rparr> \<Longrightarrow>
       sink_try_send sink cand r s = (True, r', s') \<Longrightarrow> sink_retains_queued_candidates sink \<Longrightarrow>
       bt_get (pr_candidates r') (cand_capture_id cand)
         = Some \<lparr>entry_bytes = length bs, entry_state = Retained\<rparr>"
    and send_unclaimed:
      "ledger_ok r \<Longrightarrow> sink_ok r s \<Longrightarrow> canonical_candidate c cand = Inr bs \<Longrightarrow>
       bt_get (pr_candidates r) (cand_capture_id cand)
         = Some \<lparr>entry_bytes = length bs, entry_state = Handoff\<rparr> \<Longrightarrow>
       sink_try_send sink cand r s = (sent, r', s') \<Longrightarrow>
       \<not> (sent \<and> sink_retains_queued_candidates sink) \<Longrightarrow>
       \<not> candidate_is_retained (cand_capture_id cand) r'"
    and sink_ok_mono:
      "sink_ok r s \<Longrightarrow>
       (\<And>cap. candidate_is_retained cap r \<Longrightarrow>
          bt_get (pr_candidates r') cap = bt_get (pr_candidates r) cap) \<Longrightarrow>
       sink_ok r' s"
begin

lemma release_candidate_get:
  "ledger_ok r \<Longrightarrow> bt_get (pr_candidates (release_candidate cap r)) k
     = (if k = cap then None else bt_get (pr_candidates r) k)"
  using ledger_ok_bt(2) [of r] by (auto simp: release_candidate_def split: option.split)

lemma release_candidate_active [simp]: "pr_active (release_candidate cap r) = pr_active r"
  by (simp add: release_candidate_def split: option.split)

lemma handoff_success:
  assumes "ledger_ok r" and "reserve_candidate_handoff cap n r = (True, r')"
  shows "bt_get (pr_candidates r) cap = None" and "pr_active r' = pr_active r"
    and "bt_get (pr_candidates r') k =
      (if k = cap then Some \<lparr>entry_bytes = n, entry_state = Handoff\<rparr> else bt_get (pr_candidates r) k)"
  using assms by (auto simp: reserve_candidate_handoff_def bt_contains_def split: if_splits)

text \<open>The hand-off keeps everything, and a refused one leaves the candidates as they were.\<close>

lemma hand_off_keeps:
  assumes ok: "ledger_ok r" and sok: "sink_ok r s" and bs: "canonical_candidate c cand = Inr bs"
    and step: "hand_off c sink cand bs k r s = (res, k', r3, s3)"
  shows "ledger_ok r3 \<and> sink_ok r3 s3 \<and> pr_active r3 = pr_active r
    \<and> (\<forall>cap. cap \<noteq> cand_capture_id cand \<longrightarrow> bt_get (pr_candidates r3) cap = bt_get (pr_candidates r) cap)
    \<and> bt_get (pr_candidates r3) (cand_capture_id cand) =
        (if is_ok res \<and> sink_retains_queued_candidates sink
         then Some \<lparr>entry_bytes = length bs, entry_state = Retained\<rparr>
         else bt_get (pr_candidates r) (cand_capture_id cand))"
proof (cases "length bs > MAX_OPERATION_BYTES \<or>
    \<not> fst (reserve_candidate_handoff (cand_capture_id cand) (length bs) r)")
  case True
  then have "r3 = r" "s3 = s" "\<not> is_ok res"
    using step
    by (auto simp: hand_off_def reserve_candidate_handoff_def split: if_splits prod.splits bool.splits)
  then show ?thesis using ok sok by simp
next
  case False
  let ?cap = "cand_capture_id cand"
  obtain r1 where r1: "reserve_candidate_handoff ?cap (length bs) r = (True, r1)"
    using False by (cases "reserve_candidate_handoff ?cap (length bs) r") auto
  note h = handoff_success [OF ok r1]
  have ok1: "ledger_ok r1" using reserve_candidate_handoff_ok [OF ok, of ?cap "length bs"] r1 by simp
  have sok1: "sink_ok r1 s"
    using sok by (rule sink_ok_mono) (auto simp: h candidate_is_retained_def split: option.splits)
  have handed: "bt_get (pr_candidates r1) ?cap = Some \<lparr>entry_bytes = length bs, entry_state = Handoff\<rparr>"
    by (simp add: h)
  obtain sent r2 s2 where send: "sink_try_send sink cand r1 s = (sent, r2, s2)"
    by (cases "sink_try_send sink cand r1 s")
  note keeps = send_keeps [OF ok1 sok1 bs handed send]
  note others = send_others [OF ok1 sok1 bs handed send]
  let ?ret = "sink_retains_queued_candidates sink \<and> candidate_is_retained ?cap r2"
  have out: "s3 = s2" "r3 = (if ?ret then r2 else release_candidate ?cap r2)"
    "is_ok res \<longleftrightarrow> sent \<and> (sink_retains_queued_candidates sink \<longrightarrow> ?ret)"
    using step False r1 send by (auto simp: hand_off_def Let_def split: if_splits)
  have others': "bt_get (pr_candidates r2) cap = bt_get (pr_candidates r) cap" if "cap \<noteq> ?cap" for cap
    using others [OF that] that by (simp add: h)
  show ?thesis
  proof (cases ?ret)
    case True
    then have sent using send_unclaimed [OF ok1 sok1 bs handed send] by auto
    then have "bt_get (pr_candidates r2) ?cap = Some \<lparr>entry_bytes = length bs, entry_state = Retained\<rparr>"
      using send_accepted [OF ok1 sok1 bs handed] send True by simp
    then show ?thesis using True out keeps others' h(2) \<open>sent\<close> by simp
  next
    case False
    have "\<not> candidate_is_retained ?cap r2"
      using False send_unclaimed [OF ok1 sok1 bs handed send] by auto
    then have "sink_ok r3 s2"
      using keeps False
      by (intro sink_ok_mono [of r2 s2 r3]) (auto simp: out(2) release_candidate_get)
    then show ?thesis
      using False out keeps others' h(1,2)
      by (auto simp: release_candidate_get intro: release_candidate_ok)
  qed
qed

text \<open>Failing: the operation is gone and its bytes are given back, whatever the outcome.\<close>

lemma fail_commit_keeps:
  assumes inv: "sdk_inv sd r" and sok: "sink_ok r s"
    and step: "fail_commit c sink now_ms op p frec sd r s = (res, sd', r', s')"
  shows "sdk_inv sd' r' \<and> sink_ok r' s' \<and> (ops_bounded sd \<longrightarrow> ops_bounded sd')
    \<and> (\<forall>k. bt_get (sdk_operations sd') k = (if k = op then None else bt_get (sdk_operations sd) k))
    \<and> (bt_contains (sdk_operations sd) op \<longrightarrow> bt_get (pr_active r') op = None)"
proof (cases "bt_get (sdk_operations sd) op")
  case None
  then show ?thesis using step inv sok by (auto simp: fail_commit_def bt_contains_def)
next
  case (Some a)
  obtain sd1 r1 where del: "state_delete op sd r = (sd1, r1)" by (cases "state_delete op sd r")
  have inv1: "sdk_inv sd1 r1" and gone: "bt_get (sdk_operations sd1) k =
      (if k = op then None else bt_get (sdk_operations sd) k)" for k
    using state_delete_inv [OF inv del] by auto
  have bounded: "ops_bounded sd \<longrightarrow> ops_bounded sd1"
    using state_delete_bounded [OF sdk_inv_bt [OF inv] _ del] by blast
  have free: "bt_get (pr_active r1) op = None"
    using del Some release_operation_get [OF sdk_inv_ledger [OF inv], of op op]
    by (auto simp: state_delete_def)
  have sok1: "sink_ok r1 s"
    using sok state_delete_candidates [OF del] by (intro sink_ok_mono [of r s r1]) auto
  have base: "sdk_inv (sd1\<lparr>sdk_recall := k\<rparr>) r2 \<and> bt_get (pr_active r2) op = None"
    if "ledger_ok r2" "pr_active r2 = pr_active r1" for r2 k
    using sdk_inv_frame [OF inv1 that(1)] free that by simp
  let ?thesis' = "\<lambda>k r2 s2. sd' = sd1\<lparr>sdk_recall := k\<rparr> \<and> r' = r2 \<and> s' = s2
    \<and> ledger_ok r2 \<and> pr_active r2 = pr_active r1 \<and> sink_ok r2 s2"
  have "\<exists>k r2 s2. ?thesis' k r2 s2"
  proof (cases "close_candidate c op p frec a")
    case (Inl e)
    then have "sd' = sd1\<lparr>sdk_recall := sdk_recall sd1\<rparr>" "r' = r1" "s' = s"
      using step Some del by (auto simp: fail_commit_def)
    then show ?thesis using sok1 sdk_inv_ledger [OF inv1] by blast
  next
    case cand: (Inr cand)
    show ?thesis
    proof (cases "failure_storm_key c cand")
      case (Inl e)
      then have "sd' = sd1\<lparr>sdk_recall := sdk_recall sd1\<rparr>" "r' = r1" "s' = s"
        using step Some del cand by (auto simp: fail_commit_def)
      then show ?thesis using sok1 sdk_inv_ledger [OF inv1] by blast
    next
      case key: (Inr key)
      obtain d r2 where storm: "admit_storm now_ms key r1 = (d, r2)"
        by (cases "admit_storm now_ms key r1")
      have r2: "ledger_ok r2" "pr_active r2 = pr_active r1" "pr_candidates r2 = pr_candidates r1"
        using admit_storm_ok [OF sdk_inv_ledger [OF inv1], of now_ms key]
          admit_storm_frame [of now_ms key r1] storm by auto
      have sok2: "sink_ok r2 s" using sok1 r2(3) by (intro sink_ok_mono [of r1 s r2]) auto
      note here = step Some del cand key storm
      show ?thesis
      proof (cases "d = Admitted \<and> is_ok (canonical_candidate c cand)")
        case False
        then have "\<exists>k. sd' = sd1\<lparr>sdk_recall := k\<rparr>" "r' = r2" "s' = s"
          using here
          by (auto simp: fail_commit_def split: storm_decision.splits sum.splits
              intro: exI [of _ "sdk_recall sd1"])
        then show ?thesis using r2 sok2 by blast
      next
        case True
        then obtain bs where bs: "canonical_candidate c cand = Inr bs"
          by (cases "canonical_candidate c cand") auto
        obtain res' k r3 s3 where hand: "hand_off c sink cand bs (sdk_recall sd1) r2 s = (res', k, r3, s3)"
          by (cases "hand_off c sink cand bs (sdk_recall sd1) r2 s")
        have "sd' = sd1\<lparr>sdk_recall := k\<rparr>" "r' = r3" "s' = s3"
          using here True bs hand by (auto simp: fail_commit_def)
        moreover have "ledger_ok r3 \<and> sink_ok r3 s3 \<and> pr_active r3 = pr_active r1"
          using hand_off_keeps [OF r2(1) sok2 bs hand] r2(2) by simp
        ultimately show ?thesis by blast
      qed
    qed
  qed
  then show ?thesis using base gone bounded by fastforce
qed

text \<open>A failed \<open>fail\<close> leaves no trace among the candidates, and the eligible count alone.\<close>

lemma hand_off_eligible:
  "hand_off c sink cand bs k r s = (res, k', r', s') \<Longrightarrow>
     rc_eligible_failure_observed k' = rc_eligible_failure_observed k"
  by (auto simp: hand_off_def Let_def bump_queue_full_def split: if_splits prod.splits bool.splits)

lemma fail_commit_eligible:
  "fail_commit c sink now_ms op p frec sd r s = (res, sd', r', s') \<Longrightarrow>
     rc_eligible_failure_observed (sdk_recall sd') = rc_eligible_failure_observed (sdk_recall sd)"
  by (auto simp: fail_commit_def bump_exact_def bump_high_def
      dest!: state_delete_recall hand_off_eligible
      split: option.splits prod.splits sum.splits storm_decision.splits)

lemma fail_commit_refused:
  assumes inv: "sdk_inv sd r" and sok: "sink_ok r s"
    and step: "fail_commit c sink now_ms op p frec sd r s = (res, sd', r', s')"
    and refused: "\<not> is_ok res"
  shows "bt_get (pr_candidates r') cap = bt_get (pr_candidates r) cap"
proof (cases "bt_get (sdk_operations sd) op")
  case None
  then show ?thesis using step by (auto simp: fail_commit_def)
next
  case (Some a)
  obtain sd1 r1 where del: "state_delete op sd r = (sd1, r1)" by (cases "state_delete op sd r")
  note ok1 = sdk_inv_ledger [OF state_delete_inv(1) [OF inv del]]
  have same1: "pr_candidates r1 = pr_candidates r" by (rule state_delete_candidates [OF del])
  show ?thesis
  proof (cases "\<exists>cand key r2 bs. close_candidate c op p frec a = Inr cand
      \<and> failure_storm_key c cand = Inr key \<and> admit_storm now_ms key r1 = (Admitted, r2)
      \<and> canonical_candidate c cand = Inr bs")
    case False
    then have "pr_candidates r' = pr_candidates r1"
      using step Some del refused
      by (auto simp: fail_commit_def dest!: admit_storm_candidates
          split: sum.splits prod.splits storm_decision.splits)
    then show ?thesis using same1 by simp
  next
    case True
    then obtain cand key r2 bs where here: "close_candidate c op p frec a = Inr cand"
      "failure_storm_key c cand = Inr key" "admit_storm now_ms key r1 = (Admitted, r2)"
      and bs: "canonical_candidate c cand = Inr bs" by blast
    have r2: "ledger_ok r2" "pr_candidates r2 = pr_candidates r1"
      using admit_storm_ok [OF ok1, of now_ms key] admit_storm_frame(2) [of now_ms key r1] here(3)
      by auto
    have "sink_ok r2 s" using sok same1 r2(2) by (intro sink_ok_mono [of r s r2]) simp_all
    moreover obtain k r3 s3 where hand: "hand_off c sink cand bs (sdk_recall sd1) r2 s = (res, k, r3, s3)"
      and "r' = r3"
      using step Some del here bs
      by (cases "hand_off c sink cand bs (sdk_recall sd1) r2 s") (auto simp: fail_commit_def)
    ultimately show ?thesis
      using hand_off_keeps [OF r2(1) _ bs hand] refused r2(2) same1
      by (cases "cap = cand_capture_id cand") auto
  qed
qed

lemma step_keeps:
  assumes "sdk_step c sink w w'" "base64_bounded c"
    and "sdk_inv (fst w) (fst (snd w)) \<and> sink_ok (fst (snd w)) (snd (snd w)) \<and> ops_bounded (fst w)"
  shows "sdk_inv (fst w') (fst (snd w')) \<and> sink_ok (fst (snd w')) (snd (snd w')) \<and> ops_bounded (fst w')"
  using assms
proof (induction rule: sdk_step.induct)
  case (begin_op start p bound ctx sd r res sd' r' s)
  have "sink_ok r' s"
    using begin_op begin_inner_candidates [OF begin_op(1)] by (auto intro: sink_ok_mono [of r s r'])
  then show ?case using begin_op by (auto intro: begin_inner_inv begin_inner_bounded)
next
  case (bind op w sd res sd' r s)
  have "ops_bounded sd'" using bind(1,3)
    by (auto simp: ops_bounded_def bind_automatic_world_def split: option.splits if_splits)
  moreover have "sdk_inv sd r" "sink_ok r s" using bind by simp_all
  ultimately show ?case using bind_automatic_world_inv [OF _ bind(1), of r] by simp
next
  case (append kind op p sd r res sd' r' s)
  then have pre: "sdk_inv sd r" "sink_ok r s" "ops_bounded sd" by simp_all
  have "sink_ok r' s"
    using pre(2) sdk_append_candidates [OF append(2)] by (intro sink_ok_mono [of r s r']) simp_all
  moreover have "kind \<notin> {Begin, Failure, Terminal}" using append(1) by (auto simp: event_kinds_def)
  then have "sdk_inv sd' r'" by (rule sdk_append_inv [OF pre(1) _ append(2)])
  moreover have "ops_bounded sd'"
    by (rule sdk_append_bounded [OF sdk_inv_bt [OF pre(1)] pre(3) append(2)])
  ultimately show ?case by simp
next
  case (delete op sd r sd' r' s)
  then have pre: "sdk_inv sd r" "sink_ok r s" "ops_bounded sd" by simp_all
  have "sink_ok r' s"
    using pre(2) state_delete_candidates [OF delete(1)] by (intro sink_ok_mono [of r s r']) simp_all
  then show ?case
    using state_delete_inv(1) [OF pre(1) delete(1)]
      state_delete_bounded [OF sdk_inv_bt [OF pre(1)] pre(3) delete(1)] by simp
next
  case (abandon op sd r sd' r' s)
  then have pre: "sdk_inv sd r" "sink_ok r s" "ops_bounded sd" by simp_all
  have "sink_ok r' s"
    using pre(2) abandon_incomplete_candidates [OF abandon(1)]
    by (intro sink_ok_mono [of r s r']) simp_all
  moreover have "ops_bounded sd'"
    using abandon(1) state_delete_bounded [OF sdk_inv_bt [OF pre(1)] pre(3), of op r] pre(3)
    by (auto simp: abandon_incomplete_def bump_incomplete_def split: if_splits prod.splits)
  ultimately show ?case using abandon_incomplete_inv [OF pre(1) abandon(1)] by simp
next
  case (observe_failure sd r s)
  then show ?case by simp
next
  case (commit now_ms op fp frec sd r s res sd' r' s')
  then have pre: "sdk_inv sd r" "sink_ok r s" "ops_bounded sd" by simp_all
  from fail_commit_keeps [OF pre(1,2) commit(1)] pre(3) show ?case by simp
next
  case (environment r' sd r s)
  then have pre: "sdk_inv sd r" "sink_ok r s" "ops_bounded sd" by simp_all
  have "sink_ok r' s" using pre(2) environment(3) by (intro sink_ok_mono [of r s r']) simp_all
  moreover have "sdk_inv sd r'"
    using environment(1,2) by (intro sdk_inv_frame [OF pre(1)]) simp_all
  ultimately show ?case using pre(3) by simp
qed

lemma reachable_keeps:
  assumes "base64_bounded c" and "\<And>r. ledger_ok r \<Longrightarrow> sink_ok r s0"
    and "sdk_reachable c sink s0 w"
  shows "sdk_inv (fst w) (fst (snd w)) \<and> sink_ok (fst (snd w)) (snd (snd w)) \<and> ops_bounded (fst w)"
  using assms(3)
proof (induction rule: sdk_reachable.induct)
  case (start r source)
  have "ops_bounded (new_sdk source)" by (simp add: ops_bounded_def new_sdk_def)
  then show ?case using start assms(2) by (simp add: sdk_inv_new)
next
  case (step w w')
  then show ?case using step_keeps assms(1) by blast
qed

end

end
