(* ===== verification/Sdk_Behaviour.thy ===== *)
theory Sdk_Behaviour
  imports Sdk_Safety
begin

text \<open>
  What each call of the SDK does, on every branch, and the form of the candidate that \<open>fail\<close>
  builds.  The statements hold in every state of the invariant \<open>sdk_inv\<close>.
\<close>

section \<open>Begin, append, delete\<close>

text \<open>
  Begin is all or nothing.  A refused begin leaves the SDK and the ledger as they were; an
  accepted one adds exactly one operation whose only record is a Begin record of sequence 0,
  charged with that record's size in the SDK and in the ledger, and deleting the operation at
  once restores both.
\<close>

theorem begin_all_or_nothing:
  assumes inv: "sdk_inv sd r" and step: "begin_inner c start p bound ctx sd r = (res, sd', r')"
  shows "case res of
      Inl e \<Rightarrow> sd' = sd \<and> r' = r
    | Inr _ \<Rightarrow> \<exists>a rec.
        bt_get (sdk_operations sd) (start_operation_id start) = None
        \<and> bt_get (sdk_operations sd') (start_operation_id start) = Some a
        \<and> op_records a = [rec] \<and> er_kind rec = Begin \<and> er_sequence rec = 0
        \<and> op_bytes a = record_size rec \<and> op_world_bound a = bound
        \<and> bt_get (pr_active r') (start_operation_id start) = Some (record_size rec)
        \<and> state_delete (start_operation_id start) sd' r' = (sd, r)"
proof (cases res)
  case (Inl e)
  then show ?thesis
    using step
    by (auto simp: begin_inner_def Let_def dest: reserve_operation_failure
        split: sum.splits if_splits prod.splits bool.splits)
next
  case (Inr u)
  let ?op = "start_operation_id start"
  obtain rec source cc where rec: "make_event_record c Begin 0 (BeginPayload p) = Inr rec"
    and res: "reserve_operation ?op (record_size rec) r = (True, r')"
    and sd': "sd' = sd\<lparr>sdk_global_bytes := wrapping_add (sdk_global_bytes sd) (record_size rec),
       sdk_operations := bt_insert ?op
         \<lparr>op_bytes = record_size rec, op_campaign_context = cc, op_discovery_source = source,
          op_records = [rec], op_start = start, op_world_bound = bound\<rparr> (sdk_operations sd)\<rparr>"
    and fresh: "bt_get (sdk_operations sd) ?op = None"
    using step Inr
    by (auto simp: begin_inner_def Let_def bt_contains_def
        split: sum.splits if_splits prod.splits bool.splits)
  note ok = sdk_inv_ledger [OF inv] and bt = sdk_inv_bt [OF inv]
  note get = reserve_operation_success [OF ok res]
  have wrap: "wrapping_add (sdk_global_bytes sd) (record_size rec) = sdk_global_bytes sd + record_size rec"
    using sdk_inv_global_le [OF inv] get(4) by (intro wrapping_add_in_budget) simp
  have "release_operation ?op r' = r"
    using release_after_reserve [OF ok] res by (metis fst_conv snd_conv)
  then have "state_delete ?op sd' r' = (sd, r)"
    using bt fresh by (simp add: sd' state_delete_def wrap bt_remove_insert_fresh)
  then show ?thesis
    using Inr fresh bt get(2) make_event_record_Inr [OF rec] by (simp add: sd')
qed

text \<open>
  Append is complete on every branch.  On success the operation has exactly one more record,
  with the next sequence number, and the operation, the SDK and the ledger are charged its size.
  A record that cannot be encoded changes nothing and keeps the operation.  A record that no
  longer fits (its operation, or the process) ends the operation, and all its bytes come back.
\<close>

theorem append_outcomes:
  assumes inv: "sdk_inv sd r" and Some: "bt_get (sdk_operations sd) op = Some a"
    and kind: "kind \<in> event_kinds"
    and step: "sdk_append c op kind p sd r = (res, sd', r')"
  shows "case res of
      Inr _ \<Rightarrow> \<exists>rec. er_kind rec = kind \<and> er_sequence rec = length (op_records a)
        \<and> op_bytes a + record_size rec \<le> MAX_OPERATION_BYTES
        \<and> bt_get (sdk_operations sd') op =
            Some (a\<lparr>op_bytes := op_bytes a + record_size rec, op_records := op_records a @ [rec]\<rparr>)
        \<and> bt_get (pr_active r') op = Some (op_bytes a + record_size rec)
        \<and> sdk_global_bytes sd' = sdk_global_bytes sd + record_size rec
        \<and> pr_active_bytes r' = pr_active_bytes r + record_size rec
    | Inl e \<Rightarrow>
        (if is_ok (make_event_record c kind (length (op_records a)) p)
         then e = RuntimeQuota \<and> bt_get (sdk_operations sd') op = None
           \<and> bt_get (pr_active r') op = None
           \<and> sdk_global_bytes sd' + op_bytes a = sdk_global_bytes sd
           \<and> pr_active_bytes r' + op_bytes a = pr_active_bytes r
         else sd' = sd \<and> r' = r)"
proof -
  note ok = sdk_inv_ledger [OF inv] and op = sdk_inv_op [OF inv Some] and bt = sdk_inv_bt [OF inv]
  have seq: "u16_try_from (length (op_records a)) = Some (length (op_records a))"
    using op by (simp add: log_ok_def limits)
  have gone: "case state_delete op sd r of (sd1, r1) \<Rightarrow>
      bt_get (sdk_operations sd1) op = None \<and> bt_get (pr_active r1) op = None
      \<and> sdk_global_bytes sd1 + op_bytes a = sdk_global_bytes sd
      \<and> pr_active_bytes r1 + op_bytes a = pr_active_bytes r"
    using Some op bt inv active_le_total [OF ok, of op] bt.weight_le_total [OF bt Some, of op_bytes]
      release_operation_get [OF ok, of op op]
    by (auto simp: state_delete_def release_operation_def sdk_inv_def)
  show ?thesis
  proof (cases "make_event_record c kind (length (op_records a)) p")
    case (Inl e)
    then show ?thesis using step Some seq by (auto simp: sdk_append_def)
  next
    case (Inr rec)
    show ?thesis
    proof (cases "within_operation_bounds a (record_size rec) \<and> fst (grow_operation op (record_size rec) r)")
      case False
      then have "state_delete op sd r = (sd', r') \<and> res = Inl RuntimeQuota"
        using step Some Inr seq grow_operation_failure [of op "record_size rec" r]
        by (auto simp: sdk_append_def Let_def split: if_splits prod.splits bool.splits)
      then show ?thesis using gone Inr by simp
    next
      case True
      then have bounds: "within_operation_bounds a (record_size rec)"
        and grow: "grow_operation op (record_size rec) r = (True, r')"
        and res: "is_ok res"
        and sd': "sd' = sd\<lparr>sdk_operations := bt_insert op
             (a\<lparr>op_bytes := wrapping_add (op_bytes a) (record_size rec),
                op_records := op_records a @ [rec]\<rparr>) (sdk_operations sd),
             sdk_global_bytes := wrapping_add (sdk_global_bytes sd) (record_size rec)\<rparr>"
        using step Some Inr seq
        by (auto simp: sdk_append_def Let_def split: if_splits prod.splits bool.splits)
      note get = grow_operation_success [OF ok grow op [THEN conjunct1]]
      have "wrapping_add (op_bytes a) (record_size rec) = op_bytes a + record_size rec"
        using bounds by (intro wrapping_add_exact) (simp add: within_bounds_iff limits)
      moreover have "wrapping_add (sdk_global_bytes sd) (record_size rec) = sdk_global_bytes sd + record_size rec"
        using sdk_inv_global_le [OF inv] get(3) by (intro wrapping_add_in_budget) simp
      ultimately show ?thesis
        using res bounds get(1,2) bt make_event_record_Inr [OF Inr]
        by (cases res) (auto simp: sd' within_bounds_iff)
    qed
  qed
qed

end
