(* ===== verification/Sink_Safety.thy ===== *)
theory Sink_Safety
  imports Candidate_Sinks
begin

text \<open>
  Both sinks meet \<open>sink_contract\<close>; the safety of an SDK with its sink and the sink's worker; the
  accounting of every candidate offered to the managed queue.
\<close>

section \<open>Claiming a hand-off\<close>

definition handed :: "capture_id \<Rightarrow> nat \<Rightarrow> process_resources \<Rightarrow> bool" where
  "handed cap n r \<longleftrightarrow>
     bt_get (pr_candidates r) cap = Some \<lparr>entry_bytes = n, entry_state = Handoff\<rparr>"

definition claimed :: "capture_id \<Rightarrow> nat \<Rightarrow> process_resources \<Rightarrow> process_resources" where
  "claimed cap n r =
     r\<lparr>pr_candidates := bt_insert cap \<lparr>entry_bytes = n, entry_state = Retained\<rparr> (pr_candidates r)\<rparr>"

lemma claim_handed: "handed cap n r \<Longrightarrow> claim_candidate cap n r = (True, claimed cap n r)"
  by (simp add: handed_def claim_candidate_def claimed_def)

lemma claimed_ok: "ledger_ok r \<Longrightarrow> handed cap n r \<Longrightarrow> ledger_ok (claimed cap n r)"
  using claim_candidate_ok [of r cap n] claim_handed [of cap n r] by simp

lemma claimed_get:
  "ledger_ok r \<Longrightarrow> bt_get (pr_candidates (claimed cap n r)) k
     = (if k = cap then Some \<lparr>entry_bytes = n, entry_state = Retained\<rparr> else bt_get (pr_candidates r) k)"
  using ledger_ok_bt(2) [of r] by (simp add: claimed_def)

lemma claimed_active [simp]: "pr_active (claimed cap n r) = pr_active r"
  by (simp add: claimed_def)

lemma released_get:
  "ledger_ok r \<Longrightarrow> bt_get (pr_candidates (release_candidate cap r)) k
     = (if k = cap then None else bt_get (pr_candidates r) k)"
  using ledger_ok_bt(2) [of r] by (auto simp: release_candidate_def split: option.split)

lemma released_active [simp]: "pr_active (release_candidate cap r) = pr_active r"
  by (simp add: release_candidate_def split: option.split)

lemma retained_iff:
  "candidate_is_retained cap r \<longleftrightarrow>
     (\<exists>n. bt_get (pr_candidates r) cap = Some \<lparr>entry_bytes = n, entry_state = Retained\<rparr>)"
  by (auto simp: candidate_is_retained_def split: option.split)
    (metis candidate_entry.surjective old.unit.exhaust)

lemma handed_not_retained: "handed cap n r \<Longrightarrow> \<not> candidate_is_retained cap r"
  by (simp add: handed_def candidate_is_retained_def)

text \<open>What can come of offering a handed candidate: it is retained, given back, or untouched.\<close>

definition send_outcome ::
  "capture_id \<Rightarrow> nat \<Rightarrow> process_resources \<Rightarrow> bool \<Rightarrow> process_resources \<Rightarrow> bool" where
  "send_outcome cap n r sent r' \<longleftrightarrow>
     (if sent then r' = claimed cap n r
      else r' = r \<or> r' = release_candidate cap (claimed cap n r))"

lemma send_outcome_laws:
  assumes "ledger_ok r" "handed cap n r" "send_outcome cap n r sent r'"
  shows "ledger_ok r'" and "pr_active r' = pr_active r"
    and "k \<noteq> cap \<Longrightarrow> bt_get (pr_candidates r') k = bt_get (pr_candidates r) k"
    and "sent \<Longrightarrow> bt_get (pr_candidates r') cap = Some \<lparr>entry_bytes = n, entry_state = Retained\<rparr>"
    and "\<not> sent \<Longrightarrow> \<not> candidate_is_retained cap r'"
    and "candidate_is_retained k r \<Longrightarrow> bt_get (pr_candidates r') k = bt_get (pr_candidates r) k"
proof -
  have claimed: "ledger_ok (claimed cap n r)" by (rule claimed_ok [OF assms(1,2)])
  note facts = assms claimed claimed_get [OF assms(1)] released_get [OF claimed]
  show "ledger_ok r'"
    using assms claimed by (auto simp: send_outcome_def release_candidate_ok split: if_splits)
  show "pr_active r' = pr_active r"
    using assms(3) by (auto simp: send_outcome_def split: if_splits)
  show other: "bt_get (pr_candidates r') k = bt_get (pr_candidates r) k" if "k \<noteq> cap" for k
    using facts that by (auto simp: send_outcome_def split: if_splits)
  show "bt_get (pr_candidates r') cap = Some \<lparr>entry_bytes = n, entry_state = Retained\<rparr>" if sent
    using facts that by (simp add: send_outcome_def)
  show "\<not> candidate_is_retained cap r'" if "\<not> sent"
    using facts that handed_not_retained [OF assms(2)]
    by (auto simp: send_outcome_def candidate_is_retained_def)
  show "bt_get (pr_candidates r') k = bt_get (pr_candidates r) k" if "candidate_is_retained k r"
    using other [of k] that handed_not_retained [OF assms(2)] by blast
qed

section \<open>The local recorder meets the contract\<close>

lemma recorder_send:
  assumes "canonical_candidate c cand = Inr bs" "handed (cand_capture_id cand) (length bs) r"
    and "recorder_try_send c own cand r s = (sent, r', s')"
  shows "send_outcome (cand_capture_id cand) (length bs) r sent r'"
    and "sent \<Longrightarrow> lr_candidate s' = Some cand \<and> lr_bytes s' = length bs
           \<and> cand_operation_id cand = own \<and> length bs \<le> MAX_OPERATION_BYTES"
    and "\<not> sent \<Longrightarrow> s' = bump_lr_incomplete s"
  using assms
  by (auto simp: recorder_try_send_def claim_handed send_outcome_def Let_def split: if_splits)

lemma recorder_ok_frame:
  assumes "recorder_ok own r s"
    and "\<And>cap. candidate_is_retained cap r \<Longrightarrow> bt_get (pr_candidates r') cap = bt_get (pr_candidates r) cap"
  shows "recorder_ok own r' s"
proof (cases "lr_candidate s")
  case None
  then show ?thesis using assms(1) by (simp add: recorder_ok_def)
next
  case (Some cand)
  then have "candidate_is_retained (cand_capture_id cand) r"
    using assms(1) by (auto simp: recorder_ok_def retained_iff)
  then show ?thesis using assms Some by (simp add: recorder_ok_def)
qed

lemma recorder_ok_bump [simp]: "recorder_ok own r (bump_lr_incomplete s) \<longleftrightarrow> recorder_ok own r s"
  by (simp add: recorder_ok_def bump_lr_incomplete_def split: option.split)

lemma recorder_send_ok:
  assumes "ledger_ok r" "recorder_ok own r s"
    and cand: "canonical_candidate c cand = Inr bs" "handed (cand_capture_id cand) (length bs) r"
    and step: "recorder_try_send c own cand r s = (sent, r', s')"
  shows "recorder_ok own r' s'"
proof (cases sent)
  case True
  then show ?thesis
    using recorder_send(2) [OF cand step True]
      send_outcome_laws(4) [OF assms(1) cand(2) recorder_send(1) [OF cand step] True]
    by (simp add: recorder_ok_def)
next
  case False
  have "recorder_ok own r' s"
    using assms(2) send_outcome_laws(6) [OF assms(1) cand(2) recorder_send(1) [OF cand step]]
    by (rule recorder_ok_frame)
  then show ?thesis using recorder_send(3) [OF cand step False] by simp
qed

interpretation rec: sink_contract c "recorder_sink c own" "recorder_ok own" for c own
proof (unfold_locales, goal_cases)
  case (1 r s cand bs sent r' s')
  then show ?case
    using recorder_send_ok [of r own s c cand bs sent r' s'] recorder_send(1) [of c cand bs r own s sent r' s']
      send_outcome_laws(1,2) [of r "cand_capture_id cand" "length bs" sent r']
    by (simp add: recorder_sink_def handed_def)
next
  case (2 r s cand bs sent r' s' cap)
  then show ?case
    using recorder_send(1) [of c cand bs r own s sent r' s']
      send_outcome_laws(3) [of r "cand_capture_id cand" "length bs" sent r' cap]
    by (simp add: recorder_sink_def handed_def)
next
  case (3 r s cand bs r' s')
  then show ?case
    using recorder_send(1) [of c cand bs r own s True r' s']
      send_outcome_laws(4) [of r "cand_capture_id cand" "length bs" True r']
    by (simp add: recorder_sink_def handed_def)
next
  case (4 r s cand bs sent r' s')
  then show ?case
    using recorder_send(1) [of c cand bs r own s sent r' s']
      send_outcome_laws(5) [of r "cand_capture_id cand" "length bs" sent r']
    by (simp add: recorder_sink_def handed_def)
next
  case (5 r s r')
  then show ?case by (rule recorder_ok_frame)
qed

section \<open>The managed queue meets the contract\<close>

lemma managed_send:
  assumes "canonical_candidate c cand = Inr bs" "handed (cand_capture_id cand) (length bs) r"
    and "managed_try_send c cfg cand r s = (sent, r', s')" and "queue_ok r s"
  shows "send_outcome (cand_capture_id cand) (length bs) r sent r'"
    and "sent \<Longrightarrow> mq_candidates s < MAX_QUEUED_CANDIDATES \<and> mq_bytes s + length bs \<le> MAX_GLOBAL_BYTES
           \<and> s' = s\<lparr>mq_bytes := mq_bytes s + length bs, mq_candidates := mq_candidates s + 1,
               mq_channel := mq_channel s @
                 [\<lparr>qc_bytes = length bs, qc_candidate = cand, qc_capture_id = cand_capture_id cand,
                   qc_queued_at = mq_clock s\<rparr>]\<rparr>"
    and "\<not> sent \<Longrightarrow> s' = record_incomplete s \<or> s' = record_queue_full s"
proof -
  have small: "mq_candidates s \<le> 16" "mq_bytes s \<le> MAX_GLOBAL_BYTES"
    using assms(4) by (auto simp: queue_ok_def limits)
  have wrap: "wrapping_add (mq_candidates s) 1 = mq_candidates s + 1"
    "mq_bytes s + length bs \<le> MAX_GLOBAL_BYTES \<Longrightarrow>
       wrapping_add (mq_bytes s) (length bs) = mq_bytes s + length bs"
    using small wrapping_add_exact [of "mq_candidates s" 1] wrapping_add_exact [of "mq_bytes s" "length bs"]
    by (simp_all add: limits)
  note defs = managed_try_send_def claim_handed send_outcome_def Let_def channel_try_send_def
    record_incomplete_def record_queue_full_def checked_add_def
  show "send_outcome (cand_capture_id cand) (length bs) r sent r'"
    using assms(1-3) by (auto simp: defs split: if_splits)
  show "mq_candidates s < MAX_QUEUED_CANDIDATES \<and> mq_bytes s + length bs \<le> MAX_GLOBAL_BYTES
      \<and> s' = s\<lparr>mq_bytes := mq_bytes s + length bs, mq_candidates := mq_candidates s + 1,
               mq_channel := mq_channel s @
                 [\<lparr>qc_bytes = length bs, qc_candidate = cand, qc_capture_id = cand_capture_id cand,
                   qc_queued_at = mq_clock s\<rparr>]\<rparr>" if sent
    using assms(1-3) that wrap by (auto simp: defs split: if_splits)
  have restored: "s\<lparr>mq_bytes := mq_bytes s, mq_candidates := mq_candidates s, mq_recall := k\<rparr>
      = s\<lparr>mq_recall := k\<rparr>" for k
    by simp
  show "s' = record_incomplete s \<or> s' = record_queue_full s" if "\<not> sent"
    using assms(1-3) that wrap
    by (auto simp: defs restored split: if_splits)
qed

lemma managed_send_ok:
  assumes "ledger_ok r" "queue_ok r s"
    and cand: "canonical_candidate c cand = Inr bs" "handed (cand_capture_id cand) (length bs) r"
    and step: "managed_try_send c cfg cand r s = (sent, r', s')"
  shows "queue_ok r' s'"
proof -
  note outcome = managed_send(1) [OF cand step assms(2)]
  have frame: "queue_ok r' s"
    using assms(2) send_outcome_laws(6) [OF assms(1) cand(2) outcome] by (rule queue_ok_frame)
  show ?thesis
  proof (cases sent)
    case True
    have "cand_capture_id cand \<notin> qc_capture_id ` set (queue_held s)"
      using assms(2) cand(2) by (auto simp: queue_ok_def handed_def)
    then show ?thesis
      using frame managed_send(2) [OF cand step assms(2) True]
        send_outcome_laws(4) [OF assms(1) cand(2) outcome True]
      by (auto simp: queue_ok_def queue_held_def split: option.splits)
  next
    case False
    then show ?thesis
      using frame managed_send(3) [OF cand step assms(2) False]
      by (auto simp: record_incomplete_def record_queue_full_def)
  qed
qed

interpretation man: sink_contract c "managed_sink c cfg" queue_ok for c cfg
proof (unfold_locales, goal_cases)
  case (1 r s cand bs sent r' s')
  then show ?case
    using managed_send_ok [of r s c cand bs cfg sent r' s'] managed_send(1) [of c cand bs r cfg s sent r' s']
      send_outcome_laws(1,2) [of r "cand_capture_id cand" "length bs" sent r']
    by (simp add: managed_sink_def handed_def)
next
  case (2 r s cand bs sent r' s' cap)
  then show ?case
    using managed_send(1) [of c cand bs r cfg s sent r' s']
      send_outcome_laws(3) [of r "cand_capture_id cand" "length bs" sent r' cap]
    by (simp add: managed_sink_def handed_def)
next
  case (3 r s cand bs r' s')
  then show ?case
    using managed_send(1) [of c cand bs r cfg s True r' s']
      send_outcome_laws(4) [of r "cand_capture_id cand" "length bs" True r']
    by (simp add: managed_sink_def handed_def)
next
  case (4 r s cand bs sent r' s')
  then show ?case
    using managed_send(1) [of c cand bs r cfg s sent r' s']
      send_outcome_laws(5) [of r "cand_capture_id cand" "length bs" sent r']
    by (simp add: managed_sink_def handed_def)
next
  case (5 r s r')
  then show ?case by (rule queue_ok_frame)
qed

section \<open>The worker keeps the queue\<close>

lemma finish_head_ok:
  assumes "ledger_ok r" and ok: "queue_ok r s" and held: "queue_held s = q # queue_held u"
    and u: "mq_in_flight u = None" "mq_bytes u = mq_bytes s" "mq_candidates u = mq_candidates s"
    and step: "finish_queued (qc_capture_id q) (qc_bytes q) r u = (r', s')"
  shows "queue_ok r' s'" and "mq_candidates s = Suc (mq_candidates s')"
proof -
  have r': "r' = release_candidate (qc_capture_id q) r" and s': "s' = u\<lparr>mq_active := False,
      mq_bytes := mq_bytes s - qc_bytes q, mq_candidates := mq_candidates s - 1\<rparr>"
    using step u by (auto simp: finish_queued_def)
  have same: "queue_held s' = queue_held u" by (simp add: s' queue_held_def)
  show "queue_ok r' s'"
    using ok held u(1) released_get [OF assms(1), of "qc_capture_id q"]
    by (auto simp: queue_ok_def same r') (auto simp: s' image_iff)
  show "mq_candidates s = Suc (mq_candidates s')"
    using ok held by (simp add: s' queue_ok_def)
qed

lemma worker_receive_keeps:
  assumes "ledger_ok r" "queue_ok r s" "mq_in_flight s = None" "worker_receive r s = (r', s')"
  shows "queue_ok r' s'"
proof (cases "mq_channel s")
  case Nil
  then show ?thesis using assms by (simp add: worker_receive_def)
next
  case (Cons q rest)
  show ?thesis
  proof (cases "delivery_expired (qc_queued_at q) (mq_clock s)")
    case True
    let ?u = "record_delivery_expired (s\<lparr>mq_channel := rest\<rparr>)"
    have fin: "finish_queued (qc_capture_id q) (qc_bytes q) r ?u = (r', s')"
      using assms(4) Cons True by (simp add: worker_receive_def)
    have "queue_held s = q # queue_held ?u" "mq_in_flight ?u = None" "mq_bytes ?u = mq_bytes s"
      "mq_candidates ?u = mq_candidates s"
      using assms(3) Cons by (simp_all add: queue_held_def record_delivery_expired_def)
    then show ?thesis by (rule finish_head_ok(1) [OF assms(1,2) _ _ _ _ fin])
  next
    case False
    then show ?thesis
      using assms Cons by (auto simp: worker_receive_def queue_ok_def queue_held_def)
  qed
qed

lemma worker_finish_keeps:
  assumes "ledger_ok r" "queue_ok r s" "worker_finish result r s = (r', s')"
  shows "queue_ok r' s'"
proof (cases "mq_in_flight s")
  case None
  then show ?thesis using assms by (simp add: worker_finish_def)
next
  case (Some q)
  let ?u = "s\<lparr>mq_in_flight := None, mq_recall := record_result result (mq_recall s)\<rparr>"
  have fin: "finish_queued (qc_capture_id q) (qc_bytes q) r ?u = (r', s')"
    using assms(3) Some by (simp add: worker_finish_def)
  have "queue_held s = q # queue_held ?u" "mq_in_flight ?u = None" "mq_bytes ?u = mq_bytes s"
    "mq_candidates ?u = mq_candidates s"
    using Some by (simp_all add: queue_held_def)
  then show ?thesis by (rule finish_head_ok(1) [OF assms(1,2) _ _ _ _ fin])
qed

lemma worker_ledger:
  "ledger_ok r \<Longrightarrow> worker_receive r s = (r', s') \<Longrightarrow> ledger_ok r' \<and> pr_active r' = pr_active r"
  "ledger_ok r \<Longrightarrow> worker_finish result r s = (r', s') \<Longrightarrow> ledger_ok r' \<and> pr_active r' = pr_active r"
  by (auto simp: worker_receive_def worker_finish_def finish_queued_def release_candidate_ok
      split: list.splits option.splits if_splits)

section \<open>An SDK, its managed sink and the worker\<close>

text \<open>The worker receives only between deliveries; the clock moves forward.\<close>

inductive managed_reachable :: "core \<Rightarrow> managed_config \<Rightarrow> managed_queue sdk_world \<Rightarrow> bool"
  for c cfg where
  start: "ledger_ok r \<Longrightarrow> managed_reachable c cfg (new_sdk source, r, empty_queue)"
| sdk: "managed_reachable c cfg w \<Longrightarrow> sdk_step c (managed_sink c cfg) w w' \<Longrightarrow>
    managed_reachable c cfg w'"
| receive: "managed_reachable c cfg (sd, r, s) \<Longrightarrow> mq_in_flight s = None \<Longrightarrow>
    worker_receive r s = (r', s') \<Longrightarrow> managed_reachable c cfg (sd, r', s')"
| finish: "managed_reachable c cfg (sd, r, s) \<Longrightarrow> worker_finish result r s = (r', s') \<Longrightarrow>
    managed_reachable c cfg (sd, r', s')"
| tick: "managed_reachable c cfg (sd, r, s) \<Longrightarrow> mq_clock s \<le> t \<Longrightarrow>
    managed_reachable c cfg (sd, r, s\<lparr>mq_clock := t\<rparr>)"

lemma managed_reachable_keeps:
  assumes "managed_reachable c cfg w" and "base64_bounded c"
  shows "sdk_inv (fst w) (fst (snd w)) \<and> queue_ok (fst (snd w)) (snd (snd w)) \<and> ops_bounded (fst w)"
  using assms(1)
proof (induction rule: managed_reachable.induct)
  case (start r source)
  then show ?case by (simp add: sdk_inv_new queue_ok_empty) (simp add: ops_bounded_def new_sdk_def)
next
  case (sdk w w')
  show ?case by (rule man.step_keeps [OF sdk(2) assms(2) sdk(3)])
next
  case (receive sd r s r' s')
  then have pre: "sdk_inv sd r" "queue_ok r s" "ops_bounded sd" by simp_all
  note ok = sdk_inv_ledger [OF pre(1)]
  have "sdk_inv sd r'" using worker_ledger(1) [OF ok receive(3)] by (intro sdk_inv_frame [OF pre(1)]) simp_all
  then show ?case using worker_receive_keeps [OF ok pre(2) receive(2,3)] pre(3) by simp
next
  case (finish sd r s result r' s')
  then have pre: "sdk_inv sd r" "queue_ok r s" "ops_bounded sd" by simp_all
  note ok = sdk_inv_ledger [OF pre(1)]
  have "sdk_inv sd r'" using worker_ledger(2) [OF ok finish(2)] by (intro sdk_inv_frame [OF pre(1)]) simp_all
  then show ?case using worker_finish_keeps [OF ok pre(2) finish(2)] pre(3) by simp
next
  case (tick sd r s t)
  then show ?case by simp
qed

text \<open>
  C32: Safety of an SDK with the managed sink, whatever the callers, the worker and the rest of
  the process do.  The three counts of an operation's bytes agree and stay within their limits;
  the process ledger stays within its limits; the queue holds at most
  \<open>MAX_QUEUED_CANDIDATES\<close> candidates of at most \<open>MAX_GLOBAL_BYTES\<close>, each retained in the ledger
  at its size.
\<close>

theorem managed_sdk_safe:
  assumes "managed_reachable c cfg (sd, r, s)" and "base64_bounded c"
  shows "ledger_ok r \<and> sdk_global_bytes sd = bt_total op_bytes (sdk_operations sd)
    \<and> (\<forall>op a. bt_get (sdk_operations sd) op = Some a \<longrightarrow>
         bt_get (pr_active r) op = Some (op_bytes a) \<and> op_bytes a \<le> MAX_OPERATION_BYTES
         \<and> length (op_records a) \<le> MAX_EVENTS
         \<and> map er_sequence (op_records a) = [0..<length (op_records a)])
    \<and> mq_candidates s = length (queue_held s) \<and> mq_candidates s \<le> MAX_QUEUED_CANDIDATES
    \<and> mq_bytes s \<le> MAX_GLOBAL_BYTES
    \<and> (\<forall>q \<in> set (queue_held s).
         bt_get (pr_candidates r) (qc_capture_id q)
           = Some \<lparr>entry_bytes = qc_bytes q, entry_state = Retained\<rparr>)"
  using managed_reachable_keeps [OF assms]
  unfolding sdk_inv_def queue_ok_def ops_bounded_def log_ok_def fst_conv snd_conv by blast

section \<open>Every candidate offered is accounted for\<close>

definition queue_tally :: "recall_counters \<Rightarrow> nat" where
  "queue_tally k = rc_candidate_delivery_expired k + rc_candidate_durably_accepted k
     + rc_candidate_incomplete k + rc_candidate_queue_full k + rc_candidate_rejected k"

text \<open>A run of the queue in its process, with the number of candidates offered so far.\<close>

inductive queue_run ::
  "core \<Rightarrow> managed_config \<Rightarrow> nat \<Rightarrow> process_resources \<Rightarrow> managed_queue \<Rightarrow> bool"
  for c cfg where
  start: "ledger_ok r \<Longrightarrow> queue_run c cfg 0 r empty_queue"
| offer: "queue_run c cfg n r s \<Longrightarrow> canonical_candidate c cand = Inr bs \<Longrightarrow>
    handed (cand_capture_id cand) (length bs) r \<Longrightarrow>
    managed_try_send c cfg cand r s = (sent, r', s') \<Longrightarrow> queue_run c cfg (Suc n) r' s'"
| receive: "queue_run c cfg n r s \<Longrightarrow> mq_in_flight s = None \<Longrightarrow>
    worker_receive r s = (r', s') \<Longrightarrow> queue_run c cfg n r' s'"
| finish: "queue_run c cfg n r s \<Longrightarrow> worker_finish result r s = (r', s') \<Longrightarrow> queue_run c cfg n r' s'"
| tick: "queue_run c cfg n r s \<Longrightarrow> mq_clock s \<le> t \<Longrightarrow> queue_run c cfg n r (s\<lparr>mq_clock := t\<rparr>)"
| environment: "queue_run c cfg n r s \<Longrightarrow> ledger_ok r' \<Longrightarrow>
    (\<And>cap. candidate_is_retained cap r \<Longrightarrow> bt_get (pr_candidates r') cap = bt_get (pr_candidates r) cap) \<Longrightarrow>
    queue_run c cfg n r' s"

lemma offer_tally:
  assumes "canonical_candidate c cand = Inr bs" "handed (cand_capture_id cand) (length bs) r"
    and "managed_try_send c cfg cand r s = (sent, r', s')" "queue_ok r s"
    and "queue_tally (mq_recall s) + mq_candidates s < U64_MAX"
  shows "queue_tally (mq_recall s') + mq_candidates s' = Suc (queue_tally (mq_recall s) + mq_candidates s)"
proof (cases sent)
  case True
  then show ?thesis using managed_send(2) [OF assms(1-4) True] by simp
next
  case False
  have "s' = record_incomplete s \<or> s' = record_queue_full s"
    by (rule managed_send(3) [OF assms(1-4) False])
  then show ?thesis
    using assms(5) saturating_add_exact [of "rc_candidate_incomplete (mq_recall s)" 1]
      saturating_add_exact [of "rc_candidate_queue_full (mq_recall s)" 1]
    by (auto simp: queue_tally_def record_incomplete_def record_queue_full_def)
qed

lemma record_result_tally:
  assumes "queue_tally k < U64_MAX"
  shows "queue_tally (record_result result k) = Suc (queue_tally k)"
proof -
  have "saturating_add (f k) 1 = Suc (f k)" if "f k \<le> queue_tally k" for f
    using assms that saturating_add_exact [of "f k" 1] by simp
  from this [of rc_candidate_durably_accepted] this [of rc_candidate_incomplete]
    this [of rc_candidate_delivery_expired] this [of rc_candidate_rejected]
  show ?thesis
    by (auto simp: record_result_def queue_tally_def split: option.split)
qed

lemma expired_tally:
  "queue_tally (mq_recall s) < U64_MAX \<Longrightarrow>
     queue_tally (mq_recall (record_delivery_expired s)) = Suc (queue_tally (mq_recall s))"
  using saturating_add_exact [of "rc_candidate_delivery_expired (mq_recall s)" 1]
  by (simp add: record_delivery_expired_def queue_tally_def)

lemma queue_run_ok: "queue_run c cfg n r s \<Longrightarrow> ledger_ok r \<and> queue_ok r s"
proof (induction rule: queue_run.induct)
  case (offer n r s cand bs sent r' s')
  then show ?case
    using managed_send_ok [of r s c cand bs cfg sent r' s'] managed_send(1) [of c cand bs r cfg s sent r' s']
      send_outcome_laws(1) by blast
next
  case (environment n r s r')
  then show ?case using queue_ok_frame by blast
qed (auto simp: queue_ok_empty dest: worker_ledger worker_receive_keeps worker_finish_keeps)

lemma queue_run_tally:
  "queue_run c cfg n r s \<Longrightarrow> n \<le> U64_MAX \<Longrightarrow> queue_tally (mq_recall s) + mq_candidates s = n"
proof (induction rule: queue_run.induct)
  case (start r)
  show ?case by (simp add: empty_queue_def zero_counters_def queue_tally_def)
next
  case (offer n r s cand bs sent r' s')
  then show ?case using queue_run_ok offer_tally [of c cand bs r cfg s sent r' s'] by simp
next
  case (receive n r s r' s')
  note ok = queue_run_ok [OF receive(1)]
  show ?case
  proof (cases "mq_channel s \<noteq> [] \<and> delivery_expired (qc_queued_at (hd (mq_channel s))) (mq_clock s)")
    case False
    then show ?thesis using receive by (auto simp: worker_receive_def split: list.splits if_splits)
  next
    case True
    then obtain q rest where q: "mq_channel s = q # rest" by (cases "mq_channel s") auto
    have fin: "finish_queued (qc_capture_id q) (qc_bytes q) r
        (record_delivery_expired (s\<lparr>mq_channel := rest\<rparr>)) = (r', s')"
      using receive(3) True q by (simp add: worker_receive_def)
    have "mq_candidates s = Suc (mq_candidates s')"
      using ok q receive(2) fin
      by (intro finish_head_ok(2) [of r s q "record_delivery_expired (s\<lparr>mq_channel := rest\<rparr>)" r' s'])
        (auto simp: queue_held_def record_delivery_expired_def)
    moreover have "mq_recall s' = mq_recall (record_delivery_expired (s\<lparr>mq_channel := rest\<rparr>))"
      using fin by (auto simp: finish_queued_def)
    then have "queue_tally (mq_recall s') = Suc (queue_tally (mq_recall s))"
      using receive(4,5) calculation expired_tally [of "s\<lparr>mq_channel := rest\<rparr>"] by simp
    ultimately show ?thesis using receive by simp
  qed
next
  case (finish n r s result r' s')
  note ok = queue_run_ok [OF finish(1)]
  show ?case
  proof (cases "mq_in_flight s")
    case None
    then show ?thesis using finish by (simp add: worker_finish_def)
  next
    case (Some q)
    let ?s1 = "s\<lparr>mq_in_flight := None, mq_recall := record_result result (mq_recall s)\<rparr>"
    have fin: "finish_queued (qc_capture_id q) (qc_bytes q) r ?s1 = (r', s')"
      using finish(2) Some by (simp add: worker_finish_def)
    have less: "mq_candidates s = Suc (mq_candidates s')"
      using ok Some fin
      by (intro finish_head_ok(2) [of r s q ?s1 r' s']) (auto simp: queue_held_def)
    then have "queue_tally (mq_recall s) < U64_MAX" using finish by simp
    moreover have "mq_recall s' = record_result result (mq_recall s)"
      using fin by (auto simp: finish_queued_def)
    ultimately show ?thesis using record_result_tally finish less by simp
  qed
qed simp_all


end
