(* ===== verification/Sdk_Theorems.thy ===== *)
theory Sdk_Theorems
  imports Sink_Safety
begin

text \<open>
  The capture state machine with its sinks: the candidate that \<open>fail\<close> builds, what \<open>fail\<close> does on
  every branch, the end of an SDK, the safety of an SDK with a local recorder, and what the
  retained check of \<open>fail\<close> reports when the worker is faster than the caller.
\<close>

section \<open>Concrete inputs\<close>

definition demo_binding :: subject_binding where
  "demo_binding = \<lparr>sb_artifact_digest = Digest 30,
     sb_artifact_media_type = ''application/vnd.reproit.subject-closure.v1+json'', sb_artifact_uri = ''s'',
     sb_architecture = ''x'', sb_operating_system = ''l'', sb_arguments = [], sb_environment_names = [],
     sb_executable = ''app'', sb_working_directory = ''w''\<rparr>"

definition demo_deployment :: deployment where
  "demo_deployment = \<lparr>dep_organization_id = 1, dep_processing_mode = Managed, dep_project_id = 2,
     dep_repository_id = ''r'', dep_runtime_capabilities = [''x'', ''l''], dep_runtime_endpoint = ''e'',
     dep_service_id = 5, dep_service_path = ''p'', dep_signature = ''sig'', dep_signed_at = ''t'',
     dep_signer_key_id = ''key'', dep_source_revision = ''v'', dep_subject = demo_binding\<rparr>"

definition demo_start :: candidate_start where
  "demo_start = \<lparr>start_capture_id = CaptureId 1, start_deployment = demo_deployment,
     start_operation_id = OperationId 7, start_world_id = Digest 9\<rparr>"

definition demo_begin :: begin_payload where
  "demo_begin = \<lparr>begin_campaign_context = None, begin_operation_kind = RequestResponse,
     begin_operation_name = ''orders'', begin_rest = []\<rparr>"

definition demo_failure :: failure_payload where
  "demo_failure = \<lparr>fp_failure = \<lparr>fr_identity = Digest 4, fr_rest = []\<rparr>, fp_identity = []\<rparr>"

definition demo_config :: managed_config where
  "demo_config = \<lparr>mc_operation_id = None, mc_service_id = 5, mc_workload_key_id = ''key'',
     mc_verify_deployment = (\<lambda>_. Inr ())\<rparr>"

definition demo_sdk :: sdk where
  "demo_sdk = fst (snd (sdk_begin demo_core demo_start demo_begin (new_sdk Production) new_resources))"

definition demo_resources :: process_resources where
  "demo_resources =
     snd (snd (sdk_begin demo_core demo_start demo_begin (new_sdk Production) new_resources))"

lemma demo_begin_inner:
  "begin_inner demo_core demo_start demo_begin True None (new_sdk Production) new_resources
     = (Inr (), demo_sdk, demo_resources)"
  by (simp add: demo_sdk_def demo_resources_def sdk_begin_def) code_simp

lemma demo_inv: "sdk_inv demo_sdk demo_resources"
  using begin_inner_inv [OF sdk_inv_new [OF ledger_ok_new] demo_begin_inner] .

definition demo_operation :: active_operation where
  "demo_operation = the (bt_get (sdk_operations demo_sdk) (OperationId 7))"

lemma demo_present: "bt_get (sdk_operations demo_sdk) (OperationId 7) = Some demo_operation"
  unfolding demo_operation_def demo_sdk_def by code_simp

text \<open>Witnesses of the properties of begin and append.\<close>

theorem begin_all_or_nothing_witness:
  "state_delete (OperationId 7) demo_sdk demo_resources = (new_sdk Production, new_resources)"
  using begin_all_or_nothing [OF sdk_inv_new [OF ledger_ok_new] demo_begin_inner]
  by (auto simp: demo_start_def)

definition demo_input :: input_payload where
  "demo_input = \<lparr>input_content_type = ''t'', input_index = 0, input_value = ''v'',
     input_value_digest = Digest 2\<rparr>"

theorem append_outcomes_witness:
  "case record_input demo_core (OperationId 7) demo_input demo_sdk demo_resources of
     (res, sd', r') \<Rightarrow> is_ok res \<and> pr_active_bytes r' > pr_active_bytes demo_resources"
proof -
  obtain res sd' r' where step: "sdk_append demo_core (OperationId 7) Input (InputPayload demo_input)
      demo_sdk demo_resources = (res, sd', r')"
    by (cases "sdk_append demo_core (OperationId 7) Input (InputPayload demo_input) demo_sdk demo_resources")
  have "is_ok (fst (sdk_append demo_core (OperationId 7) Input (InputPayload demo_input)
      demo_sdk demo_resources))"
    unfolding demo_sdk_def demo_resources_def by code_simp
  moreover have "Input \<in> event_kinds" by (simp add: event_kinds_def)
  note append_outcomes [OF demo_inv demo_present this step]
  ultimately show ?thesis
    using step by (cases res) (auto simp: record_input_def record_size_def saturating_add_def limits)
qed

section \<open>The candidate\<close>

lemma close_candidate_Inr:
  assumes "close_candidate c op p frec a = Inr cand"
  obtains trec where
    "within_operation_bounds a (record_size frec)"
    and "make_event_record c Terminal (Suc (length (op_records a)))
       (TerminalEventPayload
         \<lparr>terminal_complete = True, terminal_event_count = Suc (length (op_records a))\<rparr>) = Inr trec"
    and "saturating_add (saturating_add (op_bytes a) (record_size frec)) (record_size trec)
       \<le> MAX_OPERATION_BYTES"
    and "cand_records cand = op_records a @ [frec, trec]"
    and "cand_operation_id cand = op" and "cand_capture_id cand = start_capture_id (op_start a)"
    and "cand_world_id cand = start_world_id (op_start a)" and "cand_failure cand = fp_failure p"
    and "validate_candidate c cand = Inr ()"
  using assms
  by (auto simp: close_candidate_def Let_def bind_res_eq_Inr split: if_splits)

text \<open>
  C22: The candidate of a failed operation is complete and in order.  Its records are numbered
  from 0 without a gap; the first is Begin, the last two are Failure and Terminal, and all
  between are inputs, dependencies, observations or fences; the Terminal record counts the
  records before it; all together fit the bound of one operation; the candidate has passed
  validation and carries the operation's id, capture id, World and failure.
\<close>

theorem candidate_well_formed:
  assumes inv: "sdk_inv sd r" and Some: "bt_get (sdk_operations sd) op = Some a"
    and frec: "failure_record c op p sd = Inr frec"
    and close: "close_candidate c op p frec a = Inr cand"
  shows "\<exists>first rest trec. cand_records cand = first # rest @ [frec, trec]
    \<and> map er_sequence (cand_records cand) = [0..<length (cand_records cand)]
    \<and> er_kind first = Begin \<and> (\<forall>rec \<in> set rest. er_kind rec \<notin> {Begin, Failure, Terminal})
    \<and> er_kind frec = Failure \<and> er_kind trec = Terminal
    \<and> make_event_record c Terminal (length rest + 2)
        (TerminalEventPayload \<lparr>terminal_complete = True, terminal_event_count = length rest + 2\<rparr>)
        = Inr trec
    \<and> length (cand_records cand) \<le> MAX_EVENTS + 1
    \<and> sum_list (map record_size (cand_records cand)) \<le> MAX_OPERATION_BYTES
    \<and> validate_candidate c cand = Inr ()
    \<and> cand_operation_id cand = op \<and> cand_capture_id cand = start_capture_id (op_start a)
    \<and> cand_world_id cand = start_world_id (op_start a) \<and> op_world_bound a
    \<and> cand_failure cand = fp_failure p"
proof -
  have log: "log_ok a" using sdk_inv_op [OF inv Some] by simp
  then obtain first rest where recs: "op_records a = first # rest" and first: "er_kind first = Begin"
    and rest: "\<forall>rec \<in> set rest. er_kind rec \<notin> {Begin, Failure, Terminal}"
    by (auto simp: log_ok_def)
  have bound: "op_world_bound a"
    and f: "make_event_record c Failure (length (op_records a)) (FailureEventPayload p) = Inr frec"
    using frec Some by (auto simp: failure_record_def bind_res_eq_Inr split: if_splits)
  from close obtain trec where t: "within_operation_bounds a (record_size frec)"
    "make_event_record c Terminal (Suc (length (op_records a)))
       (TerminalEventPayload
         \<lparr>terminal_complete = True, terminal_event_count = Suc (length (op_records a))\<rparr>) = Inr trec"
    "saturating_add (saturating_add (op_bytes a) (record_size frec)) (record_size trec)
       \<le> MAX_OPERATION_BYTES"
    "cand_records cand = op_records a @ [frec, trec]"
    "cand_operation_id cand = op" "cand_capture_id cand = start_capture_id (op_start a)"
    "cand_world_id cand = start_world_id (op_start a)" "cand_failure cand = fp_failure p"
    "validate_candidate c cand = Inr ()"
    by (rule close_candidate_Inr)
  note fr = make_event_record_Inr [OF f] and tr = make_event_record_Inr [OF t(2)]
  have "op_bytes a + record_size frec + record_size trec \<le> MAX_OPERATION_BYTES"
    using t(1,3) by (auto simp: within_bounds_iff saturating_add_def limits)
  then have "sum_list (map record_size (cand_records cand)) \<le> MAX_OPERATION_BYTES"
    using log by (simp add: log_ok_def t(4))
  moreover have "map er_sequence (cand_records cand) = [0..<length (cand_records cand)]"
    using log fr tr by (simp add: log_ok_def t(4))
  moreover have "length (cand_records cand) \<le> MAX_EVENTS + 1"
    using t(1) by (simp add: t(4) within_bounds_iff)
  moreover have "cand_records cand = first # rest @ [frec, trec]"
    by (simp add: t(4) recs)
  ultimately show ?thesis
    using first rest fr tr t bound by (intro exI [of _ first] exI [of _ rest] exI [of _ trec]) (simp add: recs)
qed

definition demo_frec :: event_record where
  "demo_frec = \<lparr>er_kind = Failure, er_payload = ''AAA'', er_sequence = 1\<rparr>"

theorem candidate_well_formed_witness:
  "case close_candidate demo_core (OperationId 7) demo_failure demo_frec demo_operation of
     Inl _ \<Rightarrow> False
   | Inr cand \<Rightarrow> map er_sequence (cand_records cand) = [0..<3] \<and> cand_operation_id cand = OperationId 7"
proof -
  have f: "failure_record demo_core (OperationId 7) demo_failure demo_sdk = Inr demo_frec"
    unfolding demo_sdk_def by code_simp
  have "is_ok (close_candidate demo_core (OperationId 7) demo_failure demo_frec demo_operation)"
    and len: "length (op_records demo_operation) = 1"
    unfolding demo_operation_def demo_sdk_def by code_simp+
  then obtain cand where cand:
    "close_candidate demo_core (OperationId 7) demo_failure demo_frec demo_operation = Inr cand"
    by (cases "close_candidate demo_core (OperationId 7) demo_failure demo_frec demo_operation") auto
  have "length (cand_records cand) = 3"
    using cand len by (auto elim!: close_candidate_Inr)
  then show ?thesis
    using candidate_well_formed [OF demo_inv demo_present f cand] cand by auto
qed

section \<open>Failing\<close>

text \<open>
  C23: Failing an operation with the managed sink, on every branch.  The failure is counted.  When
  the operation is unknown, its World is not bound or the failure cannot be recorded, nothing
  else changes.  Otherwise the operation is gone, its bytes are back, and no other operation is
  touched, whatever came of the candidate; and when \<open>fail\<close> reports an error, the process's
  candidates are as they were.
\<close>

theorem fail_outcomes:
  assumes inv: "sdk_inv sd r" and sok: "queue_ok r s"
    and step: "sdk_fail c (managed_sink c cfg) now_ms op p sd r s = (res, sd', r', s')"
  shows "sdk_inv sd' r' \<and> queue_ok r' s'
    \<and> rc_eligible_failure_observed (sdk_recall sd')
        = saturating_add (rc_eligible_failure_observed (sdk_recall sd)) 1
    \<and> (if is_ok (failure_record c op p sd)
       then bt_get (pr_active r') op = None
         \<and> (\<forall>k. bt_get (sdk_operations sd') k = (if k = op then None else bt_get (sdk_operations sd) k))
       else \<not> is_ok res \<and> sdk_operations sd' = sdk_operations sd \<and> r' = r \<and> s' = s)
    \<and> (is_ok res \<or> (\<forall>cap. bt_get (pr_candidates r') cap = bt_get (pr_candidates r) cap))"
proof -
  let ?sd = "sd\<lparr>sdk_recall := bump_eligible (sdk_recall sd)\<rparr>"
  have same: "failure_record c op p ?sd = failure_record c op p sd"
    by (simp add: failure_record_def)
  show ?thesis
  proof (cases "failure_record c op p sd")
    case (Inl e)
    then have "res = Inl e" "sd' = ?sd" "r' = r" "s' = s"
      using step same by (simp_all add: sdk_fail_def)
    then show ?thesis using inv sok Inl by (simp add: bump_eligible_def)
  next
    case (Inr frec)
    then have commit: "fail_commit c (managed_sink c cfg) now_ms op p frec ?sd r s = (res, sd', r', s')"
      using step same by (simp add: sdk_fail_def)
    have inv': "sdk_inv ?sd r" using inv by simp
    have "bt_contains (sdk_operations ?sd) op"
      using Inr by (auto simp: failure_record_def bt_contains_def split: option.splits)
    then show ?thesis
      using man.fail_commit_keeps [OF inv' sok commit]
        man.fail_commit_eligible [OF commit] man.fail_commit_refused [OF inv' sok commit] Inr
      by (auto simp: bump_eligible_def)
  qed
qed

lemma demo_queue_ok: "queue_ok demo_resources empty_queue"
  by (rule queue_ok_empty)

theorem fail_outcomes_witness:
  "case sdk_fail demo_core (managed_sink demo_core demo_config) 0 (OperationId 7) demo_failure
      demo_sdk demo_resources empty_queue of
     (res, sd', r', s') \<Rightarrow> bt_get (pr_active r') (OperationId 7) = None \<and> queue_ok r' s'"
proof -
  have "is_ok (failure_record demo_core (OperationId 7) demo_failure demo_sdk)"
    unfolding demo_sdk_def by code_simp
  then show ?thesis
    using fail_outcomes [OF demo_inv demo_queue_ok, of demo_core demo_config 0 "OperationId 7" demo_failure]
    by (auto split: prod.split)
qed

section \<open>The end of an SDK\<close>

lemma release_all_outside:
  assumes "ledger_ok r"
  shows "ledger_ok (release_all ops r)
    \<and> bt_get (pr_active (release_all ops r)) k = (if k \<in> set ops then None else bt_get (pr_active r) k)
    \<and> pr_candidates (release_all ops r) = pr_candidates r"
  using assms
  by (induction ops arbitrary: r) (simp_all add: release_operation_ok release_operation_get)

lemma release_all_bytes:
  assumes "ledger_ok r" "distinct ops"
    and "\<And>op. op \<in> set ops \<Longrightarrow> bt_get (pr_active r) op = Some (w op)"
  shows "pr_active_bytes (release_all ops r) + sum_list (map w ops) = pr_active_bytes r"
  using assms
proof (induction ops arbitrary: r)
  case Nil
  show ?case by simp
next
  case (Cons op ops)
  let ?r = "release_operation op r"
  have "pr_active_bytes ?r + w op = pr_active_bytes r"
    using Cons.prems active_le_total [OF Cons.prems(1), of op] by (simp add: release_operation_def)
  moreover have "pr_active_bytes (release_all ops ?r) + sum_list (map w ops) = pr_active_bytes ?r"
    using Cons.prems by (intro Cons.IH) (auto simp: release_operation_ok release_operation_get)
  ultimately show ?case by simp
qed

text \<open>
  Dropping an SDK gives back exactly what it holds: afterwards none of its operations is in
  the process ledger, every other operation and every candidate is as before, and the ledger is
  lower by the SDK's own byte count.
\<close>

theorem drop_gives_everything_back:
  assumes inv: "sdk_inv sd r"
  shows "ledger_ok (drop_state sd r)
    \<and> (\<forall>op. bt_get (pr_active (drop_state sd r)) op
         = (if bt_contains (sdk_operations sd) op then None else bt_get (pr_active r) op))
    \<and> pr_candidates (drop_state sd r) = pr_candidates r
    \<and> pr_active_bytes (drop_state sd r) + sdk_global_bytes sd = pr_active_bytes r"
proof -
  note ok = sdk_inv_ledger [OF inv] and bt = sdk_inv_bt [OF inv]
  let ?ops = "map fst (sdk_operations sd)"
  let ?w = "\<lambda>op. op_bytes (the (bt_get (sdk_operations sd) op))"
  have mem: "op \<in> set ?ops \<longleftrightarrow> bt_contains (sdk_operations sd) op" for op
    by (simp add: bt_contains_def bt_get_None_iff)
  have "pr_active_bytes (release_all ?ops r) + sum_list (map ?w ?ops) = pr_active_bytes r"
    using inv mem bt_ok_distinct [OF bt]
    by (intro release_all_bytes [OF ok]) (auto simp: sdk_inv_def bt_contains_def)
  moreover have "sum_list (map ?w ?ops) = bt_total op_bytes (sdk_operations sd)"
    using bt bt_ok_distinct [OF bt]
    by (auto simp: bt_total_def bt_get_set_iff [symmetric] comp_def intro!: arg_cong [of _ _ sum_list])
  ultimately show ?thesis
    using inv release_all_outside [OF ok, of ?ops] mem by (auto simp: drop_state_def sdk_inv_def)
qed

theorem drop_gives_everything_back_witness:
  "pr_active_bytes (drop_state demo_sdk demo_resources) = 0"
proof -
  have "pr_active_bytes demo_resources = sdk_global_bytes demo_sdk"
    unfolding demo_sdk_def demo_resources_def by code_simp
  then show ?thesis using drop_gives_everything_back [OF demo_inv] by simp
qed

section \<open>Witnesses of the managed sink\<close>

lemma demo_reachable: "managed_reachable demo_core demo_config (demo_sdk, demo_resources, empty_queue)"
proof -
  have "sdk_step demo_core (managed_sink demo_core demo_config)
      (new_sdk Production, new_resources, empty_queue) (demo_sdk, demo_resources, empty_queue)"
    by (rule sdk_step.begin_op [OF demo_begin_inner])
  from managed_reachable.sdk [OF managed_reachable.start [OF ledger_ok_new] this] show ?thesis .
qed

theorem managed_sdk_safe_witness:
  "ledger_ok demo_resources \<and> op_bytes demo_operation \<le> MAX_OPERATION_BYTES"
  using managed_sdk_safe [OF demo_reachable demo_core_base64] demo_present by blast

definition demo_candidate :: candidate where
  "demo_candidate =
     \<lparr>cand_campaign_context = None, cand_capture_id = CaptureId 1,
      cand_deployment = demo_deployment, cand_discovery_source = None,
      cand_failure = fp_failure demo_failure, cand_operation_id = OperationId 7,
      cand_processing_mode = Managed, cand_records = [demo_frec, demo_frec], cand_world_id = Digest 9\<rparr>"

definition demo_handed :: process_resources where
  "demo_handed = snd (reserve_candidate_handoff (CaptureId 1) 2 new_resources)"

lemma demo_handed_facts:
  "ledger_ok demo_handed" "handed (CaptureId 1) 2 demo_handed"
  "canonical_candidate demo_core demo_candidate = Inr [7, 7]"
  using reserve_candidate_handoff_ok [OF ledger_ok_new, of "CaptureId 1" 2]
  by (simp_all add: demo_handed_def handed_def demo_core_def demo_candidate_def)
    (code_simp+)

definition demo_queue :: managed_queue where
  "demo_queue = snd (snd (managed_try_send demo_core demo_config demo_candidate demo_handed empty_queue))"


section \<open>An SDK with a local recorder\<close>

text \<open>The adapter takes the failed candidate when the operation has ended.\<close>

inductive recorder_reachable :: "core \<Rightarrow> operation_id \<Rightarrow> local_recorder sdk_world \<Rightarrow> bool"
  for c own where
  start: "ledger_ok r \<Longrightarrow> recorder_reachable c own (new_sdk source, r, empty_recorder)"
| sdk: "recorder_reachable c own w \<Longrightarrow> sdk_step c (recorder_sink c own) w w' \<Longrightarrow>
    recorder_reachable c own w'"
| take: "recorder_reachable c own (sd, r, s) \<Longrightarrow> take_failed_candidate r s = (cand, r', s') \<Longrightarrow>
    recorder_reachable c own (sd, r', s')"

lemma take_failed_candidate_keeps:
  assumes "ledger_ok r" "take_failed_candidate r s = (cand, r', s')"
  shows "ledger_ok r' \<and> pr_active r' = pr_active r \<and> recorder_ok own r' s'"
  using assms
  by (auto simp: take_failed_candidate_def recorder_ok_def release_candidate_ok split: option.splits)

lemma recorder_reachable_keeps:
  assumes "recorder_reachable c own w" and "base64_bounded c"
  shows "sdk_inv (fst w) (fst (snd w)) \<and> recorder_ok own (fst (snd w)) (snd (snd w)) \<and> ops_bounded (fst w)"
  using assms(1)
proof (induction rule: recorder_reachable.induct)
  case (start r source)
  have "ops_bounded (new_sdk source)" by (simp add: ops_bounded_def new_sdk_def)
  moreover have "recorder_ok own r empty_recorder" by (simp add: recorder_ok_def empty_recorder_def)
  ultimately show ?case using start by (simp add: sdk_inv_new)
next
  case (sdk w w')
  show ?case by (rule rec.step_keeps [OF sdk(2) assms(2) sdk(3)])
next
  case (take sd r s cand r' s')
  then have pre: "sdk_inv sd r" "ops_bounded sd" by simp_all
  note keeps = take_failed_candidate_keeps [OF sdk_inv_ledger [OF pre(1)] take(2), of own]
  have "sdk_inv sd r'" using keeps by (intro sdk_inv_frame [OF pre(1)]) simp_all
  then show ?case using keeps pre(2) by simp
qed

text \<open>
  Safety of an SDK with a local recorder.  The ledger and the operations are within their
  limits; the recorder holds a candidate of its own operation only, of at most
  \<open>MAX_OPERATION_BYTES\<close>, retained in the ledger at that size; once the candidate is taken, or
  the recorder dropped, no byte of it is left in the ledger.
\<close>

theorem recorder_sdk_safe:
  assumes "recorder_reachable c own (sd, r, s)" and "base64_bounded c"
  shows "sdk_inv sd r \<and> ops_bounded sd
    \<and> (case lr_candidate s of
         None \<Rightarrow> lr_bytes s = 0
       | Some cand \<Rightarrow>
           cand_operation_id cand = own \<and> lr_bytes s \<le> MAX_OPERATION_BYTES
           \<and> bt_get (pr_candidates r) (cand_capture_id cand)
               = Some \<lparr>entry_bytes = lr_bytes s, entry_state = Retained\<rparr>
           \<and> bt_get (pr_candidates (recorder_drop r s)) (cand_capture_id cand) = None
           \<and> pr_candidate_bytes (recorder_drop r s) + lr_bytes s = pr_candidate_bytes r
           \<and> fst (snd (take_failed_candidate r s)) = recorder_drop r s)"
proof -
  have keeps: "sdk_inv sd r" "recorder_ok own r s" "ops_bounded sd"
    using recorder_reachable_keeps [OF assms] by simp_all
  note ok = sdk_inv_ledger [OF keeps(1)]
  show ?thesis
  proof (cases "lr_candidate s")
    case None
    then show ?thesis using keeps by (simp add: recorder_ok_def)
  next
    case (Some cand)
    let ?entry = "\<lparr>entry_bytes = lr_bytes s, entry_state = Retained\<rparr>"
    have entry: "bt_get (pr_candidates r) (cand_capture_id cand) = Some ?entry"
      using keeps(2) Some by (simp add: recorder_ok_def)
    have "lr_bytes s \<le> pr_candidate_bytes r"
      using bt.weight_le_total [OF ledger_ok_bt(2) [OF ok] entry, of entry_bytes] ok
      by (simp add: ledger_ok_def)
    then have "pr_candidate_bytes (recorder_drop r s) + lr_bytes s = pr_candidate_bytes r"
      using Some entry by (simp add: recorder_drop_def release_candidate_def)
    then show ?thesis
      using keeps Some released_get [OF ok]
      by (simp add: recorder_ok_def recorder_drop_def take_failed_candidate_def)
  qed
qed

lemma demo_recorder_reachable:
  "recorder_reachable demo_core (OperationId 7) (demo_sdk, demo_resources, empty_recorder)"
proof -
  have "sdk_step demo_core (recorder_sink demo_core (OperationId 7))
      (new_sdk Production, new_resources, empty_recorder) (demo_sdk, demo_resources, empty_recorder)"
    by (rule sdk_step.begin_op [OF demo_begin_inner])
  from recorder_reachable.sdk [OF recorder_reachable.start [OF ledger_ok_new] this] show ?thesis .
qed

definition demo_recorder_end :: "unit res \<times> local_recorder sdk_world" where
  "demo_recorder_end = fail_commit demo_core (recorder_sink demo_core (OperationId 7)) 0 (OperationId 7)
     demo_failure demo_frec demo_sdk demo_resources empty_recorder"

theorem recorder_sdk_safe_witness:
  "case demo_recorder_end of (res, sd, r, s) \<Rightarrow>
     lr_bytes s = 3 \<and> bt_get (pr_candidates r) (CaptureId 1)
       = Some \<lparr>entry_bytes = 3, entry_state = Retained\<rparr>
     \<and> bt_get (pr_candidates (recorder_drop r s)) (CaptureId 1) = None"
proof -
  obtain res sd r s where e: "demo_recorder_end = (res, sd, r, s)" by (cases demo_recorder_end)
  have "recorder_reachable demo_core (OperationId 7) (sd, r, s)"
    using recorder_reachable.sdk [OF demo_recorder_reachable sdk_step.commit] e
    unfolding demo_recorder_end_def by blast
  note safe = recorder_sdk_safe [OF this demo_core_base64]
  have "map_option cand_capture_id (lr_candidate (snd (snd (snd demo_recorder_end)))) = Some (CaptureId 1)
      \<and> lr_bytes (snd (snd (snd demo_recorder_end))) = 3"
    unfolding demo_recorder_end_def demo_sdk_def demo_resources_def by code_simp
  then obtain cand where "lr_candidate s = Some cand" "cand_capture_id cand = CaptureId 1" "lr_bytes s = 3"
    by (auto simp: e)
  then show ?thesis using safe by (simp add: e)
qed

section \<open>A worker faster than the caller\<close>

text \<open>
  \<open>try_send\<close> of the managed sink and, before \<open>fail\<close> looks at the ledger again, one whole
  delivery by the worker thread: an interleaving the locks allow.
\<close>

definition racing_sink :: "core \<Rightarrow> managed_config \<Rightarrow> delivery_result \<Rightarrow> managed_queue candidate_sink" where
  "racing_sink c cfg result =
     \<lparr>sink_queued_bytes = mq_bytes,
      sink_retains_queued_candidates = True,
      sink_try_send = (\<lambda>cand r s.
        let (sent, r1, s1) = managed_try_send c cfg cand r s;
            (r2, s2) = worker_receive r1 s1;
            (r3, s3) = worker_finish result r2 s2
        in (sent, r3, s3)),
      sink_recall_counters = mq_recall\<rparr>"

text \<open>
  C39: \<open>fail\<close> can report a quota error for a candidate that was durably accepted.  When the
  sink accepts the candidate and the idle worker delivers it before \<open>fail\<close> checks that it is
  still retained, the delivery is counted as accepted, and \<open>fail\<close> returns \<open>RuntimeQuota\<close>.
\<close>

theorem fast_delivery_misreported:
  assumes ok: "ledger_ok r" and q: "queue_ok r s" "mq_channel s = []" "mq_in_flight s = None"
    and bs: "canonical_candidate c cand = Inr bs" "length bs \<le> MAX_OPERATION_BYTES"
    and reserve: "reserve_candidate_handoff (cand_capture_id cand) (length bs) r = (True, r1)"
    and send: "managed_try_send c cfg cand r1 s = (True, r2, s2)"
  shows "\<exists>r3 s3. hand_off c (racing_sink c cfg None) cand bs k r s = (Inl RuntimeQuota, k, r3, s3)
    \<and> rc_candidate_durably_accepted (mq_recall s3)
        = saturating_add (rc_candidate_durably_accepted (mq_recall s)) 1
    \<and> bt_get (pr_candidates r3) (cand_capture_id cand) = None"
proof -
  let ?cap = "cand_capture_id cand"
  have ok1: "ledger_ok r1" using reserve_candidate_handoff_ok [OF ok, of ?cap "length bs"] reserve by simp
  have get1: "bt_get (pr_candidates r1) k =
      (if k = ?cap then Some \<lparr>entry_bytes = length bs, entry_state = Handoff\<rparr>
       else bt_get (pr_candidates r) k)" and fresh: "bt_get (pr_candidates r) ?cap = None" for k
    using reserve ok by (auto simp: reserve_candidate_handoff_def bt_contains_def split: if_splits)
  have hd: "handed ?cap (length bs) r1" by (simp add: handed_def get1)
  have q1: "queue_ok r1 s"
    using q(1) by (rule queue_ok_frame) (auto simp: get1 fresh candidate_is_retained_def)
  have s2: "s2 = s\<lparr>mq_bytes := mq_bytes s + length bs, mq_candidates := mq_candidates s + 1,
      mq_channel := [\<lparr>qc_bytes = length bs, qc_candidate = cand, qc_capture_id = ?cap,
                      qc_queued_at = mq_clock s\<rparr>]\<rparr>"
    using managed_send(2) [OF bs(1) hd send q1] q(2) by simp
  have r2: "r2 = claimed ?cap (length bs) r1"
    using managed_send(1) [OF bs(1) hd send q1] by (simp add: send_outcome_def)
  define s3 where "s3 = snd (worker_finish None (fst (worker_receive r2 s2)) (snd (worker_receive r2 s2)))"
  let ?r3 = "release_candidate ?cap r2"
  have young: "\<not> delivery_expired (mq_clock s) (mq_clock s)"
    by (simp add: delivery_expired_def limits)
  have recv: "worker_receive r2 s2 = (r2, s2\<lparr>mq_channel := [],
      mq_in_flight := Some \<lparr>qc_bytes = length bs, qc_candidate = cand, qc_capture_id = ?cap,
                      qc_queued_at = mq_clock s\<rparr>, mq_active := True\<rparr>)"
    using young by (simp add: worker_receive_def s2)
  have fin: "worker_finish None r2 (snd (worker_receive r2 s2)) = (?r3, s3)"
    by (simp add: s3_def recv worker_finish_def finish_queued_def)
  have gone: "bt_get (pr_candidates ?r3) ?cap = None"
    using released_get [of r2 ?cap ?cap] claimed_ok [OF ok1 hd] r2 by simp
  then have "release_candidate ?cap ?r3 = ?r3" by (simp add: release_candidate_def)
  moreover have "sink_try_send (racing_sink c cfg None) cand r1 s = (True, ?r3, s3)"
    using send fin by (simp add: racing_sink_def recv)
  moreover have "sink_retains_queued_candidates (racing_sink c cfg None)" by (simp add: racing_sink_def)
  ultimately have "hand_off c (racing_sink c cfg None) cand bs k r s = (Inl RuntimeQuota, k, ?r3, s3)"
    using bs(2) reserve gone by (simp add: hand_off_def candidate_is_retained_def)
  moreover have "rc_candidate_durably_accepted (mq_recall s3)
      = saturating_add (rc_candidate_durably_accepted (mq_recall s)) 1"
    unfolding s3_def recv by (simp add: worker_finish_def finish_queued_def record_result_def s2)
  ultimately show ?thesis using gone by blast
qed

theorem fast_delivery_misreported_witness:
  "\<exists>r3 s3. hand_off demo_core (racing_sink demo_core demo_config None) demo_candidate [7, 7] zero_counters
     new_resources empty_queue = (Inl RuntimeQuota, zero_counters, r3, s3)"
proof -
  have res: "reserve_candidate_handoff (cand_capture_id demo_candidate) (length [7, 7 :: byte]) new_resources
      = (True, demo_handed)"
    unfolding demo_handed_def demo_candidate_def by code_simp
  have "fst (managed_try_send demo_core demo_config demo_candidate demo_handed empty_queue)"
    unfolding demo_handed_def by code_simp
  then obtain r2 s2 where send:
    "managed_try_send demo_core demo_config demo_candidate demo_handed empty_queue = (True, r2, s2)"
    by (cases "managed_try_send demo_core demo_config demo_candidate demo_handed empty_queue") auto
  show ?thesis
    using fast_delivery_misreported [OF ledger_ok_new queue_ok_empty _ _ demo_handed_facts(3) _ res send]
    by (fastforce simp: empty_queue_def limits)
qed

end
