(* ===== verification/Fuzz_Context.thy ===== *)
theory Fuzz_Context
  imports Core_Model
begin

text \<open>
  Distributed fuzz contexts (\<^verbatim>\<open>crates/reproit-sdk-rust/src/distributed_fuzz.rs\<close>): the validator of
  an encoded context, its way into and out of a service (HTTP fields or queue metadata), and the
  thread's stack of active contexts with its guard.  Base64url, strict JSON, the signature
  check and the text form of an operation id are the core crate's: fields of \<open>fuzz_core\<close>.
\<close>

section \<open>Contexts\<close>

definition MAX_CONTEXT_BYTES :: nat where [limits]: "MAX_CONTEXT_BYTES = 4096"
definition MAX_CONTEXT_DEPTH :: nat where [limits]: "MAX_CONTEXT_DEPTH = 16"

definition FUZZ_CONTEXT_HTTP_HEADER :: string where
  "FUZZ_CONTEXT_HTTP_HEADER = ''ReproIt-Fuzz-Context''"
definition FUZZ_PARENT_HTTP_HEADER :: string where
  "FUZZ_PARENT_HTTP_HEADER = ''ReproIt-Parent-Operation''"
definition FUZZ_CONTEXT_QUEUE_METADATA :: string where
  "FUZZ_CONTEXT_QUEUE_METADATA = ''reproit.fuzz.context''"
definition FUZZ_PARENT_QUEUE_METADATA :: string where
  "FUZZ_PARENT_QUEUE_METADATA = ''reproit.parent.operation''"

record fuzz_core =
  decode_base64url_bytes :: "string \<Rightarrow> bytes res"
  parse_fuzz_context :: "bytes \<Rightarrow> fuzz_context res"
  canonical_fuzz_context :: "fuzz_context \<Rightarrow> bytes res"
  verify_fuzz_context :: "fuzz_context \<Rightarrow> bytes \<Rightarrow> nat \<Rightarrow> nat \<Rightarrow> nat \<Rightarrow> unit res"
  fuzz_context_digest :: "fuzz_context \<Rightarrow> digest res"
  parse_operation_id :: "string \<Rightarrow> operation_id res"
  show_operation_id :: "operation_id \<Rightarrow> string"

record campaign_context =
  cc_context :: fuzz_context
  cc_identity :: fuzz_context_identity
  cc_parent_operation_id :: "operation_id option"
  cc_signed_context :: string

text \<open>\<open>u8::is_ascii_alphanumeric\<close>, or one of the two other characters of base64url.\<close>

definition base64url_char :: "char \<Rightarrow> bool" where
  "base64url_char ch \<longleftrightarrow>
     (let n = of_char ch :: nat
      in 48 \<le> n \<and> n \<le> 57 \<or> 65 \<le> n \<and> n \<le> 90 \<or> 97 \<le> n \<and> n \<le> 122 \<or> n = 45 \<or> n = 95)"

definition from_verified ::
  "fuzz_core \<Rightarrow> string \<Rightarrow> fuzz_context \<Rightarrow> operation_id option \<Rightarrow> campaign_context res" where
  "from_verified fc signed_context context parent =
     (if signed_context = [] \<or> length signed_context > 5462
         \<or> (\<exists>b \<in> set signed_context. \<not> base64url_char b)
      then Inl SchemaInvalid
      else bind_res (fuzz_context_digest fc context) (\<lambda>digest.
        Inr \<lparr>cc_context = context,
             cc_identity = \<lparr>fci_campaign_id = fc_campaign_id context,
                            fci_case_id = fc_case_id context, fci_context_digest = digest\<rparr>,
             cc_parent_operation_id = parent,
             cc_signed_context = signed_context\<rparr>))"

definition with_parent :: "operation_id \<Rightarrow> campaign_context \<Rightarrow> campaign_context" where
  "with_parent op ctx = ctx\<lparr>cc_parent_operation_id := Some op\<rparr>"

text \<open>\<open>SignedFuzzContextValidator::validate\<close>, with what the clock reads.\<close>

record signed_validator =
  sv_clock :: "nat res"
  sv_project_id :: nat
  sv_verification_key :: bytes

definition validate_signed ::
  "fuzz_core \<Rightarrow> signed_validator \<Rightarrow> string \<Rightarrow> campaign_context res" where
  "validate_signed fc v encoded =
     bind_res (decode_base64url_bytes fc encoded) (\<lambda>bs.
       if length bs > MAX_CONTEXT_BYTES then Inl SchemaInvalid
       else bind_res (parse_fuzz_context fc bs) (\<lambda>context.
         bind_res (canonical_fuzz_context fc context) (\<lambda>canonical.
           if canonical \<noteq> bs then Inl SchemaInvalid
           else bind_res (sv_clock v) (\<lambda>now.
             bind_res (verify_fuzz_context fc context (sv_verification_key v) (sv_project_id v)
                         (fc_service_id context) now) (\<lambda>_.
               from_verified fc encoded context None)))))"

section \<open>Inbound and outbound\<close>

type_synonym validator = "string \<Rightarrow> campaign_context res"

definition inbound_fuzz_context ::
  "fuzz_core \<Rightarrow> string option \<Rightarrow> string option \<Rightarrow> validator option
     \<Rightarrow> campaign_context option res" where
  "inbound_fuzz_context fc encoded_context parent_operation v =
     (case encoded_context of
        None \<Rightarrow> if parent_operation \<noteq> None then Inl SchemaInvalid else Inr None
      | Some encoded \<Rightarrow>
          bind_res (ok_or SchemaInvalid v) (\<lambda>validate.
          bind_res (validate encoded) (\<lambda>context.
            case parent_operation of
              None \<Rightarrow> Inr (Some context)
            | Some parent \<Rightarrow>
                bind_res (parse_operation_id fc parent)
                  (\<lambda>op. Inr (Some (with_parent op context))))))"

definition inbound_queue_fuzz_context ::
  "fuzz_core \<Rightarrow> (string \<Rightarrow> string option) \<Rightarrow> validator option \<Rightarrow> campaign_context option res" where
  "inbound_queue_fuzz_context fc metadata =
     inbound_fuzz_context fc (metadata FUZZ_CONTEXT_QUEUE_METADATA)
       (metadata FUZZ_PARENT_QUEUE_METADATA)"

definition outbound_http_fields :: "fuzz_core \<Rightarrow> campaign_context \<Rightarrow> (string \<times> string) list" where
  "outbound_http_fields fc ctx =
     (FUZZ_CONTEXT_HTTP_HEADER, cc_signed_context ctx)
     # (case cc_parent_operation_id ctx of
          None \<Rightarrow> []
        | Some parent \<Rightarrow> [(FUZZ_PARENT_HTTP_HEADER, show_operation_id fc parent)])"

definition outbound_queue_metadata :: "fuzz_core \<Rightarrow> campaign_context \<Rightarrow> (string \<times> string) list" where
  "outbound_queue_metadata fc ctx =
     (FUZZ_CONTEXT_QUEUE_METADATA, cc_signed_context ctx)
     # (case cc_parent_operation_id ctx of
          None \<Rightarrow> []
        | Some parent \<Rightarrow> [(FUZZ_PARENT_QUEUE_METADATA, show_operation_id fc parent)])"

section \<open>The thread's stack\<close>

text \<open>
  The thread-local stack, innermost last.  \<open>guard_install\<close> is \<open>FuzzContextGuard::install\<close>;
  \<open>guard_drop\<close> its drop.  An operation that runs under a scope is a function on the stack.
\<close>

type_synonym fuzz_stack = "campaign_context list"

definition current_context :: "fuzz_stack \<Rightarrow> campaign_context res" where
  "current_context st = (if st = [] then Inl SchemaInvalid else Inr (last st))"

definition guard_install :: "campaign_context \<Rightarrow> fuzz_stack \<Rightarrow> fuzz_stack option" where
  "guard_install ctx st = (if length st \<ge> MAX_CONTEXT_DEPTH then None else Some (st @ [ctx]))"

definition guard_drop :: "fuzz_stack \<Rightarrow> fuzz_stack" where
  "guard_drop st = butlast st"

definition scope_sync ::
  "campaign_context \<Rightarrow> (fuzz_stack \<Rightarrow> 'a \<times> fuzz_stack) \<Rightarrow> fuzz_stack \<Rightarrow> 'a \<times> fuzz_stack" where
  "scope_sync ctx operation st =
     (case guard_install ctx st of
        None \<Rightarrow> operation st
      | Some st1 \<Rightarrow> let (x, st2) = operation st1 in (x, guard_drop st2))"

text \<open>
  A scoped future installs its context for each poll.  A poll takes the future's state and the
  stack; it returns the result when it is ready, the new state and the stack.
\<close>

type_synonym ('f, 'a) future_poll = "'f \<Rightarrow> fuzz_stack \<Rightarrow> ('a option \<times> 'f) \<times> fuzz_stack"

definition scope_poll :: "campaign_context \<Rightarrow> ('f, 'a) future_poll \<Rightarrow> ('f, 'a) future_poll" where
  "scope_poll ctx poll fut st =
     (case guard_install ctx st of
        None \<Rightarrow> poll fut st
      | Some st1 \<Rightarrow> let (x, st2) = poll fut st1 in (x, guard_drop st2))"

section \<open>Validation\<close>

text \<open>
  A validated context is genuine and its text is its own.  When the validator accepts an
  encoded context, its signature holds for the validator's key, project and clock and for the
  context's own service; the text decodes to at most 4096 bytes, which are the canonical form of
  that context; the text has base64url characters only; the identity carries the context's
  campaign, case and digest; and no parent is attached.
\<close>

theorem validated_context_genuine:
  assumes "validate_signed fc v encoded = Inr ctx"
  shows "\<exists>bs now. decode_base64url_bytes fc encoded = Inr bs \<and> length bs \<le> MAX_CONTEXT_BYTES
    \<and> canonical_fuzz_context fc (cc_context ctx) = Inr bs
    \<and> sv_clock v = Inr now
    \<and> verify_fuzz_context fc (cc_context ctx) (sv_verification_key v) (sv_project_id v)
        (fc_service_id (cc_context ctx)) now = Inr ()
    \<and> fuzz_context_digest fc (cc_context ctx) = Inr (fci_context_digest (cc_identity ctx))
    \<and> fci_campaign_id (cc_identity ctx) = fc_campaign_id (cc_context ctx)
    \<and> fci_case_id (cc_identity ctx) = fc_case_id (cc_context ctx)
    \<and> cc_signed_context ctx = encoded \<and> encoded \<noteq> [] \<and> length encoded \<le> 5462
    \<and> list_all base64url_char encoded \<and> cc_parent_operation_id ctx = None"
  using assms
  by (auto simp: validate_signed_def bind_res_eq_Inr from_verified_def list_all_iff split: if_splits)

definition demo_fuzz_core :: fuzz_core where
  "demo_fuzz_core = \<lparr>decode_base64url_bytes = (\<lambda>s. Inr (map of_char s)),
     parse_fuzz_context = (\<lambda>bs. Inr \<lparr>fc_campaign_id = 1, fc_case_id = 2, fc_service_id = 3, fc_rest = bs\<rparr>),
     canonical_fuzz_context = (\<lambda>ctx. Inr (fc_rest ctx)),
     verify_fuzz_context = (\<lambda>_ _ project service now. if now < 100 then Inr () else Inl SchemaInvalid),
     fuzz_context_digest = (\<lambda>ctx. Inr (Digest (length (fc_rest ctx)))),
     parse_operation_id = (\<lambda>s. Inr (OperationId (length s))),
     show_operation_id = (\<lambda>op. replicate (operation_id_num op) CHR ''x'')\<rparr>"

definition demo_validator :: signed_validator where
  "demo_validator = \<lparr>sv_clock = Inr 5, sv_project_id = 8, sv_verification_key = []\<rparr>"

theorem validated_context_genuine_witness:
  "case validate_signed demo_fuzz_core demo_validator ''abc-9'' of
     Inl _ \<Rightarrow> False | Inr ctx \<Rightarrow> cc_signed_context ctx = ''abc-9'' \<and> cc_parent_operation_id ctx = None"
proof -
  have "is_ok (validate_signed demo_fuzz_core demo_validator ''abc-9'')" by code_simp
  then obtain ctx where "validate_signed demo_fuzz_core demo_validator ''abc-9'' = Inr ctx"
    by (cases "validate_signed demo_fuzz_core demo_validator ''abc-9''") auto
  then show ?thesis using validated_context_genuine by fastforce
qed

text \<open>
  A context survives its way between services.  Whatever validator the receiver uses, a
  context it accepted, sent on with or without a parent operation as queue metadata or as HTTP
  fields, is received again as exactly that context, if an operation id reads back from its text
  form; metadata with a parent and no context is refused, and without either there is no context.
\<close>

theorem context_roundtrip:
  assumes "validate (cc_signed_context ctx0) = Inr ctx0" and "cc_parent_operation_id ctx0 = None"
    and "\<And>op. parse_operation_id fc (show_operation_id fc op) = Inr op"
    and "ctx = (case parent of None \<Rightarrow> ctx0 | Some op \<Rightarrow> with_parent op ctx0)"
  shows "inbound_queue_fuzz_context fc (map_of (outbound_queue_metadata fc ctx)) (Some validate)
      = Inr (Some ctx)
    \<and> (let fields = map_of (outbound_http_fields fc ctx)
       in inbound_fuzz_context fc (fields FUZZ_CONTEXT_HTTP_HEADER) (fields FUZZ_PARENT_HTTP_HEADER)
            (Some validate) = Inr (Some ctx))
    \<and> inbound_queue_fuzz_context fc [FUZZ_PARENT_QUEUE_METADATA \<mapsto> p] v = Inl SchemaInvalid
    \<and> inbound_queue_fuzz_context fc Map.empty v = Inr None"
  using assms
  by (auto simp: inbound_queue_fuzz_context_def inbound_fuzz_context_def outbound_queue_metadata_def
      outbound_http_fields_def with_parent_def FUZZ_CONTEXT_QUEUE_METADATA_def
      FUZZ_PARENT_QUEUE_METADATA_def FUZZ_CONTEXT_HTTP_HEADER_def FUZZ_PARENT_HTTP_HEADER_def Let_def
      split: option.split)

theorem context_roundtrip_witness:
  "\<exists>ctx. validate_signed demo_fuzz_core demo_validator ''ab'' = Inr ctx
    \<and> inbound_queue_fuzz_context demo_fuzz_core
        (map_of (outbound_queue_metadata demo_fuzz_core (with_parent (OperationId 4) ctx)))
        (Some (validate_signed demo_fuzz_core demo_validator)) = Inr (Some (with_parent (OperationId 4) ctx))"
proof -
  have "is_ok (validate_signed demo_fuzz_core demo_validator ''ab'')" by code_simp
  then obtain ctx where ctx: "validate_signed demo_fuzz_core demo_validator ''ab'' = Inr ctx"
    by (cases "validate_signed demo_fuzz_core demo_validator ''ab''") auto
  have "cc_signed_context ctx = ''ab''" "cc_parent_operation_id ctx = None"
    using ctx by (auto simp: validate_signed_def bind_res_eq_Inr from_verified_def split: if_splits)
  then show ?thesis
    using ctx context_roundtrip [of "validate_signed demo_fuzz_core demo_validator" ctx demo_fuzz_core
        "with_parent (OperationId 4) ctx" "Some (OperationId 4)"]
    by (auto simp: demo_fuzz_core_def)
qed

section \<open>Scopes are balanced\<close>

text \<open>
  Programs that observe the current context and open scopes, run on the stack; and what they
  should observe, by the nesting of the scopes alone: the scope around an observation, or,
  beyond the sixteenth scope, the sixteenth.
\<close>

datatype fuzz_program = Observe | InScope campaign_context "fuzz_program list"

fun run_program :: "fuzz_program \<Rightarrow> fuzz_stack \<Rightarrow> campaign_context res list \<times> fuzz_stack"
and run_programs :: "fuzz_program list \<Rightarrow> fuzz_stack \<Rightarrow> campaign_context res list \<times> fuzz_stack" where
  "run_program Observe st = ([current_context st], st)"
| "run_program (InScope ctx ps) st = scope_sync ctx (run_programs ps) st"
| "run_programs [] st = ([], st)"
| "run_programs (p # ps) st =
     (let (os, st1) = run_program p st; (os', st2) = run_programs ps st1 in (os @ os', st2))"

fun observed :: "nat \<Rightarrow> campaign_context res \<Rightarrow> fuzz_program \<Rightarrow> campaign_context res list" where
  "observed depth cur Observe = [cur]"
| "observed depth cur (InScope ctx ps) =
     concat (map (\<lambda>p. if depth < MAX_CONTEXT_DEPTH then observed (Suc depth) (Inr ctx) p
                        else observed depth cur p) ps)"

lemma run_program_observed:
  "run_program p st = (observed (length st) (current_context st) p, st)"
  "run_programs ps st = (concat (map (observed (length st) (current_context st)) ps), st)"
proof (induction p st and ps st rule: run_program_run_programs.induct)
  case (2 ctx ps st)
  have inner: "current_context (st @ [ctx]) = Inr ctx" by (simp add: current_context_def)
  have "run_programs ps (st @ [ctx]) = (concat (map (observed (Suc (length st)) (Inr ctx)) ps), st @ [ctx])"
    if "length st < MAX_CONTEXT_DEPTH"
    using 2 that inner by simp
  then show ?case
    using 2 by (auto simp: scope_sync_def guard_install_def guard_drop_def Let_def)
qed simp_all

text \<open>
  Scopes nest.  Whatever program of nested and successive scopes runs on a thread, it
  observes at each point the context of the innermost scope around it (the sixteenth when more
  are open), and it leaves the thread's stack as it found it.
\<close>

theorem scopes_nest:
  "run_programs ps st = (concat (map (observed (length st) (current_context st)) ps), st)"
  by (rule run_program_observed(2))

text \<open>
  A scoped future never leaks its context.  A poll of the scoped future, for any future that
  itself leaves the stack balanced, leaves the thread's stack unchanged, so that interleaved
  tasks of one thread do not see each other's contexts; inside the poll the future runs with
  the scope's context as the current one.
\<close>

theorem scope_poll_balanced:
  assumes "\<And>fut st. snd (poll fut st) = st"
  shows "snd (scope_poll ctx poll fut st) = st
    \<and> fst (scope_poll ctx poll fut st)
        = fst (poll fut (if length st < MAX_CONTEXT_DEPTH then st @ [ctx] else st))"
proof -
  obtain x where inner: "poll fut (st @ [ctx]) = (x, st @ [ctx])"
    using assms [of fut "st @ [ctx]"] by (cases "poll fut (st @ [ctx])") auto
  show ?thesis
    using assms [of fut st] by (simp add: scope_poll_def guard_install_def guard_drop_def inner)
qed

definition demo_poll :: "(nat, campaign_context res) future_poll" where
  "demo_poll n st = ((if n = 0 then Some (current_context st) else None, n - 1), st)"

definition demo_context :: campaign_context where
  "demo_context =
     \<lparr>cc_context = \<lparr>fc_campaign_id = 1, fc_case_id = 2, fc_service_id = 3, fc_rest = []\<rparr>,
      cc_identity =
        \<lparr>fci_campaign_id = 1, fci_case_id = 2, fci_context_digest = Digest 4\<rparr>,
      cc_parent_operation_id = None, cc_signed_context = ''a''\<rparr>"

theorem scope_poll_balanced_witness: "snd (scope_poll demo_context demo_poll 0 []) = []"
  using scope_poll_balanced [of demo_poll demo_context 0 "[]"] by (simp add: demo_poll_def)

end
