(* ===== verification/Request_Response.thy ===== *)
theory Request_Response
  imports Core_Model
begin

text \<open>
  Request-response capture (\<^verbatim>\<open>crates/reproit-sdk-rust/src/request_response.rs\<close>): the adapter's
  state machine over one captured operation, and the exact classifier of responses.  The
  operation behind the trait \<open>RustOperation\<close> is arbitrary: what it answers may depend on all the
  calls it has received, which the state records in order.
\<close>

section \<open>Limits and data\<close>

definition MAX_REQUEST_INPUT_CHUNK_BYTES :: nat where
  [limits]: "MAX_REQUEST_INPUT_CHUNK_BYTES = 32 * 1024"
definition MAX_RESPONSE_HEADER_BYTES :: nat where
  [limits]: "MAX_RESPONSE_HEADER_BYTES = 16 * 1024"
definition MAX_RESPONSE_HEADERS :: nat where [limits]: "MAX_RESPONSE_HEADERS = 128"

record response_header =
  rh_name :: string
  rh_value :: bytes

record response_head =
  head_headers :: "response_header list"
  head_status :: nat

type_synonym failure_identity = digest

text \<open>The trait of a classifier: its classification is a state of type \<open>'c\<close>.\<close>

record 'c response_classifier =
  cls_start :: "response_head \<Rightarrow> 'c"
  cls_record_body_chunk :: "bytes \<Rightarrow> 'c \<Rightarrow> unit res \<times> 'c"
  cls_finish :: "'c \<Rightarrow> failure_identity option"

section \<open>The exact classifier\<close>

record exact_classifier =
  ec_body :: bytes
  ec_failure :: failure_identity
  ec_status :: nat

record exact_classification =
  ex_expected :: bytes
  ex_failure :: "failure_identity option"
  ex_matched_bytes :: nat

definition exact_start :: "exact_classifier \<Rightarrow> response_head \<Rightarrow> exact_classification" where
  "exact_start ec response =
     \<lparr>ex_expected = ec_body ec,
      ex_failure = (if head_status response = ec_status ec then Some (ec_failure ec) else None),
      ex_matched_bytes = 0\<rparr>"

text \<open>\<open>get\<close> of a range: \<open>None\<close> when the range does not lie in the slice.\<close>

definition slice_get :: "nat \<Rightarrow> nat \<Rightarrow> 'a list \<Rightarrow> 'a list option" where
  "slice_get start stop xs =
     (if start \<le> stop \<and> stop \<le> length xs then Some (take (stop - start) (drop start xs)) else None)"

definition exact_record_body_chunk ::
  "bytes \<Rightarrow> exact_classification \<Rightarrow> unit res \<times> exact_classification" where
  "exact_record_body_chunk bs x =
     (case checked_add (ex_matched_bytes x) (length bs) of
        None \<Rightarrow> (Inr (), x\<lparr>ex_failure := None\<rparr>)
      | Some stop \<Rightarrow>
          let mismatch = (case slice_get (ex_matched_bytes x) stop (ex_expected x) of
                            None \<Rightarrow> True
                          | Some expected \<Rightarrow> expected \<noteq> bs)
          in (Inr (), x\<lparr>ex_failure := (if mismatch then None else ex_failure x),
                        ex_matched_bytes := stop\<rparr>))"

definition exact_finish :: "exact_classification \<Rightarrow> failure_identity option" where
  "exact_finish x =
     (if ex_matched_bytes x = length (ex_expected x) then ex_failure x else None)"

definition exact_response_classifier :: "exact_classifier \<Rightarrow> exact_classification response_classifier" where
  "exact_response_classifier ec =
     \<lparr>cls_start = exact_start ec, cls_record_body_chunk = exact_record_body_chunk,
      cls_finish = exact_finish\<rparr>"

section \<open>The operation behind the adapter\<close>

datatype op_call =
    CallRecordInput input_payload
  | CallFail failure_identity trigger_completion
  | CallSucceed
  | CallAbandonIncomplete

text \<open>
  What the adapter runs against: the classifier, base64url, the digest of bytes, and what the
  operation answers to a call after the calls made so far.
\<close>

record 'c rr_env =
  env_classifier :: "'c response_classifier"
  env_encode :: "bytes \<Rightarrow> string"
  env_digest_of :: "bytes \<Rightarrow> digest"
  env_reply :: "op_call list \<Rightarrow> op_call \<Rightarrow> unit res"

record 'c request_response =
  rr_classification :: "'c option"
  rr_content_type :: string
  rr_input_complete :: bool
  rr_input_count :: nat
  rr_operation :: bool
  rr_calls :: "op_call list"

text \<open>\<open>start\<close>; the last argument is what the factory answers.\<close>

definition rr_start :: "begin_payload \<Rightarrow> string \<Rightarrow> unit res \<Rightarrow> 'c request_response res" where
  "rr_start begin content_type factory =
     (if begin_operation_kind begin \<noteq> RequestResponse \<or> content_type = [] \<or> length content_type > 128
      then Inl SchemaInvalid
      else bind_res factory (\<lambda>_.
        Inr \<lparr>rr_classification = None, rr_content_type = content_type, rr_input_complete = False,
             rr_input_count = 0, rr_operation = True, rr_calls = []\<rparr>))"

definition rr_abandon :: "'c request_response \<Rightarrow> 'c request_response" where
  "rr_abandon rr =
     (if rr_operation rr
      then rr\<lparr>rr_classification := None, rr_operation := False,
              rr_calls := rr_calls rr @ [CallAbandonIncomplete]\<rparr>
      else rr\<lparr>rr_classification := None\<rparr>)"

definition record_input_record ::
  "'c rr_env \<Rightarrow> bytes \<Rightarrow> 'c request_response \<Rightarrow> unit res \<times> 'c request_response" where
  "record_input_record env bs rr =
     (if rr_input_count rr > 1023 then (Inl RuntimeQuota, rr_abandon rr)
      else
        let p = \<lparr>input_content_type = rr_content_type rr, input_index = rr_input_count rr,
                 input_value = env_encode env bs, input_value_digest = env_digest_of env bs\<rparr>
        in if \<not> rr_operation rr then (Inl IncompleteCandidate, rr)
           else
             let rr1 = rr\<lparr>rr_calls := rr_calls rr @ [CallRecordInput p]\<rparr>
             in case env_reply env (rr_calls rr) (CallRecordInput p) of
                  Inl e \<Rightarrow> (Inl e, rr_abandon rr1)
                | Inr _ \<Rightarrow> (Inr (), rr1\<lparr>rr_input_count := rr_input_count rr + 1\<rparr>))"

fun record_input_records ::
  "'c rr_env \<Rightarrow> bytes list \<Rightarrow> 'c request_response \<Rightarrow> unit res \<times> 'c request_response" where
  "record_input_records env [] rr = (Inr (), rr)"
| "record_input_records env (b # bs) rr =
     (case record_input_record env b rr of
        (Inl e, rr1) \<Rightarrow> (Inl e, rr1)
      | (Inr _, rr1) \<Rightarrow> record_input_records env bs rr1)"

definition record_input_chunk ::
  "'c rr_env \<Rightarrow> bytes \<Rightarrow> 'c request_response \<Rightarrow> unit res \<times> 'c request_response" where
  "record_input_chunk env bs rr =
     (if rr_input_complete rr \<or> \<not> rr_operation rr then (Inl IncompleteCandidate, rr)
      else record_input_records env (slice_chunks MAX_REQUEST_INPUT_CHUNK_BYTES bs) rr)"

definition finish_input ::
  "'c rr_env \<Rightarrow> 'c request_response \<Rightarrow> unit res \<times> 'c request_response" where
  "finish_input env rr =
     (if rr_input_complete rr \<or> \<not> rr_operation rr then (Inl IncompleteCandidate, rr_abandon rr)
      else
        case (if rr_input_count rr = 0 then record_input_record env [] rr else (Inr (), rr)) of
          (Inl e, rr1) \<Rightarrow> (Inl e, rr1)
        | (Inr _, rr1) \<Rightarrow> (Inr (), rr1\<lparr>rr_input_complete := True\<rparr>))"

text \<open>The loop over the headers; \<open>None\<close> where the code abandons and reports a capture limit.\<close>

fun capture_headers ::
  "response_header list \<Rightarrow> nat \<Rightarrow> response_header list \<Rightarrow> response_header list option" where
  "capture_headers captured bytes [] = Some captured"
| "capture_headers captured bytes (h # hs) =
     (if length captured \<ge> MAX_RESPONSE_HEADERS \<or> rh_name h = [] then None
      else case (case checked_add bytes (length (rh_name h)) of
                   None \<Rightarrow> None
                 | Some n \<Rightarrow> checked_add n (length (rh_value h))) of
             None \<Rightarrow> None
           | Some next_bytes \<Rightarrow>
               if next_bytes > MAX_RESPONSE_HEADER_BYTES then None
               else capture_headers (captured @ [h]) next_bytes hs)"

definition begin_response ::
  "'c rr_env \<Rightarrow> nat \<Rightarrow> response_header list \<Rightarrow> 'c request_response
     \<Rightarrow> unit res \<times> 'c request_response" where
  "begin_response env status headers rr =
     (if \<not> rr_input_complete rr \<or> rr_classification rr \<noteq> None \<or> \<not> rr_operation rr
      then (Inl IncompleteCandidate, rr_abandon rr)
      else case capture_headers [] 0 headers of
          None \<Rightarrow> (Inl RuntimeQuota, rr_abandon rr)
        | Some captured \<Rightarrow>
            (Inr (), rr\<lparr>rr_classification := Some
               (cls_start (env_classifier env) \<lparr>head_headers = captured, head_status = status\<rparr>)\<rparr>))"

definition record_response_chunk ::
  "'c rr_env \<Rightarrow> bytes \<Rightarrow> 'c request_response \<Rightarrow> unit res \<times> 'c request_response" where
  "record_response_chunk env bs rr =
     (case rr_classification rr of
        None \<Rightarrow> (Inl IncompleteCandidate, rr)
      | Some c \<Rightarrow>
          case cls_record_body_chunk (env_classifier env) bs c of
            (Inl e, c') \<Rightarrow> (Inl e, rr_abandon (rr\<lparr>rr_classification := Some c'\<rparr>))
          | (Inr _, c') \<Rightarrow> (Inr (), rr\<lparr>rr_classification := Some c'\<rparr>))"

definition finish_response ::
  "'c rr_env \<Rightarrow> 'c request_response \<Rightarrow> unit res \<times> 'c request_response" where
  "finish_response env rr =
     (case rr_classification rr of
        None \<Rightarrow> (Inl IncompleteCandidate, rr)
      | Some c \<Rightarrow>
          let rr1 = rr\<lparr>rr_classification := None\<rparr>
          in if \<not> rr_operation rr then (Inl IncompleteCandidate, rr1)
             else
               let rr2 = rr1\<lparr>rr_operation := False\<rparr>
               in case cls_finish (env_classifier env) c of
                    Some identity \<Rightarrow>
                      (env_reply env (rr_calls rr) (CallFail identity Return),
                       rr2\<lparr>rr_calls := rr_calls rr @ [CallFail identity Return]\<rparr>)
                  | None \<Rightarrow> (Inr (), rr2\<lparr>rr_calls := rr_calls rr @ [CallSucceed]\<rparr>))"

text \<open>Dropping the adapter abandons the operation it still holds.\<close>

definition rr_drop :: "'c request_response \<Rightarrow> 'c request_response" where
  "rr_drop = rr_abandon"

end
