(* ===== verification/Response_Capture.thy ===== *)
theory Response_Capture
  imports Request_Response
begin

text \<open>
  What request-response capture promises: the operation behind the adapter is ended exactly
  once, whatever calls the adapter makes; its inputs are the request body without loss; and it
  fails exactly when the classifier's verdict on the whole response is a failure.  The
  classifier's side of that is the locale \<open>classifier_contract\<close>, met by the exact classifier.
\<close>

section \<open>Calls in sequence\<close>

datatype rr_op = RInput bytes | RFinishInput | RBegin nat "response_header list" | RChunk bytes
  | RFinish | RAbandon

fun rr_step :: "'c rr_env \<Rightarrow> rr_op \<Rightarrow> 'c request_response \<Rightarrow> unit res \<times> 'c request_response" where
  "rr_step env (RInput bs) rr = record_input_chunk env bs rr"
| "rr_step env RFinishInput rr = finish_input env rr"
| "rr_step env (RBegin status hs) rr = begin_response env status hs rr"
| "rr_step env (RChunk bs) rr = record_response_chunk env bs rr"
| "rr_step env RFinish rr = finish_response env rr"
| "rr_step env RAbandon rr = (Inr (), rr_abandon rr)"

fun rr_run :: "'c rr_env \<Rightarrow> rr_op list \<Rightarrow> 'c request_response \<Rightarrow> 'c request_response" where
  "rr_run env [] rr = rr"
| "rr_run env (x # xs) rr = rr_run env xs (snd (rr_step env x rr))"

text \<open>The same, as long as every call succeeds.\<close>

fun rr_ok_run :: "'c rr_env \<Rightarrow> rr_op list \<Rightarrow> 'c request_response \<Rightarrow> 'c request_response option" where
  "rr_ok_run env [] rr = Some rr"
| "rr_ok_run env (x # xs) rr =
     (case rr_step env x rr of (Inl _, _) \<Rightarrow> None | (Inr _, rr1) \<Rightarrow> rr_ok_run env xs rr1)"

lemma rr_ok_run_append:
  "rr_ok_run env (xs @ ys) rr = Some rr' \<longleftrightarrow>
     (\<exists>rr1. rr_ok_run env xs rr = Some rr1 \<and> rr_ok_run env ys rr1 = Some rr')"
  by (induction xs arbitrary: rr) (auto split: prod.split sum.split)

section \<open>The operation ends once\<close>

definition numbered :: "input_payload list \<Rightarrow> bool" where
  "numbered ps \<longleftrightarrow> map input_index ps = [0..<length ps] \<and> length ps \<le> 1024"

definition accepted :: "'c rr_env \<Rightarrow> input_payload list \<Rightarrow> bool" where
  "accepted env ps \<longleftrightarrow>
     (\<forall>k < length ps. env_reply env (map CallRecordInput (take k ps)) (CallRecordInput (ps ! k)) = Inr ())"

definition ended_once :: "'c rr_env \<Rightarrow> op_call list \<Rightarrow> bool" where
  "ended_once env calls \<longleftrightarrow>
     (\<exists>ps e. calls = map CallRecordInput ps @ [e] \<and> numbered ps
        \<and> (e = CallAbandonIncomplete
           \<or> (e = CallSucceed \<or> (\<exists>identity. e = CallFail identity Return))
             \<and> ps \<noteq> [] \<and> accepted env ps))"

definition rr_inv :: "'c rr_env \<Rightarrow> 'c request_response \<Rightarrow> bool" where
  "rr_inv env rr \<longleftrightarrow>
     (if rr_operation rr
      then \<exists>ps. rr_calls rr = map CallRecordInput ps \<and> numbered ps \<and> accepted env ps
             \<and> rr_input_count rr = length ps
             \<and> (rr_input_complete rr \<longrightarrow> ps \<noteq> [])
             \<and> (rr_classification rr \<noteq> None \<longrightarrow> rr_input_complete rr)
      else rr_classification rr = None \<and> ended_once env (rr_calls rr))"

lemma rr_inv_abandon: "rr_inv env rr \<Longrightarrow> rr_inv env (rr_abandon rr)"
  by (auto simp: rr_inv_def rr_abandon_def ended_once_def split: if_splits)

lemma abandon_input_complete [simp]: "rr_input_complete (rr_abandon rr) = rr_input_complete rr"
  by (simp add: rr_abandon_def)

lemma abandon_after_input:
  assumes "rr_inv env rr" "rr_operation rr" "rr_input_count rr \<le> 1023"
    and "input_index p = rr_input_count rr"
  shows "rr_inv env (rr_abandon (rr\<lparr>rr_calls := rr_calls rr @ [CallRecordInput p]\<rparr>))"
proof -
  obtain ps where ps: "rr_calls rr = map CallRecordInput ps" "numbered ps" "rr_input_count rr = length ps"
    using assms(1,2) by (auto simp: rr_inv_def)
  then have "numbered (ps @ [p])" using assms(3,4) by (simp add: numbered_def)
  moreover have "rr_calls rr @ [CallRecordInput p, CallAbandonIncomplete]
      = map CallRecordInput (ps @ [p]) @ [CallAbandonIncomplete]" by (simp add: ps)
  ultimately have "ended_once env (rr_calls rr @ [CallRecordInput p, CallAbandonIncomplete])"
    unfolding ended_once_def by blast
  then show ?thesis using assms(2) by (simp add: rr_inv_def rr_abandon_def)
qed

lemma accepted_snoc:
  "accepted env ps \<Longrightarrow> env_reply env (map CallRecordInput ps) (CallRecordInput p) = Inr () \<Longrightarrow>
     accepted env (ps @ [p])"
  by (auto simp: accepted_def nth_append less_Suc_eq)

lemma rr_inv_record:
  assumes "rr_inv env rr" "\<not> rr_input_complete rr" "record_input_record env bs rr = (res, rr')"
  shows "rr_inv env rr'" and "rr_input_complete rr' = rr_input_complete rr"
    and "is_ok res \<Longrightarrow> rr_operation rr' \<and> rr_input_count rr' = Suc (rr_input_count rr)"
proof -
  have "rr_inv env rr' \<and> rr_input_complete rr' = rr_input_complete rr
    \<and> (is_ok res \<longrightarrow> rr_operation rr' \<and> rr_input_count rr' = Suc (rr_input_count rr))"
  proof (cases "rr_input_count rr > 1023 \<or> \<not> rr_operation rr")
    case True
    then have "rr' = rr_abandon rr \<or> rr' = rr" "\<not> is_ok res"
      using assms(3) by (auto simp: record_input_record_def Let_def split: if_splits)
    then show ?thesis
      using assms(1) rr_inv_abandon [OF assms(1)] abandon_input_complete [of rr] by auto
  next
    case False
    let ?p = "\<lparr>input_content_type = rr_content_type rr, input_index = rr_input_count rr,
                 input_value = env_encode env bs, input_value_digest = env_digest_of env bs\<rparr>"
    let ?rr = "rr\<lparr>rr_calls := rr_calls rr @ [CallRecordInput ?p]\<rparr>"
    show ?thesis
    proof (cases "env_reply env (rr_calls rr) (CallRecordInput ?p)")
      case (Inl e)
      then have "(Inl e, rr_abandon ?rr) = (res, rr')"
        using assms(3) False by (simp add: record_input_record_def Let_def)
      then have "rr' = rr_abandon ?rr" "\<not> is_ok res" by auto
      then show ?thesis
        using abandon_after_input [OF assms(1), of ?p] False by (simp add: rr_abandon_def)
    next
      case (Inr u)
      then have rr': "rr' = ?rr\<lparr>rr_input_count := rr_input_count rr + 1\<rparr>"
        using assms(3) False Inr by (auto simp: record_input_record_def Let_def)
      obtain ps where ps: "rr_calls rr = map CallRecordInput ps" "numbered ps" "accepted env ps"
        "rr_input_count rr = length ps" "rr_classification rr = None"
        using assms(1,2) False by (auto simp: rr_inv_def)
      have "accepted env (ps @ [?p])" using ps Inr by (intro accepted_snoc) simp_all
      moreover have "numbered (ps @ [?p])" using ps False by (simp add: numbered_def)
      ultimately have "rr_inv env rr'"
        using ps False assms(2)
        by (auto simp: rr' rr_inv_def intro!: exI [of _ "ps @ [?p]"])
      then show ?thesis using False by (simp add: rr')
    qed
  qed
  then show "rr_inv env rr'" and "rr_input_complete rr' = rr_input_complete rr"
    and "is_ok res \<Longrightarrow> rr_operation rr' \<and> rr_input_count rr' = Suc (rr_input_count rr)" by blast+
qed

lemma rr_inv_records:
  "rr_inv env rr \<Longrightarrow> \<not> rr_input_complete rr \<Longrightarrow> rr_inv env (snd (record_input_records env bs rr))"
proof (induction bs arbitrary: rr)
  case Nil
  then show ?case by simp
next
  case (Cons b bs)
  obtain res rr1 where rr1: "record_input_record env b rr = (res, rr1)"
    by (cases "record_input_record env b rr")
  note keeps = rr_inv_record [OF Cons.prems rr1]
  show ?case using Cons.IH [of rr1] Cons.prems(2) keeps(1,2) rr1 by (cases res) auto
qed

lemma rr_inv_step: "rr_inv env rr \<Longrightarrow> rr_inv env (snd (rr_step env x rr))"
proof (cases x)
  case (RInput bs)
  assume inv: "rr_inv env rr"
  show ?thesis
    using RInput inv rr_inv_records [OF inv, of "slice_chunks MAX_REQUEST_INPUT_CHUNK_BYTES bs"]
    by (simp add: record_input_chunk_def)
next
  case RFinishInput
  assume inv: "rr_inv env rr"
  show ?thesis
  proof (cases "rr_input_complete rr \<or> \<not> rr_operation rr")
    case True
    then show ?thesis using inv RFinishInput by (simp add: finish_input_def rr_inv_abandon)
  next
    case False
    obtain res rr1 where step: "(if rr_input_count rr = 0 then record_input_record env [] rr
        else (Inr (), rr)) = (res, rr1)"
      by (cases "if rr_input_count rr = 0 then record_input_record env [] rr else (Inr (), rr)")
    have rr1: "rr_inv env rr1" "is_ok res \<Longrightarrow> rr_operation rr1 \<and> rr_input_count rr1 > 0"
      using step rr_inv_record [OF inv, of "[]" res rr1] False inv by (auto split: if_splits)
    show ?thesis
    proof (cases res)
      case (Inl e)
      then show ?thesis using rr1(1) step False RFinishInput by (simp add: finish_input_def)
    next
      case (Inr u)
      then have "snd (rr_step env x rr) = rr1\<lparr>rr_input_complete := True\<rparr>"
        using step False RFinishInput by (simp add: finish_input_def)
      then show ?thesis using rr1 Inr by (auto simp: rr_inv_def)
    qed
  qed
next
  case (RBegin status hs)
  assume inv: "rr_inv env rr"
  then show ?thesis
    using RBegin rr_inv_abandon [OF inv]
    by (auto simp: begin_response_def rr_inv_def split: option.split)
next
  case (RChunk bs)
  assume inv: "rr_inv env rr"
  show ?thesis
  proof (cases "rr_classification rr")
    case None
    then show ?thesis using inv RChunk by (simp add: record_response_chunk_def)
  next
    case (Some c)
    have "rr_inv env (rr\<lparr>rr_classification := Some c'\<rparr>)" for c'
      using inv Some by (auto simp: rr_inv_def split: if_splits)
    then show ?thesis
      using RChunk Some by (auto simp: record_response_chunk_def rr_inv_abandon split: prod.split sum.split)
  qed
next
  case RFinish
  assume inv: "rr_inv env rr"
  show ?thesis
  proof (cases "rr_classification rr")
    case None
    then show ?thesis using inv RFinish by (simp add: finish_response_def)
  next
    case (Some c)
    then have "rr_operation rr" using inv by (auto simp: rr_inv_def split: if_splits)
    moreover obtain ps where "rr_calls rr = map CallRecordInput ps" "numbered ps" "accepted env ps" "ps \<noteq> []"
      using inv Some calculation by (auto simp: rr_inv_def)
    then have "ended_once env (rr_calls rr @ [e])" if "e = CallSucceed \<or> (\<exists>i. e = CallFail i Return)" for e
      unfolding ended_once_def using that by blast
    ultimately show ?thesis
      using RFinish Some by (auto simp: finish_response_def rr_inv_def Let_def split: option.split)
  qed
next
  case RAbandon
  assume "rr_inv env rr"
  then show ?thesis using RAbandon by (simp add: rr_inv_abandon)
qed

lemma rr_inv_run: "rr_inv env rr \<Longrightarrow> rr_inv env (rr_run env xs rr)"
  by (induction xs arbitrary: rr) (simp_all add: rr_inv_step)

lemma rr_inv_start: "rr_start begin ct factory = Inr rr \<Longrightarrow> rr_inv env rr"
  by (auto simp: rr_start_def rr_inv_def numbered_def accepted_def bind_res_eq_Inr split: if_splits)

text \<open>
  The captured operation is ended exactly once.  Whatever calls an adapter makes, in any
  order and with any answers of the operation and any classifier, once the adapter is dropped
  the operation has received its inputs, numbered from 0 and at most 1024 of them, and then one
  final call: fail or succeed, and then at least one input was recorded and every one was
  accepted; or abandon.
\<close>

theorem operation_ended_once:
  assumes "rr_start begin ct factory = Inr rr"
  shows "ended_once env (rr_calls (rr_drop (rr_run env xs rr)))"
  using rr_inv_run [OF rr_inv_start [OF assms, of env], of xs]
  by (auto simp: rr_drop_def rr_abandon_def rr_inv_def ended_once_def split: if_splits)

section \<open>Inputs are the request body\<close>

definition input_records :: "'c rr_env \<Rightarrow> string \<Rightarrow> nat \<Rightarrow> bytes list \<Rightarrow> op_call list" where
  "input_records env ct first bs =
     map (\<lambda>(i, b). CallRecordInput \<lparr>input_content_type = ct, input_index = i,
             input_value = env_encode env b, input_value_digest = env_digest_of env b\<rparr>)
       (enumerate first bs)"

lemma input_records_append:
  "input_records env ct n (as @ bs) = input_records env ct n as @ input_records env ct (n + length as) bs"
  by (simp add: input_records_def enumerate_append_eq)

lemma record_ok:
  assumes "record_input_record env b rr = (Inr u, rr')"
  shows "rr' = rr\<lparr>rr_calls := rr_calls rr @ input_records env (rr_content_type rr) (rr_input_count rr) [b],
    rr_input_count := rr_input_count rr + 1\<rparr>"
  using assms by (auto simp: record_input_record_def Let_def input_records_def split: if_splits sum.splits)

lemma records_ok:
  "record_input_records env bs rr = (Inr u, rr') \<Longrightarrow>
     rr' = rr\<lparr>rr_calls := rr_calls rr @ input_records env (rr_content_type rr) (rr_input_count rr) bs,
       rr_input_count := rr_input_count rr + length bs\<rparr>"
proof (induction bs arbitrary: rr)
  case Nil
  then show ?case by (simp add: input_records_def)
next
  case (Cons b bs)
  then obtain v rr1 where rr1: "record_input_record env b rr = (Inr v, rr1)"
    and rest: "record_input_records env bs rr1 = (Inr u, rr')"
    by (auto split: prod.splits sum.splits)
  show ?case
    using Cons.IH [OF rest] record_ok [OF rr1] input_records_append [of env _ _ "[b]" bs] by simp
qed

lemma inputs_ok:
  "rr_ok_run env (map RInput ins) rr = Some rr' \<Longrightarrow>
     rr' = rr\<lparr>rr_calls := rr_calls rr @ input_records env (rr_content_type rr) (rr_input_count rr)
                (concat (map (slice_chunks MAX_REQUEST_INPUT_CHUNK_BYTES) ins)),
       rr_input_count := rr_input_count rr
         + length (concat (map (slice_chunks MAX_REQUEST_INPUT_CHUNK_BYTES) ins))\<rparr>"
proof (induction ins arbitrary: rr)
  case Nil
  then show ?case by (simp add: input_records_def)
next
  case (Cons b bs)
  then obtain v rr1 where rr1: "record_input_chunk env b rr = (Inr v, rr1)"
    and rest: "rr_ok_run env (map RInput bs) rr1 = Some rr'"
    by (auto split: prod.splits sum.splits)
  have "record_input_records env (slice_chunks MAX_REQUEST_INPUT_CHUNK_BYTES b) rr = (Inr v, rr1)"
    using rr1 by (auto simp: record_input_chunk_def split: if_splits)
  from Cons.IH [OF rest] records_ok [OF this] show ?case by (simp add: input_records_append)
qed

lemma capture_headers_all: "capture_headers cap n hs = Some x \<Longrightarrow> x = cap @ hs"
proof (induction cap n hs rule: capture_headers.induct)
  case (1 cap n)
  then show ?case by simp
next
  case (2 cap n h hs)
  then show ?case by (auto split: if_splits option.splits)
qed

section \<open>The classifier's contract\<close>

fun feed :: "'c response_classifier \<Rightarrow> bytes list \<Rightarrow> 'c \<Rightarrow> 'c option" where
  "feed cls [] c = Some c"
| "feed cls (b # bs) c =
     (case cls_record_body_chunk cls b c of (Inl _, _) \<Rightarrow> None | (Inr _, c') \<Rightarrow> feed cls bs c')"

text \<open>A classifier decides by the head and the whole body, however the body is cut.\<close>

locale classifier_contract =
  fixes cls :: "'c response_classifier"
    and verdict :: "response_head \<Rightarrow> bytes \<Rightarrow> failure_identity option"
  assumes verdict_of_body:
    "feed cls bs (cls_start cls head) = Some c \<Longrightarrow> cls_finish cls c = verdict head (concat bs)"
begin

lemma response_feed:
  assumes "env_classifier env = cls"
  shows "rr_ok_run env (map RChunk bs) rr = Some rr' \<Longrightarrow> rr_classification rr = Some c \<Longrightarrow>
     \<exists>c'. feed cls bs c = Some c' \<and> rr' = rr\<lparr>rr_classification := Some c'\<rparr>"
proof (induction bs arbitrary: rr c)
  case Nil
  then show ?case by simp
next
  case (Cons b bs)
  obtain res c1 where c1: "cls_record_body_chunk cls b c = (res, c1)"
    by (cases "cls_record_body_chunk cls b c")
  then have "is_ok res" and rest: "rr_ok_run env (map RChunk bs) (rr\<lparr>rr_classification := Some c1\<rparr>) = Some rr'"
    using Cons.prems assms by (cases res; auto simp: record_response_chunk_def)+
  then show ?case
    using Cons.IH [OF rest, of c1] c1 by (cases res) auto
qed

text \<open>A whole response makes the operation fail exactly by the verdict.\<close>

lemma response_verdict:
  assumes env: "env_classifier env = cls"
    and run: "rr_ok_run env (RBegin status hs # map RChunk outs) rr = Some rr1"
    and fin: "finish_response env rr1 = (res, rr2)"
  shows "rr_calls rr2 = rr_calls rr
     @ [case verdict \<lparr>head_headers = hs, head_status = status\<rparr> (concat outs) of
          Some identity \<Rightarrow> CallFail identity Return | None \<Rightarrow> CallSucceed]"
proof -
  let ?head = "\<lparr>head_headers = hs, head_status = status\<rparr>"
  have op: "rr_operation rr" and begun:
    "rr_ok_run env (map RChunk outs) (rr\<lparr>rr_classification := Some (cls_start cls ?head)\<rparr>) = Some rr1"
    using run env capture_headers_all [of "[]"] by (auto simp: begin_response_def split: if_splits option.splits)
  from response_feed [OF env begun] obtain c where c: "feed cls outs (cls_start cls ?head) = Some c"
    and rr1: "rr1 = rr\<lparr>rr_classification := Some c\<rparr>" by auto
  from verdict_of_body [OF c] show ?thesis
    using fin op env by (auto simp: finish_response_def rr1 Let_def split: option.splits)
qed

end

section \<open>The exact classifier\<close>

definition exact_verdict :: "exact_classifier \<Rightarrow> response_head \<Rightarrow> bytes \<Rightarrow> failure_identity option" where
  "exact_verdict ec head body =
     (if head_status head = ec_status ec \<and> body = ec_body ec \<and> length (ec_body ec) \<le> U64_MAX
      then Some (ec_failure ec) else None)"

text \<open>After some of the body: the failure is still possible exactly if it is a prefix.\<close>

definition exact_so_far :: "exact_classifier \<Rightarrow> response_head \<Rightarrow> bytes \<Rightarrow> exact_classification \<Rightarrow> bool" where
  "exact_so_far ec head body x \<longleftrightarrow>
     ex_expected x = ec_body ec
     \<and> (case ex_failure x of
          None \<Rightarrow> head_status head \<noteq> ec_status ec \<or> take (length body) (ec_body ec) \<noteq> body
        | Some identity \<Rightarrow> head_status head = ec_status ec \<and> identity = ec_failure ec
            \<and> ex_matched_bytes x = length body \<and> take (length body) (ec_body ec) = body)"

lemma not_prefix_extends: "take (length a) xs \<noteq> a \<Longrightarrow> take (length (a @ b)) xs \<noteq> a @ b"
  by (metis append_eq_append_conv2 append_take_drop_id take_add length_append append_eq_conv_conj)

lemma exact_step:
  assumes "exact_so_far ec head body x" "length (ec_body ec) \<le> U64_MAX"
  shows "exact_so_far ec head (body @ bs) (snd (exact_record_body_chunk bs x))
    \<and> fst (exact_record_body_chunk bs x) = Inr ()"
proof (cases "ex_failure x")
  case None
  then have "head_status head \<noteq> ec_status ec \<or> take (length (body @ bs)) (ec_body ec) \<noteq> body @ bs"
    using assms(1) not_prefix_extends by (auto simp: exact_so_far_def)
  then show ?thesis
    using assms(1) None
    by (auto simp: exact_so_far_def exact_record_body_chunk_def Let_def split: option.split)
next
  case (Some identity)
  then have x: "ex_expected x = ec_body ec" "head_status head = ec_status ec" "identity = ec_failure ec"
    "ex_matched_bytes x = length body" "take (length body) (ec_body ec) = body"
    using assms(1) by (auto simp: exact_so_far_def)
  have le: "length body \<le> length (ec_body ec)" using x(5) by (metis length_take min.absorb_iff2 min.commute)
  have split: "take (length body + length bs) (ec_body ec)
      = body @ take (length bs) (drop (length body) (ec_body ec))"
    using x(5) by (simp add: take_add)
  have long: "take (length body + length bs) (ec_body ec) \<noteq> body @ bs"
    if "length (ec_body ec) < length body + length bs"
  proof
    assume "take (length body + length bs) (ec_body ec) = body @ bs"
    then have "length (take (length body + length bs) (ec_body ec)) = length body + length bs" by simp
    then show False using that by simp
  qed
  show ?thesis
  proof (cases "length body + length bs \<le> length (ec_body ec)")
    case True
    then show ?thesis
      using x Some assms(2) split
      by (simp add: exact_so_far_def exact_record_body_chunk_def slice_get_def checked_add_def Let_def)
  next
    case False
    then show ?thesis
      using x Some long
      by (auto simp: exact_so_far_def exact_record_body_chunk_def slice_get_def Let_def split: option.split)
  qed
qed

lemma exact_feed:
  assumes "length (ec_body ec) \<le> U64_MAX"
  shows "exact_so_far ec head body x \<Longrightarrow> feed (exact_response_classifier ec) bs x = Some y \<Longrightarrow>
     exact_so_far ec head (body @ concat bs) y"
proof (induction bs arbitrary: body x)
  case Nil
  then show ?case by simp
next
  case (Cons b bs)
  obtain x1 where x1: "exact_record_body_chunk b x = (Inr (), x1)" and so_far: "exact_so_far ec head (body @ b) x1"
    using exact_step [OF Cons.prems(1) assms, of b] by (cases "exact_record_body_chunk b x") auto
  then show ?case using Cons.IH [OF so_far] Cons.prems(2) by (simp add: exact_response_classifier_def)
qed

lemma exact_contract:
  assumes "length (ec_body ec) \<le> U64_MAX"
    and "feed (exact_response_classifier ec) bs (cls_start (exact_response_classifier ec) head) = Some c"
  shows "cls_finish (exact_response_classifier ec) c = exact_verdict ec head (concat bs)"
proof -
  have "exact_so_far ec head [] (exact_start ec head)"
    by (simp add: exact_so_far_def exact_start_def)
  from exact_feed [OF assms(1) this] have whole: "exact_so_far ec head (concat bs) c"
    using assms(2) by (simp add: exact_response_classifier_def)
  show ?thesis
  proof (cases "ex_failure c")
    case None
    then show ?thesis
      using whole by (auto simp: exact_so_far_def exact_response_classifier_def exact_finish_def exact_verdict_def assms(1))
  next
    case (Some identity)
    then have c: "ex_expected c = ec_body ec" "head_status head = ec_status ec" "identity = ec_failure ec"
      "ex_matched_bytes c = length (concat bs)" "take (length (concat bs)) (ec_body ec) = concat bs"
      using whole by (auto simp: exact_so_far_def)
    then have "length (concat bs) = length (ec_body ec) \<longleftrightarrow> concat bs = ec_body ec"
      by (metis take_all order_refl)
    then show ?thesis
      using c Some by (simp add: exact_response_classifier_def exact_finish_def exact_verdict_def assms(1))
  qed
qed

text \<open>A body is never longer than memory; if it were, the classifier would never match it.\<close>

lemma exact_too_long:
  assumes "U64_MAX < length (ec_body ec)"
  shows "ex_expected x = ec_body ec \<Longrightarrow> ex_matched_bytes x \<le> U64_MAX \<Longrightarrow>
     feed (exact_response_classifier ec) bs x = Some y \<Longrightarrow> exact_finish y = None"
proof (induction bs arbitrary: x)
  case Nil
  then show ?case using assms by (auto simp: exact_finish_def)
next
  case (Cons b bs)
  have "fst (exact_record_body_chunk b x) = Inr ()"
    "ex_expected (snd (exact_record_body_chunk b x)) = ec_body ec"
    "ex_matched_bytes (snd (exact_record_body_chunk b x)) \<le> U64_MAX"
    using Cons.prems(1,2) by (auto simp: exact_record_body_chunk_def Let_def split: option.split)
  then obtain x1 where x1: "exact_record_body_chunk b x = (Inr (), x1)"
    "ex_expected x1 = ec_body ec" "ex_matched_bytes x1 \<le> U64_MAX"
    by (cases "exact_record_body_chunk b x") simp
  then show ?case using Cons.IH [OF x1(2,3)] Cons.prems(3) by (simp add: exact_response_classifier_def)
qed

interpretation exact: classifier_contract "exact_response_classifier ec" "exact_verdict ec" for ec
proof
  fix bs head c
  assume fed: "feed (exact_response_classifier ec) bs (cls_start (exact_response_classifier ec) head) = Some c"
  show "cls_finish (exact_response_classifier ec) c = exact_verdict ec head (concat bs)"
  proof (cases "length (ec_body ec) \<le> U64_MAX")
    case True
    then show ?thesis using fed by (rule exact_contract)
  next
    case False
    have "exact_finish c = None"
      using fed False by (intro exact_too_long [of ec "exact_start ec head" bs c])
        (auto simp: exact_response_classifier_def exact_start_def)
    then show ?thesis using False by (simp add: exact_response_classifier_def exact_verdict_def)
  qed
qed

section \<open>A whole exchange\<close>

text \<open>The pieces of the request body as they are recorded: at least one.\<close>

definition request_pieces :: "bytes list \<Rightarrow> bytes list" where
  "request_pieces ins =
     (let ps = concat (map (slice_chunks MAX_REQUEST_INPUT_CHUNK_BYTES) ins) in if ps = [] then [[]] else ps)"

lemma request_pieces_lossless: "concat (request_pieces ins) = concat ins"
proof -
  have "concat (slice_chunks MAX_REQUEST_INPUT_CHUNK_BYTES b) = b" for b :: bytes
    by (rule chunks_concat) (simp add: limits)
  then have "concat (concat (map (slice_chunks MAX_REQUEST_INPUT_CHUNK_BYTES) ins)) = concat ins"
    by (induction ins) auto
  then show ?thesis
    by (cases "concat (map (slice_chunks MAX_REQUEST_INPUT_CHUNK_BYTES) ins) = []")
      (simp_all add: request_pieces_def Let_def del: concat_eq_Nil_conv)
qed

lemma request_pieces_small: "b \<in> set (request_pieces ins) \<Longrightarrow> length b \<le> MAX_REQUEST_INPUT_CHUNK_BYTES"
  using chunks_length [of MAX_REQUEST_INPUT_CHUNK_BYTES b]
  by (auto simp: request_pieces_def Let_def limits split: if_splits)

lemma request_calls:
  assumes "rr_start begin ct factory = Inr rr0"
    and "rr_ok_run env (map RInput ins @ [RFinishInput]) rr0 = Some rr"
  shows "rr_calls rr = input_records env ct 0 (request_pieces ins)"
proof -
  have rr0: "rr_calls rr0 = []" "rr_content_type rr0 = ct" "rr_input_count rr0 = 0"
    using assms(1) by (auto simp: rr_start_def bind_res_eq_Inr split: if_splits)
  obtain rr1 where rr1: "rr_ok_run env (map RInput ins) rr0 = Some rr1"
    and fin: "rr_ok_run env [RFinishInput] rr1 = Some rr"
    using assms(2) by (auto simp: rr_ok_run_append)
  let ?ps = "concat (map (slice_chunks MAX_REQUEST_INPUT_CHUNK_BYTES) ins)"
  have shape: "rr_calls rr1 = input_records env ct 0 ?ps" "rr_content_type rr1 = ct"
    "rr_input_count rr1 = length ?ps"
    using inputs_ok [OF rr1] rr0 by simp_all
  show ?thesis
  proof (cases "?ps = []")
    case True
    obtain u rr2 where "record_input_record env [] rr1 = (Inr u, rr2)" and "rr = rr2\<lparr>rr_input_complete := True\<rparr>"
      using fin True shape(3)
      by (auto simp: finish_input_def split: if_splits prod.splits sum.splits)
    then show ?thesis
      using record_ok [of env "[]" rr1] shape True by (simp add: request_pieces_def input_records_def)
  next
    case False
    then have "rr_calls rr = rr_calls rr1"
      using fin shape(3) by (auto simp: finish_input_def simp del: concat_eq_Nil_conv split: if_splits)
    then show ?thesis using shape(1) False by (simp add: request_pieces_def Let_def del: concat_eq_Nil_conv)
  qed
qed

text \<open>
  C31: A captured exchange says what happened.  When every call of an exchange succeeds, with
  the exact classifier, the operation received the request body cut into pieces of at most
  32 KiB, without loss and in order, and then one final call: it failed with the classifier's
  failure exactly when the response had the expected status and its whole body, however it was
  cut, is the expected body; otherwise it succeeded.
\<close>

theorem exchange_captured:
  assumes start: "rr_start begin ct factory = Inr rr0"
    and env: "env_classifier env = exact_response_classifier ec"
    and run: "rr_ok_run env (map RInput ins @ [RFinishInput] @ RBegin status hs # map RChunk outs) rr0 = Some rr"
    and fin: "finish_response env rr = (res, rr')"
    and memory: "length (ec_body ec) \<le> U64_MAX"
  shows "rr_calls rr' = input_records env ct 0 (request_pieces ins)
      @ [if status = ec_status ec \<and> concat outs = ec_body ec
         then CallFail (ec_failure ec) Return else CallSucceed]
    \<and> concat (request_pieces ins) = concat ins
    \<and> (\<forall>b \<in> set (request_pieces ins). length b \<le> MAX_REQUEST_INPUT_CHUNK_BYTES)"
proof -
  obtain rr1 where req: "rr_ok_run env (map RInput ins @ [RFinishInput]) rr0 = Some rr1"
    and resp: "rr_ok_run env (RBegin status hs # map RChunk outs) rr1 = Some rr"
    using run rr_ok_run_append [of env "map RInput ins @ [RFinishInput]"
        "RBegin status hs # map RChunk outs" rr0 rr]
    unfolding append_assoc by blast
  show ?thesis
    using exact.response_verdict [OF env resp fin] request_calls [OF start req] memory
      request_pieces_lossless request_pieces_small
    by (auto simp: exact_verdict_def)
qed

definition demo_exact :: exact_classifier where
  "demo_exact = \<lparr>ec_body = [1, 2, 3], ec_failure = Digest 6, ec_status = 500\<rparr>"

definition demo_env :: "exact_classification rr_env" where
  "demo_env = \<lparr>env_classifier = exact_response_classifier demo_exact,
     env_encode = (\<lambda>bs. replicate (length bs) CHR ''A''), env_digest_of = (\<lambda>bs. Digest (length bs)),
     env_reply = (\<lambda>_ _. Inr ())\<rparr>"

definition demo_begin_request :: begin_payload where
  "demo_begin_request = \<lparr>begin_campaign_context = None, begin_operation_kind = RequestResponse,
     begin_operation_name = ''orders'', begin_rest = []\<rparr>"

theorem operation_ended_once_witness:
  "\<exists>rr. rr_start demo_begin_request ''text/plain'' (Inr ()) = Inr rr
    \<and> ended_once demo_env (rr_calls (rr_drop (rr_run demo_env [RInput [1, 2], RFinishInput] rr)))"
proof -
  have "is_ok (rr_start demo_begin_request ''text/plain'' (Inr ()) :: exact_classification request_response res)"
    by code_simp
  then obtain rr :: "exact_classification request_response"
    where "rr_start demo_begin_request ''text/plain'' (Inr ()) = Inr rr"
    by (cases "rr_start demo_begin_request ''text/plain'' (Inr ())
        :: exact_classification request_response res") auto
  then show ?thesis using operation_ended_once by blast
qed

definition demo_exchange :: "rr_op list" where
  "demo_exchange = map RInput [[4, 5]] @ [RFinishInput] @ RBegin 500 [] # map RChunk [[1], [2, 3]]"

theorem exchange_captured_witness:
  "\<exists>rr0 rr. rr_start demo_begin_request ''text/plain'' (Inr ()) = Inr rr0
    \<and> rr_ok_run demo_env demo_exchange rr0 = Some rr
    \<and> last (rr_calls (snd (finish_response demo_env rr))) = CallFail (Digest 6) Return"
proof -
  define rr0 where "rr0 = (\<lparr>rr_classification = None, rr_content_type = ''text/plain'',
    rr_input_complete = False, rr_input_count = 0, rr_operation = True, rr_calls = []\<rparr>
    :: exact_classification request_response)"
  have start: "rr_start demo_begin_request ''text/plain'' (Inr ()) = Inr rr0"
    by (simp add: rr_start_def demo_begin_request_def rr0_def)
  have "rr_ok_run demo_env demo_exchange rr0 \<noteq> None" unfolding rr0_def by code_simp
  then obtain rr where run: "rr_ok_run demo_env demo_exchange rr0 = Some rr" by auto
  obtain res rr' where fin: "finish_response demo_env rr = (res, rr')" by (cases "finish_response demo_env rr")
  have "env_classifier demo_env = exact_response_classifier demo_exact" by (simp add: demo_env_def)
  from exchange_captured [OF start this run [unfolded demo_exchange_def] fin]
  show ?thesis using start run fin by (auto simp: demo_exact_def limits)
qed

end
