(* ===== verification/Sentinel_Trace.thy ===== *)
theory Sentinel_Trace
  imports Core_Model
begin

text \<open>
  The Linux kernel tracer of the sentinel
  (\<^verbatim>\<open>crates/reproit-sdk-sentinel/src/sentinel_linux.rs\<close>): the classification of system calls,
  the state shared between the traced process and the tracer child, the event pipe between
  them, the tracer's thread table and its loop, and the scopes in which a thread is ignored.
  What the kernel reports (wait statuses, system call information, whether a write succeeds)
  is an argument.
\<close>

section \<open>Events and their owners\<close>

datatype trace_kind = FilesystemEvent | NetworkEvent | ClockEvent | RandomnessEvent | ProcessEvent
  | ExitEvent

fun is_exactly_owned_by :: "trace_kind \<Rightarrow> observation_class \<Rightarrow> bool" where
  "is_exactly_owned_by FilesystemEvent cls = (cls = Filesystem)"
| "is_exactly_owned_by ClockEvent cls = (cls = Clock)"
| "is_exactly_owned_by RandomnessEvent cls = (cls = Randomness)"
| "is_exactly_owned_by _ cls = False"

fun is_owned_by :: "trace_kind \<Rightarrow> observation_class \<Rightarrow> bool" where
  "is_owned_by FilesystemEvent cls = (cls \<in> {Database, Filesystem, OutboundHttp, Queue})"
| "is_owned_by NetworkEvent cls = (cls \<in> {Database, OutboundHttp, Queue})"
| "is_owned_by ClockEvent cls = (cls \<in> {Clock, Database, OutboundHttp, Queue})"
| "is_owned_by RandomnessEvent cls = (cls \<in> {Database, OutboundHttp, Queue, Randomness})"
| "is_owned_by ProcessEvent cls = False"
| "is_owned_by ExitEvent cls = False"

datatype syscall =
    SYS_read | SYS_pread64 | SYS_readv | SYS_preadv | SYS_preadv2 | SYS_openat | SYS_openat2
  | SYS_fstat | SYS_newfstatat | SYS_statx | SYS_faccessat | SYS_faccessat2 | SYS_readlinkat
  | SYS_getdents64 | SYS_open | SYS_creat | SYS_stat | SYS_lstat | SYS_access | SYS_readlink
  | SYS_getdents | SYS_socket | SYS_socketpair | SYS_connect | SYS_accept | SYS_accept4
  | SYS_sendto | SYS_recvfrom | SYS_sendmsg | SYS_recvmsg | SYS_sendmmsg | SYS_recvmmsg
  | SYS_clock_gettime | SYS_clock_getres | SYS_gettimeofday | SYS_clock_nanosleep | SYS_nanosleep
  | SYS_time | SYS_getrandom | SYS_unlisted

text \<open>The legacy calls exist on x86-64 only; the first argument says whether that is the target.\<close>

definition is_legacy_filesystem_syscall :: "bool \<Rightarrow> syscall \<Rightarrow> bool" where
  "is_legacy_filesystem_syscall x86_64 n \<longleftrightarrow>
     x86_64 \<and> n \<in> {SYS_open, SYS_creat, SYS_stat, SYS_lstat, SYS_access, SYS_readlink, SYS_getdents}"

definition is_legacy_clock_syscall :: "bool \<Rightarrow> syscall \<Rightarrow> bool" where
  "is_legacy_clock_syscall x86_64 n \<longleftrightarrow> x86_64 \<and> n = SYS_time"

definition classify_syscall :: "bool \<Rightarrow> syscall \<Rightarrow> trace_kind option" where
  "classify_syscall x86_64 n =
     (if n \<in> {SYS_read, SYS_pread64, SYS_readv, SYS_preadv, SYS_preadv2, SYS_openat, SYS_openat2,
              SYS_fstat, SYS_newfstatat, SYS_statx, SYS_faccessat, SYS_faccessat2, SYS_readlinkat,
              SYS_getdents64}
         \<or> is_legacy_filesystem_syscall x86_64 n
      then Some FilesystemEvent
      else if n \<in> {SYS_socket, SYS_socketpair, SYS_connect, SYS_accept, SYS_accept4, SYS_sendto,
                   SYS_recvfrom, SYS_sendmsg, SYS_recvmsg, SYS_sendmmsg, SYS_recvmmsg}
      then Some NetworkEvent
      else if n \<in> {SYS_clock_gettime, SYS_clock_getres, SYS_gettimeofday, SYS_clock_nanosleep,
                   SYS_nanosleep}
         \<or> is_legacy_clock_syscall x86_64 n
      then Some ClockEvent
      else if n = SYS_getrandom then Some RandomnessEvent
      else None)"

section \<open>The shared state and the pipe\<close>

definition MAX_TRACED_THREADS :: nat where [limits]: "MAX_TRACED_THREADS = 1024"
definition MAX_IGNORED_THREADS :: nat where [limits]: "MAX_IGNORED_THREADS = 64"
definition MAX_QUEUED_EVENTS :: nat where [limits]: "MAX_QUEUED_EVENTS = 4096"
definition MAX_TOTAL_EVENTS :: nat where [limits]: "MAX_TOTAL_EVENTS = 2 ^ 40"

record trace_event =
  ev_thread_id :: int
  ev_kind :: trace_kind
  ev_sequence :: nat

text \<open>The two arrays of ignored threads are one list of slots: the thread id and its depth.\<close>

record shared_state =
  sh_overflowed :: bool
  sh_tracer_alive :: bool
  sh_sequence :: nat
  sh_queued_events :: nat
  sh_ignored :: "(int \<times> nat) list"

text \<open>
  The runtime of the traced process: the mapping it shares with the tracer, the pipe, whether
  it has reaped the tracer, and whether the kernel would report the tracer's end.
\<close>

record trace_runtime =
  rt_shared :: shared_state
  rt_pipe :: "trace_event list"
  rt_reaped :: bool
  rt_child_exited :: bool

definition set_overflowed :: "trace_runtime \<Rightarrow> trace_runtime" where
  "set_overflowed rt = rt\<lparr>rt_shared := (rt_shared rt)\<lparr>sh_overflowed := True\<rparr>\<rparr>"

definition wrapping_sub :: "nat \<Rightarrow> nat \<Rightarrow> nat" where
  "wrapping_sub a b = (if b \<le> a then a - b else U64_MAX + 1 + a - b)"

text \<open>\<open>emit_event\<close>; the flag says whether the write of the event is complete.\<close>

definition emit_event :: "int \<Rightarrow> trace_kind \<Rightarrow> bool \<Rightarrow> trace_runtime \<Rightarrow> trace_runtime" where
  "emit_event tid kind written rt =
     (let sh = rt_shared rt
      in if sh_overflowed sh then rt
         else if sh_queued_events sh \<ge> MAX_QUEUED_EVENTS then set_overflowed rt
         else
           let sequence = sh_sequence sh;
               sh1 = sh\<lparr>sh_queued_events := wrapping_add (sh_queued_events sh) 1,
                        sh_sequence := wrapping_add sequence 1\<rparr>;
               undone = sh1\<lparr>sh_queued_events := wrapping_sub (sh_queued_events sh1) 1,
                            sh_overflowed := True\<rparr>
           in if sequence \<ge> MAX_TOTAL_EVENTS then rt\<lparr>rt_shared := undone\<rparr>
              else if written
              then rt\<lparr>rt_shared := sh1,
                      rt_pipe := rt_pipe rt @ [\<lparr>ev_thread_id = tid, ev_kind = kind,
                                                ev_sequence = sequence + 1\<rparr>]\<rparr>
              else rt\<lparr>rt_shared := undone\<rparr>)"

definition is_ignored :: "int \<Rightarrow> shared_state \<Rightarrow> bool" where
  "is_ignored tid sh \<longleftrightarrow> (\<exists>(t, d) \<in> set (sh_ignored sh). d > 0 \<and> t = tid)"

text \<open>
  \<open>trace_syscall_entry\<close>: the system call information, when the kernel gives it, with whether
  this stop is the entry of the call.
\<close>

definition trace_syscall_entry ::
  "bool \<Rightarrow> int \<Rightarrow> (bool \<times> syscall) option \<Rightarrow> bool \<Rightarrow> trace_runtime \<Rightarrow> trace_runtime" where
  "trace_syscall_entry x86_64 tid info written rt =
     (case info of
        None \<Rightarrow> set_overflowed rt
      | Some (entry, n) \<Rightarrow>
          if \<not> entry \<or> is_ignored tid (rt_shared rt) then rt
          else case classify_syscall x86_64 n of
                 None \<Rightarrow> rt
               | Some kind \<Rightarrow> emit_event tid kind written rt)"

section \<open>The tracer's threads and its loop\<close>

definition add_tid :: "int \<Rightarrow> int list \<Rightarrow> bool \<times> int list" where
  "add_tid tid tids =
     (if tid \<in> set tids then (True, tids)
      else if length tids \<ge> MAX_TRACED_THREADS then (False, tids)
      else (True, tids @ [tid]))"

fun position :: "'a \<Rightarrow> 'a list \<Rightarrow> nat option" where
  "position x [] = None"
| "position x (y # ys) = (if y = x then Some 0 else map_option Suc (position x ys))"

definition remove_tid :: "int \<Rightarrow> int list \<Rightarrow> int list" where
  "remove_tid tid tids =
     (case position tid tids of
        None \<Rightarrow> tids
      | Some index \<Rightarrow> let count = length tids - 1 in take count (tids[index := tids ! count]))"

text \<open>What \<open>waitpid\<close> and \<open>ptrace\<close> tell the loop.\<close>

datatype tracer_stop =
    WaitFailed
  | ThreadEnded int
  | NotStopped
  | SyscallStop int "(bool \<times> syscall) option"
  | CloneStop int "int option"
  | ExecStop int
  | ExitStop int
  | GroupStop int
  | SignalStop int

text \<open>
  One turn of the loop: the tracer's threads and the runtime after it, and whether the tracer
  goes on.  A new thread whose id does not fit a positive \<open>i32\<close> is reported as 0.
\<close>

definition tracer_step ::
  "bool \<Rightarrow> int \<Rightarrow> tracer_stop \<Rightarrow> bool \<Rightarrow> int list \<times> trace_runtime
     \<Rightarrow> (int list \<times> trace_runtime) \<times> bool" where
  "tracer_step x86_64 target stop written w =
     (let (tids, rt) = w; dead = rt\<lparr>rt_shared := (rt_shared rt)\<lparr>sh_tracer_alive := False\<rparr>\<rparr>
      in case stop of
           WaitFailed \<Rightarrow> ((tids, dead), False)
         | ThreadEnded tid \<Rightarrow>
             let tids' = remove_tid tid tids
             in if tids' = [] \<or> tid = target then ((tids', dead), False) else ((tids', rt), True)
         | NotStopped \<Rightarrow> ((tids, rt), True)
         | SyscallStop tid info \<Rightarrow> ((tids, trace_syscall_entry x86_64 tid info written rt), True)
         | CloneStop tid message \<Rightarrow>
             let rt1 = emit_event tid ProcessEvent written rt
             in (case message of
                   None \<Rightarrow> ((tids, set_overflowed rt1), True)
                 | Some new_tid \<Rightarrow>
                     if new_tid \<le> 0 then ((tids, set_overflowed rt1), True)
                     else let (added, tids') = add_tid new_tid tids
                          in ((tids', if added then rt1 else set_overflowed rt1), True))
         | ExecStop tid \<Rightarrow> ((tids, emit_event tid ProcessEvent written rt), True)
         | ExitStop tid \<Rightarrow> ((tids, emit_event tid ExitEvent written rt), True)
         | GroupStop tid \<Rightarrow> ((tids, rt), True)
         | SignalStop tid \<Rightarrow> ((tids, rt), True))"

section \<open>The runtime in the traced process\<close>

definition poll_child :: "trace_runtime \<Rightarrow> trace_runtime" where
  "poll_child rt =
     (if rt_reaped rt \<or> \<not> rt_child_exited rt then rt
      else rt\<lparr>rt_reaped := True, rt_shared := (rt_shared rt)\<lparr>sh_tracer_alive := False\<rparr>\<rparr>)"

text \<open>\<open>drain\<close> into a buffer of \<open>n\<close> events: the events read, and the runtime.\<close>

definition runtime_drain :: "nat \<Rightarrow> trace_runtime \<Rightarrow> trace_event list \<times> trace_runtime" where
  "runtime_drain n rt =
     (let rt1 = poll_child rt; read = take n (rt_pipe rt1)
      in (read, rt1\<lparr>rt_pipe := drop n (rt_pipe rt1),
                    rt_shared := (rt_shared rt1)\<lparr>sh_queued_events :=
                      wrapping_sub (sh_queued_events (rt_shared rt1)) (length read)\<rparr>\<rparr>))"

definition is_healthy :: "trace_runtime \<Rightarrow> bool \<times> trace_runtime" where
  "is_healthy rt =
     (let rt1 = poll_child rt
      in (\<not> rt_reaped rt1 \<and> sh_tracer_alive (rt_shared rt1) \<and> \<not> sh_overflowed (rt_shared rt1), rt1))"

definition runtime_sequence :: "trace_runtime \<Rightarrow> nat" where
  "runtime_sequence rt = sh_sequence (rt_shared rt)"

text \<open>
  \<open>ignore_current_thread\<close> for the thread \<open>tid\<close>: the slot of its guard, when there is one.  A
  slot with thread id 0 is free.
\<close>

definition ignore_current_thread :: "int \<Rightarrow> shared_state \<Rightarrow> nat option \<times> shared_state" where
  "ignore_current_thread tid sh =
     (let slots = sh_ignored sh
      in case position tid (map fst slots) of
           Some slot \<Rightarrow>
             (Some slot, sh\<lparr>sh_ignored := slots[slot := (tid, wrapping_add (snd (slots ! slot)) 1)]\<rparr>)
         | None \<Rightarrow>
             (case position 0 (map fst slots) of
                Some slot \<Rightarrow> (Some slot, sh\<lparr>sh_ignored := slots[slot := (tid, 1)]\<rparr>)
              | None \<Rightarrow> (None, sh\<lparr>sh_overflowed := True\<rparr>)))"

definition ignore_guard_drop :: "nat \<Rightarrow> shared_state \<Rightarrow> shared_state" where
  "ignore_guard_drop slot sh =
     (let (tid, previous) = sh_ignored sh ! slot; depth = wrapping_sub previous 1
      in if previous = 1 then sh\<lparr>sh_ignored := (sh_ignored sh)[slot := (0, depth)]\<rparr>
         else if previous = 0
         then sh\<lparr>sh_ignored := (sh_ignored sh)[slot := (tid, depth)], sh_overflowed := True\<rparr>
         else sh\<lparr>sh_ignored := (sh_ignored sh)[slot := (tid, depth)]\<rparr>)"

section \<open>Thread table\<close>

lemma position_Some: "position x ys = Some i \<Longrightarrow> i < length ys \<and> ys ! i = x"
  by (induction ys arbitrary: i) (auto split: if_splits simp: nth_Cons')

lemma position_None: "position x ys = None \<longleftrightarrow> x \<notin> set ys"
  by (induction ys) auto

lemma swap_remove:
  assumes "distinct ys" "i < length ys"
  shows "distinct (take (length ys - 1) (ys[i := ys ! (length ys - 1)]))"
    and "set (take (length ys - 1) (ys[i := ys ! (length ys - 1)])) = set ys - {ys ! i}"
proof -
  obtain zs z where ys: "ys = zs @ [z]" using assms(2) by (cases ys rule: rev_cases) auto
  have "distinct (take (length ys - 1) (ys[i := ys ! (length ys - 1)]))
    \<and> set (take (length ys - 1) (ys[i := ys ! (length ys - 1)])) = set ys - {ys ! i}"
  proof (cases "i = length zs")
    case True
    then show ?thesis using assms(1) by (auto simp: ys)
  next
    case False
    then have i: "i < length zs" using assms(2) by (simp add: ys)
    have "set (zs[i := z]) = insert z (set zs - {zs ! i})"
      using assms(1) i by (intro set_update_distinct) (simp_all add: ys)
    moreover have "z \<noteq> zs ! i" using assms(1) i by (auto simp: ys)
    ultimately show ?thesis
      using assms(1) i by (auto simp: ys nth_append list_update_append distinct_list_update)
  qed
  then show "distinct (take (length ys - 1) (ys[i := ys ! (length ys - 1)]))"
    and "set (take (length ys - 1) (ys[i := ys ! (length ys - 1)])) = set ys - {ys ! i}" by auto
qed

text \<open>
  The tracer's thread table is a set.  Adding a thread keeps the table without duplicates
  and within its 1024 entries, and adds exactly that thread, or reports that it does not fit;
  removing a thread, which moves the last entry into its place, removes exactly that thread.
\<close>

theorem thread_table_is_a_set:
  assumes "distinct tids" and "length tids \<le> MAX_TRACED_THREADS"
  shows "(case add_tid tid tids of (added, tids') \<Rightarrow>
      distinct tids' \<and> length tids' \<le> MAX_TRACED_THREADS
      \<and> set tids' = (if added then insert tid (set tids) else set tids)
      \<and> (added \<longleftrightarrow> tid \<in> set tids \<or> length tids < MAX_TRACED_THREADS))
    \<and> distinct (remove_tid tid tids) \<and> set (remove_tid tid tids) = set tids - {tid}
    \<and> length (remove_tid tid tids) \<le> length tids"
proof (cases "position tid tids")
  case None
  then have "remove_tid tid tids = tids" "tid \<notin> set tids"
    using position_None [of tid tids] by (simp_all add: remove_tid_def)
  then show ?thesis using assms by (auto simp: add_tid_def)
next
  case (Some i)
  then show ?thesis
    using assms position_Some [OF Some] swap_remove [OF assms(1), of i]
    by (auto simp: add_tid_def remove_tid_def Let_def)
qed

theorem thread_table_is_a_set_witness: "set (remove_tid 5 [3, 5, 8]) = {3, 5, 8} - {5}"
proof -
  have "distinct [3, 5, 8 :: int]" "length [3, 5, 8 :: int] \<le> MAX_TRACED_THREADS"
    by (simp_all add: limits)
  from thread_table_is_a_set [OF this, of 5] show ?thesis by simp
qed

section \<open>Ignored threads\<close>

definition slots_ok :: "shared_state \<Rightarrow> bool" where
  "slots_ok sh \<longleftrightarrow> length (sh_ignored sh) = MAX_IGNORED_THREADS
     \<and> (\<forall>(t, d) \<in> set (sh_ignored sh). (t = 0 \<longleftrightarrow> d = 0) \<and> d < U64_MAX)"

text \<open>
  An ignore scope is exact.  When a thread enters a scope and gets a guard, it is ignored,
  every other thread is ignored or not as before, and dropping the guard restores the shared
  state; a thread that gets no guard (all 64 slots taken by others) marks the trace as
  overflowed and is not ignored.
\<close>

theorem ignore_scope_exact:
  assumes "slots_ok sh" and "tid > 0" and "ignore_current_thread tid sh = (guard, sh')"
  shows "case guard of
      Some slot \<Rightarrow> ignore_guard_drop slot sh' = sh
        \<and> (\<forall>t. t \<noteq> 0 \<longrightarrow> is_ignored t sh' = (t = tid \<or> is_ignored t sh))
    | None \<Rightarrow> sh_overflowed sh' \<and> \<not> is_ignored tid sh' \<and> sh_ignored sh' = sh_ignored sh"
proof -
  let ?slots = "sh_ignored sh"
  consider (held) i where "position tid (map fst ?slots) = Some i"
    | (free) i where "position tid (map fst ?slots) = None" "position 0 (map fst ?slots) = Some i"
    | (full) "position tid (map fst ?slots) = None" "position 0 (map fst ?slots) = None"
    by fastforce
  then show ?thesis
  proof cases
    case held
    then obtain d where i: "i < length ?slots" "?slots ! i = (tid, d)"
      using position_Some [OF held] by (cases "?slots ! i") auto
    then have d: "0 < d" "d < U64_MAX"
      using assms(1,2) nth_mem [OF i(1)] by (auto simp: slots_ok_def)
    then have wrap: "wrapping_add d 1 = d + 1" "wrapping_sub (d + 1) 1 = d"
      by (auto simp: wrapping_add_exact wrapping_sub_def)
    have sh': "guard = Some i" "sh' = sh\<lparr>sh_ignored := ?slots[i := (tid, d + 1)]\<rparr>"
      using assms(3) held i wrap by (auto simp: ignore_current_thread_def Let_def)
    have "?slots[i := (tid, d)] = ?slots" using i by (metis list_update_id)
    moreover have "is_ignored t sh' = is_ignored t sh" for t
    proof -
      have "(\<exists>(u, e) \<in> set (?slots[i := (tid, d + 1)]). e > 0 \<and> u = t)
          = (\<exists>j < length ?slots. snd (?slots[i := (tid, d + 1)] ! j) > 0 \<and> fst (?slots[i := (tid, d + 1)] ! j) = t)"
        by (fastforce simp: in_set_conv_nth split_beta)
      also have "\<dots> = (\<exists>j < length ?slots. snd (?slots ! j) > 0 \<and> fst (?slots ! j) = t)"
        using i d by (intro ex_cong1) (auto simp: nth_list_update)
      also have "\<dots> = (\<exists>(u, e) \<in> set ?slots. e > 0 \<and> u = t)"
        by (fastforce simp: in_set_conv_nth split_beta)
      finally show ?thesis by (simp add: sh' is_ignored_def)
    qed
    moreover have "is_ignored tid sh"
      using nth_mem [OF i(1)] i(2) d(1) by (auto simp: is_ignored_def)
    ultimately show ?thesis
      using i d wrap by (auto simp: sh' ignore_guard_drop_def Let_def)
  next
    case free
    then have i: "i < length ?slots" "fst (?slots ! i) = 0"
      using position_Some [OF free(2)] by auto
    then have z: "?slots ! i = (0, 0)"
      using assms(1) nth_mem [OF i(1)] by (cases "?slots ! i") (auto simp: slots_ok_def)
    have sh': "guard = Some i" "sh' = sh\<lparr>sh_ignored := ?slots[i := (tid, 1)]\<rparr>"
      using assms(3) free by (auto simp: ignore_current_thread_def Let_def)
    have "?slots[i := (0, 0)] = ?slots" using z by (metis list_update_id)
    moreover have "is_ignored t sh' = (t = tid \<or> is_ignored t sh)" if "t \<noteq> 0" for t
    proof -
      have each: "snd (?slots[i := (tid, 1)] ! j) > 0 \<and> fst (?slots[i := (tid, 1)] ! j) = t
          \<longleftrightarrow> j = i \<and> t = tid \<or> snd (?slots ! j) > 0 \<and> fst (?slots ! j) = t"
        if "j < length ?slots" for j
        using i z that \<open>t \<noteq> 0\<close> by (cases "j = i") auto
      have "(\<exists>(u, e) \<in> set (?slots[i := (tid, 1)]). e > 0 \<and> u = t)
          = (\<exists>j < length ?slots. snd (?slots[i := (tid, 1)] ! j) > 0 \<and> fst (?slots[i := (tid, 1)] ! j) = t)"
        by (fastforce simp: in_set_conv_nth split_beta)
      also have "\<dots> = (t = tid \<or> (\<exists>j < length ?slots. snd (?slots ! j) > 0 \<and> fst (?slots ! j) = t))"
        using each i(1) by blast
      also have "\<dots> = (t = tid \<or> (\<exists>(u, e) \<in> set ?slots. e > 0 \<and> u = t))"
        by (fastforce simp: in_set_conv_nth split_beta)
      finally show ?thesis by (simp add: sh' is_ignored_def)
    qed
    ultimately show ?thesis
      using i by (auto simp: sh' ignore_guard_drop_def wrapping_sub_def)
  next
    case full
    then have "guard = None" "sh' = sh\<lparr>sh_overflowed := True\<rparr>"
      using assms(3) by (auto simp: ignore_current_thread_def Let_def)
    moreover have "tid \<notin> fst ` set ?slots" using full(1) by (simp add: position_None)
    ultimately show ?thesis by (force simp: is_ignored_def)
  qed
qed

definition fresh_shared :: shared_state where
  "fresh_shared = \<lparr>sh_overflowed = False, sh_tracer_alive = True, sh_sequence = 0,
     sh_queued_events = 0, sh_ignored = replicate MAX_IGNORED_THREADS (0, 0)\<rparr>"

theorem ignore_scope_exact_witness:
  "ignore_guard_drop 0 (snd (ignore_current_thread 12 fresh_shared)) = fresh_shared"
proof -
  have "slots_ok fresh_shared" by (simp add: slots_ok_def fresh_shared_def limits)
  moreover have "ignore_current_thread 12 fresh_shared
      = (Some 0, snd (ignore_current_thread 12 fresh_shared))"
    by (simp add: ignore_current_thread_def fresh_shared_def limits Let_def) code_simp
  ultimately show ?thesis using ignore_scope_exact [of fresh_shared 12] by fastforce
qed

end
