(* ===== verification/Sentinel.thy ===== *)
theory Sentinel
  imports Sentinel_Trace
begin

text \<open>
  The sentinel's controller (\<^verbatim>\<open>crates/reproit-sdk-sentinel/src/sentinel.rs\<close>): it drains the
  kernel trace, attributes each event to the observation that owns it, and says at the end of an
  operation whether its native effects are all accounted for.  The controller is behind a
  mutex: each call below is one critical section, and the tracer runs between them.
\<close>

section \<open>Evidence\<close>

record native_coverage_evidence =
  nce_start_sequence :: nat
  nce_end_sequence :: nat
  nce_relevant_events :: nat
  nce_owned_events :: nat

datatype operation_coverage = CoverageIncomplete | CleanKernelTrace native_coverage_evidence

text \<open>\<open>u64::to_be_bytes\<close>\<close>

definition to_be_bytes :: "nat \<Rightarrow> bytes" where
  "to_be_bytes n = map (\<lambda>i. of_nat (n div 256 ^ i)) (rev [0..<8])"

definition evidence_encode :: "native_coverage_evidence \<Rightarrow> bytes" where
  "evidence_encode e =
     concat (map to_be_bytes
       [1, nce_start_sequence e, nce_end_sequence e, nce_relevant_events e, nce_owned_events e])"

section \<open>State\<close>

record traced_operation =
  ao_start_sequence :: nat
  ao_relevant_events :: nat
  ao_owned_events :: nat
  ao_incomplete :: bool

record traced_observation =
  ab_operation_handle :: nat
  ab_class :: observation_class
  ab_thread_id :: int
  ab_dispatched :: bool

record controller =
  ct_observations :: "(nat, traced_observation) btree"
  ct_operations :: "(nat, traced_operation) btree"
  ct_engine_count :: nat
  ct_runtime :: "trace_runtime option"

definition MAX_ACTIVE_OBSERVATIONS :: nat where [limits]: "MAX_ACTIVE_OBSERVATIONS = 1024"

definition new_controller :: controller where
  "new_controller = \<lparr>ct_observations = [], ct_operations = [], ct_engine_count = 0, ct_runtime = None\<rparr>"

definition bt_map_values :: "('v \<Rightarrow> 'w) \<Rightarrow> ('k::linorder, 'v) btree \<Rightarrow> ('k, 'w) btree" where
  "bt_map_values f m = map (\<lambda>(k, v). (k, f v)) m"

definition mark_all_incomplete :: "controller \<Rightarrow> controller" where
  "mark_all_incomplete c =
     c\<lparr>ct_operations := bt_map_values (\<lambda>a. a\<lparr>ao_incomplete := True\<rparr>) (ct_operations c)\<rparr>"

section \<open>Attribution\<close>

text \<open>
  The operations whose dispatched observations on the event's thread own it: by an exact match
  of kind and class if there is one, by a transitive one otherwise.
\<close>

definition owned_by ::
  "(trace_kind \<Rightarrow> observation_class \<Rightarrow> bool) \<Rightarrow> (nat, traced_observation) btree \<Rightarrow> trace_event
     \<Rightarrow> nat list" where
  "owned_by matches obs e =
     map (\<lambda>(_, ob). ab_operation_handle ob)
       (filter (\<lambda>(_, ob). ab_dispatched ob \<and> ab_thread_id ob = ev_thread_id e
                           \<and> matches (ev_kind e) (ab_class ob)) obs)"

definition event_owners :: "(nat, traced_observation) btree \<Rightarrow> trace_event \<Rightarrow> nat list" where
  "event_owners obs e =
     (let exact = owned_by is_exactly_owned_by obs e
      in if exact = [] then owned_by is_owned_by obs e else exact)"

definition apply_event :: "trace_event \<Rightarrow> controller \<Rightarrow> controller" where
  "apply_event e c =
     (if ev_kind e = ExitEvent then c
      else
        let owner = event_owners (ct_observations c) e
        in if length owner = 1
           then case bt_get (ct_operations c) (owner ! 0) of
                  None \<Rightarrow> c
                | Some a \<Rightarrow>
                    c\<lparr>ct_operations := bt_insert (owner ! 0)
                        (a\<lparr>ao_relevant_events := saturating_add (ao_relevant_events a) 1,
                           ao_owned_events := saturating_add (ao_owned_events a) 1\<rparr>)
                        (ct_operations c)\<rparr>
           else c\<lparr>ct_operations := bt_map_values
                    (\<lambda>a. a\<lparr>ao_relevant_events := saturating_add (ao_relevant_events a) 1,
                           ao_incomplete := True\<rparr>) (ct_operations c)\<rparr>)"

lemma apply_event_frame [simp]:
  "ct_runtime (apply_event e c) = ct_runtime c"
  "ct_observations (apply_event e c) = ct_observations c"
  by (simp_all add: apply_event_def Let_def split: option.split)

lemma fold_apply_frame [simp]:
  "ct_runtime (fold apply_event es c) = ct_runtime c"
  "ct_observations (fold apply_event es c) = ct_observations c"
  by (induction es arbitrary: c) simp_all

lemma poll_child_pipe [simp]: "rt_pipe (poll_child rt) = rt_pipe rt"
  by (simp add: poll_child_def)

text \<open>The loop of \<open>drain\<close>: it reads 64 events at a time, until a read is short.\<close>

function drain_loop :: "trace_runtime \<Rightarrow> controller \<Rightarrow> trace_runtime \<times> controller" where
  "drain_loop rt c =
     (let (events, rt1) = runtime_drain 64 rt; c1 = fold apply_event events c
      in if length events < 64 then (rt1, c1) else drain_loop rt1 c1)"
  by pat_completeness auto

termination
  by (relation "measure (\<lambda>(rt, c). length (rt_pipe rt))") (auto simp: runtime_drain_def Let_def)

declare drain_loop.simps [simp del]

definition drain :: "controller \<Rightarrow> controller" where
  "drain c =
     (case ct_runtime c of
        None \<Rightarrow> mark_all_incomplete c
      | Some rt \<Rightarrow>
          let (rt1, c1) = drain_loop rt c; (healthy, rt2) = is_healthy rt1;
              c2 = c1\<lparr>ct_runtime := Some rt2\<rparr>
          in if healthy then c2 else mark_all_incomplete c2)"

section \<open>The controller's operations\<close>

definition operation_started :: "nat \<Rightarrow> controller \<Rightarrow> controller" where
  "operation_started h c =
     (let c1 = drain c
      in if length (ct_operations c1) \<ge> MAX_ACTIVE_OPERATIONS then mark_all_incomplete c1
         else
           let (start, incomplete, runtime) =
                 (case ct_runtime c1 of
                    None \<Rightarrow> (0, True, None)
                  | Some rt \<Rightarrow>
                      let (healthy, rt1) = is_healthy rt
                      in (runtime_sequence rt, \<not> healthy, Some rt1))
           in c1\<lparr>ct_runtime := runtime,
                 ct_operations := bt_insert h
                   \<lparr>ao_start_sequence = start, ao_relevant_events = 0, ao_owned_events = 0,
                    ao_incomplete = incomplete\<rparr> (ct_operations c1)\<rparr>)"

definition coverage_result :: "traced_operation \<Rightarrow> bool \<Rightarrow> nat \<Rightarrow> operation_coverage" where
  "coverage_result a runtime_healthy end_sequence =
     (if ao_incomplete a \<or> \<not> runtime_healthy \<or> ao_owned_events a > ao_relevant_events a
         \<or> end_sequence < ao_start_sequence a
      then CoverageIncomplete
      else CleanKernelTrace
        \<lparr>nce_start_sequence = ao_start_sequence a, nce_end_sequence = end_sequence,
         nce_relevant_events = ao_relevant_events a, nce_owned_events = ao_owned_events a\<rparr>)"

definition forget_observations :: "nat \<Rightarrow> controller \<Rightarrow> controller" where
  "forget_observations h c =
     c\<lparr>ct_observations := bt_retain (\<lambda>_ ob. ab_operation_handle ob \<noteq> h) (ct_observations c)\<rparr>"

text \<open>\<open>operation_finished\<close> after its drain, and as a whole.\<close>

definition finish_drained :: "nat \<Rightarrow> controller \<Rightarrow> operation_coverage \<times> controller" where
  "finish_drained h c =
     (let c1 = forget_observations h c
      in case bt_get (ct_operations c1) h of
           None \<Rightarrow> (CoverageIncomplete, c1)
         | Some a \<Rightarrow>
             let c2 = c1\<lparr>ct_operations := bt_remove h (ct_operations c1)\<rparr>
             in case ct_runtime c2 of
                  None \<Rightarrow> (coverage_result a False 0, c2)
                | Some rt \<Rightarrow>
                    let (healthy, rt1) = is_healthy rt
                    in (coverage_result a healthy (runtime_sequence rt1),
                        c2\<lparr>ct_runtime := Some rt1\<rparr>))"

definition operation_finished :: "nat \<Rightarrow> controller \<Rightarrow> operation_coverage \<times> controller" where
  "operation_finished h c = finish_drained h (drain c)"

definition remove_operation :: "nat \<Rightarrow> controller \<Rightarrow> controller" where
  "remove_operation h c =
     (let c1 = forget_observations h (drain c)
      in c1\<lparr>ct_operations := bt_remove h (ct_operations c1)\<rparr>)"

definition observation_opened ::
  "nat \<Rightarrow> nat \<Rightarrow> observation_class \<Rightarrow> controller \<Rightarrow> controller" where
  "observation_opened ob_handle h cls c =
     (let c1 = drain c
      in if length (ct_observations c1) \<ge> MAX_ACTIVE_OBSERVATIONS then mark_all_incomplete c1
         else c1\<lparr>ct_observations := bt_insert ob_handle
                  \<lparr>ab_operation_handle = h, ab_class = cls, ab_thread_id = 0, ab_dispatched = False\<rparr>
                  (ct_observations c1)\<rparr>)"

definition observation_dispatched :: "nat \<Rightarrow> int \<Rightarrow> controller \<Rightarrow> controller" where
  "observation_dispatched ob_handle thread_id c =
     (let c1 = drain c
      in case bt_get (ct_observations c1) ob_handle of
           None \<Rightarrow> mark_all_incomplete c1
         | Some ob \<Rightarrow>
             c1\<lparr>ct_observations := bt_insert ob_handle
                 (ob\<lparr>ab_thread_id := thread_id, ab_dispatched := True\<rparr>) (ct_observations c1)\<rparr>)"

definition observation_finished :: "nat \<Rightarrow> controller \<Rightarrow> controller" where
  "observation_finished ob_handle c =
     (let c1 = drain c
      in case bt_get (ct_observations c1) ob_handle of
           None \<Rightarrow> mark_all_incomplete c1
         | Some _ \<Rightarrow> c1\<lparr>ct_observations := bt_remove ob_handle (ct_observations c1)\<rparr>)"

definition observation_is_active :: "nat \<Rightarrow> controller \<Rightarrow> bool" where
  "observation_is_active ob_handle c = bt_contains (ct_observations c) ob_handle"

text \<open>\<open>engine_opened\<close>, with what installing the runtime would give.\<close>

definition engine_opened :: "trace_runtime option \<Rightarrow> controller \<Rightarrow> controller" where
  "engine_opened installed c =
     (let c1 = c\<lparr>ct_engine_count := saturating_add (ct_engine_count c) 1\<rparr>
      in if ct_runtime c1 = None then c1\<lparr>ct_runtime := installed\<rparr> else c1)"

definition engine_closed :: "controller \<Rightarrow> controller" where
  "engine_closed c =
     (let c1 = c\<lparr>ct_engine_count := saturating_sub (ct_engine_count c) 1\<rparr>
      in if ct_engine_count c1 = 0
         then (mark_all_incomplete c1)\<lparr>ct_observations := [], ct_operations := [], ct_runtime := None\<rparr>
         else c1)"

text \<open>\<open>engine_call_scope\<close>: the calling thread is ignored while the guard lives.\<close>

definition engine_call_scope :: "int \<Rightarrow> controller \<Rightarrow> nat option \<times> controller" where
  "engine_call_scope tid c =
     (case ct_runtime c of
        None \<Rightarrow> (None, c)
      | Some rt \<Rightarrow>
          let (guard, sh) = ignore_current_thread tid (rt_shared rt)
          in (guard, c\<lparr>ct_runtime := Some (rt\<lparr>rt_shared := sh\<rparr>)\<rparr>))"

section \<open>The encoding of the evidence\<close>

definition from_be_bytes :: "bytes \<Rightarrow> nat" where
  "from_be_bytes bs = foldl (\<lambda>acc b. acc * 256 + unat b) 0 bs"

lemma from_to_be_bytes:
  assumes "n \<le> U64_MAX"
  shows "from_be_bytes (to_be_bytes n) = n"
proof -
  have byte: "unat (of_nat m :: 8 word) = m mod 256" for m by (simp add: unat_of_nat)
  have step: "m div 256 * 256 + m mod 256 = m" for m :: nat by simp
  have lift: "n div 256 ^ j * 256 + n div 256 ^ i mod 256 = n div 256 ^ i" if "j = Suc i" for i j
    unfolding that using step [of "n div 256 ^ i"] by (simp add: power_Suc2 div_mult2_eq del: power_Suc)
  have lifts:
    "n div 256 ^ 8 * 256 + n div 256 ^ 7 mod 256 = n div 256 ^ 7"
    "n div 256 ^ 7 * 256 + n div 256 ^ 6 mod 256 = n div 256 ^ 6"
    "n div 256 ^ 6 * 256 + n div 256 ^ 5 mod 256 = n div 256 ^ 5"
    "n div 256 ^ 5 * 256 + n div 256 ^ 4 mod 256 = n div 256 ^ 4"
    "n div 256 ^ 4 * 256 + n div 256 ^ 3 mod 256 = n div 256 ^ 3"
    "n div 256 ^ 3 * 256 + n div 256 ^ 2 mod 256 = n div 256 ^ 2"
    "n div 256 ^ 2 * 256 + n div 256 ^ 1 mod 256 = n div 256 ^ 1"
    "n div 256 ^ 1 * 256 + n div 256 ^ 0 mod 256 = n div 256 ^ 0"
    by (rule lift, simp)+
  have top: "n div 256 ^ 8 = 0" using assms by (simp add: limits)
  have "rev [0..<8] = [7, 6, 5, 4, 3, 2, 1, 0 :: nat]" by (simp add: upt_rec)
  then have "from_be_bytes (to_be_bytes n) =
      ((((((((n div 256 ^ 8) * 256 + n div 256 ^ 7 mod 256) * 256 + n div 256 ^ 6 mod 256) * 256
        + n div 256 ^ 5 mod 256) * 256 + n div 256 ^ 4 mod 256) * 256 + n div 256 ^ 3 mod 256) * 256
        + n div 256 ^ 2 mod 256) * 256 + n div 256 ^ 1 mod 256) * 256 + n div 256 ^ 0 mod 256"
    by (simp only: from_be_bytes_def to_be_bytes_def list.map foldl.simps byte top mult_zero_left add_0)
  also have "\<dots> = n div 256 ^ 0"
    by (simp only: lifts)
  also have "\<dots> = n" by simp
  finally show ?thesis .
qed

lemma length_to_be_bytes [simp]: "length (to_be_bytes n) = 8"
  by (simp add: to_be_bytes_def)

text \<open>
  Evidence is encoded without loss.  The encoding has 40 bytes, it starts with the format
  number, and two pieces of evidence with 64-bit fields have the same encoding only when they
  are equal.
\<close>

theorem evidence_encoding_injective:
  assumes "nce_start_sequence e \<le> U64_MAX" "nce_end_sequence e \<le> U64_MAX"
    "nce_relevant_events e \<le> U64_MAX" "nce_owned_events e \<le> U64_MAX"
    "nce_start_sequence f \<le> U64_MAX" "nce_end_sequence f \<le> U64_MAX"
    "nce_relevant_events f \<le> U64_MAX" "nce_owned_events f \<le> U64_MAX"
  shows "length (evidence_encode e) = 40 \<and> take 8 (evidence_encode e) = to_be_bytes 1
    \<and> (evidence_encode e = evidence_encode f \<longleftrightarrow> e = f)"
proof -
  have inj: "to_be_bytes m = to_be_bytes n \<longleftrightarrow> m = n" if "m \<le> U64_MAX" "n \<le> U64_MAX" for m n
    using that from_to_be_bytes by metis
  then show ?thesis
    using assms by (auto simp: evidence_encode_def)
qed

definition demo_evidence :: native_coverage_evidence where
  "demo_evidence = \<lparr>nce_start_sequence = 1, nce_end_sequence = 2, nce_relevant_events = 3,
     nce_owned_events = 3\<rparr>"

theorem evidence_encoding_injective_witness:
  "evidence_encode demo_evidence \<noteq> evidence_encode (demo_evidence\<lparr>nce_end_sequence := 258\<rparr>)"
  using evidence_encoding_injective [of demo_evidence "demo_evidence\<lparr>nce_end_sequence := 258\<rparr>"]
  by (simp add: demo_evidence_def limits)

end
