(* ===== verification/Sentinel_Coverage.thy ===== *)
theory Sentinel_Coverage
  imports Sentinel
begin

text \<open>
  What clean evidence means.  The trace loses no event without marking itself as overflowed; a
  window of the controller from the start of an operation to its end sees every event in
  between; and evidence is clean only when each of them was owned by exactly one observation.
\<close>

section \<open>The trace loses nothing silently\<close>

definition trace_ok :: "trace_runtime \<Rightarrow> bool" where
  "trace_ok rt \<longleftrightarrow>
     sh_queued_events (rt_shared rt) = length (rt_pipe rt) \<and> length (rt_pipe rt) \<le> MAX_QUEUED_EVENTS
     \<and> (\<not> sh_overflowed (rt_shared rt) \<longrightarrow>
          sh_sequence (rt_shared rt) \<le> MAX_TOTAL_EVENTS
          \<and> length (rt_pipe rt) \<le> sh_sequence (rt_shared rt)
          \<and> map ev_sequence (rt_pipe rt)
              = [sh_sequence (rt_shared rt) - length (rt_pipe rt) + 1 ..< sh_sequence (rt_shared rt) + 1])"

text \<open>How many events have been read from the pipe, while nothing overflowed.\<close>

definition events_read :: "trace_runtime \<Rightarrow> nat" where
  "events_read rt = sh_sequence (rt_shared rt) - length (rt_pipe rt)"

text \<open>One runtime is an earlier state of another in which nothing has been read since.\<close>

definition trace_before :: "trace_runtime \<Rightarrow> trace_runtime \<Rightarrow> bool" where
  "trace_before rt rt' \<longleftrightarrow>
     (\<not> sh_overflowed (rt_shared rt') \<longrightarrow>
        \<not> sh_overflowed (rt_shared rt) \<and> events_read rt' = events_read rt
        \<and> (\<exists>new. rt_pipe rt' = rt_pipe rt @ new))"

lemma trace_before_refl [simp]: "trace_before rt rt"
  by (simp add: trace_before_def)

lemma trace_before_trans: "trace_before a b \<Longrightarrow> trace_before b c \<Longrightarrow> trace_before a c"
  by (auto simp: trace_before_def)

lemma set_overflowed_keeps [simp]:
  "trace_ok rt \<Longrightarrow> trace_ok (set_overflowed rt)" "trace_before rt (set_overflowed rt)"
  by (auto simp: trace_ok_def trace_before_def set_overflowed_def)

lemma emit_event_keeps:
  assumes "trace_ok rt"
  shows "trace_ok (emit_event tid kind written rt) \<and> trace_before rt (emit_event tid kind written rt)"
proof -
  let ?sh = "rt_shared rt" and ?n = "length (rt_pipe rt)"
  let ?rt = "emit_event tid kind written rt"
  consider (stuck) "sh_overflowed ?sh \<or> sh_queued_events ?sh \<ge> MAX_QUEUED_EVENTS"
    | (go) "\<not> sh_overflowed ?sh" "sh_queued_events ?sh < MAX_QUEUED_EVENTS" by linarith
  then show ?thesis
  proof cases
    case stuck
    then have "?rt = rt \<or> ?rt = set_overflowed rt" by (auto simp: emit_event_def Let_def)
    then show ?thesis using assms by auto
  next
    case go
    have n: "?n < MAX_QUEUED_EVENTS" "sh_queued_events ?sh = ?n" "?n \<le> sh_sequence ?sh"
      "sh_sequence ?sh \<le> MAX_TOTAL_EVENTS"
      "map ev_sequence (rt_pipe rt) = [sh_sequence ?sh - ?n + 1 ..< sh_sequence ?sh + 1]"
      using assms go by (auto simp: trace_ok_def)
    have wrap: "wrapping_add ?n 1 = Suc ?n" "wrapping_add (sh_sequence ?sh) 1 = Suc (sh_sequence ?sh)"
      using n wrapping_add_exact [of ?n 1] wrapping_add_exact [of "sh_sequence ?sh" 1]
      by (simp_all add: limits)
    have sub: "wrapping_sub (Suc ?n) 1 = ?n" by (simp add: wrapping_sub_def)
    show ?thesis
    proof (cases "sh_sequence ?sh < MAX_TOTAL_EVENTS \<and> written")
      case True
      have "[sh_sequence ?sh - ?n + 1 ..< Suc (Suc (sh_sequence ?sh))]
          = [sh_sequence ?sh - ?n + 1 ..< Suc (sh_sequence ?sh)] @ [Suc (sh_sequence ?sh)]"
        by (intro upt_Suc_append) simp
      then show ?thesis
        using True go n wrap
        by (simp add: emit_event_def Let_def trace_ok_def trace_before_def events_read_def)
    next
      case False
      then show ?thesis
        using go n wrap sub
        by (auto simp: emit_event_def Let_def trace_ok_def trace_before_def)
    qed
  qed
qed

lemma trace_syscall_entry_keeps:
  "trace_ok rt \<Longrightarrow> trace_ok (trace_syscall_entry x86 tid info written rt)
     \<and> trace_before rt (trace_syscall_entry x86 tid info written rt)"
  by (auto simp: trace_syscall_entry_def emit_event_keeps split: option.split)

lemma dead_keeps [simp]:
  "trace_ok (rt\<lparr>rt_shared := (rt_shared rt)\<lparr>sh_tracer_alive := b\<rparr>\<rparr>) \<longleftrightarrow> trace_ok rt"
  "trace_before rt (rt\<lparr>rt_shared := (rt_shared rt)\<lparr>sh_tracer_alive := b\<rparr>\<rparr>)"
  by (simp_all add: trace_ok_def trace_before_def events_read_def)

lemma tracer_step_keeps:
  assumes "trace_ok rt" "tracer_step x86 target stop written (tids, rt) = ((tids', rt'), going)"
  shows "trace_ok rt' \<and> trace_before rt rt'"
proof (cases stop)
  case (CloneStop tid message)
  let ?rt1 = "emit_event tid ProcessEvent written rt"
  have "rt' = ?rt1 \<or> rt' = set_overflowed ?rt1"
    using assms(2) CloneStop
    by (auto simp: tracer_step_def Let_def split: option.splits if_splits prod.splits)
  then show ?thesis
    using emit_event_keeps [OF assms(1), of tid ProcessEvent written]
      trace_before_trans [of rt ?rt1 "set_overflowed ?rt1"] by auto
next
  case (SyscallStop tid info)
  then show ?thesis
    using assms trace_syscall_entry_keeps by (auto simp: tracer_step_def Let_def)
next
  case (ThreadEnded tid)
  then show ?thesis using assms by (auto simp: tracer_step_def Let_def split: if_splits)
qed (use assms emit_event_keeps in \<open>auto simp: tracer_step_def Let_def\<close>)

lemma poll_child_keeps [simp]:
  "trace_ok (poll_child rt) \<longleftrightarrow> trace_ok rt" "trace_before rt (poll_child rt)"
  "sh_overflowed (rt_shared (poll_child rt)) = sh_overflowed (rt_shared rt)"
  "sh_sequence (rt_shared (poll_child rt)) = sh_sequence (rt_shared rt)"
  "sh_queued_events (rt_shared (poll_child rt)) = sh_queued_events (rt_shared rt)"
  "poll_child (poll_child rt) = poll_child rt"
  by (auto simp: poll_child_def trace_ok_def trace_before_def events_read_def)

text \<open>Entering and leaving an ignore scope.\<close>

lemma shared_keeps:
  assumes "sh_sequence sh' = sh_sequence (rt_shared rt)"
    and "sh_queued_events sh' = sh_queued_events (rt_shared rt)"
    and "sh_overflowed (rt_shared rt) \<Longrightarrow> sh_overflowed sh'"
  shows "trace_ok rt \<Longrightarrow> trace_ok (rt\<lparr>rt_shared := sh'\<rparr>)" and "trace_before rt (rt\<lparr>rt_shared := sh'\<rparr>)"
  using assms by (auto simp: trace_ok_def trace_before_def events_read_def)

lemma ignore_shared:
  "sh_sequence (snd (ignore_current_thread tid sh)) = sh_sequence sh"
  "sh_queued_events (snd (ignore_current_thread tid sh)) = sh_queued_events sh"
  "sh_overflowed sh \<Longrightarrow> sh_overflowed (snd (ignore_current_thread tid sh))"
  "sh_sequence (ignore_guard_drop slot sh) = sh_sequence sh"
  "sh_queued_events (ignore_guard_drop slot sh) = sh_queued_events sh"
  "sh_overflowed sh \<Longrightarrow> sh_overflowed (ignore_guard_drop slot sh)"
  by (simp_all add: ignore_current_thread_def ignore_guard_drop_def Let_def
      split: option.split prod.split)

section \<open>Draining reads everything\<close>

definition emptied :: "trace_runtime \<Rightarrow> trace_runtime" where
  "emptied rt = (poll_child rt)\<lparr>rt_pipe := [],
     rt_shared := (rt_shared (poll_child rt))\<lparr>sh_queued_events := 0\<rparr>\<rparr>"

lemma runtime_drain_keeps:
  assumes "sh_queued_events (rt_shared rt) = length (rt_pipe rt)" "runtime_drain n rt = (es, rt1)"
  shows "es = take n (rt_pipe rt)" and "rt_pipe rt1 = drop n (rt_pipe rt)"
    and "sh_queued_events (rt_shared rt1) = length (rt_pipe rt1)" and "emptied rt1 = emptied rt"
    and "length (rt_pipe rt) \<le> n \<Longrightarrow> rt1 = emptied rt"
  using assms
  by (auto simp: runtime_drain_def Let_def wrapping_sub_def emptied_def poll_child_def)

lemma drain_loop_all:
  "sh_queued_events (rt_shared rt) = length (rt_pipe rt) \<Longrightarrow>
     drain_loop rt c = (emptied rt, fold apply_event (rt_pipe rt) c)"
proof (induction rt c rule: drain_loop.induct)
  case (1 rt c)
  obtain es rt1 where d: "runtime_drain 64 rt = (es, rt1)" by (cases "runtime_drain 64 rt")
  note k = runtime_drain_keeps [OF 1(2) d]
  show ?case
  proof (cases "length es < 64")
    case True
    then have short: "length (rt_pipe rt) < 64" using k(1) by simp
    then have "es = rt_pipe rt" "rt1 = emptied rt" using k by simp_all
    then show ?thesis using True d by (subst drain_loop.simps) simp
  next
    case False
    have "drain_loop rt1 (fold apply_event es c)
        = (emptied rt1, fold apply_event (rt_pipe rt1) (fold apply_event es c))"
      using 1(1) [OF d [symmetric] refl refl False k(3)] by (simp add: d)
    moreover have "fold apply_event (rt_pipe rt1) (fold apply_event es c) = fold apply_event (rt_pipe rt) c"
      using k(1,2) by (metis append_take_drop_id comp_apply fold_append)
    ultimately show ?thesis using False d k(4) by (subst drain_loop.simps) simp
  qed
qed

definition runtime_healthy :: "trace_runtime \<Rightarrow> bool" where
  "runtime_healthy rt = fst (is_healthy rt)"

lemma is_healthy_emptied: "is_healthy (emptied rt) = (runtime_healthy rt, emptied rt)"
  by (simp add: is_healthy_def runtime_healthy_def emptied_def poll_child_def Let_def)

lemma emptied_keeps:
  assumes "trace_ok rt"
  shows "trace_ok (emptied rt)"
    and "sh_overflowed (rt_shared (emptied rt)) = sh_overflowed (rt_shared rt)"
    and "sh_sequence (rt_shared (emptied rt)) = sh_sequence (rt_shared rt)" and "rt_pipe (emptied rt) = []"
  using assms by (auto simp: emptied_def trace_ok_def)

lemma drain_Some:
  assumes "ct_runtime c = Some rt" "trace_ok rt"
  shows "drain c = (let c1 = (fold apply_event (rt_pipe rt) c)\<lparr>ct_runtime := Some (emptied rt)\<rparr>
    in if runtime_healthy rt then c1 else mark_all_incomplete c1)"
  using assms by (simp add: drain_def drain_loop_all trace_ok_def is_healthy_emptied Let_def)

section \<open>Attribution of an operation's events\<close>

lemma bt_get_map_values [simp]: "bt_get (bt_map_values f m) k = map_option f (bt_get m k)"
  by (induction m) (auto simp: bt_map_values_def)

lemma bt_ok_map_values [simp]: "bt_ok (bt_map_values f m) \<longleftrightarrow> bt_ok m"
  by (simp add: bt_ok_def bt_map_values_def comp_def split_beta)

definition attribute ::
  "(nat, traced_observation) btree \<Rightarrow> nat \<Rightarrow> trace_event \<Rightarrow> traced_operation \<Rightarrow> traced_operation" where
  "attribute obs h e a =
     (if ev_kind e = ExitEvent then a
      else if length (event_owners obs e) = 1
      then if event_owners obs e ! 0 = h
           then a\<lparr>ao_relevant_events := saturating_add (ao_relevant_events a) 1,
                  ao_owned_events := saturating_add (ao_owned_events a) 1\<rparr>
           else a
      else a\<lparr>ao_relevant_events := saturating_add (ao_relevant_events a) 1, ao_incomplete := True\<rparr>)"

lemma apply_event_get:
  assumes "bt_ok (ct_operations c)"
  shows "bt_ok (ct_operations (apply_event e c))"
    and "bt_get (ct_operations (apply_event e c)) h
      = map_option (attribute (ct_observations c) h e) (bt_get (ct_operations c) h)"
proof -
  show "bt_ok (ct_operations (apply_event e c))"
    using assms by (simp add: apply_event_def Let_def split: option.split)
  show "bt_get (ct_operations (apply_event e c)) h
      = map_option (attribute (ct_observations c) h e) (bt_get (ct_operations c) h)"
    using assms
    by (cases "bt_get (ct_operations c) h")
      (auto simp: apply_event_def attribute_def Let_def split: option.split)
qed

lemma fold_apply_get:
  "bt_ok (ct_operations c) \<Longrightarrow> bt_ok (ct_operations (fold apply_event es c))
    \<and> bt_get (ct_operations (fold apply_event es c)) h
      = map_option (fold (attribute (ct_observations c) h) es) (bt_get (ct_operations c) h)"
  by (induction es arbitrary: c) (simp_all add: apply_event_get option.map_comp comp_def option.map_ident option.map_id)

lemma attribute_incomplete: "ao_incomplete a \<Longrightarrow> ao_incomplete (fold (attribute obs h) es a)"
  by (induction es arbitrary: a) (simp_all add: attribute_def)

lemma attribute_start [simp]: "ao_start_sequence (fold (attribute obs h) es a) = ao_start_sequence a"
  by (induction es arbitrary: a) (simp_all add: attribute_def)

text \<open>The log of a drain: each event with its owners.\<close>

type_synonym owner_log = "(trace_event \<times> nat list) list"

definition attributed :: "(nat, traced_observation) btree \<Rightarrow> trace_event list \<Rightarrow> owner_log" where
  "attributed obs es = map (\<lambda>e. (e, event_owners obs e)) es"

definition all_owned :: "owner_log \<Rightarrow> bool" where
  "all_owned log \<longleftrightarrow> (\<forall>(e, os) \<in> set log. ev_kind e = ExitEvent \<or> length os = 1)"

definition owned_count :: "nat \<Rightarrow> owner_log \<Rightarrow> nat" where
  "owned_count h log = length (filter (\<lambda>(e, os). ev_kind e \<noteq> ExitEvent \<and> os = [h]) log)"

lemma single_owner: "length os = Suc 0 \<Longrightarrow> os ! 0 = h \<longleftrightarrow> os = [h]"
  by (cases os) auto

lemma attribute_all:
  "\<not> ao_incomplete (fold (attribute obs h) es a) \<Longrightarrow>
   ao_relevant_events a = min U64_MAX n \<Longrightarrow> ao_owned_events a = min U64_MAX n \<Longrightarrow>
     \<not> ao_incomplete a \<and> all_owned (attributed obs es)
     \<and> ao_relevant_events (fold (attribute obs h) es a) = min U64_MAX (n + owned_count h (attributed obs es))
     \<and> ao_owned_events (fold (attribute obs h) es a) = min U64_MAX (n + owned_count h (attributed obs es))"
proof (induction es arbitrary: a n)
  case Nil
  then show ?case by (simp add: all_owned_def owned_count_def attributed_def)
next
  case (Cons e es)
  let ?a = "attribute obs h e a"
  have owned: "ev_kind e = ExitEvent \<or> length (event_owners obs e) = 1"
  proof (rule ccontr)
    assume "\<not> ?thesis"
    then have "ao_incomplete ?a" by (simp add: attribute_def)
    then show False using Cons.prems(1) attribute_incomplete [of ?a] by simp
  qed
  have inc: "ao_incomplete ?a = ao_incomplete a" using owned by (auto simp: attribute_def)
  let ?m = "n + owned_count h (attributed obs [e])"
  have counts: "ao_relevant_events ?a = min U64_MAX ?m" "ao_owned_events ?a = min U64_MAX ?m"
    using owned Cons.prems(2,3)
    by (auto simp: attribute_def owned_count_def attributed_def saturating_add_def single_owner)
  have split: "owned_count h (attributed obs (e # es))
      = owned_count h (attributed obs [e]) + owned_count h (attributed obs es)"
    by (simp add: owned_count_def attributed_def)
  have "\<not> ao_incomplete (fold (attribute obs h) es ?a)" using Cons.prems(1) by simp
  note rest = Cons.IH [OF this counts]
  have "all_owned (attributed obs (e # es))"
    using rest owned by (auto simp: all_owned_def attributed_def)
  then show ?case using rest inc by (simp add: split add.assoc)
qed

section \<open>Windows\<close>

text \<open>
  What may happen between the start and the end of an operation \<open>h\<close>: calls of the controller for
  other operations and any observations, turns of the tracer, the end of the tracer, ignore
  scopes, engines opening and closing.  The log collects what each drain attributed.
\<close>

datatype sentinel_call =
    CallStarted nat
  | CallFinished nat
  | CallRemoved nat
  | CallOpened nat nat observation_class
  | CallDispatched nat int
  | CallObservationFinished nat

fun run_sentinel_call :: "sentinel_call \<Rightarrow> controller \<Rightarrow> controller" where
  "run_sentinel_call (CallStarted k) c = operation_started k c"
| "run_sentinel_call (CallFinished k) c = snd (operation_finished k c)"
| "run_sentinel_call (CallRemoved k) c = remove_operation k c"
| "run_sentinel_call (CallOpened ob k cls) c = observation_opened ob k cls c"
| "run_sentinel_call (CallDispatched ob tid) c = observation_dispatched ob tid c"
| "run_sentinel_call (CallObservationFinished ob) c = observation_finished ob c"

fun leaves_alone :: "nat \<Rightarrow> sentinel_call \<Rightarrow> bool" where
  "leaves_alone h (CallStarted k) = (k \<noteq> h)"
| "leaves_alone h (CallFinished k) = (k \<noteq> h)"
| "leaves_alone h (CallRemoved k) = (k \<noteq> h)"
| "leaves_alone h _ = True"

definition drained_log :: "controller \<Rightarrow> owner_log" where
  "drained_log c =
     (case ct_runtime c of None \<Rightarrow> [] | Some rt \<Rightarrow> attributed (ct_observations c) (rt_pipe rt))"

definition controller_ok :: "controller \<Rightarrow> bool" where
  "controller_ok c \<longleftrightarrow> bt_ok (ct_operations c) \<and> bt_ok (ct_observations c)
     \<and> (\<forall>rt. ct_runtime c = Some rt \<longrightarrow> trace_ok rt)"

inductive coverage_window :: "nat \<Rightarrow> nat \<Rightarrow> owner_log \<Rightarrow> controller \<Rightarrow> bool" for h start where
  opened: "controller_ok c \<Longrightarrow> length (ct_operations (drain c)) < MAX_ACTIVE_OPERATIONS \<Longrightarrow>
    bt_get (ct_operations (operation_started h c)) h = Some a \<Longrightarrow> ao_start_sequence a = start \<Longrightarrow>
    coverage_window h start [] (operation_started h c)"
| call: "coverage_window h start log c \<Longrightarrow> leaves_alone h x \<Longrightarrow>
    coverage_window h start (log @ drained_log c) (run_sentinel_call x c)"
| tracer: "coverage_window h start log c \<Longrightarrow> ct_runtime c = Some rt \<Longrightarrow>
    tracer_step x86 target stop written (tids, rt) = ((tids', rt'), going) \<Longrightarrow>
    coverage_window h start log (c\<lparr>ct_runtime := Some rt'\<rparr>)"
| tracer_exit: "coverage_window h start log c \<Longrightarrow> ct_runtime c = Some rt \<Longrightarrow>
    coverage_window h start log (c\<lparr>ct_runtime := Some (rt\<lparr>rt_child_exited := True\<rparr>)\<rparr>)"
| scope: "coverage_window h start log c \<Longrightarrow> engine_call_scope tid c = (guard, c') \<Longrightarrow>
    coverage_window h start log c'"
| scope_end: "coverage_window h start log c \<Longrightarrow> ct_runtime c = Some rt \<Longrightarrow>
    coverage_window h start log
      (c\<lparr>ct_runtime := Some (rt\<lparr>rt_shared := ignore_guard_drop slot (rt_shared rt)\<rparr>)\<rparr>)"
| open_engine: "coverage_window h start log c \<Longrightarrow> (\<And>rt. installed = Some rt \<Longrightarrow> trace_ok rt) \<Longrightarrow>
    coverage_window h start log (engine_opened installed c)"
| close_engine: "coverage_window h start log c \<Longrightarrow> coverage_window h start log (engine_closed c)"

text \<open>What holds of the operation while its window is open.\<close>

definition clean_so_far :: "nat \<Rightarrow> nat \<Rightarrow> owner_log \<Rightarrow> controller \<Rightarrow> traced_operation \<Rightarrow> bool" where
  "clean_so_far h start log c a \<longleftrightarrow>
     ao_start_sequence a = start \<and> all_owned log
     \<and> ao_relevant_events a = min U64_MAX (owned_count h log)
     \<and> ao_owned_events a = min U64_MAX (owned_count h log)
     \<and> (\<exists>rt. ct_runtime c = Some rt
          \<and> (\<not> sh_overflowed (rt_shared rt) \<longrightarrow>
               start \<le> events_read rt \<and> map (ev_sequence \<circ> fst) log = [start + 1 ..< events_read rt + 1]))"

definition window_inv :: "nat \<Rightarrow> nat \<Rightarrow> owner_log \<Rightarrow> controller \<Rightarrow> bool" where
  "window_inv h start log c \<longleftrightarrow> controller_ok c
     \<and> (\<forall>a. bt_get (ct_operations c) h = Some a \<longrightarrow> ao_incomplete a \<or> clean_so_far h start log c a)"

lemma owned_count_append: "owned_count h (log @ log') = owned_count h log + owned_count h log'"
  by (simp add: owned_count_def)

lemma all_owned_append: "all_owned (log @ log') \<longleftrightarrow> all_owned log \<and> all_owned log'"
  by (auto simp: all_owned_def)

lemma window_inv_runtime:
  assumes "window_inv h start log c" "ct_runtime c = Some rt" "trace_ok rt'" "trace_before rt rt'"
  shows "window_inv h start log (c\<lparr>ct_runtime := Some rt'\<rparr>)"
  using assms
  by (fastforce simp: window_inv_def controller_ok_def clean_so_far_def trace_before_def)

lemma mark_all_incomplete_inv:
  assumes "controller_ok c" shows "window_inv h start log (mark_all_incomplete c)"
  using assms by (auto simp: window_inv_def controller_ok_def mark_all_incomplete_def)

text \<open>A drain extends the log by what it attributed.\<close>

lemma drain_inv:
  assumes inv: "window_inv h start log c"
  shows "window_inv h start (log @ drained_log c) (drain c)"
proof (cases "ct_runtime c")
  case None
  then have "drain c = mark_all_incomplete c" by (simp add: drain_def)
  then show ?thesis using inv mark_all_incomplete_inv by (simp add: window_inv_def)
next
  case (Some rt)
  let ?obs = "ct_observations c" and ?es = "rt_pipe rt"
  let ?c1 = "(fold apply_event ?es c)\<lparr>ct_runtime := Some (emptied rt)\<rparr>"
  have ok: "controller_ok c" "trace_ok rt" "bt_ok (ct_operations c)"
    using inv Some by (auto simp: window_inv_def controller_ok_def)
  note get = fold_apply_get [OF ok(3), of ?es] and em = emptied_keeps [OF ok(2)]
  have ok1: "controller_ok ?c1" using ok get em(1) by (auto simp: controller_ok_def)
  have "window_inv h start (log @ drained_log c) ?c1"
    unfolding window_inv_def
  proof (intro conjI allI impI)
    show "controller_ok ?c1" by (rule ok1)
    fix b assume b: "bt_get (ct_operations ?c1) h = Some b"
    then obtain a where a: "bt_get (ct_operations c) h = Some a"
      and b_def: "b = fold (attribute ?obs h) ?es a" using get by auto
    show "ao_incomplete b \<or> clean_so_far h start (log @ drained_log c) ?c1 b"
    proof (cases "ao_incomplete b")
      case False
      then have "\<not> ao_incomplete a" using attribute_incomplete b_def by blast
      then have clean: "clean_so_far h start log c a"
        using inv a by (auto simp: window_inv_def)
      have att: "all_owned (attributed ?obs ?es)"
        "ao_relevant_events b = min U64_MAX (owned_count h log + owned_count h (attributed ?obs ?es))"
        "ao_owned_events b = min U64_MAX (owned_count h log + owned_count h (attributed ?obs ?es))"
        using attribute_all [of ?obs h ?es a "owned_count h log"] False clean
        by (auto simp: b_def clean_so_far_def)
      have seq: "start \<le> events_read (emptied rt) \<and>
          map (ev_sequence \<circ> fst) (log @ attributed ?obs ?es) = [start + 1 ..< events_read (emptied rt) + 1]"
        if "\<not> sh_overflowed (rt_shared rt)"
      proof -
        have now: "start \<le> events_read rt" "map (ev_sequence \<circ> fst) log = [start + 1 ..< events_read rt + 1]"
          using clean Some that by (auto simp: clean_so_far_def)
        have pipe: "length ?es \<le> sh_sequence (rt_shared rt)"
          "map ev_sequence ?es = [events_read rt + 1 ..< sh_sequence (rt_shared rt) + 1]"
          using ok(2) that by (auto simp: trace_ok_def events_read_def)
        have "map (ev_sequence \<circ> fst) (attributed ?obs ?es) = map ev_sequence ?es"
          by (simp add: attributed_def)
        moreover have "[start + 1 ..< events_read rt + 1] @ [events_read rt + 1 ..< sh_sequence (rt_shared rt) + 1]
            = [start + 1 ..< sh_sequence (rt_shared rt) + 1]"
          using now(1) pipe(1) upt_add_eq_append [of "start + 1" "events_read rt + 1" "length ?es"]
          by (simp add: events_read_def)
        ultimately show ?thesis using now pipe em by (simp add: events_read_def)
      qed
      then show ?thesis
        using clean att em Some
        by (auto simp: clean_so_far_def drained_log_def b_def all_owned_append owned_count_append)
    qed simp
  qed
  then show ?thesis
    using drain_Some [OF Some ok(2)] mark_all_incomplete_inv [OF ok1] by (simp add: Let_def)
qed

lemma drained_ok: "controller_ok c \<Longrightarrow> controller_ok (drain c)"
proof -
  assume ok: "controller_ok c"
  show ?thesis
  proof (cases "ct_runtime c")
    case None
    then show ?thesis using ok by (simp add: drain_def mark_all_incomplete_def controller_ok_def)
  next
    case (Some rt)
    then show ?thesis
      using ok drain_Some [OF Some] fold_apply_get [of c "rt_pipe rt"] emptied_keeps(1) [of rt]
      by (simp add: Let_def controller_ok_def mark_all_incomplete_def)
  qed
qed

text \<open>What a call does after its drain leaves the window's operation clean, or marks it.\<close>

lemma window_inv_change:
  assumes "window_inv h start log c" "controller_ok c'" "ct_runtime c' = ct_runtime c"
    and "bt_get (ct_operations c') h = bt_get (ct_operations c) h"
  shows "window_inv h start log c'"
  using assms by (auto simp: window_inv_def clean_so_far_def)

lemma call_keeps:
  assumes "window_inv h start log c" "leaves_alone h x"
  shows "window_inv h start (log @ drained_log c) (run_sentinel_call x c)"
proof -
  let ?d = "drain c" and ?log = "log @ drained_log c"
  have d: "window_inv h start ?log ?d" by (rule drain_inv [OF assms(1)])
  then have ok: "controller_ok ?d" by (simp add: window_inv_def)
  note mark = mark_all_incomplete_inv [OF ok, of h start ?log]
  have poll: "window_inv h start ?log (?d\<lparr>ct_runtime := Some (snd (is_healthy rt))\<rparr>)"
    if "ct_runtime ?d = Some rt" for rt
    using window_inv_runtime [OF d that, of "snd (is_healthy rt)"] ok that
    by (simp add: controller_ok_def is_healthy_def Let_def)
  have change: "window_inv h start ?log c'"
    if "controller_ok c'" "ct_runtime c' = ct_runtime c1"
      "bt_get (ct_operations c') h = bt_get (ct_operations c1) h" "window_inv h start ?log c1" for c' c1
    using window_inv_change that by blast
  show ?thesis
  proof (cases x)
    case (CallStarted k)
    show ?thesis
    proof (cases "length (ct_operations ?d) \<ge> MAX_ACTIVE_OPERATIONS")
      case True
      then show ?thesis using CallStarted mark by (simp add: operation_started_def)
    next
      case False
      show ?thesis
      proof (cases "ct_runtime ?d")
        case None
        then show ?thesis
          using CallStarted assms(2) False ok
          by (intro change [OF _ _ _ d])
            (auto simp: operation_started_def Let_def controller_ok_def)
      next
        case (Some rt)
        have "trace_ok (snd (is_healthy rt))"
          using ok Some by (simp add: controller_ok_def is_healthy_def Let_def)
        then show ?thesis
          using CallStarted assms(2) False ok Some
          by (intro change [OF _ _ _ poll [OF Some]])
            (auto simp: operation_started_def Let_def controller_ok_def split: prod.splits)
      qed
    qed
  next
    case (CallFinished k)
    show ?thesis
    proof (cases "bt_get (ct_operations ?d) k")
      case None
      then show ?thesis
        using CallFinished ok
        by (intro change [OF _ _ _ d])
          (auto simp: operation_finished_def finish_drained_def forget_observations_def Let_def
            controller_ok_def)
    next
      case Some: (Some a)
      show ?thesis
      proof (cases "ct_runtime ?d")
        case None
        then show ?thesis
          using CallFinished assms(2) ok Some
          by (intro change [OF _ _ _ d])
            (auto simp: operation_finished_def finish_drained_def forget_observations_def Let_def
              controller_ok_def)
      next
        case rt: (Some rt)
        have "trace_ok (snd (is_healthy rt))"
          using ok rt by (simp add: controller_ok_def is_healthy_def Let_def)
        then show ?thesis
          using CallFinished assms(2) ok Some rt
          by (intro change [OF _ _ _ poll [OF rt]])
            (auto simp: operation_finished_def finish_drained_def forget_observations_def Let_def
              controller_ok_def split: prod.splits)
      qed
    qed
  next
    case (CallRemoved k)
    then show ?thesis
      using assms(2) ok
      by (intro change [OF _ _ _ d])
        (auto simp: remove_operation_def forget_observations_def Let_def controller_ok_def)
  next
    case (CallOpened ob k cls)
    show ?thesis
    proof (cases "length (ct_observations ?d) \<ge> MAX_ACTIVE_OBSERVATIONS")
      case True
      then show ?thesis using CallOpened mark by (simp add: observation_opened_def)
    next
      case False
      then show ?thesis
        using CallOpened ok
        by (intro change [OF _ _ _ d]) (auto simp: observation_opened_def Let_def controller_ok_def)
    qed
  next
    case (CallDispatched ob tid)
    show ?thesis
    proof (cases "bt_get (ct_observations ?d) ob")
      case None
      then show ?thesis using CallDispatched mark by (simp add: observation_dispatched_def)
    next
      case (Some o')
      then show ?thesis
        using CallDispatched ok
        by (intro change [OF _ _ _ d]) (auto simp: observation_dispatched_def Let_def controller_ok_def)
    qed
  next
    case (CallObservationFinished ob)
    show ?thesis
    proof (cases "bt_get (ct_observations ?d) ob")
      case None
      then show ?thesis using CallObservationFinished mark by (simp add: observation_finished_def)
    next
      case (Some o')
      then show ?thesis
        using CallObservationFinished ok
        by (intro change [OF _ _ _ d]) (auto simp: observation_finished_def Let_def controller_ok_def)
    qed
  qed
qed

lemma coverage_window_inv: "coverage_window h start log c \<Longrightarrow> window_inv h start log c"
proof (induction rule: coverage_window.induct)
  case (opened c a)
  let ?d = "drain c"
  have ok: "controller_ok ?d" by (rule drained_ok [OF opened(1)])
  show ?case
  proof (cases "ct_runtime ?d")
    case None
    then show ?thesis
      using opened ok
      by (auto simp: operation_started_def Let_def window_inv_def controller_ok_def)
  next
    case (Some rt)
    let ?rt = "snd (is_healthy rt)"
    have rt: "trace_ok ?rt" "trace_ok rt"
      using ok Some by (auto simp: controller_ok_def is_healthy_def Let_def)
    obtain rt0 where rt0: "ct_runtime c = Some rt0" "rt = emptied rt0"
    proof (cases "ct_runtime c")
      case None
      then show ?thesis using Some by (simp add: drain_def mark_all_incomplete_def)
    next
      case c: (Some rt0)
      then have "trace_ok rt0" using opened(1) by (simp add: controller_ok_def)
      from drain_Some [OF c this] Some have "rt = emptied rt0"
        by (auto simp: Let_def mark_all_incomplete_def split: if_splits)
      then show ?thesis using c that by blast
    qed
    then have empty: "events_read ?rt = sh_sequence (rt_shared rt)" "sh_sequence (rt_shared ?rt) = sh_sequence (rt_shared rt)"
      by (simp_all add: is_healthy_def events_read_def emptied_def Let_def)
    have started: "operation_started h c = ?d\<lparr>ct_runtime := Some ?rt, ct_operations := bt_insert h
       \<lparr>ao_start_sequence = runtime_sequence rt, ao_relevant_events = 0, ao_owned_events = 0,
        ao_incomplete = \<not> fst (is_healthy rt)\<rparr> (ct_operations ?d)\<rparr>"
      using opened(2) Some by (simp add: operation_started_def Let_def split: prod.split)
    have ops: "bt_ok (ct_operations ?d)" using ok by (simp add: controller_ok_def)
    have "start = runtime_sequence rt" using opened(3,4) ops by (auto simp: started)
    then show ?thesis
      using ok rt(1) empty ops
      by (auto simp: started window_inv_def controller_ok_def clean_so_far_def runtime_sequence_def
          all_owned_def owned_count_def)
  qed
next
  case (call log c x)
  then show ?case by (simp add: call_keeps)
next
  case (tracer log c rt x86 target stop written tids tids' rt' going)
  then have "trace_ok rt" by (simp add: window_inv_def controller_ok_def)
  then show ?case
    using window_inv_runtime [OF tracer(4,2)] tracer_step_keeps [OF _ tracer(3)] by blast
next
  case (tracer_exit log c rt)
  then have "trace_ok (rt\<lparr>rt_child_exited := True\<rparr>)" "trace_before rt (rt\<lparr>rt_child_exited := True\<rparr>)"
    by (auto simp: window_inv_def controller_ok_def trace_ok_def trace_before_def events_read_def)
  then show ?case using window_inv_runtime [OF tracer_exit(3,2)] by blast
next
  case (scope log c tid guard c')
  show ?case
  proof (cases "ct_runtime c")
    case None
    then show ?thesis using scope by (simp add: engine_call_scope_def)
  next
    case (Some rt)
    let ?sh = "snd (ignore_current_thread tid (rt_shared rt))"
    have "c' = c\<lparr>ct_runtime := Some (rt\<lparr>rt_shared := ?sh\<rparr>)\<rparr>"
      using scope(2) Some by (auto simp: engine_call_scope_def split: prod.splits)
    moreover have "trace_ok rt" using scope(3) Some by (simp add: window_inv_def controller_ok_def)
    ultimately show ?thesis
      using window_inv_runtime [OF scope(3) Some] shared_keeps [of ?sh rt] ignore_shared by simp
  qed
next
  case (scope_end log c rt slot)
  then have "trace_ok rt" by (simp add: window_inv_def controller_ok_def)
  then show ?case
    using window_inv_runtime [OF scope_end(3,2)]
      shared_keeps [of "ignore_guard_drop slot (rt_shared rt)" rt] ignore_shared by simp
next
  case (open_engine log c installed)
  then show ?case
    by (auto simp: engine_opened_def Let_def window_inv_def controller_ok_def clean_so_far_def)
next
  case (close_engine log c)
  then show ?case
    by (auto simp: engine_closed_def Let_def window_inv_def controller_ok_def clean_so_far_def)
qed


section \<open>A concrete window\<close>

definition demo_runtime :: trace_runtime where
  "demo_runtime = \<lparr>rt_shared = fresh_shared, rt_pipe = [], rt_reaped = False, rt_child_exited = False\<rparr>"

definition demo_controller :: controller where
  "demo_controller = engine_opened (Some demo_runtime) new_controller"

text \<open>Operation 7 opens and dispatches a Filesystem observation on thread 12, which then reads.\<close>

definition demo_observed :: controller where
  "demo_observed = run_sentinel_call (CallDispatched 1 12) (run_sentinel_call (CallOpened 1 7 Filesystem)
     (operation_started 7 demo_controller))"

definition demo_traced :: "trace_runtime" where
  "demo_traced = snd (fst (tracer_step True 1 (SyscallStop 12 (Some (True, SYS_read))) True
     ([12], the (ct_runtime demo_observed))))"

definition demo_window_end :: controller where
  "demo_window_end = demo_observed\<lparr>ct_runtime := Some demo_traced\<rparr>"

lemma demo_controller_ok: "controller_ok demo_controller"
  by (simp add: controller_ok_def demo_controller_def engine_opened_def new_controller_def Let_def
      demo_runtime_def trace_ok_def fresh_shared_def)


section \<open>An event after the last drain\<close>

text \<open>
  The end sequence can cover an event that nobody has examined.  The tracer is another
  process: when it emits one more event between the drain of \<open>operation_finished\<close> and the read of
  the end sequence, the evidence is the same but for an end sequence one higher, whatever the
  event's kind and thread, though the event was never attributed to an observation.
\<close>

theorem late_event_covered:
  assumes runtime: "ct_runtime (drain c) = Some rt" and alive: "\<not> rt_child_exited rt"
    and fin: "operation_finished h c = (CleanKernelTrace ev, c')"
    and room: "sh_queued_events (rt_shared rt) < MAX_QUEUED_EVENTS"
      "sh_sequence (rt_shared rt) < MAX_TOTAL_EVENTS"
  shows "fst (finish_drained h ((drain c)\<lparr>ct_runtime := Some (emit_event tid kind True rt)\<rparr>))
    = CleanKernelTrace (ev\<lparr>nce_end_sequence := nce_end_sequence ev + 1\<rparr>)"
proof -
  let ?d = "drain c"
  from fin runtime alive obtain a where a: "bt_get (ct_operations ?d) h = Some a"
    by (cases "bt_get (ct_operations ?d) h")
      (auto simp: operation_finished_def finish_drained_def forget_observations_def Let_def)
  have healthy: "is_healthy rt = (fst (is_healthy rt), rt)"
    using alive by (simp add: is_healthy_def poll_child_def Let_def)
  have cov: "coverage_result a (fst (is_healthy rt)) (runtime_sequence rt) = CleanKernelTrace ev"
    using fin a runtime healthy
    by (cases "is_healthy rt")
      (simp add: operation_finished_def finish_drained_def forget_observations_def Let_def)
  then have fine: "\<not> sh_overflowed (rt_shared rt)" "fst (is_healthy rt)"
    by (auto simp: coverage_result_def is_healthy_def poll_child_def Let_def alive split: if_splits)
  let ?rt = "emit_event tid kind True rt"
  have wrap: "wrapping_add (sh_sequence (rt_shared rt)) 1 = sh_sequence (rt_shared rt) + 1"
    using room(2) by (intro wrapping_add_exact) (simp add: limits)
  have "is_healthy ?rt = (True, ?rt)" and "runtime_sequence ?rt = runtime_sequence rt + 1"
    using fine room alive wrap
    by (auto simp: emit_event_def is_healthy_def poll_child_def Let_def runtime_sequence_def)
  then show ?thesis
    using a cov fine(2)
    by (auto simp: finish_drained_def forget_observations_def Let_def coverage_result_def split: if_splits)
qed

theorem late_event_covered_witness:
  "fst (finish_drained 7 ((drain demo_window_end)\<lparr>ct_runtime :=
      Some (emit_event 99 ProcessEvent True (the (ct_runtime (drain demo_window_end))))\<rparr>))
    = CleanKernelTrace \<lparr>nce_start_sequence = 0, nce_end_sequence = 2, nce_relevant_events = 1,
        nce_owned_events = 1\<rparr>"
proof -
  let ?rt = "the (ct_runtime (drain demo_window_end))"
  have "ct_runtime (drain demo_window_end) = Some ?rt" "\<not> rt_child_exited ?rt"
    "sh_queued_events (rt_shared ?rt) < MAX_QUEUED_EVENTS" "sh_sequence (rt_shared ?rt) < MAX_TOTAL_EVENTS"
    by code_simp+
  moreover have "fst (operation_finished 7 demo_window_end) = CleanKernelTrace
      \<lparr>nce_start_sequence = 0, nce_end_sequence = 1, nce_relevant_events = 1, nce_owned_events = 1\<rparr>"
    by code_simp
  then obtain c' where "operation_finished 7 demo_window_end = (CleanKernelTrace
      \<lparr>nce_start_sequence = 0, nce_end_sequence = 1, nce_relevant_events = 1, nce_owned_events = 1\<rparr>, c')"
    by (cases "operation_finished 7 demo_window_end") auto
  ultimately show ?thesis
    using late_event_covered [of demo_window_end ?rt 7] by simp
qed

end
