(* ===== verification/World_Core.thy ===== *)
theory World_Core
  imports Sdk_Behaviour Sentinel
begin

text \<open>
  The data of automatic Worlds and the code that reads it: the session and its semantic checks
  (\<^verbatim>\<open>crates/reproit-sdk-rust/src/automatic_world_semantics.rs\<close>), the registrations and the
  coordinator's record (\<^verbatim>\<open>automatic_world.rs\<close>), and the digest of a spooled file
  (\<^verbatim>\<open>automatic_world_artifacts.rs\<close>).  The spool directory is a map from its file names to their
  contents; \<open>world_io\<close> holds what the operating system answers during one call.
\<close>

section \<open>Limits\<close>

definition MAX_AMBIENT_ENVIRONMENT_BYTES :: nat where
  [limits]: "MAX_AMBIENT_ENVIRONMENT_BYTES = 524288"
definition MAX_AMBIENT_ENVIRONMENT_VALUES :: nat where
  [limits]: "MAX_AMBIENT_ENVIRONMENT_VALUES = 4096"
definition MAX_NATIVE_SENTINEL_EVIDENCE_BYTES :: nat where
  [limits]: "MAX_NATIVE_SENTINEL_EVIDENCE_BYTES = 256"
definition MAX_RECOVERABLE_SECONDS :: nat where [limits]: "MAX_RECOVERABLE_SECONDS = 1800"
definition MAX_SESSION_POSITION :: nat where
  [limits]: "MAX_SESSION_POSITION = 9007199254740991"
definition MAX_SEMANTIC_RECORD_BYTES :: nat where [limits]: "MAX_SEMANTIC_RECORD_BYTES = 65536"
definition MAX_OBSERVATION_CHUNK_BYTES :: nat where
  [limits]: "MAX_OBSERVATION_CHUNK_BYTES = 32768"
definition MAX_RESPONSE_READ_BYTES :: nat where [limits]: "MAX_RESPONSE_READ_BYTES = 8192"
definition MAX_OBSERVATION_SESSIONS :: nat where [limits]: "MAX_OBSERVATION_SESSIONS = 64"
definition DIGEST_BUFFER_BYTES :: nat where [limits]: "DIGEST_BUFFER_BYTES = 65536"

definition ADAPTER_ID :: string where "ADAPTER_ID = ''reproit-native''"
definition ADAPTER_VERSION :: string where "ADAPTER_VERSION = ''1.0.0''"
definition CAPABILITY :: string where "CAPABILITY = ''capture.automatic-world.v1''"
definition FENCE_ID :: string where "FENCE_ID = ''reproit-native-observation-fence''"
definition DEPENDENCY_TRANSCRIPT_MEDIA_TYPE :: string where
  "DEPENDENCY_TRANSCRIPT_MEDIA_TYPE = ''application/vnd.reproit.dependency-transcript.v1+json''"
definition OBSERVATION_OBJECT_MEDIA_TYPE :: string where
  "OBSERVATION_OBJECT_MEDIA_TYPE = ''application/octet-stream''"

section \<open>Data\<close>

datatype observation_action = ActionCapture | ActionReplay
datatype observation_stream = RequestStream | ResponseStream
datatype session_state =
    SessionRequest | SessionCapture | SessionReplay (response_offset: nat) | SessionOverflowed
datatype semantic_contract = DependencyContract | ProcessObservationContract

definition action_as_str :: "observation_action \<Rightarrow> string" where
  "action_as_str a = (case a of ActionCapture \<Rightarrow> ''capture'' | ActionReplay \<Rightarrow> ''replay'')"

text \<open>The names of the files in the spool directory: \<open>session-N-request\<close> and so on.\<close>

datatype spool_file = RequestFile nat | ResponseFile nat | UnownedFile nat | TranscriptFile

type_synonym spool = "spool_file \<Rightarrow> bytes option"

text \<open>\<open>LogicalObjectRole\<close> of the core crate.\<close>

datatype object_role =
    WorldStateRole | DependencyTranscriptRole | CandidateRole | FailureRole | SubjectRole
  | TriggerRole | WorldManifestRole | CaptureBatchManifestRole

record artifact_reference =
  ar_digest :: digest
  ar_media_type :: string
  ar_size :: nat
  ar_uri :: string

text \<open>\<open>ManagedCandidateArtifact\<close>: \<open>'p\<close> is the type of its path.\<close>

record 'p candidate_artifact =
  ca_media_type :: string
  ca_object_id :: nat
  ca_path :: 'p
  ca_role :: object_role
  ca_uri :: string

record observation_artifact =
  oa_artifact :: "spool_file candidate_artifact"
  oa_reference :: "artifact_reference option"

record interaction =
  in_causal_parent_id :: "operation_id option"
  in_operation_id :: operation_id
  in_outcome :: dependency_outcome
  in_request_digest :: digest
  in_request_object_id :: nat
  in_response_digest :: digest
  in_response_object_id :: nat
  in_sequence :: nat
  in_session_position :: nat

record transcript =
  tr_adapter_id :: string
  tr_adapter_version :: string
  tr_interactions :: "interaction list"

record registration =
  rg_adapter_id :: string
  rg_adapter_version :: string
  rg_class :: observation_class
  rg_implementation_digest :: digest
  rg_sentinel_coverage_digest :: "digest option"

record observation_session =
  os_causal_parent_id :: "operation_id option"
  os_class :: observation_class
  os_request_bytes :: nat
  os_request_path :: spool_file
  os_response_bytes :: nat
  os_response_path :: spool_file
  os_position :: nat
  os_contract :: "semantic_contract option"
  os_state :: session_state

text \<open>
  The semantic records of the core crate.  Metadata, operations and error codes are opaque; of an
  observation record only the field the checks read is kept apart.
\<close>

datatype observation_operation = ClockWallTime | EnvironmentRead | FilesystemRead | RandomBytes

record dependency_request =
  dq_encoding :: string
  dq_metadata :: bytes
  dq_method :: "string option"
  dq_class :: observation_class
  dq_operation :: nat
  dq_payload :: string
  dq_protocol :: string
  dq_target :: string

record dependency_response =
  dp_error_code :: "nat option"
  dp_error_number :: "nat option"
  dp_metadata :: bytes
  dp_class :: observation_class
  dp_operation :: nat
  dp_outcome :: dependency_outcome
  dp_payload :: "string option"
  dp_request_digest :: digest
  dp_status :: "string option"
  dp_status_code :: "nat option"

record observation_request = oq_operation :: observation_operation  oq_rest :: bytes
record observation_response = op_outcome :: dependency_outcome  op_rest :: bytes

section \<open>The World that is published\<close>

record closure_rule =
  ru_allowed_mechanisms :: "nat list"
  ru_boundary_id :: string
  ru_class :: observation_class

type_synonym closure_policy = "closure_rule list"

record recoverable_point =
  rp_artifacts :: "artifact_reference list"
  rp_capabilities :: "string list"
  rp_configuration_digest :: digest
  rp_engine_identity :: string
  rp_engine_version :: string
  rp_generation :: nat
  rp_point :: string
  rp_provider_id :: string
  rp_published_at :: string
  rp_recoverable_until :: string
  rp_materialized_bytes :: nat
  rp_objects :: nat
  rp_pinned_bytes :: nat
  rp_temporary_bytes :: nat

record world_checkpoint =
  wp_created_at :: string
  wp_points :: "recoverable_point list"

record 'p capture_closure =
  cl_artifacts :: "'p candidate_artifact list"
  cl_completion :: trigger_completion
  cl_world :: world_checkpoint

section \<open>What the model is given\<close>

text \<open>\<open>AutomaticReplay\<close> of the backend crate: an opaque state and the three calls made on it.\<close>

record 'r replay_api =
  take_response ::
    "observation_class \<Rightarrow> nat \<Rightarrow> bytes \<Rightarrow> 'r \<Rightarrow> bytes res \<times> 'r"
  require_complete :: "'r \<Rightarrow> unit res"
  first_position :: "observation_class \<Rightarrow> nat"

text \<open>Strict parsing, validation and canonical form of one type of the core crate.\<close>

record 'a codec =
  codec_parse :: "bytes \<Rightarrow> 'a res"
  codec_validate :: "'a \<Rightarrow> unit res"
  codec_bytes :: "'a \<Rightarrow> bytes res"

record offset_date_time =
  dt_year :: nat
  dt_month :: nat
  dt_day :: nat
  dt_hour :: nat
  dt_minute :: nat
  dt_second :: nat
  dt_millisecond :: nat

record 'r world_env =
  we_core :: core
  we_replay :: "'r replay_api"
  sha256 :: "bytes \<Rightarrow> digest"
  digest_bytes :: "digest \<Rightarrow> bytes"
  show_digest :: "digest \<Rightarrow> string"
  boundary_id :: "observation_class \<Rightarrow> string"
  closure_mechanism :: "observation_class \<Rightarrow> nat"
  text_bytes :: "string \<Rightarrow> bytes"
  parse_timestamp :: "string \<Rightarrow> string res"
  add_seconds :: "nat \<Rightarrow> offset_date_time \<Rightarrow> offset_date_time"
  dependency_request_codec :: "dependency_request codec"
  dependency_response_codec :: "dependency_response codec"
  observation_request_codec :: "observation_request codec"
  observation_response_codec :: "observation_response codec"
  validate_dependency_pair :: "dependency_request \<Rightarrow> dependency_response \<Rightarrow> unit res"
  validate_observation_pair :: "observation_request \<Rightarrow> observation_response \<Rightarrow> unit res"
  validate_ownership :: "adapter_ownership \<Rightarrow> unit res"
  canonical_ownership :: "adapter_ownership \<Rightarrow> bytes res"
  canonical_environment :: "(string \<times> string) list \<Rightarrow> bytes res"
  digest_interaction :: "interaction \<Rightarrow> digest res"
  digest_reference :: "artifact_reference \<Rightarrow> digest res"
  digest_evidence :: "digest list \<Rightarrow> digest res"
  digest_observations :: "observation_payload list \<Rightarrow> digest res"
  digest_policy :: "closure_policy \<Rightarrow> digest res"
  transcript_codec :: "transcript codec"
  validate_cursor :: "dependency_cursor \<Rightarrow> unit res"
  validate_closure :: "world_closure \<Rightarrow> unit res"
  validate_checkpoint :: "world_checkpoint \<Rightarrow> unit res"

text \<open>
  The operating system during one call.  \<open>io_append\<close> and \<open>io_write\<close> give the success flag and
  what the file then holds, \<open>io_count\<close> how many bytes the system is ready to return at an offset
  (\<open>None\<close> is a failed read), \<open>io_object_id\<close> and \<open>io_now\<close> the identifiers generated and the clock
  readings, in the order of the requests.
\<close>

record world_io =
  io_create :: "spool_file \<Rightarrow> bool"
  io_append :: "spool_file \<Rightarrow> bytes \<Rightarrow> bytes \<Rightarrow> bool \<times> bytes"
  io_write :: "spool_file \<Rightarrow> bytes \<Rightarrow> bool \<times> bytes"
  io_open :: "spool_file \<Rightarrow> bool"
  io_count :: "spool_file \<Rightarrow> nat \<Rightarrow> nat option"
  io_object_id :: "nat \<Rightarrow> nat res"
  io_now :: "nat \<Rightarrow> offset_date_time"

text \<open>
  The contract of the file system the properties rest on: a write reported as done has stored
  the bytes.  A write reported as failed may leave anything.
\<close>

definition io_faithful :: "world_io \<Rightarrow> bool" where
  "io_faithful io \<longleftrightarrow>
     (\<forall>f old chunk new. io_append io f old chunk = (True, new) \<longrightarrow> new = old @ chunk)
     \<and> (\<forall>f data new. io_write io f data = (True, new) \<longrightarrow> new = data)"

text \<open>One \<open>read\<close> of a file at an offset into a buffer: short reads are allowed, and an empty
  result means the end of the file.\<close>

definition read_at :: "world_io \<Rightarrow> spool_file \<Rightarrow> bytes \<Rightarrow> nat \<Rightarrow> nat \<Rightarrow> bytes res" where
  "read_at io f contents offset buffer =
     (case io_count io f offset of
        None \<Rightarrow> Inl ServiceUnavailable
      | Some n \<Rightarrow> Inr (take (min buffer (max 1 n)) (drop offset contents)))"

definition open_file :: "world_io \<Rightarrow> spool \<Rightarrow> spool_file \<Rightarrow> bytes res" where
  "open_file io sp f =
     (if io_open io f then ok_or ServiceUnavailable (sp f) else Inl ServiceUnavailable)"

text \<open>\<open>map_err(|_| c)\<close>\<close>

definition map_err :: "error_code \<Rightarrow> 'a res \<Rightarrow> 'a res" where
  "map_err c r = (case r of Inl _ \<Rightarrow> Inl c | Inr x \<Rightarrow> Inr x)"

lemma map_err_eq_Inr [simp]: "map_err c r = Inr x \<longleftrightarrow> r = Inr x"
  by (cases r) (auto simp: map_err_def)

text \<open>Fallible steps in sequence: \<open>act_bind\<close> runs the second only after a success, keeping the
  state the first left.\<close>

type_synonym ('s, 'a) act = "'s \<Rightarrow> 'a res \<times> 's"

definition act_bind :: "('s, 'a) act \<Rightarrow> ('a \<Rightarrow> ('s, 'b) act) \<Rightarrow> ('s, 'b) act" where
  "act_bind m f s =
     (case m s of
        (Inl e, s') \<Rightarrow> (Inl e, s')
      | (Inr x, s') \<Rightarrow> f x s')"

definition act_res :: "'a res \<Rightarrow> ('s, 'a) act" where
  "act_res r s = (r, s)"

definition act_do :: "('s \<Rightarrow> 's) \<Rightarrow> ('s, unit) act" where
  "act_do f s = (Inr (), f s)"

section \<open>The digest of a spooled file\<close>

lemma read_progress: "r < n \<Longrightarrow> 0 < b \<Longrightarrow> n - (r + min (n - r) b) < n - (r :: nat)"
  by simp

text \<open>
  The loop of \<open>digest_file\<close>.  The hasher is the bytes fed to it so far, the file's position the
  number of bytes read.
\<close>

function digest_loop ::
  "world_io \<Rightarrow> spool_file \<Rightarrow> bytes \<Rightarrow> nat \<Rightarrow> bytes \<Rightarrow> nat \<Rightarrow> bytes res" where
  "digest_loop io f contents expected hashed read =
     (case read_at io f contents read DIGEST_BUFFER_BYTES of
        Inl e \<Rightarrow> Inl e
      | Inr chunk \<Rightarrow>
          if chunk = []
          then (if read \<noteq> expected then Inl WorldNotClosed else Inr hashed)
          else case checked_add read (length chunk) of
              None \<Rightarrow> Inl RuntimeQuota
            | Some next \<Rightarrow>
                if next > expected then Inl WorldNotClosed
                else digest_loop io f contents expected (hashed @ chunk) next)"
  by pat_completeness auto
termination
  by (relation "measure (\<lambda>(io, f, contents, expected, hashed, read). length contents - read)")
    (auto simp: read_at_def limits intro!: read_progress split: option.splits)

definition digest_file ::
  "'r world_env \<Rightarrow> world_io \<Rightarrow> spool \<Rightarrow> spool_file \<Rightarrow> nat \<Rightarrow> digest res" where
  "digest_file we io sp path expected =
     bind_res (open_file io sp path) (\<lambda>contents.
     bind_res (digest_loop io path contents expected [] 0) (\<lambda>hashed.
       Inr (sha256 we hashed)))"

declare digest_loop.simps [simp del]

section \<open>Semantic records\<close>

definition semantic_contract_for :: "observation_class \<Rightarrow> semantic_contract" where
  "semantic_contract_for class =
     (case class of
        Database \<Rightarrow> DependencyContract | OutboundHttp \<Rightarrow> DependencyContract
      | Queue \<Rightarrow> DependencyContract
      | Clock \<Rightarrow> ProcessObservationContract | Environment \<Rightarrow> ProcessObservationContract
      | Filesystem \<Rightarrow> ProcessObservationContract | Randomness \<Rightarrow> ProcessObservationContract)"

fun observation_class_of :: "observation_operation \<Rightarrow> observation_class" where
  "observation_class_of ClockWallTime = Clock"
| "observation_class_of EnvironmentRead = Environment"
| "observation_class_of FilesystemRead = Filesystem"
| "observation_class_of RandomBytes = Randomness"

definition read_semantic_record ::
  "'a codec \<Rightarrow> world_io \<Rightarrow> spool \<Rightarrow> spool_file \<Rightarrow> nat \<Rightarrow> 'a res" where
  "read_semantic_record codec io sp path declared_bytes =
     (if declared_bytes = 0 \<or> declared_bytes > MAX_SEMANTIC_RECORD_BYTES
      then Inl IncompleteCandidate
      else bind_res (open_file io sp path) (\<lambda>contents.
        if io_count io path 0 = None then Inl ServiceUnavailable
        else let data = take (MAX_SEMANTIC_RECORD_BYTES + 1) contents
        in if length data \<noteq> declared_bytes then Inl IncompleteCandidate
        else bind_res (map_err IncompleteCandidate (codec_parse codec data)) (\<lambda>record.
          bind_res (map_err IncompleteCandidate (codec_validate codec record)) (\<lambda>_.
          bind_res (map_err IncompleteCandidate (codec_bytes codec record)) (\<lambda>canonical.
            if canonical \<noteq> data then Inl IncompleteCandidate else Inr record)))))"

definition validate_semantic_request ::
  "'r world_env \<Rightarrow> world_io \<Rightarrow> spool \<Rightarrow> observation_session \<Rightarrow> unit res" where
  "validate_semantic_request we io sp s =
     (case os_contract s of
        None \<Rightarrow> Inr ()
      | Some contract \<Rightarrow>
          bind_res
            (case contract of
               DependencyContract \<Rightarrow>
                 bind_res (read_semantic_record (dependency_request_codec we) io sp
                     (os_request_path s) (os_request_bytes s)) (\<lambda>request.
                   Inr (dq_class request))
             | ProcessObservationContract \<Rightarrow>
                 bind_res (read_semantic_record (observation_request_codec we) io sp
                     (os_request_path s) (os_request_bytes s)) (\<lambda>request.
                   Inr (observation_class_of (oq_operation request))))
            (\<lambda>class. if class \<noteq> os_class s then Inl IncompleteCandidate else Inr ()))"

definition validate_semantic_pair ::
  "'r world_env \<Rightarrow> world_io \<Rightarrow> spool \<Rightarrow> dependency_outcome \<Rightarrow> observation_session \<Rightarrow> unit res" where
  "validate_semantic_pair we io sp outcome s =
     (case os_contract s of
        None \<Rightarrow> Inr ()
      | Some contract \<Rightarrow>
          bind_res
            (case contract of
               DependencyContract \<Rightarrow>
                 bind_res (read_semantic_record (dependency_request_codec we) io sp
                     (os_request_path s) (os_request_bytes s)) (\<lambda>request.
                 bind_res (read_semantic_record (dependency_response_codec we) io sp
                     (os_response_path s) (os_response_bytes s)) (\<lambda>response.
                 bind_res (map_err IncompleteCandidate
                     (validate_dependency_pair we request response)) (\<lambda>_.
                   Inr (dp_outcome response))))
             | ProcessObservationContract \<Rightarrow>
                 bind_res (read_semantic_record (observation_request_codec we) io sp
                     (os_request_path s) (os_request_bytes s)) (\<lambda>request.
                 bind_res (read_semantic_record (observation_response_codec we) io sp
                     (os_response_path s) (os_response_bytes s)) (\<lambda>response.
                 bind_res (map_err IncompleteCandidate
                     (validate_observation_pair we request response)) (\<lambda>_.
                   Inr (op_outcome response)))))
            (\<lambda>semantic_outcome.
              if semantic_outcome \<noteq> outcome then Inl IncompleteCandidate else Inr ()))"

section \<open>Registrations\<close>

definition registration_ownership :: "'r world_env \<Rightarrow> registration \<Rightarrow> adapter_ownership" where
  "registration_ownership we rg =
     \<lparr>own_adapter_id = rg_adapter_id rg, own_adapter_version = rg_adapter_version rg,
      own_boundary_id = boundary_id we (rg_class rg),
      own_implementation_digest = rg_implementation_digest rg, own_class = rg_class rg\<rparr>"

definition new_registration ::
  "'r world_env \<Rightarrow> observation_class \<Rightarrow> string \<Rightarrow> string \<Rightarrow> digest \<Rightarrow> registration res" where
  "new_registration we class adapter_id adapter_version implementation_digest =
     bind_res (validate_ownership we
         \<lparr>own_adapter_id = adapter_id, own_adapter_version = adapter_version,
          own_boundary_id = boundary_id we class,
          own_implementation_digest = implementation_digest, own_class = class\<rparr>) (\<lambda>_.
       Inr \<lparr>rg_adapter_id = adapter_id, rg_adapter_version = adapter_version, rg_class = class,
            rg_implementation_digest = implementation_digest,
            rg_sentinel_coverage_digest = None\<rparr>)"

definition adapter_ownerships ::
  "'r world_env \<Rightarrow> (observation_class, registration) btree \<Rightarrow> adapter_ownership list" where
  "adapter_ownerships we registrations = map (registration_ownership we \<circ> snd) registrations"

definition COVERAGE_DOMAIN :: string where
  "COVERAGE_DOMAIN = ''reproit.native-sentinel-coverage.v1'' @ [CHR 0x00]"

definition sentinel_coverage_digest ::
  "'r world_env \<Rightarrow> adapter_ownership \<Rightarrow> bytes \<Rightarrow> digest res" where
  "sentinel_coverage_digest we ownership evidence =
     bind_res (canonical_ownership we ownership) (\<lambda>encoded.
       Inr (sha256 we (text_bytes we COVERAGE_DOMAIN @ to_be_bytes (length encoded) @ encoded
              @ to_be_bytes (length evidence) @ evidence)))"

section \<open>Text\<close>

fun show_nat :: "nat \<Rightarrow> string" where
  "show_nat n =
     (if n < 10 then [char_of (48 + n)] else show_nat (n div 10) @ [char_of (48 + n mod 10)])"

declare show_nat.simps [simp del]

text \<open>\<open>{:0W}\<close>\<close>

definition show_padded :: "nat \<Rightarrow> nat \<Rightarrow> string" where
  "show_padded width n =
     (let digits = show_nat n in replicate (width - length digits) CHR ''0'' @ digits)"

definition timestamp :: "'r world_env \<Rightarrow> offset_date_time \<Rightarrow> string res" where
  "timestamp we v =
     parse_timestamp we
       (show_padded 4 (dt_year v) @ ''-'' @ show_padded 2 (dt_month v) @ ''-''
        @ show_padded 2 (dt_day v) @ ''T'' @ show_padded 2 (dt_hour v) @ '':''
        @ show_padded 2 (dt_minute v) @ '':'' @ show_padded 2 (dt_second v) @ ''.''
        @ show_padded 3 (dt_millisecond v) @ ''Z'')"

end
