(* ===== verification/Automatic_World.thy ===== *)
theory Automatic_World
  imports World_Core
begin

text \<open>
  The coordinator of one operation's automatic World
  (\<^verbatim>\<open>crates/reproit-sdk-rust/src/automatic_world.rs\<close> and \<^verbatim>\<open>automatic_world_artifacts.rs\<close>): the
  observation sessions, the artifacts and interactions they commit, the ambient context, and the
  closing of the World.  The SDK and the process ledger it shares with the rest of the process are
  the fields \<open>aw_sdk\<close> and \<open>aw_resources\<close>; every call runs to its end before the next one.
\<close>

section \<open>State\<close>

datatype 'r world_mode = CaptureMode | ReplayMode 'r

record 'r automatic_world =
  aw_artifacts :: "observation_artifact list"
  aw_interactions :: "interaction list"
  aw_dropped :: nat
  aw_incomplete :: bool
  aw_next_internal :: nat
  aw_observations :: "observation_payload list"
  aw_operation_id :: operation_id
  aw_overflowed :: bool
  aw_registrations :: "(observation_class, registration) btree"
  aw_reserved :: nat
  aw_mode :: "'r world_mode"
  aw_sessions :: "(nat, observation_session) btree"
  aw_positions :: "(observation_class, nat) btree"
  aw_spool :: spool
  aw_sdk :: sdk
  aw_resources :: process_resources

definition new_mode ::
  "bool \<Rightarrow> 'r world_mode \<Rightarrow> operation_id \<Rightarrow> (observation_class, registration) btree
     \<Rightarrow> sdk \<Rightarrow> process_resources \<Rightarrow> 'r automatic_world res" where
  "new_mode spool_created mode operation registrations sd r =
     (if \<not> spool_created then Inl ServiceUnavailable
      else Inr \<lparr>aw_artifacts = [], aw_interactions = [], aw_dropped = 0, aw_incomplete = False,
                aw_next_internal = U64_MAX, aw_observations = [], aw_operation_id = operation,
                aw_overflowed = False, aw_registrations = registrations, aw_reserved = 0,
                aw_mode = mode, aw_sessions = [], aw_positions = [], aw_spool = (\<lambda>_. None),
                aw_sdk = sd, aw_resources = r\<rparr>)"

definition new_with_registrations ::
  "bool \<Rightarrow> operation_id \<Rightarrow> (observation_class, registration) btree \<Rightarrow> sdk
     \<Rightarrow> process_resources \<Rightarrow> 'r automatic_world res" where
  "new_with_registrations spool_created operation registrations sd r =
     new_mode spool_created CaptureMode operation registrations sd r"

definition new_replay ::
  "'r world_env \<Rightarrow> bool \<Rightarrow> 'r \<Rightarrow> operation_id \<Rightarrow> sdk \<Rightarrow> process_resources
     \<Rightarrow> 'r automatic_world res" where
  "new_replay we spool_created replay operation sd r =
     bind_res (new_mode spool_created (ReplayMode replay) operation [] sd r) (\<lambda>s.
       Inr (s\<lparr>aw_positions :=
         fold (\<lambda>class. bt_insert class (first_position (we_replay we) class)) ALL_CLASSES []\<rparr>))"

text \<open>Dropping the coordinator gives its reservation back; the spool directory is deleted.\<close>

definition world_drop :: "'r automatic_world \<Rightarrow> process_resources" where
  "world_drop s = reservation_drop (aw_reserved s) (aw_resources s)"

definition finish_replay :: "'r world_env \<Rightarrow> 'r automatic_world \<Rightarrow> unit res \<times> process_resources" where
  "finish_replay we s =
     (if aw_incomplete s \<or> aw_overflowed s \<or> aw_sessions s \<noteq> [] then Inl WorldNotClosed
      else case aw_mode s of
          ReplayMode replay \<Rightarrow> require_complete (we_replay we) replay
        | CaptureMode \<Rightarrow> Inl IncompleteCandidate,
      world_drop s)"

section \<open>Marking\<close>

definition invalidate_ambient_context :: "'r automatic_world \<Rightarrow> 'r automatic_world" where
  "invalidate_ambient_context s = s\<lparr>aw_incomplete := True\<rparr>"

definition fail_incomplete :: "error_code \<Rightarrow> ('r automatic_world, 'a) act" where
  "fail_incomplete e s = (Inl e, s\<lparr>aw_incomplete := True\<rparr>)"

definition fail_overflowed :: "('r automatic_world, 'a) act" where
  "fail_overflowed s =
     (Inl RuntimeQuota, s\<lparr>aw_overflowed := True, aw_dropped := saturating_add (aw_dropped s) 1\<rparr>)"

definition overflow_session :: "nat \<Rightarrow> 'r automatic_world \<Rightarrow> 'r automatic_world" where
  "overflow_session sid s =
     (let s1 = (case bt_get (aw_sessions s) sid of
                  None \<Rightarrow> s
                | Some session \<Rightarrow>
                    s\<lparr>aw_sessions :=
                      bt_insert sid (session\<lparr>os_state := SessionOverflowed\<rparr>) (aw_sessions s)\<rparr>)
      in s1\<lparr>aw_incomplete := True, aw_overflowed := True,
            aw_dropped := saturating_add (aw_dropped s1) 1\<rparr>)"

definition aw_reserve :: "nat \<Rightarrow> 'r automatic_world \<Rightarrow> bool \<times> 'r automatic_world" where
  "aw_reserve n s =
     (let (ok, held, r) = reserve_capture_bytes (aw_reserved s) n (aw_resources s)
      in (ok, s\<lparr>aw_reserved := held, aw_resources := r\<rparr>))"

section \<open>Sentinel coverage\<close>

fun bind_registrations ::
  "'r world_env \<Rightarrow> bytes \<Rightarrow> (observation_class, registration) btree
     \<Rightarrow> unit res \<times> (observation_class, registration) btree" where
  "bind_registrations we evidence [] = (Inr (), [])"
| "bind_registrations we evidence ((class, rg) # rest) =
     (case sentinel_coverage_digest we (registration_ownership we rg) evidence of
        Inl e \<Rightarrow> (Inl e, (class, rg) # rest)
      | Inr d \<Rightarrow>
          let (result, rest') = bind_registrations we evidence rest
          in (result, (class, rg\<lparr>rg_sentinel_coverage_digest := Some d\<rparr>) # rest'))"

definition bind_native_sentinel_coverage ::
  "'r world_env \<Rightarrow> bytes \<Rightarrow> ('r automatic_world, unit) act" where
  "bind_native_sentinel_coverage we evidence s =
     (if evidence = [] \<or> length evidence > MAX_NATIVE_SENTINEL_EVIDENCE_BYTES
      then fail_incomplete RuntimeQuota s
      else if set (map fst (aw_registrations s)) \<noteq> set ALL_CLASSES
         \<or> (\<exists>(class, rg) \<in> set (aw_registrations s). rg_sentinel_coverage_digest rg \<noteq> None)
      then fail_incomplete WorldNotClosed s
      else let (result, registrations) = bind_registrations we evidence (aw_registrations s)
           in (result, s\<lparr>aw_registrations := registrations\<rparr>))"

section \<open>Files of the spool\<close>

definition create_file :: "world_io \<Rightarrow> spool_file \<Rightarrow> ('r automatic_world, unit) act" where
  "create_file io f s =
     (if io_create io f then (Inr (), s\<lparr>aw_spool := (aw_spool s)(f := Some [])\<rparr>)
      else (Inl ServiceUnavailable, s))"

definition write_file :: "world_io \<Rightarrow> spool_file \<Rightarrow> bytes \<Rightarrow> ('r automatic_world, unit) act" where
  "write_file io f data s =
     (let (ok, new) = io_write io f data
      in (if ok then Inr () else Inl ServiceUnavailable,
          s\<lparr>aw_spool := (aw_spool s)(f := Some new)\<rparr>))"

definition append_chunk :: "world_io \<Rightarrow> spool_file \<Rightarrow> bytes \<Rightarrow> ('r automatic_world, unit) act" where
  "append_chunk io f chunk s =
     (case aw_spool s f of
        None \<Rightarrow> (Inl ServiceUnavailable, s)
      | Some old \<Rightarrow>
          let (ok, new) = io_append io f old chunk
          in (if ok then Inr () else Inl ServiceUnavailable,
              s\<lparr>aw_spool := (aw_spool s)(f := Some new)\<rparr>))"

definition read_whole :: "world_io \<Rightarrow> spool_file \<Rightarrow> spool \<Rightarrow> bytes res" where
  "read_whole io f sp =
     bind_res (open_file io sp f) (\<lambda>contents.
       if io_count io f 0 = None then Inl ServiceUnavailable else Inr contents)"

section \<open>Sessions: opening and writing\<close>

definition next_position :: "observation_class \<Rightarrow> ('r automatic_world, nat) act" where
  "next_position class s =
     (let pos = (case bt_get (aw_positions s) class of None \<Rightarrow> 0 | Some p \<Rightarrow> p);
          s1 = s\<lparr>aw_positions := bt_insert class pos (aw_positions s)\<rparr>
      in case checked_add pos 1 of
           None \<Rightarrow> (Inl RuntimeQuota, s1)
         | Some next \<Rightarrow>
             if next > MAX_SESSION_POSITION then (Inl RuntimeQuota, s1)
             else (Inr pos, s1\<lparr>aw_positions := bt_insert class next (aw_positions s1)\<rparr>))"

definition new_session ::
  "nat \<Rightarrow> observation_class \<Rightarrow> operation_id option \<Rightarrow> bool \<Rightarrow> nat \<Rightarrow> observation_session" where
  "new_session sid class parent semantic pos =
     \<lparr>os_causal_parent_id = parent, os_class = class, os_request_bytes = 0,
      os_request_path = RequestFile sid, os_response_bytes = 0,
      os_response_path = ResponseFile sid, os_position = pos,
      os_contract = (if semantic then Some (semantic_contract_for class) else None),
      os_state = SessionRequest\<rparr>"

definition open_observation_inner ::
  "world_io \<Rightarrow> nat \<Rightarrow> observation_class \<Rightarrow> operation_id option \<Rightarrow> bool
     \<Rightarrow> ('r automatic_world, nat) act" where
  "open_observation_inner io sid class parent semantic s =
     (if (case aw_mode s of CaptureMode \<Rightarrow> True | ReplayMode _ \<Rightarrow> False)
         \<and> \<not> bt_contains (aw_registrations s) class
      then fail_incomplete WorldNotClosed s
      else if length (aw_sessions s) \<ge> MAX_OBSERVATION_SESSIONS
         \<or> bt_contains (aw_sessions s) sid
      then fail_incomplete RuntimeQuota s
      else act_bind (create_file io (RequestFile sid)) (\<lambda>_.
           act_bind (create_file io (ResponseFile sid)) (\<lambda>_.
           act_bind (next_position class) (\<lambda>pos.
           act_bind (act_do (\<lambda>s. s\<lparr>aw_sessions :=
               bt_insert sid (new_session sid class parent semantic pos) (aw_sessions s)\<rparr>)) (\<lambda>_.
             act_res (Inr pos))))) s)"

definition open_observation ::
  "world_io \<Rightarrow> nat \<Rightarrow> observation_class \<Rightarrow> operation_id option \<Rightarrow> ('r automatic_world, nat) act" where
  "open_observation io sid class parent = open_observation_inner io sid class parent True"

definition stream_bytes :: "observation_stream \<Rightarrow> observation_session \<Rightarrow> nat" where
  "stream_bytes stream session =
     (case stream of
        RequestStream \<Rightarrow> os_request_bytes session
      | ResponseStream \<Rightarrow> os_response_bytes session)"

definition valid_stream :: "session_state \<Rightarrow> observation_stream \<Rightarrow> bool" where
  "valid_stream state stream \<longleftrightarrow>
     state = SessionRequest \<and> stream = RequestStream
     \<or> state = SessionCapture \<and> stream = ResponseStream"

definition write_observation ::
  "world_io \<Rightarrow> nat \<Rightarrow> observation_stream \<Rightarrow> bytes \<Rightarrow> ('r automatic_world, unit) act" where
  "write_observation io sid stream chunk s =
     (if chunk = [] \<or> length chunk > MAX_OBSERVATION_CHUNK_BYTES
      then (Inl RuntimeQuota, overflow_session sid s)
      else case bt_get (aw_sessions s) sid of
        None \<Rightarrow> (Inl NotFound, s)
      | Some session \<Rightarrow>
          if \<not> valid_stream (os_state session) stream
          then (Inl IncompleteCandidate, overflow_session sid s)
          else case checked_add (stream_bytes stream session) (length chunk) of
            None \<Rightarrow> (Inl RuntimeQuota, s)
          | Some next_bytes \<Rightarrow>
              let (reserved, s1) =
                    (if next_bytes > MAX_WORLD_ARTIFACT_BYTES then (False, s)
                     else aw_reserve (length chunk) s)
              in if \<not> reserved then (Inl RuntimeQuota, overflow_session sid s1)
                 else let (session', path) =
                        (case stream of
                           RequestStream \<Rightarrow>
                             (session\<lparr>os_request_bytes := next_bytes\<rparr>, os_request_path session)
                         | ResponseStream \<Rightarrow>
                             (session\<lparr>os_response_bytes := next_bytes\<rparr>, os_response_path session));
                      s2 = s1\<lparr>aw_sessions := bt_insert sid session' (aw_sessions s1)\<rparr>
                 in case append_chunk io path chunk s2 of
                      (Inr _, s3) \<Rightarrow> (Inr (), s3)
                    | (Inl e, s3) \<Rightarrow> fail_incomplete e s3)"

section \<open>Sessions: dispatch and replayed responses\<close>

definition set_session :: "nat \<Rightarrow> observation_session \<Rightarrow> 'r automatic_world \<Rightarrow> 'r automatic_world" where
  "set_session sid session s = s\<lparr>aw_sessions := bt_insert sid session (aw_sessions s)\<rparr>"

definition dispatch_replay ::
  "'r world_env \<Rightarrow> world_io \<Rightarrow> nat \<Rightarrow> observation_session \<Rightarrow> 'r
     \<Rightarrow> ('r automatic_world, observation_action) act" where
  "dispatch_replay we io sid session replay s =
     (case read_whole io (os_request_path session) (aw_spool s) of
        Inl e \<Rightarrow> (Inl e, s)
      | Inr request \<Rightarrow>
          case take_response (we_replay we) (os_class session) (os_position session) request replay of
            (Inl e, replay') \<Rightarrow> (Inl e, s\<lparr>aw_mode := ReplayMode replay'\<rparr>)
          | (Inr response, replay') \<Rightarrow>
              let session1 = session\<lparr>os_response_bytes := length response\<rparr>;
                  s1 = set_session sid session1 (s\<lparr>aw_mode := ReplayMode replay'\<rparr>)
              in case aw_reserve (length response) s1 of
                   (False, s2) \<Rightarrow> fail_incomplete RuntimeQuota s2
                 | (True, s2) \<Rightarrow>
                     act_bind (write_file io (os_response_path session) response) (\<lambda>_.
                     act_bind (act_do
                         (set_session sid (session1\<lparr>os_state := SessionReplay 0\<rparr>))) (\<lambda>_.
                       act_res (Inr ActionReplay))) s2)"

definition dispatch_observation ::
  "'r world_env \<Rightarrow> world_io \<Rightarrow> nat \<Rightarrow> ('r automatic_world, observation_action) act" where
  "dispatch_observation we io sid s =
     (case bt_get (aw_sessions s) sid of
        None \<Rightarrow> (Inl NotFound, s)
      | Some session \<Rightarrow>
          case validate_semantic_request we io (aw_spool s) session of
            Inl e \<Rightarrow> (Inl e, s)
          | Inr _ \<Rightarrow>
              if os_state session \<noteq> SessionRequest \<or> os_request_bytes session = 0
              then fail_incomplete IncompleteCandidate
                     (set_session sid (session\<lparr>os_state := SessionOverflowed\<rparr>) s)
              else case aw_mode s of
                  CaptureMode \<Rightarrow>
                    (Inr ActionCapture,
                     set_session sid (session\<lparr>os_state := SessionCapture\<rparr>) s)
                | ReplayMode replay \<Rightarrow> dispatch_replay we io sid session replay s)"

definition read_observation_response ::
  "world_io \<Rightarrow> nat \<Rightarrow> ('r automatic_world, bytes \<times> bool) act" where
  "read_observation_response io sid s =
     (case bt_get (aw_sessions s) sid of
        None \<Rightarrow> (Inl NotFound, s)
      | Some session \<Rightarrow>
          case os_state session of
            SessionReplay offset \<Rightarrow>
              (case bind_res (open_file io (aw_spool s) (os_response_path session)) (\<lambda>contents.
                   read_at io (os_response_path session) contents offset MAX_RESPONSE_READ_BYTES) of
                 Inl e \<Rightarrow> (Inl e, s)
               | Inr chunk \<Rightarrow>
                   case checked_add offset (length chunk) of
                     None \<Rightarrow> (Inl RuntimeQuota, s)
                   | Some next \<Rightarrow>
                       (Inr (chunk, next = os_response_bytes session),
                        set_session sid (session\<lparr>os_state := SessionReplay next\<rparr>) s))
          | _ \<Rightarrow> (Inl IncompleteCandidate, s))"

section \<open>Committing a session\<close>

definition is_dependency_class :: "observation_class \<Rightarrow> bool" where
  "is_dependency_class class \<longleftrightarrow> class \<in> set [Clock, Database, OutboundHttp, Queue, Randomness]"

definition raw_dependency_artifact :: "nat \<Rightarrow> spool_file \<Rightarrow> string \<Rightarrow> observation_artifact" where
  "raw_dependency_artifact object_id path uri =
     \<lparr>oa_artifact =
        \<lparr>ca_media_type = OBSERVATION_OBJECT_MEDIA_TYPE, ca_object_id = object_id,
         ca_path = path, ca_role = DependencyTranscriptRole, ca_uri = uri\<rparr>,
      oa_reference = None\<rparr>"

definition push_artifact :: "observation_artifact \<Rightarrow> 'r automatic_world \<Rightarrow> 'r automatic_world" where
  "push_artifact a s = s\<lparr>aw_artifacts := aw_artifacts s @ [a]\<rparr>"

definition commit_dependency_interaction ::
  "'r world_env \<Rightarrow> world_io \<Rightarrow> observation_session \<Rightarrow> dependency_outcome \<Rightarrow> nat \<Rightarrow> digest \<Rightarrow> digest
     \<Rightarrow> ('r automatic_world, digest) act" where
  "commit_dependency_interaction we io session outcome pos request_digest response_digest s =
     act_bind (act_res (io_object_id io 0)) (\<lambda>request_object_id.
     act_bind (act_res (io_object_id io 1)) (\<lambda>response_object_id.
     act_bind (act_res (ok_or RuntimeQuota (u16_try_from (length (aw_interactions s))))) (\<lambda>sequence.
       let interaction =
             \<lparr>in_causal_parent_id = os_causal_parent_id session,
              in_operation_id = aw_operation_id s, in_outcome = outcome,
              in_request_digest = request_digest, in_request_object_id = request_object_id,
              in_response_digest = response_digest, in_response_object_id = response_object_id,
              in_sequence = sequence, in_session_position = pos\<rparr>;
           uri = ''reproit-managed://automatic-dependency/'' @ boundary_id we (os_class session)
                   @ ''/'' @ show_digest we request_digest
       in act_bind (act_do (push_artifact (raw_dependency_artifact request_object_id
              (os_request_path session) (uri @ ''/request'')))) (\<lambda>_.
          act_bind (act_do (push_artifact (raw_dependency_artifact response_object_id
              (os_response_path session) (uri @ ''/response'')))) (\<lambda>_.
          act_bind (act_res (digest_interaction we interaction)) (\<lambda>evidence_digest.
          act_bind (act_do (\<lambda>s. s\<lparr>aw_interactions := aw_interactions s @ [interaction]\<rparr>)) (\<lambda>_.
            act_res (Inr evidence_digest)))))))) s"

definition outcome_str :: "dependency_outcome \<Rightarrow> string" where
  "outcome_str outcome =
     (case outcome of OutcomeError \<Rightarrow> ''error'' | OutcomeResponse \<Rightarrow> ''response'')"

definition commit_state_artifact ::
  "'r world_env \<Rightarrow> world_io \<Rightarrow> observation_class \<Rightarrow> dependency_outcome \<Rightarrow> nat \<Rightarrow> digest \<Rightarrow> digest
     \<Rightarrow> nat \<Rightarrow> spool_file \<Rightarrow> ('r automatic_world, digest) act" where
  "commit_state_artifact we io class outcome pos request_digest response_digest response_size
       response_path =
     (let uri = ''reproit-managed://automatic-world/'' @ boundary_id we class @ ''/''
                  @ show_digest we request_digest @ ''/'' @ show_nat pos @ ''/''
                  @ outcome_str outcome;
          reference = \<lparr>ar_digest = response_digest, ar_media_type = OBSERVATION_OBJECT_MEDIA_TYPE,
                       ar_size = response_size, ar_uri = uri\<rparr>
      in act_bind (act_res (digest_reference we reference)) (\<lambda>evidence_digest.
         act_bind (act_res (io_object_id io 0)) (\<lambda>object_id.
         act_bind (act_do (push_artifact
             \<lparr>oa_artifact =
                \<lparr>ca_media_type = OBSERVATION_OBJECT_MEDIA_TYPE, ca_object_id = object_id,
                 ca_path = response_path, ca_role = WorldStateRole, ca_uri = uri\<rparr>,
              oa_reference = Some reference\<rparr>)) (\<lambda>_.
           act_res (Inr evidence_digest)))))"

text \<open>\<open>self.capture_sdk()?.record_observation(\<dots>)\<close>, then the observation is kept.\<close>

definition push_observation ::
  "'r world_env \<Rightarrow> observation_payload \<Rightarrow> ('r automatic_world, unit) act" where
  "push_observation we ob s =
     (case aw_mode s of
        ReplayMode _ \<Rightarrow> (Inl IncompleteCandidate, s)
      | CaptureMode \<Rightarrow>
          (case record_observation (we_core we) (aw_operation_id s) ob (aw_sdk s) (aw_resources s) of
             (Inl e, sd, r) \<Rightarrow> (Inl e, s\<lparr>aw_sdk := sd, aw_resources := r\<rparr>)
           | (Inr _, sd, r) \<Rightarrow>
               (Inr (), s\<lparr>aw_sdk := sd, aw_resources := r,
                          aw_observations := aw_observations s @ [ob]\<rparr>)))"

definition commit_observation ::
  "'r world_env \<Rightarrow> observation_session \<Rightarrow> digest \<Rightarrow> ('r automatic_world, unit) act" where
  "commit_observation we session evidence_digest s =
     act_bind (act_res (ok_or RuntimeQuota (u16_try_from (length (aw_observations s))))) (\<lambda>sequence.
     act_bind (act_res (ok_or WorldNotClosed (bt_get (aw_registrations s) (os_class session)))) (\<lambda>rg.
       push_observation we
         \<lparr>ob_boundary_id = boundary_id we (os_class session),
          ob_causal_parent_id = os_causal_parent_id session,
          ob_evidence_digest = evidence_digest, ob_class = os_class session,
          ob_sequence = sequence, ob_operation_id = aw_operation_id s,
          ob_owner_adapter_id = Some (rg_adapter_id rg)\<rparr>)) s"

definition commit_session ::
  "'r world_env \<Rightarrow> world_io \<Rightarrow> observation_session \<Rightarrow> dependency_outcome \<Rightarrow> nat
     \<Rightarrow> ('r automatic_world, unit) act" where
  "commit_session we io session outcome pos s =
     (if length (aw_observations s) \<ge> MAX_EVENTS then (Inl RuntimeQuota, s)
      else act_bind (act_res (digest_file we io (aw_spool s)
               (os_request_path session) (os_request_bytes session))) (\<lambda>request_digest.
           act_bind (act_res (digest_file we io (aw_spool s)
               (os_response_path session) (os_response_bytes session))) (\<lambda>response_digest.
           act_bind
             (if is_dependency_class (os_class session)
              then commit_dependency_interaction we io session outcome pos request_digest
                     response_digest
              else commit_state_artifact we io (os_class session) outcome pos request_digest
                     response_digest (os_response_bytes session) (os_response_path session))
             (commit_observation we session))) s)"

section \<open>Sessions: finishing and abandoning\<close>

definition response_complete :: "observation_session \<Rightarrow> bool" where
  "response_complete session =
     (case os_state session of
        SessionCapture \<Rightarrow> True
      | SessionReplay offset \<Rightarrow> offset = os_response_bytes session
      | SessionRequest \<Rightarrow> False
      | SessionOverflowed \<Rightarrow> False)"

definition finish_observation ::
  "'r world_env \<Rightarrow> world_io \<Rightarrow> nat \<Rightarrow> dependency_outcome \<Rightarrow> nat \<Rightarrow> ('r automatic_world, unit) act" where
  "finish_observation we io sid outcome pos s =
     (case bt_get (aw_sessions s) sid of
        None \<Rightarrow> (Inl NotFound, s)
      | Some session \<Rightarrow>
          let s1 = s\<lparr>aw_sessions := bt_remove sid (aw_sessions s)\<rparr>
          in if \<not> response_complete session \<or> os_request_bytes session = 0
                \<or> os_response_bytes session = 0 \<or> pos > MAX_SESSION_POSITION
             then fail_incomplete IncompleteCandidate s1
             else if pos \<noteq> os_position session then fail_incomplete IncompleteCandidate s1
             else case validate_semantic_pair we io (aw_spool s1) outcome session of
                 Inl e \<Rightarrow> fail_incomplete e s1
               | Inr _ \<Rightarrow>
                   case aw_mode s1 of
                     ReplayMode _ \<Rightarrow> (Inr (), s1)
                   | CaptureMode \<Rightarrow>
                       case commit_session we io session outcome pos s1 of
                         (Inl e, s2) \<Rightarrow> fail_incomplete e s2
                       | (Inr _, s2) \<Rightarrow> (Inr (), s2))"

definition abandon_observation :: "nat \<Rightarrow> ('r automatic_world, unit) act" where
  "abandon_observation sid s =
     (if \<not> bt_contains (aw_sessions s) sid then (Inl NotFound, s)
      else (Inr (), s\<lparr>aw_sessions := bt_remove sid (aw_sessions s), aw_incomplete := True\<rparr>))"

section \<open>The ambient context\<close>

definition capture_internal ::
  "'r world_env \<Rightarrow> world_io \<Rightarrow> observation_class \<Rightarrow> bytes \<Rightarrow> bytes \<Rightarrow> ('r automatic_world, unit) act" where
  "capture_internal we io class request response s =
     (let sid = aw_next_internal s
      in if sid = 0 then (Inl RuntimeQuota, s)
         else act_bind (open_observation_inner io sid class None False) (\<lambda>pos.
              act_bind (write_observation io sid RequestStream request) (\<lambda>_.
              act_bind (dispatch_observation we io sid) (\<lambda>_.
              act_bind (write_observation io sid ResponseStream response) (\<lambda>_.
                finish_observation we io sid OutcomeResponse pos))))
                (s\<lparr>aw_next_internal := sid - 1\<rparr>))"

text \<open>The map of encoded names to encoded values; canonical JSON sorts it by name.\<close>

fun environment_insert :: "string \<Rightarrow> string \<Rightarrow> (string \<times> string) list \<Rightarrow> (string \<times> string) list" where
  "environment_insert k v [] = [(k, v)]"
| "environment_insert k v ((k', v') # rest) =
     (if k = k' then (k, v) # rest else (k', v') # environment_insert k v rest)"

fun collect_environment ::
  "core \<Rightarrow> (bytes \<times> bytes) list \<Rightarrow> (string \<times> string) list \<Rightarrow> nat \<Rightarrow> (string \<times> string) list option" where
  "collect_environment c [] environment used = Some environment"
| "collect_environment c ((name, content) # rest) environment used =
     (case checked_add used (length name) of
        None \<Rightarrow> None
      | Some subtotal \<Rightarrow>
          case checked_add subtotal (length content) of
            None \<Rightarrow> None
          | Some next_bytes \<Rightarrow>
              if length environment \<ge> MAX_AMBIENT_ENVIRONMENT_VALUES
                 \<or> next_bytes > MAX_AMBIENT_ENVIRONMENT_BYTES
              then None
              else collect_environment c rest
                     (environment_insert (encode_base64url c name) (encode_base64url c content)
                        environment) next_bytes)"

definition capture_ambient ::
  "'r world_env \<Rightarrow> world_io \<Rightarrow> world_io \<Rightarrow> (bytes \<times> bytes) list \<Rightarrow> ('r automatic_world, unit) act" where
  "capture_ambient we io io_clock vars s =
     (case collect_environment (we_core we) vars [] 0 of
        None \<Rightarrow> fail_overflowed s
      | Some environment \<Rightarrow>
          act_bind (act_res (canonical_environment we environment)) (\<lambda>encoded.
          act_bind (capture_internal we io Environment
              (text_bytes we ''process-environment'') encoded) (\<lambda>_.
          act_bind (act_res (timestamp we (io_now io_clock 0))) (\<lambda>clock.
            capture_internal we io_clock Clock (text_bytes we ''wall-clock'')
              (text_bytes we clock)))) s)"

section \<open>Unowned observations\<close>

definition mark_unowned ::
  "'r world_env \<Rightarrow> world_io \<Rightarrow> observation_class \<Rightarrow> operation_id option \<Rightarrow> bytes
     \<Rightarrow> ('r automatic_world, unit) act" where
  "mark_unowned we io class parent evidence s =
     (if (case aw_mode s of CaptureMode \<Rightarrow> False | ReplayMode _ \<Rightarrow> True)
      then fail_incomplete WorldNotClosed s
      else if evidence = [] \<or> length (aw_observations s) \<ge> MAX_EVENTS
         \<or> length evidence > MAX_WORLD_ARTIFACT_BYTES
      then fail_overflowed s
      else case aw_reserve (length evidence) s of
          (False, s1) \<Rightarrow> fail_overflowed s1
        | (True, s1) \<Rightarrow>
            act_bind (act_res (ok_or RuntimeQuota (u16_try_from (length (aw_observations s1)))))
              (\<lambda>sequence.
                let digest = sha256 we evidence;
                    path = UnownedFile sequence;
                    uri = ''reproit-managed://automatic-unowned/'' @ show_nat sequence @ ''/''
                            @ show_digest we digest
                in act_bind (write_file io path evidence) (\<lambda>_.
                   act_bind (act_res (io_object_id io 0)) (\<lambda>object_id.
                   act_bind (act_do (push_artifact
                       \<lparr>oa_artifact =
                          \<lparr>ca_media_type = OBSERVATION_OBJECT_MEDIA_TYPE,
                           ca_object_id = object_id, ca_path = path,
                           ca_role = WorldStateRole, ca_uri = uri\<rparr>,
                        oa_reference = Some
                          \<lparr>ar_digest = digest, ar_media_type = OBSERVATION_OBJECT_MEDIA_TYPE,
                           ar_size = length evidence, ar_uri = uri\<rparr>\<rparr>)) (\<lambda>_.
                     push_observation we
                       \<lparr>ob_boundary_id = boundary_id we class, ob_causal_parent_id = parent,
                        ob_evidence_digest = digest, ob_class = class, ob_sequence = sequence,
                        ob_operation_id = aw_operation_id s1,
                        ob_owner_adapter_id = None\<rparr>)))) s1)"

end
