(* ===== verification/World_Closing.thy ===== *)
theory World_Closing
  imports Automatic_World
begin

text \<open>
  The closing of an automatic World (\<open>close\<close> of \<^verbatim>\<open>crates/reproit-sdk-rust/src/automatic_world.rs\<close>
  and what it calls): the dependency transcript, the closure receipts of every class, the
  checkpoint over the state artifacts and the fence receipt over the observations.
\<close>

section \<open>The dependency transcript\<close>

definition push_dependency ::
  "'r world_env \<Rightarrow> dependency_cursor \<Rightarrow> ('r automatic_world, unit) act" where
  "push_dependency we payload s =
     (case aw_mode s of
        ReplayMode _ \<Rightarrow> (Inl IncompleteCandidate, s)
      | CaptureMode \<Rightarrow>
          (case record_dependency (we_core we) (aw_operation_id s) payload (aw_sdk s)
               (aw_resources s) of
             (result, sd, r) \<Rightarrow> (result, s\<lparr>aw_sdk := sd, aw_resources := r\<rparr>)))"

definition reserve_or_fail :: "nat \<Rightarrow> ('r automatic_world, unit) act" where
  "reserve_or_fail n s =
     (case aw_reserve n s of
        (False, s1) \<Rightarrow> (Inl RuntimeQuota, s1)
      | (True, s1) \<Rightarrow> (Inr (), s1))"

definition transcript_cursor :: "'r world_env \<Rightarrow> digest \<Rightarrow> dependency_cursor" where
  "transcript_cursor we digest =
     (let cursor_bytes = digest_bytes we digest
      in \<lparr>dc_adapter_id = ADAPTER_ID, dc_adapter_version = ADAPTER_VERSION,
          dc_causal_parent_id = None,
          dc_cursor = encode_base64url (we_core we) cursor_bytes,
          dc_cursor_digest = sha256 we cursor_bytes\<rparr>)"

definition commit_dependency_transcript ::
  "'r world_env \<Rightarrow> world_io \<Rightarrow> ('r automatic_world, unit) act" where
  "commit_dependency_transcript we io s =
     (if aw_interactions s = [] then (Inr (), s)
      else let transcript = \<lparr>tr_adapter_id = ADAPTER_ID, tr_adapter_version = ADAPTER_VERSION,
                             tr_interactions = aw_interactions s\<rparr>
           in act_bind (act_res (codec_validate (transcript_codec we) transcript)) (\<lambda>_.
              act_bind (act_res (codec_bytes (transcript_codec we) transcript)) (\<lambda>encoded.
              act_bind (reserve_or_fail (length encoded)) (\<lambda>_.
              act_bind (write_file io TranscriptFile encoded) (\<lambda>_.
              act_bind (act_res (validate_cursor we (transcript_cursor we (sha256 we encoded)))) (\<lambda>_.
              act_bind (push_dependency we (transcript_cursor we (sha256 we encoded))) (\<lambda>_.
              act_bind (act_res (io_object_id io 0)) (\<lambda>object_id.
                act_do (push_artifact
                  \<lparr>oa_artifact =
                     \<lparr>ca_media_type = DEPENDENCY_TRANSCRIPT_MEDIA_TYPE,
                      ca_object_id = object_id, ca_path = TranscriptFile,
                      ca_role = DependencyTranscriptRole,
                      ca_uri = ''reproit-managed://automatic-dependency/transcript/''
                                 @ show_digest we (sha256 we encoded)\<rparr>,
                   oa_reference = None\<rparr>)))))))) s)"

section \<open>The closure receipts\<close>

definition world_closure_policy :: "'r world_env \<Rightarrow> closure_policy" where
  "world_closure_policy we =
     map (\<lambda>class. \<lparr>ru_allowed_mechanisms = [closure_mechanism we class],
                   ru_boundary_id = boundary_id we class, ru_class = class\<rparr>) ALL_CLASSES"

text \<open>\<open>iter().map(f).collect::<Result<_, _>>()\<close>: the first error wins.\<close>

fun collect_res :: "('a \<Rightarrow> 'b res) \<Rightarrow> 'a list \<Rightarrow> 'b list res" where
  "collect_res f [] = Inr []"
| "collect_res f (x # xs) = bind_res (f x) (\<lambda>y. bind_res (collect_res f xs) (\<lambda>ys. Inr (y # ys)))"

definition coverage_digests ::
  "(observation_class, registration) btree \<Rightarrow> (observation_class, digest list) btree res" where
  "coverage_digests registrations =
     collect_res (\<lambda>(class, rg). bind_res (ok_or WorldNotClosed (rg_sentinel_coverage_digest rg))
       (\<lambda>d. Inr (class, [d]))) registrations"

definition push_digest ::
  "observation_payload \<Rightarrow> (observation_class, digest list) btree
     \<Rightarrow> (observation_class, digest list) btree" where
  "push_digest ob digests =
     bt_insert (ob_class ob)
       ((case bt_get digests (ob_class ob) of None \<Rightarrow> [] | Some ds \<Rightarrow> ds) @ [ob_evidence_digest ob])
       digests"

definition class_receipt ::
  "'r world_env \<Rightarrow> (observation_class, digest list) btree \<Rightarrow> observation_class
     \<Rightarrow> closure_receipt res" where
  "class_receipt we digests class =
     bind_res (digest_evidence we (case bt_get digests class of None \<Rightarrow> [] | Some ds \<Rightarrow> ds))
       (\<lambda>evidence_digest.
         Inr \<lparr>cr_boundary_id = boundary_id we class, cr_evidence_digest = evidence_digest,
              cr_mechanism = closure_mechanism we class, cr_class = class\<rparr>)"

definition build_world_closure ::
  "'r world_env \<Rightarrow> closure_policy \<Rightarrow> 'r automatic_world \<Rightarrow> world_closure res" where
  "build_world_closure we policy s =
     bind_res (coverage_digests (aw_registrations s)) (\<lambda>coverage.
     let digests = fold push_digest (aw_observations s) coverage
     in bind_res (collect_res (class_receipt we digests) ALL_CLASSES) (\<lambda>receipts.
        bind_res (digest_policy we policy) (\<lambda>policy_digest.
        let closure = \<lparr>wc_policy_digest = policy_digest, wc_receipts = receipts\<rparr>
        in bind_res (validate_closure we closure) (\<lambda>_. Inr closure))))"

section \<open>The checkpoint\<close>

definition referenced :: "'r automatic_world \<Rightarrow> artifact_reference list" where
  "referenced s = List.map_filter oa_reference (aw_artifacts s)"

fun checked_total :: "nat \<Rightarrow> artifact_reference list \<Rightarrow> nat res" where
  "checked_total acc [] = Inr acc"
| "checked_total acc (a # rest) =
     bind_res (ok_or RuntimeQuota (checked_add acc (ar_size a))) (\<lambda>acc'. checked_total acc' rest)"

definition build_checkpoint ::
  "'r world_env \<Rightarrow> world_io \<Rightarrow> closure_policy \<Rightarrow> 'r automatic_world \<Rightarrow> world_checkpoint res" where
  "build_checkpoint we io policy s =
     bind_res (timestamp we (io_now io 0)) (\<lambda>published_at.
     bind_res (timestamp we (add_seconds we MAX_RECOVERABLE_SECONDS (io_now io 1)))
       (\<lambda>recoverable_until.
     bind_res (checked_total 0 (referenced s)) (\<lambda>total_bytes.
       if total_bytes > MAX_WORLD_BYTES then Inl RuntimeQuota
       else bind_res (digest_policy we policy) (\<lambda>configuration_digest.
         let point =
               \<lparr>rp_artifacts = referenced s, rp_capabilities = [CAPABILITY],
                rp_configuration_digest = configuration_digest,
                rp_engine_identity = ADAPTER_ID, rp_engine_version = ADAPTER_VERSION,
                rp_generation = 1,
                rp_point = encode_base64url (we_core we) (digest_bytes we configuration_digest),
                rp_provider_id = ''automatic-world'',
                rp_published_at = published_at, rp_recoverable_until = recoverable_until,
                rp_materialized_bytes = total_bytes,
                rp_objects = length (filter (\<lambda>a. oa_reference a \<noteq> None) (aw_artifacts s)),
                rp_pinned_bytes = total_bytes, rp_temporary_bytes = total_bytes\<rparr>;
             world = \<lparr>wp_created_at = published_at, wp_points = [point]\<rparr>
         in bind_res (validate_checkpoint we world) (\<lambda>_. Inr world)))))"

section \<open>The fence\<close>

definition build_fence ::
  "'r world_env \<Rightarrow> world_closure \<Rightarrow> 'r automatic_world \<Rightarrow> fence_receipt res" where
  "build_fence we closure s =
     bind_res (ok_or RuntimeQuota (u16_try_from (length (aw_observations s)))) (\<lambda>observation_count.
     bind_res (digest_observations we (aw_observations s)) (\<lambda>observations_digest.
       Inr \<lparr>fence_adapter_ownership = adapter_ownerships we (aw_registrations s),
            fence_deployment_digest = sha256 we (text_bytes we ''pending automatic deployment''),
            fence_dropped_observation_count = aw_dropped s,
            fence_observation_count = observation_count,
            fence_observations_digest = observations_digest,
            fence_operation_id = aw_operation_id s,
            fence_overflowed = aw_overflowed s,
            fence_signature = encode_base64url (we_core we) (replicate 64 0),
            fence_signer_key_id = ''pending-managed-registration'',
            fence_subject_digest = sha256 we (text_bytes we ''pending automatic subject''),
            fence_unowned_observation_count = 0,
            fence_world_closure = closure\<rparr>))"

section \<open>Close\<close>

record world_capture =
  wcap_closure :: "spool_file capture_closure"
  wcap_fence :: fence_receipt
  wcap_reservation :: nat
  wcap_spool :: spool

definition world_is_open :: "'r automatic_world \<Rightarrow> bool" where
  "world_is_open s \<longleftrightarrow>
     aw_overflowed s \<or> aw_incomplete s \<or> aw_sessions s \<noteq> [] \<or> aw_dropped s \<noteq> 0
     \<or> (\<exists>ob \<in> set (aw_observations s). ob_owner_adapter_id ob = None)
     \<or> set (map fst (aw_registrations s)) \<noteq> set ALL_CLASSES
     \<or> \<not> (\<forall>(class, rg) \<in> set (aw_registrations s). rg_sentinel_coverage_digest rg \<noteq> None)"

definition close_steps ::
  "'r world_env \<Rightarrow> world_io \<Rightarrow> trigger_completion \<Rightarrow> ('r automatic_world, world_capture) act" where
  "close_steps we io completion s =
     (if world_is_open s then (Inl WorldNotClosed, s)
      else act_bind (commit_dependency_transcript we io) (\<lambda>_ s.
        act_res
          (let policy = world_closure_policy we
           in bind_res (build_world_closure we policy s) (\<lambda>closure.
              bind_res (build_checkpoint we io policy s) (\<lambda>world.
              bind_res (build_fence we closure s) (\<lambda>fence.
                Inr \<lparr>wcap_closure =
                       \<lparr>cl_artifacts = map oa_artifact (aw_artifacts s),
                        cl_completion = completion, cl_world = world\<rparr>,
                     wcap_fence = fence, wcap_reservation = aw_reserved s,
                     wcap_spool = aw_spool s\<rparr>)))) s) s)"

text \<open>
  \<open>close\<close> consumes the coordinator: the reservation moves into the capture, or is given back with
  the coordinator when a step fails.
\<close>

definition close_world ::
  "'r world_env \<Rightarrow> world_io \<Rightarrow> trigger_completion \<Rightarrow> 'r automatic_world
     \<Rightarrow> world_capture res \<times> sdk \<times> process_resources" where
  "close_world we io completion s =
     (case close_steps we io completion s of
        (Inl e, s') \<Rightarrow> (Inl e, aw_sdk s', world_drop s')
      | (Inr capture, s') \<Rightarrow> (Inr capture, aw_sdk s', aw_resources s'))"

definition capture_drop :: "world_capture \<Rightarrow> process_resources \<Rightarrow> process_resources" where
  "capture_drop capture r = reservation_drop (wcap_reservation capture) r"

end
