(* ===== verification/World_Safety.thy ===== *)
theory World_Safety
  imports World_Closing
begin

text \<open>
  What the coordinator keeps true of its state: which files its sessions own, that a committed
  artifact names bytes nothing writes to again, and that observations are numbered and owned.
\<close>

section \<open>Chains of steps\<close>

named_theorems act_simps \<open>the fallible steps, unfolded\<close>

lemma act_bind_cases:
  "act_bind m f s = (case fst (m s) of Inl e \<Rightarrow> (Inl e, snd (m s)) | Inr x \<Rightarrow> f x (snd (m s)))"
  by (auto simp: act_bind_def split: prod.splits sum.splits)

lemma snd_act_bind [act_simps]:
  "snd (act_bind m f s)
     = (case fst (m s) of Inl e \<Rightarrow> snd (m s) | Inr x \<Rightarrow> snd (f x (snd (m s))))"
  by (simp add: act_bind_cases split: sum.splits)

lemma act_bind_keeps:
  assumes "P (snd (m s))" "\<And>x. fst (m s) = Inr x \<Longrightarrow> P (snd (m s)) \<Longrightarrow> P (snd (f x (snd (m s))))"
  shows "P (snd (act_bind m f s))"
  using assms by (auto simp: act_simps split: sum.splits)

lemma act_bind_InrE:
  assumes "act_bind m f s = (Inr y, t)"
  obtains x u where "m s = (Inr x, u)" "f x u = (Inr y, t)"
  using assms by (auto simp: act_bind_def split: prod.splits sum.splits)

lemma act_res_simps [simp]: "fst (act_res r s) = r" "snd (act_res r s) = s"
  by (simp_all add: act_res_def)

lemma act_do_simps [simp]: "fst (act_do f s) = Inr ()" "snd (act_do f s) = f s"
  by (simp_all add: act_do_def)

lemma act_do_res: "act_bind (act_do f) (\<lambda>_. act_res r) = (\<lambda>s. (r, f s))"
  by (simp add: fun_eq_iff act_bind_def act_do_def act_res_def)

lemma fail_incomplete_simps [simp]:
  "fst (fail_incomplete e s) = Inl e" "snd (fail_incomplete e s) = s\<lparr>aw_incomplete := True\<rparr>"
  by (simp_all add: fail_incomplete_def)

lemma fail_overflowed_simps [simp]:
  "fst (fail_overflowed s) = Inl RuntimeQuota"
  "snd (fail_overflowed s)
     = s\<lparr>aw_overflowed := True, aw_dropped := saturating_add (aw_dropped s) 1\<rparr>"
  by (simp_all add: fail_overflowed_def)

section \<open>The digest of a file\<close>

lemma digest_loop_all:
  "digest_loop io f contents expected hashed read = Inr h \<Longrightarrow> read \<le> length contents
     \<Longrightarrow> h = hashed @ drop read contents \<and> expected = length contents"
proof (induction io f contents expected hashed read rule: digest_loop.induct)
  case (1 io f contents expected hashed read)
  obtain n where n: "io_count io f read = Some n"
    using "1.prems" by (auto simp: digest_loop.simps [of io f] read_at_def split: option.splits)
  define chunk where "chunk = take (min DIGEST_BUFFER_BYTES (max 1 n)) (drop read contents)"
  have chunk: "read_at io f contents read DIGEST_BUFFER_BYTES = Inr chunk"
    by (simp add: read_at_def n chunk_def)
  have grows: "read + length chunk \<le> length contents"
    using "1.prems"(2) by (simp add: chunk_def)
  have split: "drop read contents = chunk @ drop (read + length chunk) contents"
    by (simp add: chunk_def min_def) (metis append_take_drop_id drop_drop add.commute)
  show ?case
  proof (cases "chunk = []")
    case True
    then have "drop read contents = []"
      by (auto simp: chunk_def limits)
    then show ?thesis
      using "1.prems" True chunk by (auto simp: digest_loop.simps [of io f] split: if_splits)
  next
    case False
    then have "digest_loop io f contents expected (hashed @ chunk) (read + length chunk) = Inr h"
      using "1.prems"(1) chunk
      by (auto simp: digest_loop.simps [of io f contents expected hashed] split: if_splits option.splits)
    then show ?thesis
      using "1.IH" [OF chunk False] "1.prems"(1) chunk False grows split
      by (auto simp: digest_loop.simps [of io f contents expected hashed] split: if_splits option.splits)
  qed
qed

lemma open_file_eq_Inr [simp]:
  "open_file io sp f = Inr contents \<longleftrightarrow> io_open io f \<and> sp f = Some contents"
  by (auto simp: open_file_def)

lemma digest_file_bytes:
  assumes "digest_file we io sp path n = Inr d"
  shows "\<exists>contents. sp path = Some contents \<and> d = sha256 we contents \<and> length contents = n"
  using assms by (auto simp: digest_file_def bind_res_eq_Inr dest!: digest_loop_all)

section \<open>The fields an operation leaves alone\<close>

text \<open>The part of the state the artifacts, interactions and observations live in.\<close>

definition evidence_of where
  "evidence_of s =
     (aw_artifacts s, aw_interactions s, aw_observations s, aw_registrations s, aw_operation_id s,
      aw_next_internal s)"

lemma evidence_of_eq:
  "evidence_of s = evidence_of t \<longleftrightarrow>
     aw_artifacts s = aw_artifacts t \<and> aw_interactions s = aw_interactions t
     \<and> aw_observations s = aw_observations t \<and> aw_registrations s = aw_registrations t
     \<and> aw_operation_id s = aw_operation_id t \<and> aw_next_internal s = aw_next_internal t"
  by (auto simp: evidence_of_def)

lemma aw_reserve_frame:
  "\<exists>h r. snd (aw_reserve n s) = s\<lparr>aw_reserved := h, aw_resources := r\<rparr>"
  by (auto simp: aw_reserve_def split: prod.splits)

lemma aw_reserve_fields [simp]:
  "aw_sessions (snd (aw_reserve n s)) = aw_sessions s"
  "aw_spool (snd (aw_reserve n s)) = aw_spool s"
  "evidence_of (snd (aw_reserve n s)) = evidence_of s"
  "aw_mode (snd (aw_reserve n s)) = aw_mode s"
  "aw_positions (snd (aw_reserve n s)) = aw_positions s"
  "aw_next_internal (snd (aw_reserve n s)) = aw_next_internal s"
  "aw_incomplete (snd (aw_reserve n s)) = aw_incomplete s"
  "aw_dropped (snd (aw_reserve n s)) = aw_dropped s"
  "aw_overflowed (snd (aw_reserve n s)) = aw_overflowed s"
  using aw_reserve_frame [of n s] by (auto simp: evidence_of_def)

lemma aw_reserve_evidence [simp]:
  "aw_artifacts (snd (aw_reserve n s)) = aw_artifacts s"
  "aw_interactions (snd (aw_reserve n s)) = aw_interactions s"
  "aw_observations (snd (aw_reserve n s)) = aw_observations s"
  "aw_registrations (snd (aw_reserve n s)) = aw_registrations s"
  "aw_operation_id (snd (aw_reserve n s)) = aw_operation_id s"
  using aw_reserve_frame [of n s] by auto

lemma reserve_case [act_simps]:
  "(case aw_reserve n s of (False, t) \<Rightarrow> f t | (True, t) \<Rightarrow> g t)
     = (if fst (aw_reserve n s) then g (snd (aw_reserve n s)) else f (snd (aw_reserve n s)))"
  by (cases "aw_reserve n s") (auto split: bool.splits)

section \<open>The sessions and their files\<close>

definition session_files :: "nat \<Rightarrow> spool_file set" where
  "session_files sid = {RequestFile sid, ResponseFile sid}"

definition sessions_ok :: "nat set \<Rightarrow> 'r automatic_world \<Rightarrow> bool" where
  "sessions_ok used s \<longleftrightarrow>
     bt_ok (aw_sessions s)
     \<and> (\<forall>sid x. bt_get (aw_sessions s) sid = Some x \<longrightarrow>
          sid \<in> used \<and> os_request_path x = RequestFile sid \<and> os_response_path x = ResponseFile sid)"

text \<open>The files of sessions that are over: committed, abandoned or failed.\<close>

definition frozen :: "nat set \<Rightarrow> 'r automatic_world \<Rightarrow> spool_file set" where
  "frozen used s = (\<Union>sid \<in> {sid \<in> used. bt_get (aw_sessions s) sid = None}. session_files sid)"

text \<open>
  A step that touches no file of a finished session, opens only unused ids, and keeps the
  evidence: \<open>step_frame\<close> is reflexive and transitive, and all that a session does before it is
  committed stays within it.
\<close>

definition step_frame :: "nat set \<Rightarrow> 'r automatic_world \<Rightarrow> nat set \<Rightarrow> 'r automatic_world \<Rightarrow> bool" where
  "step_frame used s used' t \<longleftrightarrow>
     evidence_of t = evidence_of s
     \<and> (sessions_ok used s \<longrightarrow> sessions_ok used' t)
     \<and> frozen used s \<subseteq> frozen used' t
     \<and> (sessions_ok used s \<longrightarrow> (\<forall>f \<in> frozen used s. aw_spool t f = aw_spool s f))"

lemma step_frame_refl: "step_frame used s used s"
  by (simp add: step_frame_def)

lemma step_frame_trans:
  "step_frame used s used' t \<Longrightarrow> step_frame used' t used'' u \<Longrightarrow> step_frame used s used'' u"
  by (auto simp: step_frame_def)

lemma step_frame_same:
  "evidence_of t = evidence_of s \<Longrightarrow> aw_sessions t = aw_sessions s \<Longrightarrow> aw_spool t = aw_spool s
     \<Longrightarrow> step_frame used s used t"
  by (simp add: step_frame_def sessions_ok_def frozen_def)

lemma frozen_cong:
  "(\<And>sid. bt_get (aw_sessions t) sid = None \<longleftrightarrow> bt_get (aw_sessions s) sid = None)
     \<Longrightarrow> frozen used t = frozen used s"
  by (simp add: frozen_def)

lemma frame_set_session:
  assumes "bt_get (aw_sessions s) sid = Some x"
    "os_request_path y = os_request_path x" "os_response_path y = os_response_path x"
  shows "step_frame used s used (set_session sid y s)"
proof -
  have "frozen used (set_session sid y s) = frozen used s"
    using assms(1) by (intro frozen_cong) (simp add: set_session_def)
  then show ?thesis
    using assms by (auto simp: step_frame_def set_session_def evidence_of_def sessions_ok_def)
qed

lemma frame_remove_session:
  "sessions_ok used s \<Longrightarrow> step_frame used s used (s\<lparr>aw_sessions := bt_remove sid (aw_sessions s)\<rparr>)"
  by (auto simp: step_frame_def evidence_of_def sessions_ok_def frozen_def split: if_splits)

lemma frame_spool:
  assumes "\<And>f. f \<in> frozen used s \<Longrightarrow> sessions_ok used s \<Longrightarrow> sp f = aw_spool s f"
  shows "step_frame used s used (s\<lparr>aw_spool := sp\<rparr>)"
  using assms by (auto simp: step_frame_def evidence_of_def sessions_ok_def frozen_def)

lemma frame_marks:
  "step_frame used s used (s\<lparr>aw_incomplete := b\<rparr>)"
  "step_frame used s used (s\<lparr>aw_overflowed := b, aw_dropped := n\<rparr>)"
  "step_frame used s used (s\<lparr>aw_incomplete := b, aw_overflowed := b', aw_dropped := n\<rparr>)"
  "step_frame used s used (s\<lparr>aw_mode := m\<rparr>)"
  "step_frame used s used (s\<lparr>aw_positions := ps\<rparr>)"
  "step_frame used s used (snd (aw_reserve k s))"
  by (rule step_frame_same; simp add: evidence_of_def)+

lemma session_file_not_frozen:
  "sessions_ok used s \<Longrightarrow> bt_get (aw_sessions s) sid = Some x
     \<Longrightarrow> os_request_path x \<notin> frozen used s \<and> os_response_path x \<notin> frozen used s"
  by (auto simp: sessions_ok_def frozen_def session_files_def)

section \<open>Operations within the frame\<close>

lemma act_bind_frame:
  assumes "step_frame used s used' (snd (m s))"
    "\<And>x. fst (m s) = Inr x \<Longrightarrow> step_frame used' (snd (m s)) used' (snd (f x (snd (m s))))"
  shows "step_frame used s used' (snd (act_bind m f s))"
  using assms step_frame_trans by (rule_tac act_bind_keeps) blast+

lemma frame_write_file:
  "f \<notin> frozen used s \<Longrightarrow> step_frame used s used (snd (write_file io f data s))"
  by (auto simp: write_file_def split: prod.splits intro!: frame_spool)

lemma frame_append:
  "f \<notin> frozen used s \<Longrightarrow> step_frame used s used (snd (append_chunk io f chunk s))"
  by (auto simp: append_chunk_def step_frame_refl split: prod.splits option.splits
      intro!: frame_spool)

lemma frame_overflow: "step_frame used s used (overflow_session sid s)"
proof (cases "bt_get (aw_sessions s) sid")
  case None
  then show ?thesis by (simp add: overflow_session_def frame_marks)
next
  case (Some x)
  let ?t = "set_session sid (x\<lparr>os_state := SessionOverflowed\<rparr>) s"
  have "overflow_session sid s = ?t\<lparr>aw_incomplete := True, aw_overflowed := True,
      aw_dropped := saturating_add (aw_dropped ?t) 1\<rparr>"
    by (simp add: overflow_session_def set_session_def Some)
  then show ?thesis
    using step_frame_trans [OF frame_set_session [OF Some, of "x\<lparr>os_state := SessionOverflowed\<rparr>"]
        frame_marks(3)] by simp
qed

lemma frame_fail_incomplete: "step_frame used s used (snd (fail_incomplete e s))"
  by (simp add: frame_marks)

lemmas frame_then = step_frame_trans

lemma frame_marked:
  "step_frame used s used' t \<Longrightarrow> step_frame used s used' (t\<lparr>aw_incomplete := b\<rparr>)"
  by (rule frame_then [OF _ frame_marks(1)])

lemma frame_fresh_file:
  assumes "sid \<notin> used" "f \<in> session_files sid"
  shows "step_frame used s used (snd (create_file io f s))"
proof -
  have "f \<notin> frozen used s" using assms by (auto simp: frozen_def session_files_def)
  then show ?thesis
    by (auto simp: create_file_def step_frame_refl intro!: frame_spool)
qed

lemma frame_next_position: "step_frame used s used (snd (next_position class s))"
proof -
  have "\<exists>ps. snd (next_position class s) = s\<lparr>aw_positions := ps\<rparr>"
    by (auto simp: next_position_def Let_def split: option.splits)
  then show ?thesis using frame_marks(5) by auto
qed

lemma frame_use: "step_frame used s (insert sid used) s"
  by (auto simp: step_frame_def sessions_ok_def frozen_def)

lemma frame_new_session:
  assumes "sid \<notin> used"
  shows "step_frame used s (insert sid used)
     (s\<lparr>aw_sessions := bt_insert sid (new_session sid class parent semantic pos) (aw_sessions s)\<rparr>)"
  using assms
  by (fastforce simp: step_frame_def evidence_of_def sessions_ok_def frozen_def new_session_def
      split: if_splits)

lemma act_bind_frame_use:
  assumes "step_frame used s used (snd (m s))"
    "\<And>x. fst (m s) = Inr x
       \<Longrightarrow> step_frame used (snd (m s)) (insert sid used) (snd (f x (snd (m s))))"
  shows "step_frame used s (insert sid used) (snd (act_bind m f s))"
proof (rule act_bind_keeps)
  show "step_frame used s (insert sid used) (snd (m s))"
    by (rule frame_then [OF assms(1) frame_use])
next
  fix x
  assume "fst (m s) = Inr x"
  then show "step_frame used s (insert sid used) (snd (f x (snd (m s))))"
    by (rule frame_then [OF assms(1) assms(2)])
qed

lemma frame_open:
  assumes "sid \<notin> used"
  shows "step_frame used s (insert sid used)
    (snd (open_observation_inner io sid class parent semantic s))"
proof -
  have chain: "step_frame used s (insert sid used)
     (snd (act_bind (create_file io (RequestFile sid)) (\<lambda>_.
           act_bind (create_file io (ResponseFile sid)) (\<lambda>_.
           act_bind (next_position class) (\<lambda>pos.
           act_bind (act_do (\<lambda>s. s\<lparr>aw_sessions :=
               bt_insert sid (new_session sid class parent semantic pos) (aw_sessions s)\<rparr>)) (\<lambda>_.
             act_res (Inr pos))))) s))"
    unfolding act_do_res
    by (intro act_bind_frame_use frame_fresh_file [OF assms] frame_next_position)
      (simp_all add: session_files_def frame_new_session [OF assms])
  have marked: "step_frame used s (insert sid used) (snd (fail_incomplete e s))" for e
    by (rule frame_then [OF frame_fail_incomplete frame_use])
  show ?thesis
    using chain marked by (auto simp: open_observation_inner_def simp del: fail_incomplete_simps)
qed

lemma frame_session_file:
  assumes "sessions_ok used s" "bt_get (aw_sessions s) sid = Some x"
    "f = os_request_path x \<or> f = os_response_path x"
  shows "step_frame used s used (snd (append_chunk io f chunk s))"
    "step_frame used s used (snd (write_file io f chunk s))"
  using session_file_not_frozen [OF assms(1,2)] assms(3)
  by (auto intro!: frame_append frame_write_file)

text \<open>The store of a chunk: the session's counter grows, then its file.\<close>

definition stored :: "observation_stream \<Rightarrow> nat \<Rightarrow> observation_session \<Rightarrow> observation_session" where
  "stored stream n x =
     (case stream of RequestStream \<Rightarrow> x\<lparr>os_request_bytes := n\<rparr>
        | ResponseStream \<Rightarrow> x\<lparr>os_response_bytes := n\<rparr>)"

definition stream_path :: "observation_stream \<Rightarrow> observation_session \<Rightarrow> spool_file" where
  "stream_path stream x =
     (case stream of RequestStream \<Rightarrow> os_request_path x | ResponseStream \<Rightarrow> os_response_path x)"

definition store_chunk ::
  "world_io \<Rightarrow> nat \<Rightarrow> observation_stream \<Rightarrow> nat \<Rightarrow> bytes \<Rightarrow> observation_session
     \<Rightarrow> ('r automatic_world, unit) act" where
  "store_chunk io sid stream n chunk x s =
     (case append_chunk io (stream_path stream x) chunk
         (set_session sid (stored stream n x) s) of
        (Inr _, t) \<Rightarrow> (Inr (), t)
      | (Inl e, t) \<Rightarrow> fail_incomplete e t)"

lemma stored_fields [simp]:
  "os_request_path (stored stream n x) = os_request_path x"
  "os_response_path (stored stream n x) = os_response_path x"
  "os_state (stored stream n x) = os_state x"
  "os_class (stored stream n x) = os_class x"
  "os_position (stored stream n x) = os_position x"
  "os_contract (stored stream n x) = os_contract x"
  "os_causal_parent_id (stored stream n x) = os_causal_parent_id x"
  by (simp_all add: stored_def split: observation_stream.splits)

lemma write_observation_session:
  assumes "bt_get (aw_sessions s) sid = Some x"
  shows "write_observation io sid stream chunk s =
    (if chunk = [] \<or> length chunk > MAX_OBSERVATION_CHUNK_BYTES
     then (Inl RuntimeQuota, overflow_session sid s)
     else if \<not> valid_stream (os_state x) stream
     then (Inl IncompleteCandidate, overflow_session sid s)
     else if U64_MAX < stream_bytes stream x + length chunk then (Inl RuntimeQuota, s)
     else if stream_bytes stream x + length chunk > MAX_WORLD_ARTIFACT_BYTES
     then (Inl RuntimeQuota, overflow_session sid s)
     else let t = snd (aw_reserve (length chunk) s)
          in if fst (aw_reserve (length chunk) s)
             then store_chunk io sid stream (stream_bytes stream x + length chunk) chunk x t
             else (Inl RuntimeQuota, overflow_session sid t))"
proof -
  obtain b t where r: "aw_reserve (length chunk) s = (b, t)" by (cases "aw_reserve (length chunk) s")
  have "aw_sessions t = aw_sessions s"
    using aw_reserve_fields(1) [of "length chunk" s] by (simp add: r)
  then show ?thesis
    using assms
    by (cases stream) (auto simp: write_observation_def store_chunk_def stored_def
        stream_path_def set_session_def Let_def r split: option.splits)
qed

lemma frame_store_chunk:
  assumes ok: "sessions_ok used s" and x: "bt_get (aw_sessions s) sid = Some x"
  shows "step_frame used s used (snd (store_chunk io sid stream n chunk x s))"
proof -
  let ?t = "set_session sid (stored stream n x) s"
  have t: "step_frame used s used ?t"
    by (rule frame_set_session [OF x]) simp_all
  have got: "bt_get (aw_sessions ?t) sid = Some (stored stream n x)"
    by (simp add: set_session_def)
  have path: "stream_path stream x = os_request_path (stored stream n x)
      \<or> stream_path stream x = os_response_path (stored stream n x)"
    by (cases stream) (simp_all add: stream_path_def)
  have "sessions_ok used ?t" using t ok by (simp add: step_frame_def)
  then have u: "step_frame used ?t used (snd (append_chunk io (stream_path stream x) chunk ?t))"
    by (rule frame_session_file(1) [OF _ got path])
  then have "step_frame used s used (snd (append_chunk io (stream_path stream x) chunk ?t))"
    by (rule frame_then [OF t])
  then show ?thesis
    by (auto simp: store_chunk_def split: prod.splits sum.splits
        intro: frame_marked)
qed

lemma frame_write:
  assumes "sessions_ok used s"
  shows "step_frame used s used (snd (write_observation io sid stream chunk s))"
proof (cases "bt_get (aw_sessions s) sid")
  case None
  then show ?thesis
    by (simp add: write_observation_def frame_overflow step_frame_refl)
next
  case (Some x)
  let ?t = "snd (aw_reserve (length chunk) s)"
  have t: "step_frame used s used ?t" by (rule frame_marks)
  have ok: "sessions_ok used ?t" using t assms by (simp add: step_frame_def)
  have "step_frame used s used (snd (store_chunk io sid stream n chunk x ?t))" for n
    by (rule frame_then [OF t frame_store_chunk [OF ok]]) (simp add: Some)
  moreover have "step_frame used s used (overflow_session sid ?t)"
    by (rule frame_then [OF t frame_overflow])
  ultimately show ?thesis
    by (simp add: write_observation_session [OF Some] Let_def frame_overflow step_frame_refl)
qed

lemma set_session_get [simp]: "bt_get (aw_sessions (set_session sid x s)) sid = Some x"
  by (simp add: set_session_def)

lemma frame_dispatch_replay:
  assumes ok: "sessions_ok used s" and x: "bt_get (aw_sessions s) sid = Some x"
  shows "step_frame used s used (snd (dispatch_replay we io sid x replay s))"
proof -
  let ?m = "\<lambda>replay'. s\<lparr>aw_mode := ReplayMode replay'\<rparr>"
  have mode: "step_frame used s used (?m replay')" for replay' by (rule frame_marks)
  define y where "y = (\<lambda>response :: bytes. x\<lparr>os_response_bytes := length response\<rparr>)"
  let ?t = "\<lambda>replay' response. set_session sid (y response) (?m replay')"
  let ?u = "\<lambda>replay' response. snd (aw_reserve (length response) (?t replay' response))"
  have t: "step_frame used s used (?t replay' response)" for replay' response
    by (rule frame_then [OF mode frame_set_session [where x = x]]) (simp_all add: x y_def)
  have u: "step_frame used s used (?u replay' response)" for replay' response
    by (rule frame_then [OF t frame_marks(6)])
  have written: "step_frame used s used (snd (act_bind (write_file io (os_response_path x) response)
      (\<lambda>_ s. (Inr ActionReplay, set_session sid (y response\<lparr>os_state := SessionReplay 0\<rparr>) s))
      (?u replay' response)))" for replay' response
  proof (rule frame_then [OF u act_bind_frame])
    have ok': "sessions_ok used (?u replay' response)" using u ok by (auto simp: step_frame_def)
    show "step_frame used (?u replay' response) used
        (snd (write_file io (os_response_path x) response (?u replay' response)))"
      by (rule frame_session_file(2) [OF ok', where x = "y response" and sid = sid])
        (simp_all add: y_def)
  next
    fix z
    show "step_frame used (snd (write_file io (os_response_path x) response (?u replay' response)))
        used (snd (Inr ActionReplay, set_session sid (y response\<lparr>os_state := SessionReplay 0\<rparr>)
          (snd (write_file io (os_response_path x) response (?u replay' response)))))"
      by (auto simp: y_def write_file_def split: prod.splits intro!: frame_set_session)
  qed
  show ?thesis
    using mode u written
    by (simp add: dispatch_replay_def act_do_res y_def Let_def step_frame_refl reserve_case
        frame_marked split: sum.splits prod.splits)
qed

lemma frame_dispatch:
  assumes "sessions_ok used s"
  shows "step_frame used s used (snd (dispatch_observation we io sid s))"
proof (cases "bt_get (aw_sessions s) sid")
  case None
  then show ?thesis by (simp add: dispatch_observation_def step_frame_refl)
next
  case (Some x)
  have "step_frame used s used (set_session sid (x\<lparr>os_state := st\<rparr>) s)" for st
    by (rule frame_set_session [OF Some]) simp_all
  then show ?thesis
    using frame_dispatch_replay [OF assms Some]
    by (auto simp: dispatch_observation_def Some step_frame_refl
        split: sum.splits world_mode.splits intro: frame_marked)
qed

lemma frame_read: "step_frame used s used (snd (read_observation_response io sid s))"
  by (auto simp: read_observation_response_def step_frame_refl Let_def
      split: option.splits session_state.splits sum.splits intro!: frame_set_session)

lemma frame_abandon:
  assumes "sessions_ok used s"
  shows "step_frame used s used (snd (abandon_observation sid s))"
  using frame_then [OF frame_remove_session [OF assms] frame_marks(1) [of _ _ True]]
  by (simp add: abandon_observation_def step_frame_refl)

section \<open>The evidence\<close>

text \<open>
  A committed artifact names a file of a finished session, or the file of an unowned
  observation, or the transcript; one of a session carries the digest and the size of the bytes
  its file holds.
\<close>

definition reference_ok :: "'r world_env \<Rightarrow> spool \<Rightarrow> observation_artifact \<Rightarrow> bool" where
  "reference_ok we sp a \<longleftrightarrow>
     (\<forall>ref. oa_reference a = Some ref \<longrightarrow>
        ar_uri ref = ca_uri (oa_artifact a)
        \<and> (\<exists>contents. sp (ca_path (oa_artifact a)) = Some contents
              \<and> ar_digest ref = sha256 we contents \<and> ar_size ref = length contents))"

definition artifact_ok ::
  "'r world_env \<Rightarrow> nat set \<Rightarrow> 'r automatic_world \<Rightarrow> observation_artifact \<Rightarrow> bool" where
  "artifact_ok we used s a \<longleftrightarrow>
     (\<exists>n. ca_path (oa_artifact a) = UnownedFile n)
     \<or> ca_path (oa_artifact a) = TranscriptFile \<and> oa_reference a = None
     \<or> ca_path (oa_artifact a) \<in> frozen used s \<and> reference_ok we (aw_spool s) a"

definition interaction_ok ::
  "'r world_env \<Rightarrow> nat set \<Rightarrow> 'r automatic_world \<Rightarrow> interaction \<Rightarrow> bool" where
  "interaction_ok we used s i \<longleftrightarrow>
     (\<exists>sid rq rs. session_files sid \<subseteq> frozen used s
        \<and> aw_spool s (RequestFile sid) = Some rq \<and> in_request_digest i = sha256 we rq
        \<and> aw_spool s (ResponseFile sid) = Some rs \<and> in_response_digest i = sha256 we rs)"

definition observation_ok :: "'r automatic_world \<Rightarrow> observation_payload \<Rightarrow> bool" where
  "observation_ok s ob \<longleftrightarrow>
     ob_operation_id ob = aw_operation_id s
     \<and> (\<forall>owner. ob_owner_adapter_id ob = Some owner \<longrightarrow>
          (\<exists>rg. bt_get (aw_registrations s) (ob_class ob) = Some rg \<and> rg_adapter_id rg = owner))"

definition evidence_ok :: "'r world_env \<Rightarrow> nat set \<Rightarrow> 'r automatic_world \<Rightarrow> bool" where
  "evidence_ok we used s \<longleftrightarrow>
     (\<forall>a \<in> set (aw_artifacts s). artifact_ok we used s a)
     \<and> (\<forall>i \<in> set (aw_interactions s). interaction_ok we used s i)
     \<and> (\<forall>ob \<in> set (aw_observations s). observation_ok s ob)
     \<and> map ob_sequence (aw_observations s) = [0..<length (aw_observations s)]
     \<and> map in_sequence (aw_interactions s) = [0..<length (aw_interactions s)]"

definition world_inv :: "'r world_env \<Rightarrow> nat \<Rightarrow> nat set \<Rightarrow> 'r automatic_world \<Rightarrow> bool" where
  "world_inv we k used s \<longleftrightarrow>
     sessions_ok used s \<and> evidence_ok we used s \<and> aw_next_internal s = k"

lemma artifact_ok_mono:
  assumes "artifact_ok we used s a" "frozen used s \<subseteq> frozen used' t"
    "\<And>f. f \<in> frozen used s \<Longrightarrow> aw_spool t f = aw_spool s f"
  shows "artifact_ok we used' t a"
  using assms by (auto simp: artifact_ok_def reference_ok_def)

lemma interaction_ok_mono:
  assumes "interaction_ok we used s i" "frozen used s \<subseteq> frozen used' t"
    "\<And>f. f \<in> frozen used s \<Longrightarrow> aw_spool t f = aw_spool s f"
  shows "interaction_ok we used' t i"
proof -
  obtain sid rq rs where files: "session_files sid \<subseteq> frozen used s"
      "aw_spool s (RequestFile sid) = Some rq" "in_request_digest i = sha256 we rq"
      "aw_spool s (ResponseFile sid) = Some rs" "in_response_digest i = sha256 we rs"
    using assms(1) by (auto simp: interaction_ok_def)
  have "RequestFile sid \<in> frozen used s" "ResponseFile sid \<in> frozen used s"
    using files(1) by (auto simp: session_files_def)
  then have "aw_spool t (RequestFile sid) = Some rq" "aw_spool t (ResponseFile sid) = Some rs"
    using files assms(3) by simp_all
  moreover have "session_files sid \<subseteq> frozen used' t" using files(1) assms(2) by blast
  ultimately show ?thesis
    using files(3,5) unfolding interaction_ok_def by blast
qed

lemma world_inv_frame:
  assumes inv: "world_inv we k used s" and frame: "step_frame used s used' t"
  shows "world_inv we k used' t"
proof -
  have fz: "frozen used s \<subseteq> frozen used' t" and same: "evidence_of t = evidence_of s"
    and sp: "\<And>f. f \<in> frozen used s \<Longrightarrow> aw_spool t f = aw_spool s f"
    using inv frame by (auto simp: world_inv_def step_frame_def)
  have arts: "artifact_ok we used s a \<Longrightarrow> artifact_ok we used' t a" for a
    by (rule artifact_ok_mono [OF _ fz sp])
  have ints: "interaction_ok we used s i \<Longrightarrow> interaction_ok we used' t i" for i
    by (rule interaction_ok_mono [OF _ fz sp])
  have obs: "observation_ok t = observation_ok s"
    using same by (simp add: fun_eq_iff observation_ok_def evidence_of_eq)
  have "evidence_ok we used' t"
    using inv same arts ints unfolding world_inv_def evidence_ok_def obs evidence_of_eq by simp
  then show ?thesis
    using inv frame same by (simp add: world_inv_def step_frame_def evidence_of_eq)
qed

section \<open>Operations that add evidence\<close>

text \<open>\<open>evidence_step\<close>: the sessions, the spool and the registrations stay, and the invariant is
  kept.\<close>

definition evidence_step ::
  "'r world_env \<Rightarrow> nat set \<Rightarrow> 'r automatic_world \<Rightarrow> 'r automatic_world \<Rightarrow> bool" where
  "evidence_step we used s t \<longleftrightarrow>
     aw_sessions t = aw_sessions s \<and> aw_spool t = aw_spool s
     \<and> aw_registrations t = aw_registrations s \<and> aw_operation_id t = aw_operation_id s
     \<and> (\<forall>k. world_inv we k used s \<longrightarrow> world_inv we k used t)"

lemma evidence_step_refl: "evidence_step we used s s"
  by (simp add: evidence_step_def)

lemma evidence_step_trans:
  "evidence_step we used s t \<Longrightarrow> evidence_step we used t u \<Longrightarrow> evidence_step we used s u"
  by (simp add: evidence_step_def)

lemma evidence_bind:
  assumes "evidence_step we used s (snd (m s))"
    "\<And>x. fst (m s) = Inr x \<Longrightarrow> evidence_step we used (snd (m s)) (snd (f x (snd (m s))))"
  shows "evidence_step we used s (snd (act_bind m f s))"
  by (rule act_bind_keeps) (use assms in \<open>auto intro: evidence_step_trans\<close>)

lemma frozen_same: "aw_sessions t = aw_sessions s \<Longrightarrow> frozen used t = frozen used s"
  by (simp add: frozen_def)

lemma evidence_push_artifact:
  assumes "artifact_ok we used s a"
  shows "evidence_step we used s (push_artifact a s)"
  using assms
  by (auto simp: evidence_step_def push_artifact_def world_inv_def sessions_ok_def evidence_ok_def
      artifact_ok_def interaction_ok_def observation_ok_def reference_ok_def frozen_def)

lemma evidence_push_interaction:
  assumes "interaction_ok we used s i" "in_sequence i = length (aw_interactions s)"
  shows "evidence_step we used s (s\<lparr>aw_interactions := aw_interactions s @ [i]\<rparr>)"
  using assms
  by (auto simp: evidence_step_def world_inv_def sessions_ok_def evidence_ok_def
      artifact_ok_def interaction_ok_def observation_ok_def reference_ok_def frozen_def)

lemma evidence_push_observation:
  assumes "observation_ok s ob" "ob_sequence ob = length (aw_observations s)"
  shows "evidence_step we used s (snd (push_observation we ob s))"
  using assms
  by (auto simp: push_observation_def evidence_step_def world_inv_def sessions_ok_def
      evidence_ok_def artifact_ok_def interaction_ok_def observation_ok_def reference_ok_def
      frozen_def split: world_mode.splits prod.splits sum.splits)

lemma bind_act_res [act_simps]:
  "act_bind (act_res r) f s = (case r of Inl e \<Rightarrow> (Inl e, s) | Inr x \<Rightarrow> f x s)"
  by (simp add: act_bind_def act_res_def split: sum.splits)

lemma bind_act_do [act_simps]: "act_bind (act_do g) f s = f () (g s)"
  by (simp add: act_bind_def act_do_def)

lemma push_artifact_fields [simp]:
  "aw_sessions (push_artifact a s) = aw_sessions s"
  "aw_spool (push_artifact a s) = aw_spool s"
  "aw_interactions (push_artifact a s) = aw_interactions s"
  "aw_observations (push_artifact a s) = aw_observations s"
  "aw_registrations (push_artifact a s) = aw_registrations s"
  "aw_operation_id (push_artifact a s) = aw_operation_id s"
  "aw_artifacts (push_artifact a s) = aw_artifacts s @ [a]"
  "aw_mode (push_artifact a s) = aw_mode s"
  by (simp_all add: push_artifact_def)

lemma frozen_push_artifact [simp]: "frozen used (push_artifact a s) = frozen used s"
  by (rule frozen_same) simp

text \<open>What \<open>commit_session\<close> knows about the session it commits once both digests are computed.\<close>

definition digested ::
  "'r world_env \<Rightarrow> nat set \<Rightarrow> 'r automatic_world \<Rightarrow> observation_session \<Rightarrow> digest \<Rightarrow> digest \<Rightarrow> bool" where
  "digested we used s x request_digest response_digest \<longleftrightarrow>
     (\<exists>sid rq rs. session_files sid \<subseteq> frozen used s
        \<and> os_request_path x = RequestFile sid \<and> os_response_path x = ResponseFile sid
        \<and> aw_spool s (RequestFile sid) = Some rq \<and> request_digest = sha256 we rq
        \<and> aw_spool s (ResponseFile sid) = Some rs \<and> response_digest = sha256 we rs
        \<and> os_response_bytes x = length rs)"

lemma evidence_commit_interaction:
  assumes "digested we used s x rd sd"
  shows "evidence_step we used s (snd (commit_dependency_interaction we io x outcome pos rd sd s))"
proof -
  obtain sid rq rs where files: "session_files sid \<subseteq> frozen used s"
      "os_request_path x = RequestFile sid" "os_response_path x = ResponseFile sid"
      "aw_spool s (RequestFile sid) = Some rq" "rd = sha256 we rq"
      "aw_spool s (ResponseFile sid) = Some rs" "sd = sha256 we rs"
    using assms by (auto simp: digested_def)
  let ?a = "\<lambda>n u. raw_dependency_artifact n (os_request_path x) u"
  let ?b = "\<lambda>n u. raw_dependency_artifact n (os_response_path x) u"
  have raw: "artifact_ok we used t (?a n u)" "artifact_ok we used t (?b n u)"
    if "frozen used t = frozen used s" for t n u
    using files(1-3) that
    by (auto simp: artifact_ok_def raw_dependency_artifact_def reference_ok_def session_files_def)
  have two: "evidence_step we used s (push_artifact (?b n v) (push_artifact (?a m u) s))" for m n u v
    by (rule evidence_step_trans [OF evidence_push_artifact evidence_push_artifact])
      (simp_all add: raw)
  have int: "interaction_ok we used t i"
    if "frozen used t = frozen used s" "aw_spool t = aw_spool s" "in_request_digest i = rd"
      "in_response_digest i = sd" for t i
    using files that unfolding interaction_ok_def by auto
  have three: "evidence_step we used s ((push_artifact (?b n v) (push_artifact (?a m u) s))
      \<lparr>aw_interactions := aw_interactions s @ [i]\<rparr>)"
    if "in_request_digest i = rd" "in_response_digest i = sd"
      "in_sequence i = length (aw_interactions s)" for i m n u v
    using evidence_step_trans [OF two [where m = m and n = n and u = u and v = v] evidence_push_interaction [where i = i]] that
    by (simp add: int)
  show ?thesis
    unfolding commit_dependency_interaction_def
    by (auto simp: act_simps Let_def evidence_step_refl two three split: sum.splits)
qed

lemma evidence_commit_state:
  assumes "digested we used s x rd sd"
  shows "evidence_step we used s (snd (commit_state_artifact we io class outcome pos rd sd
     (os_response_bytes x) (os_response_path x) s))"
  using assms
  by (auto simp: commit_state_artifact_def digested_def act_simps Let_def evidence_step_refl
      artifact_ok_def reference_ok_def session_files_def split: sum.splits
      intro!: evidence_push_artifact)

lemma evidence_commit_observation:
  "evidence_step we used s (snd (commit_observation we x d s))"
  by (auto simp: commit_observation_def act_simps evidence_step_refl observation_ok_def
      split: sum.splits intro!: evidence_push_observation)

lemma evidence_commit_session:
  assumes "sid \<in> used" "bt_get (aw_sessions s) sid = None"
    "os_request_path x = RequestFile sid" "os_response_path x = ResponseFile sid"
  shows "evidence_step we used s (snd (commit_session we io x outcome pos s))"
proof -
  have frozen: "session_files sid \<subseteq> frozen used s"
    using assms(1,2) by (auto simp: frozen_def)
  have digests: "digested we used s x rd sd"
    if "digest_file we io (aw_spool s) (os_request_path x) (os_request_bytes x) = Inr rd"
      "digest_file we io (aw_spool s) (os_response_path x) (os_response_bytes x) = Inr sd" for rd sd
    using digest_file_bytes [OF that(1)] digest_file_bytes [OF that(2)] assms(3,4) frozen
    by (auto simp: digested_def)
  show ?thesis
    unfolding commit_session_def
    by (auto simp: bind_act_res evidence_step_refl split: sum.splits
        intro!: evidence_bind evidence_commit_observation evidence_commit_interaction
          evidence_commit_state digests)
qed

section \<open>Every operation keeps the invariant\<close>

lemma inv_sessions: "world_inv we k used s \<Longrightarrow> sessions_ok used s"
  by (simp add: world_inv_def)

lemma inv_marked: "world_inv we k used s \<Longrightarrow> world_inv we k used (s\<lparr>aw_incomplete := b\<rparr>)"
  by (rule world_inv_frame [OF _ frame_marks(1)])

lemma inv_overflowed:
  "world_inv we k used s \<Longrightarrow> world_inv we k used (s\<lparr>aw_overflowed := b, aw_dropped := n\<rparr>)"
  by (rule world_inv_frame [OF _ frame_marks(2)])

lemma inv_open:
  "world_inv we k used s \<Longrightarrow> sid \<notin> used
     \<Longrightarrow> world_inv we k (insert sid used) (snd (open_observation_inner io sid class parent semantic s))"
  by (rule world_inv_frame [OF _ frame_open])

lemma inv_write: "world_inv we k used s
     \<Longrightarrow> world_inv we k used (snd (write_observation io sid stream chunk s))"
  by (rule world_inv_frame [OF _ frame_write [OF inv_sessions]])

lemma inv_dispatch: "world_inv we k used s
     \<Longrightarrow> world_inv we k used (snd (dispatch_observation we io sid s))"
  by (rule world_inv_frame [OF _ frame_dispatch [OF inv_sessions]])

lemma inv_read: "world_inv we k used s
     \<Longrightarrow> world_inv we k used (snd (read_observation_response io sid s))"
  by (rule world_inv_frame [OF _ frame_read])

lemma inv_abandon: "world_inv we k used s \<Longrightarrow> world_inv we k used (snd (abandon_observation sid s))"
  by (rule world_inv_frame [OF _ frame_abandon [OF inv_sessions]])

lemma inv_evidence: "evidence_step we used s t \<Longrightarrow> world_inv we k used s \<Longrightarrow> world_inv we k used t"
  by (simp add: evidence_step_def)

lemma inv_finish:
  assumes inv: "world_inv we k used s"
  shows "world_inv we k used (snd (finish_observation we io sid outcome pos s))"
proof (cases "bt_get (aw_sessions s) sid")
  case None
  then show ?thesis using inv by (simp add: finish_observation_def)
next
  case (Some x)
  let ?t = "s\<lparr>aw_sessions := bt_remove sid (aw_sessions s)\<rparr>"
  have t: "world_inv we k used ?t"
    by (rule world_inv_frame [OF inv frame_remove_session [OF inv_sessions [OF inv]]])
  have x: "sid \<in> used" "os_request_path x = RequestFile sid" "os_response_path x = ResponseFile sid"
    "bt_get (aw_sessions ?t) sid = None"
    using inv_sessions [OF inv] Some by (auto simp: sessions_ok_def)
  have "world_inv we k used (snd (commit_session we io x outcome pos ?t))"
    by (rule inv_evidence [OF evidence_commit_session [OF x(1) x(4) x(2,3)] t])
  then show ?thesis
    using t by (auto simp: finish_observation_def Some Let_def inv_marked
        split: sum.splits world_mode.splits prod.splits)
qed

lemma inv_unowned:
  assumes inv: "world_inv we k used s"
  shows "world_inv we k used (snd (mark_unowned we io class parent evidence s))"
proof -
  let ?t = "snd (aw_reserve (length evidence) s)"
  have t: "world_inv we k used ?t" by (rule world_inv_frame [OF inv frame_marks(6)])
  have unfrozen: "UnownedFile n \<notin> frozen used u" for n u
    by (auto simp: frozen_def session_files_def)
  have written: "world_inv we k used (snd (write_file io (UnownedFile n) evidence ?t))" for n
    by (rule world_inv_frame [OF t frame_write_file [OF unfrozen]])
  have same: "aw_observations (snd (write_file io f d u)) = aw_observations u"
    "aw_operation_id (snd (write_file io f d u)) = aw_operation_id u" for f d u
    by (simp_all add: write_file_def split: prod.splits)
  show ?thesis
    unfolding mark_unowned_def reserve_case act_simps
    using inv t written
    by (auto simp: inv_marked inv_overflowed snd_act_bind bind_act_res bind_act_do Let_def artifact_ok_def
        observation_ok_def same split: world_mode.splits sum.splits
        intro!: inv_evidence [OF evidence_push_observation] inv_evidence [OF evidence_push_artifact])
qed

lemma bind_registrations_same:
  "map fst (snd (bind_registrations we evidence m)) = map fst m"
  "map_option rg_adapter_id (bt_get (snd (bind_registrations we evidence m)) class)
     = map_option rg_adapter_id (bt_get m class)"
  by (induction m) (auto split: sum.splits prod.splits)

lemma inv_bind:
  assumes inv: "world_inv we k used s"
  shows "world_inv we k used (snd (bind_native_sentinel_coverage we evidence s))"
proof -
  let ?m = "snd (bind_registrations we evidence (aw_registrations s))"
  let ?t = "s\<lparr>aw_registrations := ?m\<rparr>"
  have ids: "map_option rg_adapter_id (bt_get ?m c)
      = map_option rg_adapter_id (bt_get (aw_registrations s) c)" for c
    by (rule bind_registrations_same)
  have "(\<exists>rg. bt_get ?m c = Some rg \<and> rg_adapter_id rg = owner)
      \<longleftrightarrow> (\<exists>rg. bt_get (aw_registrations s) c = Some rg \<and> rg_adapter_id rg = owner)" for c owner
    using ids [of c] by (cases "bt_get ?m c"; cases "bt_get (aw_registrations s) c") auto
  then have "observation_ok ?t = observation_ok s"
    by (simp add: fun_eq_iff observation_ok_def)
  moreover have "artifact_ok we used ?t = artifact_ok we used s"
    "interaction_ok we used ?t = interaction_ok we used s"
    by (simp_all add: fun_eq_iff artifact_ok_def interaction_ok_def frozen_def)
  ultimately have "world_inv we k used ?t"
    using inv by (simp add: world_inv_def sessions_ok_def evidence_ok_def)
  then show ?thesis
    using inv by (auto simp: bind_native_sentinel_coverage_def inv_marked split: prod.splits)
qed

lemma act_bind_inv:
  assumes "I (snd (m s))" "\<And>x t. I t \<Longrightarrow> I (snd (f x t))"
  shows "I (snd (act_bind m f s))"
  by (rule act_bind_keeps) (use assms in auto)

lemma inv_internal:
  assumes inv: "world_inv we k used s" and fresh: "k \<notin> used"
  shows "world_inv we (k - 1) (insert k used)
    (snd (capture_internal we io class request response s))"
proof -
  have sid: "aw_next_internal s = k" using inv by (simp add: world_inv_def)
  let ?t = "s\<lparr>aw_next_internal := k - 1\<rparr>"
  have same: "artifact_ok we used (s\<lparr>aw_next_internal := m\<rparr>) = artifact_ok we used s"
    "interaction_ok we used (s\<lparr>aw_next_internal := m\<rparr>) = interaction_ok we used s"
    "observation_ok (s\<lparr>aw_next_internal := m\<rparr>) = observation_ok s" for m
    by (simp_all add: fun_eq_iff artifact_ok_def interaction_ok_def observation_ok_def frozen_def)
  have t: "world_inv we (k - 1) used ?t"
    using inv by (simp add: world_inv_def sessions_ok_def evidence_ok_def same)
  show ?thesis
  proof (cases "k = 0")
    case True
    then have "world_inv we (k - 1) (insert k used) s"
      using world_inv_frame [OF inv frame_use] by simp
    then show ?thesis using True sid by (simp add: capture_internal_def)
  next
    case False
    then show ?thesis
      unfolding capture_internal_def Let_def sid
      by (simp only: if_False, intro act_bind_inv [where I = "world_inv we (k - 1) (insert k used)"]
          inv_open [OF t fresh] inv_write inv_dispatch inv_finish)
  qed
qed

lemma inv_ambient:
  assumes inv: "world_inv we U64_MAX {} s"
  shows "\<exists>k. world_inv we k {U64_MAX, U64_MAX - 1} (snd (capture_ambient we io io' vars s))"
proof -
  define P where "P = (\<lambda>t :: 'a automatic_world. \<exists>k. world_inv we k {U64_MAX, U64_MAX - 1} t)"
  have used: "P t" if "world_inv we k used t" "used \<subseteq> {U64_MAX, U64_MAX - 1}" for k used t
  proof -
    have "step_frame used t {U64_MAX, U64_MAX - 1} t"
      using that(2) by (fastforce simp: step_frame_def sessions_ok_def frozen_def)
    from world_inv_frame [OF that(1) this] show ?thesis by (auto simp: P_def)
  qed
  let ?first = "\<lambda>encoded. capture_internal we io Environment
      (text_bytes we ''process-environment'') encoded"
  have first: "world_inv we (U64_MAX - 1) {U64_MAX} (snd (?first encoded s))" for encoded
    using inv_internal [OF inv] by simp
  have second: "P (snd (capture_internal we io' cls request response (snd (?first encoded s))))"
    for cls request response encoded
    by (rule used [OF inv_internal [OF first]]) (auto simp: limits)
  have "P s" "P (snd (fail_overflowed s))" "P (snd (?first encoded s))" for encoded
    using used [OF inv] used [OF inv_overflowed [OF inv]] used [OF first] by simp_all
  then have "P (snd (capture_ambient we io io' vars s))"
    unfolding capture_ambient_def
    by (auto simp: snd_act_bind second split: option.splits sum.splits)
  then show ?thesis by (simp add: P_def)
qed

end
