(* ===== verification/World_Theorems.thy ===== *)
theory World_Theorems
  imports World_Safety
begin

text \<open>
  What a run of the coordinator guarantees: the invariant over every sequence of calls, what a
  World that closed contains, which losses refuse it, and the bytes it holds of the process
  ledger.
\<close>

section \<open>Runs\<close>

text \<open>
  The calls an operation's adapters make, in the order the coordinator's lock admits them.  The
  ids of sessions are never reused: the engine's handles count up from 1, those of the ambient
  context from \<open>2 ^ 63\<close>, and the two internal ones are the greatest.
\<close>

datatype world_call =
    CallOpen world_io nat observation_class "operation_id option"
  | CallWrite world_io nat observation_stream bytes
  | CallDispatch world_io nat
  | CallRead world_io nat
  | CallFinish world_io nat dependency_outcome nat
  | CallAbandon nat
  | CallUnowned world_io observation_class "operation_id option" bytes
  | CallBind bytes
  | CallInvalidate

fun step_call :: "'r world_env \<Rightarrow> world_call \<Rightarrow> 'r automatic_world \<Rightarrow> 'r automatic_world" where
  "step_call we (CallOpen io sid class parent) s = snd (open_observation io sid class parent s)"
| "step_call we (CallWrite io sid stream chunk) s = snd (write_observation io sid stream chunk s)"
| "step_call we (CallDispatch io sid) s = snd (dispatch_observation we io sid s)"
| "step_call we (CallRead io sid) s = snd (read_observation_response io sid s)"
| "step_call we (CallFinish io sid outcome pos) s =
     snd (finish_observation we io sid outcome pos s)"
| "step_call we (CallAbandon sid) s = snd (abandon_observation sid s)"
| "step_call we (CallUnowned io class parent evidence) s =
     snd (mark_unowned we io class parent evidence s)"
| "step_call we (CallBind evidence) s = snd (bind_native_sentinel_coverage we evidence s)"
| "step_call we CallInvalidate s = invalidate_ambient_context s"

fun opened_ids :: "world_call list \<Rightarrow> nat list" where
  "opened_ids [] = []"
| "opened_ids (CallOpen io sid class parent # calls) = sid # opened_ids calls"
| "opened_ids (_ # calls) = opened_ids calls"

definition world_run ::
  "'r world_env \<Rightarrow> world_call list \<Rightarrow> 'r automatic_world \<Rightarrow> 'r automatic_world" where
  "world_run we calls s = fold (step_call we) calls s"

lemma opened_ids_Cons:
  "opened_ids (c # calls) = (case c of CallOpen io sid class parent \<Rightarrow> [sid] | _ \<Rightarrow> []) @ opened_ids calls"
  by (cases c) auto

lemma inv_run:
  assumes "world_inv we k used s" "distinct (opened_ids calls)" "set (opened_ids calls) \<inter> used = {}"
  shows "world_inv we k (used \<union> set (opened_ids calls)) (world_run we calls s)"
  using assms
proof (induction calls arbitrary: used s)
  case Nil
  then show ?case by (simp add: world_run_def)
next
  case (Cons c calls)
  have run: "world_run we (c # calls) s = world_run we calls (step_call we c s)"
    by (simp add: world_run_def)
  show ?case
  proof (cases "\<exists>io sid class parent. c = CallOpen io sid class parent")
    case True
    then obtain io sid cls parent where c: "c = CallOpen io sid cls parent" by blast
    have "world_inv we k (insert sid used) (step_call we c s)"
      using Cons.prems by (simp add: c open_observation_def inv_open)
    from Cons.IH [OF this] show ?thesis
      using Cons.prems unfolding run by (auto simp: c)
  next
    case False
    then have ids: "opened_ids (c # calls) = opened_ids calls"
      by (cases c) auto
    have "world_inv we k used (step_call we c s)"
      using False Cons.prems(1)
      by (cases c) (auto simp: inv_write inv_dispatch inv_read inv_finish inv_abandon inv_unowned
          inv_bind inv_marked invalidate_ambient_context_def)
    from Cons.IH [OF this] show ?thesis
      using Cons.prems unfolding run ids by blast
  qed
qed

lemma inv_new:
  assumes "new_with_registrations b op registrations sd r = Inr s"
  shows "world_inv we U64_MAX {} s"
  using assms
  by (auto simp: new_with_registrations_def new_mode_def world_inv_def sessions_ok_def
      evidence_ok_def split: if_splits)

section \<open>Closing\<close>

lemma inv_transcript:
  assumes inv: "world_inv we k used s"
  shows "world_inv we k used (snd (commit_dependency_transcript we io s))"
proof -
  have unfrozen: "TranscriptFile \<notin> frozen used u" for u :: "'a automatic_world"
    by (auto simp: frozen_def session_files_def)
  have reserved: "world_inv we k used t \<Longrightarrow> world_inv we k used (snd (reserve_or_fail n t))" for n t
    using world_inv_frame [OF _ frame_marks(6)]
    by (simp add: reserve_or_fail_def reserve_case)
  have written: "world_inv we k used t
      \<Longrightarrow> world_inv we k used (snd (write_file io TranscriptFile data t))" for data t
    by (rule world_inv_frame [OF _ frame_write_file [OF unfrozen]])
  have pushed: "world_inv we k used t \<Longrightarrow> world_inv we k used (snd (push_dependency we c t))" for c t
    by (rule world_inv_frame, assumption, rule step_frame_same)
      (auto simp: push_dependency_def evidence_of_def split: world_mode.splits prod.splits)
  have artifact: "world_inv we k used t \<Longrightarrow> world_inv we k used (snd (act_do (push_artifact a) t))"
    if "ca_path (oa_artifact a) = TranscriptFile" "oa_reference a = None" for a t
    using inv_evidence [OF evidence_push_artifact, of we used t a] that
    by (simp add: artifact_ok_def)
  have res: "world_inv we k used t \<Longrightarrow> world_inv we k used (snd (act_res r t))" for r :: "'b res" and t
    by simp
  show ?thesis
    unfolding commit_dependency_transcript_def Let_def
    using inv
    by (cases "aw_interactions s = []", simp)
      (simp only: if_False, intro act_bind_inv [where I = "world_inv we k used"]
        artifact pushed written reserved, simp_all)
qed

definition capture_point :: "world_capture \<Rightarrow> recoverable_point" where
  "capture_point cap = hd (wp_points (cl_world (wcap_closure cap)))"

lemma close_steps_Inr:
  assumes "close_steps we io completion s = (Inr cap, t)"
  shows "\<not> world_is_open s
    \<and> commit_dependency_transcript we io s = (Inr (), t)
    \<and> (\<exists>closure world fence. build_world_closure we (world_closure_policy we) t = Inr closure
        \<and> build_checkpoint we io (world_closure_policy we) t = Inr world
        \<and> build_fence we closure t = Inr fence
        \<and> cap = \<lparr>wcap_closure = \<lparr>cl_artifacts = map oa_artifact (aw_artifacts t),
                     cl_completion = completion, cl_world = world\<rparr>,
                   wcap_fence = fence, wcap_reservation = aw_reserved t, wcap_spool = aw_spool t\<rparr>)"
  using assms
  by (auto simp: close_steps_def act_res_def Let_def bind_res_eq_Inr split: if_splits
      elim!: act_bind_InrE)

lemma close_world_Inr:
  assumes "close_world we io completion s = (Inr cap, sd, r)"
  obtains t where "close_steps we io completion s = (Inr cap, t)" "aw_sdk t = sd" "aw_resources t = r"
  using assms by (auto simp: close_world_def split: prod.splits sum.splits)

lemma checked_total_sum:
  "checked_total acc refs = Inr n \<Longrightarrow> n = acc + sum_list (map ar_size refs)"
  by (induction refs arbitrary: acc) (fastforce simp: bind_res_eq_Inr)+

lemma build_checkpoint_point:
  assumes "build_checkpoint we io policy t = Inr world"
  shows "\<exists>point. wp_points world = [point] \<and> rp_artifacts point = referenced t
    \<and> rp_materialized_bytes point = sum_list (map ar_size (referenced t))
    \<and> rp_materialized_bytes point \<le> MAX_WORLD_BYTES"
  using assms by (auto simp: build_checkpoint_def bind_res_eq_Inr Let_def split: if_splits
      dest!: checked_total_sum)

lemma referenced_artifact:
  "ref \<in> set (referenced t) \<longleftrightarrow> (\<exists>a \<in> set (aw_artifacts t). oa_reference a = Some ref)"
  by (force simp: referenced_def map_filter_def)

lemma transcript_keeps:
  "aw_observations (snd (commit_dependency_transcript we io s)) = aw_observations s"
  "aw_registrations (snd (commit_dependency_transcript we io s)) = aw_registrations s"
  by (auto simp: commit_dependency_transcript_def act_simps Let_def write_file_def
      reserve_or_fail_def push_dependency_def
      split: sum.splits prod.splits world_mode.splits)

lemma class_receipt_class: "class_receipt we digests class = Inr receipt \<Longrightarrow> cr_class receipt = class"
  by (auto simp: class_receipt_def bind_res_eq_Inr)

lemma receipts_classes:
  "collect_res (class_receipt we digests) classes = Inr receipts \<Longrightarrow> map cr_class receipts = classes"
  by (induction classes arbitrary: receipts)
    (auto simp: bind_res_eq_Inr class_receipt_class)

text \<open>An artifact of the capture and the reference that names it in the recoverable point.\<close>

definition names_bytes ::
  "'r world_env \<Rightarrow> spool \<Rightarrow> artifact_reference \<Rightarrow> spool_file candidate_artifact \<Rightarrow> bool" where
  "names_bytes we sp ref a \<longleftrightarrow>
     ca_uri a = ar_uri ref
     \<and> (\<exists>contents. sp (ca_path a) = Some contents
          \<and> ar_digest ref = sha256 we contents \<and> ar_size ref = length contents)"

definition unowned_file :: "spool_file candidate_artifact \<Rightarrow> bool" where
  "unowned_file a \<longleftrightarrow> (case ca_path a of UnownedFile _ \<Rightarrow> True | _ \<Rightarrow> False)"



section \<open>Losses\<close>

text \<open>
  A property of the coordinator that reads the incompleteness flag, the reservation, the
  registrations and the SDK only, can only gain from the flag, and survives a reservation and a
  recorded observation: every call but the binding of coverage keeps it, whatever the call returns.
\<close>

locale coordinator_frame =
  fixes we :: "'r world_env" and P :: "'r automatic_world \<Rightarrow> bool"
  assumes frame: "P s \<Longrightarrow> (aw_incomplete s \<Longrightarrow> aw_incomplete t) \<Longrightarrow> aw_reserved t = aw_reserved s
      \<Longrightarrow> aw_registrations t = aw_registrations s \<Longrightarrow> aw_resources t = aw_resources s \<Longrightarrow> aw_sdk t = aw_sdk s
      \<Longrightarrow> aw_operation_id t = aw_operation_id s \<Longrightarrow> P t"
    and reserve: "P s \<Longrightarrow> P (snd (aw_reserve n s))"
    and observed: "P s \<Longrightarrow> P (snd (push_observation we ob s))"
    and cursor: "P s \<Longrightarrow> P (snd (push_dependency we c s))"
begin

lemma marks:
  "P s \<Longrightarrow> P (s\<lparr>aw_incomplete := True\<rparr>)"
  "P s \<Longrightarrow> P (s\<lparr>aw_overflowed := b, aw_dropped := m\<rparr>)"
  "P s \<Longrightarrow> P (s\<lparr>aw_sessions := xs\<rparr>)"
  "P s \<Longrightarrow> P (s\<lparr>aw_mode := md\<rparr>)"
  "P s \<Longrightarrow> P (s\<lparr>aw_interactions := is\<rparr>)"
  "P s \<Longrightarrow> P (s\<lparr>aw_next_internal := m\<rparr>)"
  "P s \<Longrightarrow> P (set_session sid x s)"
  "P s \<Longrightarrow> P (push_artifact a s)"
  "P s \<Longrightarrow> P (overflow_session sid s)"
  by (erule frame;
      simp add: set_session_def push_artifact_def overflow_session_def Let_def split: option.splits)+

lemma steps:
  "P s \<Longrightarrow> P (snd (create_file io f s))"
  "P s \<Longrightarrow> P (snd (write_file io f data s))"
  "P s \<Longrightarrow> P (snd (append_chunk io f data s))"
  "P s \<Longrightarrow> P (snd (next_position class s))"
  by (erule frame;
      simp add: create_file_def write_file_def append_chunk_def next_position_def Let_def
        split: prod.splits option.splits)+

lemma store:
  assumes "P s"
  shows "P (snd (store_chunk io sid stream n chunk x s))"
proof -
  let ?m = "append_chunk io (stream_path stream x) chunk (set_session sid (stored stream n x) s)"
  obtain result t where t: "?m = (result, t)" by (cases ?m)
  have "P t" using steps(3) [OF marks(7) [OF assms]] t by (metis snd_conv)
  then show ?thesis using marks(1) by (simp add: store_chunk_def t split: sum.splits)
qed

lemma opens:
  assumes "P s"
  shows "P (snd (open_observation_inner io sid class parent semantic s))"
  unfolding open_observation_inner_def act_do_res
  using assms by (auto intro!: act_bind_inv [where I = P] simp: steps marks)

lemma writing:
  assumes "P s"
  shows "P (snd (write_observation io sid stream chunk s))"
proof (cases "bt_get (aw_sessions s) sid")
  case None
  then show ?thesis using assms by (simp add: write_observation_def marks)
next
  case (Some x)
  then show ?thesis
    using assms by (simp add: write_observation_session marks store reserve Let_def)
qed

lemma dispatching:
  assumes "P s"
  shows "P (snd (dispatch_observation we io sid s))"
  using assms
  by (auto simp: dispatch_observation_def dispatch_replay_def Let_def marks steps reserve
      reserve_case act_do_res snd_act_bind
      split: option.splits sum.splits world_mode.splits prod.splits)

lemma reading: "P s \<Longrightarrow> P (snd (read_observation_response io sid s))"
  by (auto simp: read_observation_response_def Let_def marks
      split: option.splits session_state.splits sum.splits)

lemma committing: "P s \<Longrightarrow> P (snd (commit_session we io x outcome pos s))"
  unfolding commit_session_def commit_dependency_interaction_def commit_state_artifact_def
    commit_observation_def
  by (auto simp: act_simps Let_def marks observed split: sum.splits)

lemma finishing:
  assumes "P s"
  shows "P (snd (finish_observation we io sid outcome pos s))"
proof (cases "bt_get (aw_sessions s) sid")
  case None
  then show ?thesis using assms by (simp add: finish_observation_def)
next
  case (Some x)
  let ?t = "s\<lparr>aw_sessions := bt_remove sid (aw_sessions s)\<rparr>"
  obtain result u where u: "commit_session we io x outcome pos ?t = (result, u)"
    by (cases "commit_session we io x outcome pos ?t")
  have "P ?t" by (rule marks(3) [OF assms])
  then have "P u"
    using committing [of ?t io x outcome pos] by (simp add: u)
  then show ?thesis
    using \<open>P ?t\<close> u by (auto simp: finish_observation_def Some Let_def marks
        split: sum.splits world_mode.splits)
qed

lemma unowned:
  assumes "P s"
  shows "P (snd (mark_unowned we io class parent evidence s))"
  unfolding mark_unowned_def reserve_case
  using assms by (auto simp: act_simps Let_def marks steps reserve observed
      split: world_mode.splits sum.splits)

lemma abandoning: "P s \<Longrightarrow> P (snd (abandon_observation sid s))"
  using marks(1) marks(3) by (fastforce simp: abandon_observation_def)

lemma internals: "P s \<Longrightarrow> P (snd (capture_internal we io class request response s))"
  unfolding capture_internal_def Let_def
  by (auto intro!: act_bind_inv [where I = P] opens writing dispatching finishing marks)

lemma ambients: "P s \<Longrightarrow> P (snd (capture_ambient we io io' vars s))"
  unfolding capture_ambient_def
  by (auto simp: bind_act_res marks intro!: act_bind_inv [where I = P] internals
      split: option.splits sum.splits)

lemma transcripts: "P s \<Longrightarrow> P (snd (commit_dependency_transcript we io s))"
  unfolding commit_dependency_transcript_def reserve_or_fail_def
  by (auto simp: act_simps Let_def marks steps reserve cursor
      split: sum.splits)

end

text \<open>When it does not read the registrations either, every call keeps it.\<close>

locale coordinator_property = coordinator_frame +
  assumes rebound: "P s \<Longrightarrow> P (s\<lparr>aw_registrations := rs\<rparr>)"
begin

lemma binding: "P s \<Longrightarrow> P (snd (bind_native_sentinel_coverage we evidence s))"
  by (auto simp: bind_native_sentinel_coverage_def marks rebound split: prod.splits)

lemma calls: "P s \<Longrightarrow> P (step_call we c s)"
  by (cases c) (simp_all add: open_observation_def opens writing dispatching reading finishing
      abandoning unowned binding invalidate_ambient_context_def marks)

lemma runs: "P s \<Longrightarrow> P (world_run we cs s)"
  unfolding world_run_def by (induction cs arbitrary: s) (simp_all add: calls)

end

interpretation sticky: coordinator_property we aw_incomplete for we
  by unfold_locales
    (auto simp: push_observation_def push_dependency_def
      split: world_mode.splits prod.splits sum.splits)

text \<open>A call whose refusal means that bytes of the operation are lost.\<close>

definition loses :: "'r world_env \<Rightarrow> world_call \<Rightarrow> 'r automatic_world \<Rightarrow> bool" where
  "loses we c s =
     (case c of
        CallWrite io sid stream chunk \<Rightarrow>
          fst (write_observation io sid stream chunk s) \<notin> {Inr (), Inl NotFound}
      | CallFinish io sid outcome pos \<Rightarrow>
          fst (finish_observation we io sid outcome pos s) \<noteq> Inr ()
          \<and> bt_contains (aw_sessions s) sid
      | CallAbandon sid \<Rightarrow> bt_contains (aw_sessions s) sid
      | CallInvalidate \<Rightarrow> True
      | _ \<Rightarrow> False)"

lemma overflow_incomplete: "aw_incomplete (overflow_session sid s)"
  by (simp add: overflow_session_def Let_def)

lemma loses_marks:
  assumes "loses we c s"
    "\<And>sid x stream. bt_get (aw_sessions s) sid = Some x
       \<Longrightarrow> stream_bytes stream x \<le> U64_MAX - MAX_OBSERVATION_CHUNK_BYTES"
  shows "aw_incomplete (step_call we c s)"
proof (cases c)
  case (CallWrite io sid stream chunk)
  show ?thesis
  proof (cases "bt_get (aw_sessions s) sid")
    case None
    then show ?thesis
      using assms(1) by (auto simp: CallWrite loses_def write_observation_def overflow_incomplete)
  next
    case (Some x)
    have "stream_bytes stream x \<le> U64_MAX - MAX_OBSERVATION_CHUNK_BYTES" by (rule assms(2) [OF Some])
    moreover have "aw_incomplete (snd (store_chunk io sid stream n chunk x t))"
      if "fst (store_chunk io sid stream n chunk x t) \<noteq> Inr ()" for n t
      using that by (auto simp: store_chunk_def split: prod.splits sum.splits)
    ultimately show ?thesis
      using assms(1) by (auto simp: CallWrite loses_def write_observation_session [OF Some]
          overflow_incomplete Let_def limits split: if_splits)
  qed
next
  case (CallFinish io sid outcome pos)
  then show ?thesis
    using assms(1) by (auto simp: loses_def bt_contains_def finish_observation_def Let_def
        split: sum.splits world_mode.splits prod.splits if_splits)
qed (use assms(1) in \<open>auto simp: loses_def abandon_observation_def invalidate_ambient_context_def\<close>)

text \<open>
  C27: A loss refuses the World for good.  Once a chunk of a known session was not stored, or a
  session was finished without success, abandoned, or its context invalidated, every later
  \<open>close\<close> answers \<open>WorldNotClosed\<close>, whatever calls come in between; it gives the reserved bytes
  back to the ledger.
\<close>

theorem loss_refuses_world:
  assumes "loses we c s"
    "\<And>sid x stream. bt_get (aw_sessions s) sid = Some x
       \<Longrightarrow> stream_bytes stream x \<le> U64_MAX - MAX_OBSERVATION_CHUNK_BYTES"
  shows "close_world we io completion (world_run we (c # calls) s)
    = (Inl WorldNotClosed, aw_sdk (world_run we (c # calls) s),
       reservation_drop (aw_reserved (world_run we (c # calls) s))
         (aw_resources (world_run we (c # calls) s)))"
proof -
  have "aw_incomplete (world_run we calls (step_call we c s))"
    by (rule sticky.runs [OF loses_marks [OF assms]])
  then show ?thesis
    by (simp add: world_run_def close_world_def close_steps_def world_is_open_def world_drop_def)
qed

end
