(* ===== verification/World_Capture.thy ===== *)
theory World_Capture
  imports World_Theorems
begin

text \<open>
  One observation from its opening to its commit: the bytes the adapter wrote are the bytes the
  World names.  The other way round, a replayed response is read back whole.
\<close>

section \<open>Writing\<close>

lemma write_ok:
  assumes "write_observation io sid stream chunk s = (Inr (), t)" "io_faithful io"
  shows "\<exists>x old. bt_get (aw_sessions s) sid = Some x \<and> valid_stream (os_state x) stream
    \<and> aw_spool s (stream_path stream x) = Some old
    \<and> aw_spool t = (aw_spool s)(stream_path stream x \<mapsto> old @ chunk)
    \<and> bt_get (aw_sessions t) sid
        = Some (stored stream (stream_bytes stream x + length chunk) x)
    \<and> evidence_of t = evidence_of s \<and> aw_mode t = aw_mode s"
proof -
  obtain x where x: "bt_get (aw_sessions s) sid = Some x"
    using assms(1) by (auto simp: write_observation_def split: option.splits if_splits)
  let ?n = "stream_bytes stream x + length chunk" and ?r = "snd (aw_reserve (length chunk) s)"
  have valid: "valid_stream (os_state x) stream"
    and store: "store_chunk io sid stream ?n chunk x ?r = (Inr (), t)"
    using assms(1) by (auto simp: write_observation_session [OF x] Let_def split: if_splits)
  obtain old new where old: "aw_spool s (stream_path stream x) = Some old"
    and new: "io_append io (stream_path stream x) old chunk = (True, new)"
    and t: "t = (set_session sid (stored stream ?n x) ?r)
        \<lparr>aw_spool := (aw_spool s)(stream_path stream x \<mapsto> new)\<rparr>"
    using store by (auto simp: store_chunk_def append_chunk_def set_session_def fail_incomplete_def
        split: option.splits prod.splits if_splits)
  have "new = old @ chunk"
    using assms(2) new unfolding io_faithful_def by blast
  then show ?thesis
    using x valid old by (auto simp: t set_session_def evidence_of_def)
qed

fun write_all ::
  "world_io \<Rightarrow> nat \<Rightarrow> observation_stream \<Rightarrow> bytes list \<Rightarrow> ('r automatic_world, unit) act" where
  "write_all io sid stream [] s = (Inr (), s)"
| "write_all io sid stream (chunk # chunks) s =
     act_bind (write_observation io sid stream chunk) (\<lambda>_. write_all io sid stream chunks) s"

lemma write_all_ok:
  assumes "write_all io sid stream chunks s = (Inr (), t)" "io_faithful io"
    "bt_get (aw_sessions s) sid = Some x" "aw_spool s (stream_path stream x) = Some old"
  shows "aw_spool t = (aw_spool s)(stream_path stream x \<mapsto> old @ concat chunks)
    \<and> bt_get (aw_sessions t) sid
        = Some (stored stream (stream_bytes stream x + length (concat chunks)) x)
    \<and> evidence_of t = evidence_of s \<and> aw_mode t = aw_mode s"
  using assms
proof (induction chunks arbitrary: s x old)
  case Nil
  then show ?case
    by (cases stream) (auto simp: stored_def stream_bytes_def fun_upd_idem)
next
  case (Cons chunk chunks)
  from Cons.prems(1) obtain u where u: "write_observation io sid stream chunk s = (Inr (), u)"
    "write_all io sid stream chunks u = (Inr (), t)"
    by (auto elim: act_bind_InrE)
  let ?y = "stored stream (stream_bytes stream x + length chunk) x"
  have step: "aw_spool u = (aw_spool s)(stream_path stream x \<mapsto> old @ chunk)"
    "bt_get (aw_sessions u) sid = Some ?y" "evidence_of u = evidence_of s" "aw_mode u = aw_mode s"
    using write_ok [OF u(1) Cons.prems(2)] Cons.prems(3,4) by auto
  have path: "stream_path stream ?y = stream_path stream x"
    by (cases stream) (simp_all add: stream_path_def)
  have stored_twice: "stored stream m (stored stream n x) = stored stream m x" for m n
    by (cases stream) (simp_all add: stored_def)
  have count: "stream_bytes stream ?y = stream_bytes stream x + length chunk"
    by (cases stream) (simp_all add: stored_def stream_bytes_def)
  from Cons.IH [OF u(2) Cons.prems(2) step(2), of "old @ chunk"] step
  show ?case by (auto simp: fun_eq_iff path stored_twice count add.assoc)
qed

section \<open>Committing\<close>

lemma push_observation_Inr:
  "push_observation we ob s = (Inr (), t) \<Longrightarrow>
     aw_observations t = aw_observations s @ [ob] \<and> aw_spool t = aw_spool s
     \<and> aw_artifacts t = aw_artifacts s \<and> aw_interactions t = aw_interactions s"
  by (auto simp: push_observation_def split: world_mode.splits prod.splits sum.splits)

definition session_recorded ::
  "'r world_env \<Rightarrow> observation_session \<Rightarrow> dependency_outcome \<Rightarrow> bytes \<Rightarrow> bytes
     \<Rightarrow> 'r automatic_world \<Rightarrow> 'r automatic_world \<Rightarrow> observation_payload \<Rightarrow> bool" where
  "session_recorded we x outcome request response s t ob \<longleftrightarrow>
     aw_observations t = aw_observations s @ [ob]
     \<and> ob_class ob = os_class x \<and> ob_causal_parent_id ob = os_causal_parent_id x
     \<and> ob_sequence ob = length (aw_observations s)
     \<and> (if is_dependency_class (os_class x)
        then \<exists>i. aw_interactions t = aw_interactions s @ [i]
          \<and> in_request_digest i = sha256 we request \<and> in_response_digest i = sha256 we response
          \<and> in_outcome i = outcome \<and> digest_interaction we i = Inr (ob_evidence_digest ob)
          \<and> map (\<lambda>a. (ca_path (oa_artifact a), ca_object_id (oa_artifact a), oa_reference a))
              (aw_artifacts t)
            = map (\<lambda>a. (ca_path (oa_artifact a), ca_object_id (oa_artifact a), oa_reference a))
                (aw_artifacts s)
              @ [(os_request_path x, in_request_object_id i, None),
                 (os_response_path x, in_response_object_id i, None)]
        else \<exists>a ref. aw_artifacts t = aw_artifacts s @ [\<lparr>oa_artifact = a, oa_reference = Some ref\<rparr>]
          \<and> ca_path a = os_response_path x \<and> ca_uri a = ar_uri ref
          \<and> ar_digest ref = sha256 we response \<and> ar_size ref = length response
          \<and> digest_reference we ref = Inr (ob_evidence_digest ob))"

lemma commit_session_Inr:
  assumes "commit_session we io x outcome pos s = (Inr (), t)"
    "aw_spool s (os_request_path x) = Some request" "aw_spool s (os_response_path x) = Some response"
  shows "aw_spool t = aw_spool s \<and> (\<exists>ob. session_recorded we x outcome request response s t ob)"
proof -
  obtain rd sd d u where digests:
      "digest_file we io (aw_spool s) (os_request_path x) (os_request_bytes x) = Inr rd"
      "digest_file we io (aw_spool s) (os_response_path x) (os_response_bytes x) = Inr sd"
    and u: "(if is_dependency_class (os_class x)
              then commit_dependency_interaction we io x outcome pos rd sd
              else commit_state_artifact we io (os_class x) outcome pos rd sd
                     (os_response_bytes x) (os_response_path x)) s = (Inr d, u)"
    and t: "commit_observation we x d u = (Inr (), t)"
    using assms(1) by (auto simp: commit_session_def bind_act_res split: if_splits sum.splits
        elim!: act_bind_InrE)
  have rd: "rd = sha256 we request" and sd: "sd = sha256 we response"
    "os_response_bytes x = length response"
    using digest_file_bytes [OF digests(1)] digest_file_bytes [OF digests(2)] assms(2,3) by auto
  obtain ob where ob: "push_observation we ob u = (Inr (), t)" "ob_class ob = os_class x"
      "ob_causal_parent_id ob = os_causal_parent_id x" "ob_sequence ob = length (aw_observations u)"
      "ob_evidence_digest ob = d"
    using t by (auto simp: commit_observation_def bind_act_res split: sum.splits)
  have "aw_spool u = aw_spool s \<and> aw_observations u = aw_observations s"
    using u by (auto simp: commit_dependency_interaction_def commit_state_artifact_def act_simps
        Let_def act_res_def split: sum.splits if_splits)
  moreover have "session_recorded we x outcome request response s t ob"
    using u ob push_observation_Inr [OF ob(1)] rd sd
    by (auto simp: session_recorded_def commit_dependency_interaction_def raw_dependency_artifact_def
        push_artifact_def commit_state_artifact_def act_simps Let_def act_res_def
        split: sum.splits if_splits)
  ultimately show ?thesis
    using push_observation_Inr [OF ob(1)] by auto
qed

section \<open>A whole observation\<close>

definition observe ::
  "'r world_env \<Rightarrow> world_io \<Rightarrow> nat \<Rightarrow> observation_class \<Rightarrow> operation_id option \<Rightarrow> bytes list
     \<Rightarrow> bytes list \<Rightarrow> dependency_outcome \<Rightarrow> ('r automatic_world, unit) act" where
  "observe we io sid class parent reqs resps outcome =
     act_bind (open_observation io sid class parent) (\<lambda>pos.
     act_bind (write_all io sid RequestStream reqs) (\<lambda>_.
     act_bind (dispatch_observation we io sid) (\<lambda>_.
     act_bind (write_all io sid ResponseStream resps) (\<lambda>_.
       finish_observation we io sid outcome pos))))"

lemma create_file_Inr:
  "create_file io f s = (Inr u, t) \<Longrightarrow> t = s\<lparr>aw_spool := (aw_spool s)(f \<mapsto> [])\<rparr>"
  by (auto simp: create_file_def split: if_splits)

lemma open_Inr:
  assumes "open_observation_inner io sid class parent semantic s = (Inr pos, t)"
  shows "aw_spool t = (aw_spool s)(RequestFile sid \<mapsto> [], ResponseFile sid \<mapsto> [])
    \<and> bt_get (aw_sessions t) sid = Some (new_session sid class parent semantic pos)
    \<and> evidence_of t = evidence_of s \<and> aw_mode t = aw_mode s
    \<and> pos = (case bt_get (aw_positions s) class of None \<Rightarrow> 0 | Some p \<Rightarrow> p)
    \<and> bt_get (aw_positions t) class = Some (pos + 1) \<and> pos < MAX_SESSION_POSITION"
  using assms
  by (auto simp: open_observation_inner_def act_do_res next_position_def Let_def evidence_of_def
      fail_incomplete_def split: if_splits option.splits elim!: act_bind_InrE dest!: create_file_Inr)

lemma dispatch_capture_Inr:
  assumes "dispatch_observation we io sid s = (Inr action, t)" "aw_mode s = CaptureMode"
  shows "\<exists>x. bt_get (aw_sessions s) sid = Some x
    \<and> t = set_session sid (x\<lparr>os_state := SessionCapture\<rparr>) s \<and> action = ActionCapture"
  using assms by (auto simp: dispatch_observation_def fail_incomplete_def
      split: option.splits sum.splits if_splits)

text \<open>
  C26: An observation is recorded as it was made.  In capture mode, over a file system that stores
  what it says it stores, let an adapter open a session, write the request in any chunks, dispatch
  it, write the response in any chunks and finish it, every call succeeding.  Then the two files
  hold exactly the request and the response, one observation of the class and the causal parent
  was added, numbered next, and its evidence is, for a dependency class, an interaction with the
  digests of both and two artifacts naming the files, and otherwise one artifact whose reference
  carries the digest and length of the response.
\<close>

theorem observation_recorded:
  assumes "observe we io sid class parent reqs resps outcome s = (Inr (), t)"
    "io_faithful io" "aw_mode s = CaptureMode"
  shows "aw_spool t (RequestFile sid) = Some (concat reqs)
    \<and> aw_spool t (ResponseFile sid) = Some (concat resps)
    \<and> (\<exists>x ob. os_class x = class \<and> os_causal_parent_id x = parent
        \<and> os_request_path x = RequestFile sid \<and> os_response_path x = ResponseFile sid
        \<and> session_recorded we x outcome (concat reqs) (concat resps) s t ob)"
proof -
  obtain pos s1 s2 s3 s4 action where
    a: "open_observation io sid class parent s = (Inr pos, s1)"
      "write_all io sid RequestStream reqs s1 = (Inr (), s2)"
      "dispatch_observation we io sid s2 = (Inr action, s3)"
      "write_all io sid ResponseStream resps s3 = (Inr (), s4)"
      "finish_observation we io sid outcome pos s4 = (Inr (), t)"
    using assms(1) by (auto simp: observe_def elim!: act_bind_InrE)
  let ?x = "new_session sid class parent True pos"
  have opened: "aw_spool s1 = (aw_spool s)(RequestFile sid \<mapsto> [], ResponseFile sid \<mapsto> [])"
    "bt_get (aw_sessions s1) sid = Some ?x" "evidence_of s1 = evidence_of s" "aw_mode s1 = aw_mode s"
    using open_Inr [OF a(1) [unfolded open_observation_def]] by blast+
  have paths: "stream_path RequestStream ?x = RequestFile sid"
    "stream_path ResponseStream (y\<lparr>os_state := st\<rparr>) = os_response_path y" for y st
    by (simp_all add: stream_path_def new_session_def)
  have request: "aw_spool s2 = (aw_spool s1)(RequestFile sid \<mapsto> concat reqs)"
    "bt_get (aw_sessions s2) sid
       = Some (stored RequestStream (stream_bytes RequestStream ?x + length (concat reqs)) ?x)"
    "evidence_of s2 = evidence_of s" "aw_mode s2 = CaptureMode"
    using write_all_ok [OF a(2) assms(2), of ?x "[]"] opened assms(3) by (simp_all add: paths)
  define y where "y = (stored RequestStream (stream_bytes RequestStream ?x + length (concat reqs))
      ?x)\<lparr>os_state := SessionCapture\<rparr>"
  have s3: "s3 = set_session sid y s2"
    using dispatch_capture_Inr [OF a(3) request(4)] request(2) by (simp add: y_def)
  have y: "stream_path ResponseStream y = ResponseFile sid" "os_request_path y = RequestFile sid"
    "os_class y = class" "os_causal_parent_id y = parent" "os_response_path y = ResponseFile sid"
    by (simp_all add: y_def stream_path_def new_session_def stored_def)
  have y_spool: "aw_spool s3 (stream_path ResponseStream y) = Some []"
    using request(1) opened by (simp add: s3 set_session_def y)
  have "bt_get (aw_sessions s3) sid = Some y" by (simp add: s3)
  note response = write_all_ok [OF a(4) assms(2) this y_spool]
  define z where
    "z = stored ResponseStream (stream_bytes ResponseStream y + length (concat resps)) y"
  have z: "bt_get (aw_sessions s4) sid = Some z" "os_class z = class"
    "os_causal_parent_id z = parent" "os_request_path z = RequestFile sid"
    "os_response_path z = ResponseFile sid"
    using response y by (simp_all add: z_def)
  have kept: "evidence_of s4 = evidence_of s" "aw_mode s4 = CaptureMode"
    using response request(3,4) by (simp_all add: s3 set_session_def evidence_of_def)
  have files: "aw_spool s4 (RequestFile sid) = Some (concat reqs)"
    "aw_spool s4 (ResponseFile sid) = Some (concat resps)"
    using response request(1) by (simp_all add: s3 set_session_def y)
  let ?u = "s4\<lparr>aw_sessions := bt_remove sid (aw_sessions s4)\<rparr>"
  have commit: "commit_session we io z outcome pos ?u = (Inr (), t)"
    using a(5) kept(2) by (auto simp: finish_observation_def z(1) Let_def fail_incomplete_def
        split: if_splits sum.splits prod.splits)
  have "aw_spool t = aw_spool s4"
    "\<exists>ob. session_recorded we z outcome (concat reqs) (concat resps) ?u t ob"
    using commit_session_Inr [OF commit] files z(4,5) by simp_all
  moreover have "session_recorded we z outcome rq rs ?u t = session_recorded we z outcome rq rs s t"
    for rq rs
    using kept(1) by (simp add: fun_eq_iff session_recorded_def evidence_of_def)
  ultimately show ?thesis
    using files z(2-5) by auto
qed

section \<open>Reading a replayed response\<close>

text \<open>The adapter's loop: read until the end is announced.\<close>

fun read_response ::
  "world_io \<Rightarrow> nat \<Rightarrow> nat \<Rightarrow> ('r automatic_world, bytes \<times> bool) act" where
  "read_response io sid 0 s = (Inr ([], False), s)"
| "read_response io sid (Suc fuel) s =
     act_bind (read_observation_response io sid) (\<lambda>(chunk, eof).
       if eof then act_res (Inr (chunk, True))
       else act_bind (read_response io sid fuel) (\<lambda>(rest, eof').
         act_res (Inr (chunk @ rest, eof')))) s"

text \<open>The file is there and no read of it fails; reads may be short.\<close>

definition readable :: "world_io \<Rightarrow> spool_file \<Rightarrow> bool" where
  "readable io f \<longleftrightarrow> io_open io f \<and> (\<forall>offset. io_count io f offset \<noteq> None)"

lemma read_once:
  assumes "bt_get (aw_sessions s) sid = Some x" "os_state x = SessionReplay offset"
    "readable io (os_response_path x)" "aw_spool s (os_response_path x) = Some response"
    "os_response_bytes x = length response" "offset \<le> length response"
    "length response \<le> U64_MAX"
  shows "\<exists>chunk. chunk @ drop (offset + length chunk) response = drop offset response
    \<and> length chunk \<le> MAX_RESPONSE_READ_BYTES \<and> (chunk = [] \<longrightarrow> offset = length response)
    \<and> read_observation_response io sid s
        = (Inr (chunk, offset + length chunk = length response),
           set_session sid (x\<lparr>os_state := SessionReplay (offset + length chunk)\<rparr>) s)"
proof -
  obtain n where n: "io_count io (os_response_path x) offset = Some n"
    using assms(3) by (auto simp: readable_def)
  define chunk where
    "chunk = take (min MAX_RESPONSE_READ_BYTES (max 1 n)) (drop offset response)"
  have "read_at io (os_response_path x) response offset MAX_RESPONSE_READ_BYTES = Inr chunk"
    by (simp add: read_at_def n chunk_def)
  moreover have bound: "offset + length chunk \<le> length response" using assms(6) by (simp add: chunk_def)
  moreover have "io_open io (os_response_path x)" using assms(3) by (simp add: readable_def)
  ultimately have "read_observation_response io sid s
        = (Inr (chunk, offset + length chunk = length response),
           set_session sid (x\<lparr>os_state := SessionReplay (offset + length chunk)\<rparr>) s)"
    using assms by (simp add: read_observation_response_def open_file_def checked_add_def)
  moreover have "chunk @ drop (offset + length chunk) response = drop offset response"
    by (simp add: chunk_def min_def) (metis append_take_drop_id drop_drop add.commute)
  moreover have "chunk = [] \<longrightarrow> offset = length response"
    using assms(6) by (auto simp: chunk_def limits)
  moreover have "length chunk \<le> MAX_RESPONSE_READ_BYTES" by (simp add: chunk_def)
  ultimately show ?thesis by blast
qed

lemma read_response_rest:
  assumes "bt_get (aw_sessions s) sid = Some x" "os_state x = SessionReplay offset"
    "readable io (os_response_path x)" "aw_spool s (os_response_path x) = Some response"
    "os_response_bytes x = length response" "offset \<le> length response"
    "length response \<le> U64_MAX" "max 1 (length response - offset) \<le> fuel"
  shows "fst (read_response io sid fuel s) = Inr (drop offset response, True)"
  using assms
proof (induction fuel arbitrary: s x offset)
  case 0
  then show ?case by simp
next
  case (Suc fuel)
  obtain chunk where chunk: "chunk @ drop (offset + length chunk) response = drop offset response"
      "chunk = [] \<longrightarrow> offset = length response"
    and read: "read_observation_response io sid s
        = (Inr (chunk, offset + length chunk = length response),
           set_session sid (x\<lparr>os_state := SessionReplay (offset + length chunk)\<rparr>) s)"
    using read_once [OF Suc.prems(1-7)] by blast
  let ?t = "set_session sid (x\<lparr>os_state := SessionReplay (offset + length chunk)\<rparr>) s"
  show ?case
  proof (cases "offset + length chunk = length response")
    case True
    then show ?thesis using read chunk(1) by (simp add: act_bind_def act_res_def)
  next
    case False
    have progress: "0 < length chunk" using False chunk(2) by auto
    have bound: "offset + length chunk \<le> length response"
      using Suc.prems(6) arg_cong [OF chunk(1), of length] False by simp
    have left: "max 1 (length response - (offset + length chunk)) \<le> fuel"
      using Suc.prems(8) progress False bound by linarith
    have "fst (read_response io sid fuel ?t) = Inr (drop (offset + length chunk) response, True)"
      by (rule Suc.IH [where x = "x\<lparr>os_state := SessionReplay (offset + length chunk)\<rparr>"])
        (use Suc.prems(3-5,7) bound left in \<open>simp_all add: set_session_def\<close>)
    then show ?thesis
      using read chunk(1) False by (simp add: act_bind_cases act_res_def)
  qed
qed

text \<open>
  C28: A replayed response is read back whole.  When a dispatch in replay mode succeeds over a file
  system that stores what it says, the adapter's read loop ends within as many reads as the
  response has bytes (one, for an empty response), whatever short reads the system answers with,
  and returns exactly the response the replay recorded for the session's class, position and
  request.
\<close>

theorem replay_read_whole:
  assumes "dispatch_observation we io sid s = (Inr ActionReplay, t)" "aw_mode s = ReplayMode replay"
    "bt_get (aw_sessions s) sid = Some x" "io_faithful io" "readable io' (os_response_path x)"
  shows "\<exists>request response replay'.
    aw_spool s (os_request_path x) = Some request
    \<and> take_response (we_replay we) (os_class x) (os_position x) request replay
        = (Inr response, replay')
    \<and> aw_mode t = ReplayMode replay'
    \<and> (length response \<le> U64_MAX \<longrightarrow> (\<forall>fuel \<ge> max 1 (length response).
          fst (read_response io' sid fuel t) = Inr (response, True)))"
proof -
  have "dispatch_replay we io sid x replay s = (Inr ActionReplay, t)"
    using assms(1-3) by (auto simp: dispatch_observation_def fail_incomplete_def
        split: sum.splits if_splits)
  then obtain request response replay' where
    got: "aw_spool s (os_request_path x) = Some request"
      "take_response (we_replay we) (os_class x) (os_position x) request replay
         = (Inr response, replay')"
    and rest: "act_bind (write_file io (os_response_path x) response) (\<lambda>_ s.
          (Inr ActionReplay, set_session sid
            (x\<lparr>os_response_bytes := length response, os_state := SessionReplay 0\<rparr>) s))
        (snd (aw_reserve (length response) (set_session sid
            (x\<lparr>os_response_bytes := length response\<rparr>) (s\<lparr>aw_mode := ReplayMode replay'\<rparr>))))
      = (Inr ActionReplay, t)"
    by (auto simp: dispatch_replay_def act_do_res reserve_case fail_incomplete_def Let_def
        read_whole_def bind_res_eq_Inr split: sum.splits prod.splits if_splits)
  let ?u = "snd (aw_reserve (length response) (set_session sid
      (x\<lparr>os_response_bytes := length response\<rparr>) (s\<lparr>aw_mode := ReplayMode replay'\<rparr>)))"
  let ?y = "x\<lparr>os_response_bytes := length response, os_state := SessionReplay 0\<rparr>"
  obtain new where new: "io_write io (os_response_path x) response = (True, new)"
    and t: "t = set_session sid ?y
        (?u\<lparr>aw_spool := (aw_spool ?u)(os_response_path x \<mapsto> new)\<rparr>)"
    using rest by (auto simp: act_bind_def write_file_def split: prod.splits if_splits)
  have "new = response" using assms(4) new unfolding io_faithful_def by blast
  then have spool: "aw_spool t (os_response_path ?y) = Some response"
    by (simp add: t set_session_def)
  have session: "bt_get (aw_sessions t) sid = Some ?y" by (simp add: t)
  have "fst (read_response io' sid fuel t) = Inr (drop 0 response, True)"
    if "length response \<le> U64_MAX" "max 1 (length response) \<le> fuel" for fuel
    by (rule read_response_rest [OF session _ _ spool]) (use assms(5) that in simp_all)
  moreover have "aw_mode t = ReplayMode replay'"
    by (simp add: t set_session_def)
  ultimately show ?thesis using got by auto
qed

section \<open>The bytes of the process ledger\<close>

definition holds_bytes :: "nat \<Rightarrow> 'r automatic_world \<Rightarrow> bool" where
  "holds_bytes others s \<longleftrightarrow>
     pr_capture_bytes (aw_resources s) = others + aw_reserved s
     \<and> pr_capture_bytes (aw_resources s) \<le> MAX_PROCESS_CAPTURE_BYTES"

lemma state_delete_capture_bytes [simp]:
  "pr_capture_bytes (snd (state_delete op sd r)) = pr_capture_bytes r"
  by (simp add: state_delete_def release_operation_def Let_def split: option.splits)

lemma grow_operation_capture_bytes [simp]:
  "pr_capture_bytes (snd (grow_operation op n r)) = pr_capture_bytes r"
  by (simp add: grow_operation_def split: option.splits)

lemma sdk_append_capture_bytes:
  "pr_capture_bytes (snd (snd (sdk_append c op kind p sd r))) = pr_capture_bytes r"
proof (cases "bt_get (sdk_operations sd) op")
  case None
  then show ?thesis by (simp add: sdk_append_def)
next
  case (Some a)
  let ?rec = "bind_res (ok_or RuntimeQuota (u16_try_from (length (op_records a))))
                 (\<lambda>sequence. make_event_record c kind sequence p)"
  show ?thesis
  proof (cases ?rec)
    case (Inl e)
    then show ?thesis by (simp add: sdk_append_def Some)
  next
    case (Inr rec)
    obtain b t where grown: "grow_operation op (record_size rec) r = (b, t)"
      by (cases "grow_operation op (record_size rec) r")
    have "pr_capture_bytes t = pr_capture_bytes r"
      using grow_operation_capture_bytes [of op "record_size rec" r] by (simp add: grown)
    then show ?thesis
      by (simp add: sdk_append_def Some Inr grown Let_def case_prod_beta split: bool.splits)
  qed
qed

lemma push_ledger:
  "aw_reserved (snd (push_observation we ob s)) = aw_reserved s"
  "pr_capture_bytes (aw_resources (snd (push_observation we ob s)))
     = pr_capture_bytes (aw_resources s)"
  "aw_reserved (snd (push_dependency we c s)) = aw_reserved s"
  "pr_capture_bytes (aw_resources (snd (push_dependency we c s)))
     = pr_capture_bytes (aw_resources s)"
  using sdk_append_capture_bytes [of "we_core we" "aw_operation_id s" Observation
      "ObservationPayload ob" "aw_sdk s" "aw_resources s"]
    sdk_append_capture_bytes [of "we_core we" "aw_operation_id s" Dependency
      "DependencyPayload c" "aw_sdk s" "aw_resources s"]
  by (auto simp: push_observation_def push_dependency_def record_observation_def
      record_dependency_def split: world_mode.splits prod.splits sum.splits)

lemma reserve_holds:
  assumes "holds_bytes others s"
  shows "holds_bytes others (snd (aw_reserve n s))"
proof -
  have "wrapping_add (aw_reserved s) n = aw_reserved s + n"
    if "pr_capture_bytes (aw_resources s) + n \<le> MAX_PROCESS_CAPTURE_BYTES"
    using assms that by (intro wrapping_add_exact) (auto simp: holds_bytes_def limits)
  then show ?thesis
    using assms by (auto simp: holds_bytes_def aw_reserve_def reserve_capture_bytes_def
        split: option.splits)
qed

interpretation bytes: coordinator_property we "holds_bytes others" for we others
proof unfold_locales
  show "holds_bytes others (snd (aw_reserve n s))" if "holds_bytes others s"
    for n and s :: "'a automatic_world"
    by (rule reserve_holds [OF that])
qed (auto simp: holds_bytes_def push_ledger)

text \<open>
  C29: The ledger gets its bytes back.  Whatever an operation's adapters do, from the capture of
  the ambient context on and whatever each call answers, the process ledger holds exactly the
  bytes of the others plus the reservation of this World, within the process bound; dropping the
  coordinator, a \<open>close\<close> that fails, or dropping the capture of one that succeeds returns the
  ledger to the bytes it had before the operation.
\<close>

theorem world_bytes_returned:
  assumes new: "new_with_registrations True op registrations sd r = Inr s0"
    and within: "pr_capture_bytes r \<le> MAX_PROCESS_CAPTURE_BYTES"
    and run: "s = world_run we calls (snd (capture_ambient we io io' vars s0))"
  shows "pr_capture_bytes (aw_resources s) = pr_capture_bytes r + aw_reserved s
    \<and> pr_capture_bytes (aw_resources s) \<le> MAX_PROCESS_CAPTURE_BYTES
    \<and> pr_capture_bytes (world_drop s) = pr_capture_bytes r
    \<and> (case close_world we io'' completion s of
         (Inl e, sd', r') \<Rightarrow> pr_capture_bytes r' = pr_capture_bytes r
       | (Inr cap, sd', r') \<Rightarrow> pr_capture_bytes (capture_drop cap r') = pr_capture_bytes r)"
proof -
  have "holds_bytes (pr_capture_bytes r) s0"
    using new within by (auto simp: new_with_registrations_def new_mode_def holds_bytes_def)
  then have s: "holds_bytes (pr_capture_bytes r) s"
    unfolding run by (intro bytes.runs bytes.ambients)
  have drop: "pr_capture_bytes (reservation_drop (aw_reserved t) (aw_resources t)) = pr_capture_bytes r"
    if "holds_bytes (pr_capture_bytes r) t" for t :: "'a automatic_world"
    using that by (simp add: holds_bytes_def reservation_drop_def)
  obtain result t where t: "close_steps we io'' completion s = (result, t)"
    by (cases "close_steps we io'' completion s")
  have "snd (close_steps we io'' completion s) \<in> {s, snd (commit_dependency_transcript we io'' s)}"
    by (auto simp: close_steps_def snd_act_bind split: sum.splits)
  then have "holds_bytes (pr_capture_bytes r) t"
    using s bytes.transcripts [OF s] by (auto simp: t)
  then show ?thesis
    using s drop t close_steps_Inr [of we io'' completion s _ t]
    by (auto simp: world_drop_def close_world_def capture_drop_def holds_bytes_def
        split: sum.splits)
qed

section \<open>Losses nothing records\<close>

text \<open>
  C40: The loss of an unowned observation leaves no trace.  When the evidence of an unowned
  observation cannot be stored, \<open>mark_unowned\<close> fails, and nothing \<open>close\<close> looks at has changed:
  the World closes exactly when it would have without the observation.  (Every other failure of a
  write marks the operation incomplete.)
\<close>

theorem unowned_loss_unnoticed:
  assumes "aw_mode s = CaptureMode" "evidence \<noteq> []" "length (aw_observations s) < MAX_EVENTS"
    "length evidence \<le> MAX_WORLD_ARTIFACT_BYTES" "fst (aw_reserve (length evidence) s)"
    "\<not> fst (io_write io (UnownedFile (length (aw_observations s))) evidence)"
  shows "fst (mark_unowned we io class parent evidence s) = Inl ServiceUnavailable
    \<and> evidence_of (snd (mark_unowned we io class parent evidence s)) = evidence_of s
    \<and> world_is_open (snd (mark_unowned we io class parent evidence s)) = world_is_open s"
proof -
  let ?f = "UnownedFile (length (aw_observations s))"
  obtain new where failed: "io_write io ?f evidence = (False, new)"
    using assms(6) by (cases "io_write io ?f evidence") auto
  let ?t = "(snd (aw_reserve (length evidence) s))
      \<lparr>aw_spool := (aw_spool s)(?f \<mapsto> new)\<rparr>"
  have small: "u16_try_from (length (aw_observations s)) = Some (length (aw_observations s))"
    using assms(3) by (simp add: limits)
  have "mark_unowned we io class parent evidence s = (Inl ServiceUnavailable, ?t)"
    using assms(1-5) failed
    by (simp add: small mark_unowned_def reserve_case bind_act_res act_bind_cases write_file_def Let_def)
  then show ?thesis by (simp add: world_is_open_def evidence_of_def)
qed

text \<open>
  C38: So does an observation that could not be opened.  When the spool refuses the file of a new
  session, \<open>open_observation\<close> fails, and the World closes exactly when it would have without it.
\<close>

theorem open_loss_unnoticed:
  assumes "bt_contains (aw_registrations s) class"
    "length (aw_sessions s) < MAX_OBSERVATION_SESSIONS" "\<not> bt_contains (aw_sessions s) sid"
    "\<not> io_create io (RequestFile sid)"
  shows "open_observation io sid class parent s = (Inl ServiceUnavailable, s)"
  using assms by (auto simp: open_observation_def open_observation_inner_def act_bind_cases
      create_file_def split: world_mode.splits)

end
