(* ===== verification/World_Witnesses.thy ===== *)
theory World_Witnesses
  imports World_Capture Sdk_Theorems
begin

text \<open>
  Concrete runs of the coordinator: an operation with one database call whose World closes, a run
  that loses a chunk, a replayed response, and failed writes of the spool.
\<close>

definition demo_codec :: "(bytes \<Rightarrow> 'a) \<Rightarrow> ('a \<Rightarrow> bytes) \<Rightarrow> 'a codec" where
  "demo_codec parse encode =
     \<lparr>codec_parse = (\<lambda>bs. Inr (parse bs)), codec_validate = (\<lambda>_. Inr ()),
      codec_bytes = (\<lambda>x. Inr (encode x))\<rparr>"

definition demo_replay :: "bytes replay_api" where
  "demo_replay =
     \<lparr>take_response = (\<lambda>class pos request response. (Inr response, [])),
      require_complete = (\<lambda>response. if response = [] then Inr () else Inl WorldNotClosed),
      first_position = (\<lambda>_. 0)\<rparr>"

definition demo_env :: "bytes world_env" where
  "demo_env =
     \<lparr>we_core = demo_core, we_replay = demo_replay, sha256 = (\<lambda>bs. Digest (length bs)),
      digest_bytes = (\<lambda>_. [7]), show_digest = (\<lambda>_. ''d''), boundary_id = (\<lambda>_. ''b''),
      closure_mechanism = (\<lambda>_. 0), text_bytes = map of_char, parse_timestamp = Inr,
      add_seconds = (\<lambda>_ t. t),
      dependency_request_codec = demo_codec
        (\<lambda>bs. \<lparr>dq_encoding = [], dq_metadata = bs, dq_method = None, dq_class = Database,
          dq_operation = 0, dq_payload = [], dq_protocol = [], dq_target = []\<rparr>) dq_metadata,
      dependency_response_codec = demo_codec
        (\<lambda>bs. \<lparr>dp_error_code = None, dp_error_number = None, dp_metadata = bs,
          dp_class = Database, dp_operation = 0, dp_outcome = OutcomeResponse, dp_payload = None,
          dp_request_digest = Digest 0, dp_status = None, dp_status_code = None\<rparr>) dp_metadata,
      observation_request_codec =
        demo_codec (\<lambda>bs. \<lparr>oq_operation = ClockWallTime, oq_rest = bs\<rparr>) oq_rest,
      observation_response_codec =
        demo_codec (\<lambda>bs. \<lparr>op_outcome = OutcomeResponse, op_rest = bs\<rparr>) op_rest,
      validate_dependency_pair = (\<lambda>_ _. Inr ()), validate_observation_pair = (\<lambda>_ _. Inr ()),
      validate_ownership = (\<lambda>_. Inr ()), canonical_ownership = (\<lambda>_. Inr [1]),
      canonical_environment = (\<lambda>_. Inr [1, 2]), digest_interaction = (\<lambda>_. Inr (Digest 3)),
      digest_reference = (\<lambda>_. Inr (Digest 4)), digest_evidence = (\<lambda>_. Inr (Digest 5)),
      digest_observations = (\<lambda>_. Inr (Digest 6)), digest_policy = (\<lambda>_. Inr (Digest 8)),
      transcript_codec = demo_codec
        (\<lambda>_. \<lparr>tr_adapter_id = [], tr_adapter_version = [], tr_interactions = []\<rparr>) (\<lambda>_. [1]),
      validate_cursor = (\<lambda>_. Inr ()), validate_closure = (\<lambda>_. Inr ()),
      validate_checkpoint = (\<lambda>_. Inr ())\<rparr>"

definition demo_time :: offset_date_time where
  "demo_time = \<lparr>dt_year = 2026, dt_month = 1, dt_day = 2, dt_hour = 3, dt_minute = 4,
     dt_second = 5, dt_millisecond = 6\<rparr>"

definition demo_io :: world_io where
  "demo_io =
     \<lparr>io_create = (\<lambda>_. True), io_append = (\<lambda>_ old chunk. (True, old @ chunk)),
      io_write = (\<lambda>_ data. (True, data)), io_open = (\<lambda>_. True), io_count = (\<lambda>_ _. Some 2),
      io_object_id = (\<lambda>n. Inr n), io_now = (\<lambda>_. demo_time)\<rparr>"

lemma demo_io_faithful: "io_faithful demo_io"
  by (simp add: io_faithful_def demo_io_def)

definition demo_registrations :: "(observation_class, registration) btree" where
  "demo_registrations =
     map (\<lambda>class. (class, \<lparr>rg_adapter_id = ''guard'', rg_adapter_version = ''1'', rg_class = class,
       rg_implementation_digest = Digest 1, rg_sentinel_coverage_digest = None\<rparr>)) ALL_CLASSES"

definition demo_world :: "bytes automatic_world" where
  "demo_world =
     \<lparr>aw_artifacts = [], aw_interactions = [], aw_dropped = 0, aw_incomplete = False,
      aw_next_internal = U64_MAX, aw_observations = [], aw_operation_id = OperationId 7,
      aw_overflowed = False, aw_registrations = demo_registrations, aw_reserved = 0,
      aw_mode = CaptureMode, aw_sessions = [], aw_positions = [], aw_spool = (\<lambda>_. None),
      aw_sdk = demo_sdk, aw_resources = demo_resources\<rparr>"

lemma demo_new:
  "new_with_registrations True (OperationId 7) demo_registrations demo_sdk demo_resources
     = Inr demo_world"
  by (simp add: new_with_registrations_def new_mode_def demo_world_def)

definition demo_calls :: "world_call list" where
  "demo_calls =
     [CallOpen demo_io 1 Database None, CallWrite demo_io 1 RequestStream [1, 2],
      CallDispatch demo_io 1, CallWrite demo_io 1 ResponseStream [3],
      CallFinish demo_io 1 OutcomeResponse 0, CallBind [9]]"

definition demo_closed :: "world_capture res \<times> sdk \<times> process_resources" where
  "demo_closed = close_world demo_env demo_io Return (world_run demo_env demo_calls
     (snd (capture_ambient demo_env demo_io demo_io [([65], [66, 67])] demo_world)))"

lemma demo_closes: "is_ok (fst demo_closed)"
  unfolding demo_closed_def demo_world_def demo_sdk_def demo_resources_def by code_simp

lemma demo_ids:
  "distinct (opened_ids demo_calls)" "\<forall>sid \<in> set (opened_ids demo_calls). sid < U64_MAX - 1"
  by (simp_all add: demo_calls_def limits)

lemma demo_closedE:
  obtains cap sd r where "close_world demo_env demo_io Return (world_run demo_env demo_calls
     (snd (capture_ambient demo_env demo_io demo_io [([65], [66, 67])] demo_world)))
     = (Inr cap, sd, r)" "fst demo_closed = Inr cap"
  using demo_closes by (cases demo_closed; cases "fst demo_closed") (auto simp: demo_closed_def)



theorem loss_refuses_world_witness:
  "fst (close_world demo_env demo_io Return (world_run demo_env
     (CallWrite demo_io 1 RequestStream [] # demo_calls) demo_world)) = Inl WorldNotClosed"
proof -
  have "loses demo_env (CallWrite demo_io 1 RequestStream []) demo_world"
    by (simp add: loses_def write_observation_def)
  from loss_refuses_world [OF this, of demo_io Return demo_calls] show ?thesis
    by (simp add: demo_world_def)
qed

lemma demo_ledger: "pr_capture_bytes demo_resources = 0"
  unfolding demo_resources_def by code_simp

theorem world_bytes_returned_witness:
  "pr_capture_bytes (world_drop (world_run demo_env demo_calls
     (snd (capture_ambient demo_env demo_io demo_io [] demo_world)))) = 0"
  using world_bytes_returned [OF demo_new _ refl, of demo_env demo_calls demo_io demo_io "[]"]
  by (simp add: demo_ledger)

theorem observation_recorded_witness:
  "aw_spool (snd (observe demo_env demo_io 1 Database None [[1, 2], [3]] [[4]] OutcomeResponse
     demo_world)) (RequestFile 1) = Some [1, 2, 3]"
proof -
  have "is_ok (fst (observe demo_env demo_io 1 Database None [[1, 2], [3]] [[4]] OutcomeResponse
      demo_world))"
    unfolding demo_world_def demo_sdk_def demo_resources_def by code_simp
  then obtain t where t: "observe demo_env demo_io 1 Database None [[1, 2], [3]] [[4]]
      OutcomeResponse demo_world = (Inr (), t)"
    by (cases "observe demo_env demo_io 1 Database None [[1, 2], [3]] [[4]] OutcomeResponse
      demo_world"; cases "fst (observe demo_env demo_io 1 Database None [[1, 2], [3]] [[4]]
      OutcomeResponse demo_world)") auto
  show ?thesis
    using observation_recorded [OF t demo_io_faithful] t by (simp add: demo_world_def)
qed

definition demo_replaying :: "bytes automatic_world" where
  "demo_replaying = snd (write_observation demo_io 1 RequestStream [1, 2]
     (snd (open_observation demo_io 1 Database None
       (demo_world\<lparr>aw_mode := ReplayMode [5, 6, 7]\<rparr>))))"

theorem replay_read_whole_witness:
  "fst (read_response demo_io 1 3 (snd (dispatch_observation demo_env demo_io 1 demo_replaying)))
     = Inr ([5, 6, 7], True)"
proof -
  let ?x = "new_session 1 Database None True 0\<lparr>os_request_bytes := 2\<rparr>"
  have "fst (dispatch_observation demo_env demo_io 1 demo_replaying) = Inr ActionReplay"
    and mode: "aw_mode demo_replaying = ReplayMode [5, 6, 7]"
    and x: "bt_get (aw_sessions demo_replaying) 1 = Some ?x"
    unfolding demo_replaying_def demo_world_def demo_sdk_def demo_resources_def by code_simp+
  then obtain t where t: "dispatch_observation demo_env demo_io 1 demo_replaying = (Inr ActionReplay, t)"
    by (cases "dispatch_observation demo_env demo_io 1 demo_replaying") auto
  have readable: "readable demo_io f" for f by (simp add: readable_def demo_io_def)
  have "take_response (we_replay demo_env) = (\<lambda>class pos request response. (Inr response, []))"
    by (simp add: demo_env_def demo_replay_def)
  then have "\<forall>fuel \<ge> 3. fst (read_response demo_io 1 fuel t) = Inr ([5, 6, 7], True)"
    using replay_read_whole [OF t mode x demo_io_faithful readable] by (auto simp: limits)
  then show ?thesis unfolding t by simp
qed

theorem unowned_loss_unnoticed_witness:
  "fst (mark_unowned demo_env (demo_io\<lparr>io_write := (\<lambda>_ _. (False, []))\<rparr>) Filesystem None [1]
     demo_world) = Inl ServiceUnavailable"
proof -
  have "fst (aw_reserve 1 demo_world)"
    by (simp add: demo_world_def aw_reserve_def reserve_capture_bytes_def demo_ledger
        checked_add_def limits)
  then show ?thesis
    using unowned_loss_unnoticed [of demo_world "[1]" "demo_io\<lparr>io_write := (\<lambda>_ _. (False, []))\<rparr>"
        demo_env Filesystem None]
    by (simp add: demo_world_def limits)
qed

theorem open_loss_unnoticed_witness:
  "open_observation (demo_io\<lparr>io_create := (\<lambda>_. False)\<rparr>) 1 Clock None demo_world
     = (Inl ServiceUnavailable, demo_world)"
proof -
  have "bt_contains (aw_registrations demo_world) Clock" "\<not> bt_contains (aw_sessions demo_world) 1"
    "length (aw_sessions demo_world) < MAX_OBSERVATION_SESSIONS"
    by (simp_all add: demo_world_def limits demo_registrations_def ALL_CLASSES_def bt_contains_def)
  then show ?thesis by (intro open_loss_unnoticed) simp_all
qed

end
