(* ===== verification/Automatic_Context.thy ===== *)
theory Automatic_Context
  imports World_Capture
begin

text \<open>
  The ambient context of an operation
  (\<^verbatim>\<open>crates/reproit-sdk-rust/src/automatic_context.rs\<close>): the coordinator behind its lock, the
  process-wide table of active operations, the stack of contexts of a thread with the guard of a
  poll, and the observation sessions an application opens through it.  An \<open>Arc\<close> is an address; the
  object is gone from \<open>cs_shared\<close> when its last owner is, so \<open>Weak::upgrade\<close> is a lookup.  The
  ledger of the process is one field, handed to a coordinator for the time of a call.
\<close>

definition AMBIENT_SESSION_ID_START :: nat where
  [limits]: "AMBIENT_SESSION_ID_START = 9223372036854775808"
definition MAX_AUTOMATIC_OPERATION_NESTING :: nat where
  [limits]: "MAX_AUTOMATIC_OPERATION_NESTING = 16"

section \<open>State\<close>

record operation_context =
  cx_operation_id :: operation_id
  cx_shared :: nat

record 'r operation_shared =
  sh_operation_id :: operation_id
  sh_registered :: bool
  sh_ambient_session_count :: nat
  sh_coordinator :: "'r automatic_world option"
  sh_invalid_context :: bool

record 'r context_state =
  cs_shared :: "nat \<Rightarrow> 'r operation_shared option"
  cs_active :: "(operation_id, nat) btree"
  cs_stack :: "operation_context list"
  cs_resources :: process_resources

definition update_shared ::
  "nat \<Rightarrow> ('r operation_shared \<Rightarrow> 'r operation_shared) \<Rightarrow> 'r context_state \<Rightarrow> 'r context_state" where
  "update_shared a f cs =
     (case cs_shared cs a of
        None \<Rightarrow> cs
      | Some sh \<Rightarrow> cs\<lparr>cs_shared := (cs_shared cs)(a \<mapsto> f sh)\<rparr>)"

text \<open>A coordinator that goes away gives its reservation back.\<close>

definition drop_coordinator :: "'r automatic_world option \<Rightarrow> 'r context_state \<Rightarrow> 'r context_state" where
  "drop_coordinator w cs =
     (case w of
        None \<Rightarrow> cs
      | Some s \<Rightarrow> cs\<lparr>cs_resources := reservation_drop (aw_reserved s) (cs_resources cs)\<rparr>)"

section \<open>The shared state of an operation\<close>

definition state_invalidate :: "'r operation_shared \<Rightarrow> 'r operation_shared" where
  "state_invalidate sh =
     sh\<lparr>sh_invalid_context := True,
        sh_coordinator := map_option invalidate_ambient_context (sh_coordinator sh)\<rparr>"

definition shared_invalidate :: "nat \<Rightarrow> 'r context_state \<Rightarrow> 'r context_state" where
  "shared_invalidate a = update_shared a state_invalidate"

definition is_active :: "nat \<Rightarrow> 'r context_state \<Rightarrow> bool" where
  "is_active a cs =
     (case cs_shared cs a of
        None \<Rightarrow> False
      | Some sh \<Rightarrow> \<not> sh_invalid_context sh \<and> sh_coordinator sh \<noteq> None)"

definition retain_alive :: "'r context_state \<Rightarrow> 'r context_state" where
  "retain_alive cs = cs\<lparr>cs_active := bt_retain (\<lambda>_ a. cs_shared cs a \<noteq> None) (cs_active cs)\<rparr>"

definition register_active_operation ::
  "operation_id \<Rightarrow> nat \<Rightarrow> ('r context_state, unit) act" where
  "register_active_operation op a cs =
     (let cs1 = retain_alive cs
      in if length (cs_active cs1) \<ge> MAX_ACTIVE_OPERATIONS \<or> bt_contains (cs_active cs1) op
         then (Inl RuntimeQuota, cs1)
         else (Inr (), cs1\<lparr>cs_active := bt_insert op a (cs_active cs1)\<rparr>))"

definition unregister_active_operation :: "operation_id \<Rightarrow> 'r context_state \<Rightarrow> 'r context_state" where
  "unregister_active_operation op cs = cs\<lparr>cs_active := bt_remove op (cs_active cs)\<rparr>"

definition shared_unregister :: "nat \<Rightarrow> 'r context_state \<Rightarrow> 'r context_state" where
  "shared_unregister a cs =
     (case cs_shared cs a of
        None \<Rightarrow> cs
      | Some sh \<Rightarrow>
          let cs1 = update_shared a (\<lambda>sh. sh\<lparr>sh_registered := False\<rparr>) cs
          in if sh_registered sh then unregister_active_operation (sh_operation_id sh) cs1 else cs1)"

text \<open>\<open>AutomaticOperationShared::new\<close> at a new address: a refused registration drops the object.\<close>

definition shared_new ::
  "nat \<Rightarrow> operation_id \<Rightarrow> 'r automatic_world \<Rightarrow> ('r context_state, nat) act" where
  "shared_new a op coordinator cs =
     (case register_active_operation op a
         (cs\<lparr>cs_shared := (cs_shared cs)(a \<mapsto>
            \<lparr>sh_operation_id = op, sh_registered = False, sh_ambient_session_count = 0,
             sh_coordinator = Some coordinator, sh_invalid_context = False\<rparr>)\<rparr>) of
        (Inl e, cs1) \<Rightarrow>
          (Inl e, drop_coordinator (Some coordinator) (cs1\<lparr>cs_shared := (cs_shared cs1)(a := None)\<rparr>))
      | (Inr _, cs1) \<Rightarrow> (Inr a, update_shared a (\<lambda>sh. sh\<lparr>sh_registered := True\<rparr>) cs1))"

text \<open>Drop of the last owner.\<close>

definition shared_drop :: "nat \<Rightarrow> 'r context_state \<Rightarrow> 'r context_state" where
  "shared_drop a cs =
     (case cs_shared cs a of
        None \<Rightarrow> cs
      | Some sh \<Rightarrow>
          let cs1 = shared_unregister a cs
          in drop_coordinator (sh_coordinator sh) (cs1\<lparr>cs_shared := (cs_shared cs1)(a := None)\<rparr>))"

text \<open>The action runs on the coordinator and on the ledger of the process.\<close>

definition run_coordinator ::
  "nat \<Rightarrow> 'r operation_shared \<Rightarrow> 'r automatic_world \<Rightarrow> ('r automatic_world, 'a) act
     \<Rightarrow> ('r context_state, 'a) act" where
  "run_coordinator a sh coordinator action cs =
     (let (result, s) = action (coordinator\<lparr>aw_resources := cs_resources cs\<rparr>)
      in (result, cs\<lparr>cs_shared := (cs_shared cs)(a \<mapsto> sh\<lparr>sh_coordinator := Some s\<rparr>),
                     cs_resources := aw_resources s\<rparr>))"

definition with_coordinator ::
  "nat \<Rightarrow> ('r automatic_world, 'a) act \<Rightarrow> ('r context_state, 'a) act" where
  "with_coordinator a action cs =
     (case cs_shared cs a of
        None \<Rightarrow> (Inl IncompleteCandidate, cs)
      | Some sh \<Rightarrow>
          if sh_invalid_context sh then (Inl IncompleteCandidate, cs)
          else case sh_coordinator sh of
              None \<Rightarrow> (Inl IncompleteCandidate, cs)
            | Some coordinator \<Rightarrow> run_coordinator a sh coordinator action cs)"

definition take_for_close :: "nat \<Rightarrow> ('r context_state, 'r automatic_world) act" where
  "take_for_close a cs =
     (let cs1 = shared_unregister a cs
      in case cs_shared cs1 a of
           None \<Rightarrow> (Inl IncompleteCandidate, cs1)
         | Some sh \<Rightarrow>
             if sh_invalid_context sh
             then (Inl IncompleteCandidate, drop_coordinator (sh_coordinator sh)
                     (update_shared a (\<lambda>sh. sh\<lparr>sh_coordinator := None\<rparr>) cs1))
             else (ok_or IncompleteCandidate (map_option
                     (\<lambda>s. s\<lparr>aw_resources := cs_resources cs1\<rparr>) (sh_coordinator sh)),
                   update_shared a
                     (\<lambda>sh. sh\<lparr>sh_invalid_context := True, sh_coordinator := None\<rparr>) cs1))"

definition deactivate :: "nat \<Rightarrow> 'r context_state \<Rightarrow> 'r context_state" where
  "deactivate a cs =
     (let cs1 = shared_unregister a cs
      in case cs_shared cs1 a of
           None \<Rightarrow> cs1
         | Some sh \<Rightarrow>
             drop_coordinator (sh_coordinator sh)
               (update_shared a
                  (\<lambda>sh. sh\<lparr>sh_invalid_context := True, sh_coordinator := None\<rparr>) cs1))"

section \<open>Ambient sessions on the shared state\<close>

definition open_ambient_observation ::
  "world_io \<Rightarrow> nat \<Rightarrow> observation_class \<Rightarrow> operation_id option
     \<Rightarrow> ('r context_state, nat \<times> nat) act" where
  "open_ambient_observation io a class parent cs =
     (case cs_shared cs a of
        None \<Rightarrow> (Inl IncompleteCandidate, cs)
      | Some sh \<Rightarrow>
          if sh_invalid_context sh then (Inl IncompleteCandidate, cs)
          else if sh_ambient_session_count sh \<ge> MAX_EVENTS
          then (Inl RuntimeQuota, shared_invalidate a cs)
          else case checked_add AMBIENT_SESSION_ID_START (sh_ambient_session_count sh) of
              None \<Rightarrow> (Inl RuntimeQuota, cs)
            | Some session_id \<Rightarrow>
                let sh1 = sh\<lparr>sh_ambient_session_count := sh_ambient_session_count sh + 1\<rparr>;
                    cs1 = cs\<lparr>cs_shared := (cs_shared cs)(a \<mapsto> sh1)\<rparr>
                in case sh_coordinator sh1 of
                     None \<Rightarrow> (Inl IncompleteCandidate, cs1)
                   | Some coordinator \<Rightarrow>
                       act_bind (run_coordinator a sh1 coordinator
                           (open_observation io session_id class parent)) (\<lambda>session_position.
                         act_res (Inr (session_id, session_position))) cs1)"

definition invalid_flag :: "nat \<Rightarrow> 'r context_state \<Rightarrow> 'r context_state" where
  "invalid_flag a = update_shared a (\<lambda>sh. sh\<lparr>sh_invalid_context := True\<rparr>)"

definition abandon_on ::
  "nat \<Rightarrow> nat \<Rightarrow> ('r context_state, unit) act" where
  "abandon_on a session_id cs =
     (case cs_shared cs a of
        None \<Rightarrow> (Inl IncompleteCandidate, cs)
      | Some sh \<Rightarrow>
          case sh_coordinator sh of
            None \<Rightarrow> (Inl IncompleteCandidate, cs)
          | Some coordinator \<Rightarrow>
              run_coordinator a sh coordinator (abandon_observation session_id) cs)"

text \<open>
  In \<open>abandon_session\<close> the question mark on a missing coordinator returns before the context is
  marked invalid; a refused abandonment marks it.
\<close>

definition abandon_session :: "nat \<Rightarrow> nat \<Rightarrow> ('r context_state, unit) act" where
  "abandon_session a session_id cs =
     (case cs_shared cs a of
        None \<Rightarrow> (Inl IncompleteCandidate, cs)
      | Some sh \<Rightarrow>
          if sh_coordinator sh = None then (Inl IncompleteCandidate, cs)
          else let (result, cs1) = abandon_on a session_id cs in (result, invalid_flag a cs1))"

definition fail_session :: "nat \<Rightarrow> nat \<Rightarrow> 'r context_state \<Rightarrow> 'r context_state" where
  "fail_session a session_id cs = invalid_flag a (snd (abandon_on a session_id cs))"

definition invalidate_all_active_operations :: "'r context_state \<Rightarrow> 'r context_state" where
  "invalidate_all_active_operations cs =
     fold shared_invalidate (map snd (cs_active (retain_alive cs))) (retain_alive cs)"

section \<open>The contexts of a thread\<close>

definition invalidate_top :: "'r context_state \<Rightarrow> 'r context_state" where
  "invalidate_top cs =
     (if cs_stack cs = [] then cs else shared_invalidate (cx_shared (List.last (cs_stack cs))) cs)"

definition require_current :: "operation_context \<Rightarrow> ('r context_state, unit) act" where
  "require_current ctx cs =
     (let matches = cs_stack cs \<noteq> [] \<and> List.last (cs_stack cs) = ctx
      in if \<not> matches \<or> \<not> is_active (cx_shared ctx) cs
         then (Inl IncompleteCandidate, invalidate_top (shared_invalidate (cx_shared ctx) cs))
         else (Inr (), cs))"

definition current :: "('r context_state, operation_context) act" where
  "current cs =
     (if cs_stack cs = [] then (Inl IncompleteCandidate, invalidate_all_active_operations cs)
      else let ctx = List.last (cs_stack cs)
           in act_bind (require_current ctx) (\<lambda>_. act_res (Inr ctx)) cs)"

datatype poll_restore = Pop operation_context | Replace "operation_context list"

definition poll_install ::
  "operation_context \<Rightarrow> 'r context_state \<Rightarrow> poll_restore \<times> 'r context_state" where
  "poll_install ctx cs =
     (if is_active (cx_shared ctx) cs
         \<and> length (cs_stack cs) < MAX_AUTOMATIC_OPERATION_NESTING
         \<and> \<not> (\<exists>entry \<in> set (cs_stack cs). cx_shared entry = cx_shared ctx)
      then (Pop ctx, cs\<lparr>cs_stack := cs_stack cs @ [ctx]\<rparr>)
      else (Replace (cs_stack cs), (shared_invalidate (cx_shared ctx) cs)\<lparr>cs_stack := []\<rparr>))"

definition invalidate_stack :: "'r context_state \<Rightarrow> 'r context_state" where
  "invalidate_stack cs = fold shared_invalidate (map cx_shared (cs_stack cs)) cs"

definition poll_drop :: "poll_restore \<Rightarrow> 'r context_state \<Rightarrow> 'r context_state" where
  "poll_drop restore cs =
     (case restore of
        Pop expected \<Rightarrow>
          (if cs_stack cs \<noteq> [] \<and> List.last (cs_stack cs) = expected
           then cs\<lparr>cs_stack := butlast (cs_stack cs)\<rparr>
           else let cs1 = (invalidate_top cs)\<lparr>cs_stack := butlast (cs_stack cs)\<rparr>
                in (invalidate_stack (shared_invalidate (cx_shared expected) cs1))\<lparr>cs_stack := []\<rparr>)
      | Replace previous \<Rightarrow> (invalidate_stack cs)\<lparr>cs_stack := previous\<rparr>)"

text \<open>\<open>scope_poll\<close>, and a poll of an \<open>AutomaticOperationScope\<close>.\<close>

definition context_scope_poll ::
  "operation_context \<Rightarrow> ('r context_state \<Rightarrow> 'a \<times> 'r context_state) \<Rightarrow> 'r context_state
     \<Rightarrow> 'a \<times> 'r context_state" where
  "context_scope_poll ctx poll cs =
     (let (restore, cs1) = poll_install ctx cs;
          (x, cs2) = poll cs1
      in (x, poll_drop restore cs2))"

section \<open>The sessions of an application\<close>

record ambient_session =
  as_context :: operation_context
  as_finished :: bool
  as_session_id :: nat
  as_session_position :: nat

definition context_open_observation ::
  "world_io \<Rightarrow> operation_context \<Rightarrow> observation_class \<Rightarrow> operation_id option
     \<Rightarrow> ('r context_state, ambient_session) act" where
  "context_open_observation io ctx class parent =
     act_bind (require_current ctx) (\<lambda>_.
     act_bind (open_ambient_observation io (cx_shared ctx) class parent)
       (\<lambda>(session_id, session_position).
         act_res (Inr \<lparr>as_context = ctx, as_finished = False, as_session_id = session_id,
                       as_session_position = session_position\<rparr>)))"

definition session_fail ::
  "error_code \<Rightarrow> ambient_session \<Rightarrow> 'r context_state
     \<Rightarrow> 'a res \<times> ambient_session \<times> 'r context_state" where
  "session_fail e se cs =
     (Inl e, se\<lparr>as_finished := True\<rparr>,
      fail_session (cx_shared (as_context se)) (as_session_id se) cs)"

definition session_run ::
  "(nat \<Rightarrow> ('r automatic_world, 'a) act) \<Rightarrow> ambient_session \<Rightarrow> 'r context_state
     \<Rightarrow> 'a res \<times> ambient_session \<times> 'r context_state" where
  "session_run action se cs =
     (if as_finished se then (Inl IncompleteCandidate, se, cs)
      else case require_current (as_context se) cs of
          (Inl e, cs1) \<Rightarrow> session_fail e se cs1
        | (Inr _, cs1) \<Rightarrow>
            case with_coordinator (cx_shared (as_context se)) (action (as_session_id se)) cs1 of
              (Inl e, cs2) \<Rightarrow> session_fail e se cs2
            | (Inr x, cs2) \<Rightarrow> (Inr x, se, cs2))"

definition session_write_request where
  "session_write_request io chunk =
     session_run (\<lambda>sid. write_observation io sid RequestStream chunk)"

definition session_dispatch where
  "session_dispatch we io = session_run (\<lambda>sid. dispatch_observation we io sid)"

definition session_write_response where
  "session_write_response io chunk =
     session_run (\<lambda>sid. write_observation io sid ResponseStream chunk)"

definition session_read_response where
  "session_read_response io = session_run (\<lambda>sid. read_observation_response io sid)"

definition session_drop :: "ambient_session \<Rightarrow> 'r context_state \<Rightarrow> 'r context_state" where
  "session_drop se cs =
     (if as_finished se then cs
      else fail_session (cx_shared (as_context se)) (as_session_id se) cs)"

text \<open>\<open>finish\<close> and \<open>abandon\<close> consume the session.\<close>

definition session_finish ::
  "'r world_env \<Rightarrow> world_io \<Rightarrow> dependency_outcome \<Rightarrow> ambient_session \<Rightarrow> 'r context_state
     \<Rightarrow> unit res \<times> 'r context_state" where
  "session_finish we io outcome se cs =
     (case session_run (\<lambda>sid. finish_observation we io sid outcome (as_session_position se)) se cs of
        (Inl e, se1, cs1) \<Rightarrow> (Inl e, session_drop se1 cs1)
      | (Inr x, se1, cs1) \<Rightarrow> (Inr x, cs1))"

definition session_abandon ::
  "ambient_session \<Rightarrow> 'r context_state \<Rightarrow> unit res \<times> 'r context_state" where
  "session_abandon se cs =
     (case require_current (as_context se) cs of
        (Inl e, cs1) \<Rightarrow> (Inl e, session_drop se cs1)
      | (Inr _, cs1) \<Rightarrow> abandon_session (cx_shared (as_context se)) (as_session_id se) cs1)"

section \<open>Steps\<close>

text \<open>
  What threads do to the shared state, one lock section at a time; \<open>a\<close> is an address that is not
  allocated again.  The stack is the one of the thread that runs, so a step may also replace it.
  An action is taken without its result, which the shared state does not depend on.
\<close>

inductive context_step :: "nat \<Rightarrow> 'r context_state \<Rightarrow> 'r context_state \<Rightarrow> bool" for a where
  step_new: "b \<noteq> a \<Longrightarrow> cs_shared cs b = None
     \<Longrightarrow> context_step a cs (snd (shared_new b op coordinator cs))"
| step_last_owner: "context_step a cs (shared_drop b cs)"
| step_invalidate: "context_step a cs (shared_invalidate b cs)"
| step_with: "context_step a cs (snd (with_coordinator b (action :: ('r automatic_world, unit) act) cs))"
| step_take: "context_step a cs (snd (take_for_close b cs))"
| step_deactivate: "context_step a cs (deactivate b cs)"
| step_open: "context_step a cs (snd (open_ambient_observation io b class parent cs))"
| step_abandon: "context_step a cs (snd (abandon_session b sid cs))"
| step_fail: "context_step a cs (fail_session b sid cs)"
| step_invalidate_all: "context_step a cs (invalidate_all_active_operations cs)"
| step_stack: "context_step a cs (cs\<lparr>cs_stack := st\<rparr>)"

end
