(* ===== verification/Context_Theorems.thy ===== *)
theory Context_Theorems
  imports Automatic_Context
begin

text \<open>
  What the ambient contexts guarantee: a poll leaves the thread's stack as it found it, a context
  once invalid never closes a World, and an operation's ambient session ids only grow.
\<close>

section \<open>Invalid contexts stay invalid\<close>

definition context_over :: "nat \<Rightarrow> 'r context_state \<Rightarrow> bool" where
  "context_over a cs \<longleftrightarrow> (case cs_shared cs a of None \<Rightarrow> True | Some sh \<Rightarrow> sh_invalid_context sh)"

lemma over_update:
  "(\<And>sh. sh_invalid_context sh \<Longrightarrow> sh_invalid_context (f sh)) \<Longrightarrow> context_over a cs
     \<Longrightarrow> context_over a (update_shared b f cs)"
  by (auto simp: context_over_def update_shared_def split: option.splits)

lemma over_same_shared: "cs_shared cs' = cs_shared cs \<Longrightarrow> context_over a cs' = context_over a cs"
  by (simp add: context_over_def)

lemma over_drop_coordinator [simp]: "context_over a (drop_coordinator w cs) = context_over a cs"
  by (rule over_same_shared) (simp add: drop_coordinator_def split: option.splits)

lemma over_invalidate: "context_over a cs \<Longrightarrow> context_over a (shared_invalidate b cs)"
  unfolding shared_invalidate_def by (rule over_update) (simp_all add: state_invalidate_def)

lemma over_invalidate_self: "context_over a (shared_invalidate a cs)"
  by (auto simp: shared_invalidate_def update_shared_def state_invalidate_def context_over_def
      split: option.splits)

lemma over_invalid_flag: "context_over a cs \<Longrightarrow> context_over a (invalid_flag b cs)"
  unfolding invalid_flag_def by (rule over_update) simp_all

lemma over_invalid_flag_self: "context_over a (invalid_flag a cs)"
  by (auto simp: invalid_flag_def update_shared_def context_over_def split: option.splits)

lemma over_invalidate_all: "context_over a cs \<Longrightarrow> context_over a (fold shared_invalidate bs cs)"
  by (induction bs arbitrary: cs) (simp_all add: over_invalidate)

lemma over_unregister: "context_over a cs \<Longrightarrow> context_over a (shared_unregister b cs)"
  by (auto simp: shared_unregister_def unregister_active_operation_def Let_def over_update
      over_same_shared [of "_\<lparr>cs_active := _\<rparr>"] split: option.splits)

lemma over_run:
  "context_over a cs \<Longrightarrow> cs_shared cs b = Some sh \<Longrightarrow> sh_invalid_context sh' = sh_invalid_context sh
     \<Longrightarrow> context_over a (snd (run_coordinator b sh' w action cs))"
  by (auto simp: run_coordinator_def context_over_def split: prod.splits)

lemma over_abandon: "context_over a cs \<Longrightarrow> context_over a (snd (abandon_on b sid cs))"
  by (auto simp: abandon_on_def split: option.splits intro: over_run)

lemma over_open:
  assumes "context_over a cs"
  shows "context_over a (snd (open_ambient_observation io b class parent cs))"
proof -
  have "context_over a (snd (run_coordinator b (sh\<lparr>sh_ambient_session_count := n\<rparr>) w action
      (cs\<lparr>cs_shared := (cs_shared cs)(b \<mapsto> sh\<lparr>sh_ambient_session_count := n\<rparr>)\<rparr>)))"
    if "cs_shared cs b = Some sh" for sh n w and action :: "('a automatic_world, nat) act"
    by (rule over_run [where sh = "sh\<lparr>sh_ambient_session_count := n\<rparr>"]) (use assms that in \<open>auto simp: context_over_def\<close>)
  moreover have "context_over a
      (cs\<lparr>cs_shared := (cs_shared cs)(b \<mapsto> sh\<lparr>sh_ambient_session_count := n\<rparr>)\<rparr>)"
    if "cs_shared cs b = Some sh" for sh n
    using assms that by (auto simp: context_over_def)
  ultimately show ?thesis
    using assms by (auto simp: open_ambient_observation_def Let_def over_invalidate snd_act_bind
        case_prod_beta split: option.splits sum.splits)
qed

lemma over_step:
  assumes "context_step a cs cs'" "context_over a cs"
  shows "context_over a cs'"
  using assms
proof (cases rule: context_step.cases)
  case (step_new b op coordinator)
  then show ?thesis
    using assms(2)
    by (auto simp: shared_new_def register_active_operation_def retain_alive_def Let_def
        context_over_def drop_coordinator_def update_shared_def split: option.splits if_splits)
next
  case (step_last_owner b)
  have "context_over a (shared_unregister b cs)" by (rule over_unregister [OF assms(2)])
  then show ?thesis
    using assms(2) by (auto simp: step_last_owner shared_drop_def Let_def context_over_def
        drop_coordinator_def split: option.splits)
next
  case (step_take b)
  have "context_over a (shared_unregister b cs)" by (rule over_unregister [OF assms(2)])
  then show ?thesis
    by (auto simp: step_take take_for_close_def Let_def split: option.splits
        intro!: over_update)
next
  case (step_deactivate b)
  have "context_over a (shared_unregister b cs)" by (rule over_unregister [OF assms(2)])
  then show ?thesis
    by (auto simp: step_deactivate deactivate_def Let_def split: option.splits intro!: over_update)
next
  case (step_with b action)
  then show ?thesis
    using assms(2) by (auto simp: with_coordinator_def split: option.splits intro: over_run)
next
  case (step_abandon b sid)
  then show ?thesis
    using assms(2) over_abandon [OF assms(2), of b sid]
    by (auto simp: abandon_session_def Let_def case_prod_beta split: option.splits
        intro: over_invalid_flag)
next
  case (step_fail b sid)
  then show ?thesis by (simp add: fail_session_def over_invalid_flag over_abandon assms(2))
next
  case step_invalidate_all
  have "context_over a (retain_alive cs)"
    using assms(2) by (simp add: retain_alive_def context_over_def)
  then show ?thesis
    by (simp add: step_invalidate_all invalidate_all_active_operations_def over_invalidate_all)
qed (simp_all add: over_invalidate over_open over_same_shared [of "_\<lparr>cs_stack := _\<rparr>"])

lemma over_steps: "(context_step a)\<^sup>*\<^sup>* cs cs' \<Longrightarrow> context_over a cs \<Longrightarrow> context_over a cs'"
  by (induction rule: rtranclp_induct) (auto intro: over_step)

lemma over_never_closes:
  assumes "context_over a cs"
  shows "fst (take_for_close a cs) = Inl IncompleteCandidate"
  using over_unregister [OF assms, of a]
  by (auto simp: take_for_close_def Let_def context_over_def split: option.splits)

lemma over_top: "context_over a cs \<Longrightarrow> context_over a (invalidate_top cs)"
  by (simp add: invalidate_top_def over_invalidate)

lemma require_current_Inl:
  "require_current ctx cs = (Inl e, cs1) \<Longrightarrow> context_over (cx_shared ctx) cs1"
  by (auto simp: require_current_def Let_def split: if_splits
      intro!: over_top over_invalidate_self)

lemma over_fail_session: "context_over a (fail_session a sid cs)"
  by (simp add: fail_session_def over_invalid_flag_self)

text \<open>
  C34: A failed ambient session never becomes a closed World.  When a call on an unfinished session
  fails for whatever reason (the coordinator refused it, or the session was used outside a poll of
  its own operation), or when the session is dropped unfinished, then no sequence of later steps
  of any thread lets the operation's coordinator be taken for closing.
\<close>

theorem failed_session_never_closes:
  assumes "\<not> as_finished se" "a = cx_shared (as_context se)"
    "(\<exists>e se'. session_run action se cs = (Inl e, se', cs1)) \<or> cs1 = session_drop se cs"
    "(context_step a)\<^sup>*\<^sup>* cs1 cs2"
  shows "fst (take_for_close a cs2) = Inl IncompleteCandidate"
proof -
  have "context_over a cs1"
    using assms(1-3) over_fail_session
    by (auto simp: session_run_def session_fail_def session_drop_def
        split: prod.splits sum.splits)
  then show ?thesis by (rule over_never_closes [OF over_steps [OF assms(4)]])
qed

text \<open>
  A context used where it is not current ends both operations.  When \<open>require_current\<close> refuses
  a context, neither its operation nor the one whose poll is running can be closed any more.
\<close>

theorem misused_context_never_closes:
  assumes "require_current ctx cs = (Inl e, cs1)"
    "a = cx_shared ctx \<or> cs_stack cs \<noteq> [] \<and> a = cx_shared (List.last (cs_stack cs))"
    "(context_step a)\<^sup>*\<^sup>* cs1 cs2"
  shows "fst (take_for_close a cs2) = Inl IncompleteCandidate"
proof -
  have same: "cs_stack (shared_invalidate b cs) = cs_stack cs" for b
    by (simp add: shared_invalidate_def update_shared_def split: option.splits)
  have "context_over a cs1"
    using assms(1,2) require_current_Inl [OF assms(1)]
    by (auto simp: require_current_def Let_def invalidate_top_def same over_invalidate_self
        split: if_splits)
  then show ?thesis by (rule over_never_closes [OF over_steps [OF assms(3)]])
qed

section \<open>The stack of a thread\<close>

lemma stack_update [simp]: "cs_stack (update_shared a f cs) = cs_stack cs"
  by (simp add: update_shared_def split: option.splits)

lemma stack_invalidate [simp]: "cs_stack (shared_invalidate a cs) = cs_stack cs"
  by (simp add: shared_invalidate_def)

text \<open>
  A poll leaves the thread's stack as it found it.  Let the poll of the inner future leave the
  stack it is given unchanged (which, by this very property, holds for a future that polls scoped
  futures of its own).  Then a poll under a context leaves the stack unchanged; the inner poll sees
  the context on top of the stack, and nothing else new, when the context is active, not already
  entered on this thread and the nesting bound is not reached; in every other case the inner poll
  sees an empty stack, and the context's operation can no longer be closed.
\<close>

theorem context_scope_balanced:
  assumes "\<And>cs'. cs_stack (snd (poll cs')) = cs_stack cs'"
  shows "cs_stack (snd (context_scope_poll ctx poll cs)) = cs_stack cs
    \<and> (\<exists>cs1. fst (context_scope_poll ctx poll cs) = fst (poll cs1)
        \<and> (if is_active (cx_shared ctx) cs \<and> length (cs_stack cs) < MAX_AUTOMATIC_OPERATION_NESTING
              \<and> cx_shared ctx \<notin> cx_shared ` set (cs_stack cs)
           then cs_stack cs1 = cs_stack cs @ [ctx] \<and> require_current ctx cs1 = (Inr (), cs1)
           else cs_stack cs1 = [] \<and> context_over (cx_shared ctx) cs1))"
proof (cases "is_active (cx_shared ctx) cs \<and> length (cs_stack cs) < MAX_AUTOMATIC_OPERATION_NESTING
    \<and> cx_shared ctx \<notin> cx_shared ` set (cs_stack cs)")
  case True
  let ?cs1 = "cs\<lparr>cs_stack := cs_stack cs @ [ctx]\<rparr>"
  have install: "poll_install ctx cs = (Pop ctx, ?cs1)"
  proof -
    have "\<not> (\<exists>entry \<in> set (cs_stack cs). cx_shared entry = cx_shared ctx)"
      using True by (metis imageI)
    then show ?thesis using True by (simp add: poll_install_def)
  qed
  have "is_active (cx_shared ctx) ?cs1" using True by (simp add: is_active_def)
  then have "require_current ctx ?cs1 = (Inr (), ?cs1)"
    by (simp add: require_current_def)
  then show ?thesis
    using True install assms [of ?cs1]
    by (auto simp: context_scope_poll_def poll_drop_def case_prod_beta Let_def intro!: exI [of _ ?cs1])
next
  case False
  let ?cs1 = "(shared_invalidate (cx_shared ctx) cs)\<lparr>cs_stack := []\<rparr>"
  have install: "poll_install ctx cs = (Replace (cs_stack cs), ?cs1)"
    using False by (auto simp: poll_install_def)
  have "context_over (cx_shared ctx) ?cs1"
    using over_invalidate_self [of "cx_shared ctx" cs] by (simp add: context_over_def)
  then show ?thesis
    using False install
    by (auto simp: context_scope_poll_def poll_drop_def case_prod_beta Let_def
        intro!: exI [of _ ?cs1])
qed

section \<open>Session ids\<close>

definition count_of :: "nat \<Rightarrow> 'r context_state \<Rightarrow> nat option" where
  "count_of a cs = map_option sh_ambient_session_count (cs_shared cs a)"

text \<open>The counter only grows, until the operation is gone for good.\<close>

definition count_grows :: "nat \<Rightarrow> 'r context_state \<Rightarrow> 'r context_state \<Rightarrow> bool" where
  "count_grows a cs cs' \<longleftrightarrow>
     (case count_of a cs' of
        None \<Rightarrow> True
      | Some n' \<Rightarrow> (\<exists>n. count_of a cs = Some n \<and> n \<le> n'))"

lemma count_grows_refl: "count_grows a cs cs"
  by (simp add: count_grows_def split: option.splits)

lemma count_grows_trans: "count_grows a cs cs' \<Longrightarrow> count_grows a cs' cs'' \<Longrightarrow> count_grows a cs cs''"
  by (force simp: count_grows_def split: option.splits)

lemma count_same: "count_of a cs' = count_of a cs \<Longrightarrow> count_grows a cs cs'"
  by (simp add: count_grows_def split: option.splits)

lemma count_update:
  "(\<And>sh. sh_ambient_session_count (f sh) = sh_ambient_session_count sh)
     \<Longrightarrow> count_of a (update_shared b f cs) = count_of a cs"
  by (simp add: count_of_def update_shared_def split: option.splits)

lemma count_parts [simp]:
  "count_of a (drop_coordinator w cs) = count_of a cs"
  "count_of a (shared_invalidate b cs) = count_of a cs"
  "count_of a (invalid_flag b cs) = count_of a cs"
  "count_of a (shared_unregister b cs) = count_of a cs"
  "count_of a (cs\<lparr>cs_stack := st\<rparr>) = count_of a cs"
  "count_of a (cs\<lparr>cs_active := ac\<rparr>) = count_of a cs"
  by (auto simp: drop_coordinator_def shared_invalidate_def state_invalidate_def invalid_flag_def
      shared_unregister_def unregister_active_operation_def Let_def count_update count_of_def
      update_shared_def split: option.splits)

lemma count_run:
  "cs_shared cs b = Some sh \<Longrightarrow> sh_ambient_session_count sh' = sh_ambient_session_count sh
     \<Longrightarrow> count_of a (snd (run_coordinator b sh' w action cs)) = count_of a cs"
  by (auto simp: run_coordinator_def count_of_def split: prod.splits)

lemma count_abandon: "count_of a (snd (abandon_on b sid cs)) = count_of a cs"
  by (auto simp: abandon_on_def count_run split: option.splits)

lemma count_all: "count_of a (fold shared_invalidate bs cs) = count_of a cs"
  by (induction bs arbitrary: cs) simp_all

lemma open_counts:
  "open_ambient_observation io b class parent cs = (Inr (sid, pos), cs')
     \<Longrightarrow> \<exists>n. count_of b cs = Some n \<and> n < MAX_EVENTS \<and> sid = AMBIENT_SESSION_ID_START + n
          \<and> count_of b cs' = Some (Suc n)"
  by (auto simp: open_ambient_observation_def count_of_def run_coordinator_def Let_def
      act_bind_def act_res_def split: option.splits if_splits prod.splits sum.splits)

lemma count_step:
  assumes "context_step a cs cs'"
  shows "count_grows a cs cs'"
  using assms
proof (cases rule: context_step.cases)
  case (step_new b op coordinator)
  then have "count_of a cs' = count_of a cs"
    by (auto simp: shared_new_def register_active_operation_def retain_alive_def Let_def
        count_of_def drop_coordinator_def update_shared_def split: option.splits)
  then show ?thesis by (rule count_same)
next
  case (step_last_owner b)
  have "count_of a (t\<lparr>cs_shared := (cs_shared t)(b := None)\<rparr>) = (if a = b then None else count_of a t)"
    for t :: "'a context_state"
    by (simp add: count_of_def)
  then have "count_of a cs' \<in> {None, count_of a cs}"
    by (auto simp: step_last_owner shared_drop_def Let_def split: option.splits)
  then show ?thesis by (auto simp: count_grows_def split: option.splits)
next
  case (step_open io b cls parent)
  have cases: "count_of a cs' = count_of a cs
      \<or> (\<exists>n. count_of a cs = Some n \<and> count_of a cs' = Some (Suc n))"
    by (auto simp: step_open open_ambient_observation_def run_coordinator_def Let_def
        snd_act_bind case_prod_beta count_of_def shared_invalidate_def update_shared_def
        state_invalidate_def split: option.splits sum.splits)
  then show ?thesis by (auto simp: count_grows_def split: option.splits)
next
  case (step_with b action)
  have "count_of a cs' = count_of a cs"
    by (auto simp: step_with with_coordinator_def count_run split: option.splits)
  then show ?thesis by (rule count_same)
next
  case (step_take b)
  have "count_of a cs' = count_of a cs"
    by (simp add: step_take take_for_close_def Let_def count_update split: option.splits)
  then show ?thesis by (rule count_same)
next
  case (step_deactivate b)
  have "count_of a cs' = count_of a cs"
    by (simp add: step_deactivate deactivate_def Let_def count_update split: option.splits)
  then show ?thesis by (rule count_same)
next
  case (step_abandon b sid)
  have "count_of a cs' = count_of a cs"
    by (simp add: step_abandon abandon_session_def Let_def count_abandon case_prod_beta
        split: option.splits)
  then show ?thesis by (rule count_same)
next
  case (step_fail b sid)
  have "count_of a cs' = count_of a cs"
    by (simp add: step_fail fail_session_def count_abandon)
  then show ?thesis by (rule count_same)
next
  case step_invalidate_all
  have "count_of a cs' = count_of a cs"
    by (simp add: step_invalidate_all invalidate_all_active_operations_def count_all retain_alive_def)
  then show ?thesis by (rule count_same)
qed (simp_all add: count_same)

lemma count_steps: "(context_step a)\<^sup>*\<^sup>* cs cs' \<Longrightarrow> count_grows a cs cs'"
  by (induction rule: rtranclp_induct)
    (auto intro: count_grows_refl count_grows_trans count_step)

text \<open>
  Ambient session ids are never used twice.  Of two sessions opened through the same
  operation, with any steps of any threads in between, the later one has the greater id; every id
  is one of the 1,024 from \<open>2 ^ 63\<close>, so it is neither a handle of the engine nor one of the two
  ids the coordinator uses itself.
\<close>

theorem ambient_ids_fresh:
  assumes "open_ambient_observation io a class parent cs = (Inr (sid, pos), cs1)"
    "(context_step a)\<^sup>*\<^sup>* cs1 cs2"
    "open_ambient_observation io' a class' parent' cs2 = (Inr (sid', pos'), cs3)"
  shows "AMBIENT_SESSION_ID_START \<le> sid \<and> sid < sid'
    \<and> sid' < AMBIENT_SESSION_ID_START + MAX_EVENTS \<and> sid' < U64_MAX - 1"
proof -
  obtain n where n: "sid = AMBIENT_SESSION_ID_START + n" "count_of a cs1 = Some (Suc n)"
    using open_counts [OF assms(1)] by auto
  obtain m where m: "count_of a cs2 = Some m" "m < MAX_EVENTS" "sid' = AMBIENT_SESSION_ID_START + m"
    using open_counts [OF assms(3)] by auto
  have "Suc n \<le> m"
    using count_steps [OF assms(2)] n(2) m(1) by (simp add: count_grows_def)
  then show ?thesis using n(1) m(2,3) by (simp add: limits)
qed

section \<open>Concrete runs\<close>

definition demo_context_io :: world_io where
  "demo_context_io =
     \<lparr>io_create = (\<lambda>_. True), io_append = (\<lambda>_ old chunk. (True, old @ chunk)),
      io_write = (\<lambda>_ data. (True, data)), io_open = (\<lambda>_. True), io_count = (\<lambda>_ _. Some 2),
      io_object_id = (\<lambda>n. Inr n),
      io_now = (\<lambda>_. \<lparr>dt_year = 0, dt_month = 0, dt_day = 0, dt_hour = 0, dt_minute = 0,
        dt_second = 0, dt_millisecond = 0\<rparr>)\<rparr>"

definition demo_coordinator :: "unit automatic_world" where
  "demo_coordinator =
     \<lparr>aw_artifacts = [], aw_interactions = [], aw_dropped = 0, aw_incomplete = False,
      aw_next_internal = U64_MAX, aw_observations = [], aw_operation_id = OperationId 7,
      aw_overflowed = False,
      aw_registrations = [(Clock, \<lparr>rg_adapter_id = ''guard'', rg_adapter_version = ''1'',
        rg_class = Clock, rg_implementation_digest = Digest 1,
        rg_sentinel_coverage_digest = None\<rparr>)],
      aw_reserved = 0, aw_mode = CaptureMode, aw_sessions = [], aw_positions = [],
      aw_spool = (\<lambda>_. None), aw_sdk = new_sdk Production, aw_resources = new_resources\<rparr>"

definition demo_ctx :: operation_context where
  "demo_ctx = \<lparr>cx_operation_id = OperationId 7, cx_shared = 0\<rparr>"

definition demo_state :: "unit context_state" where
  "demo_state =
     snd (shared_new 0 (OperationId 7) demo_coordinator
       \<lparr>cs_shared = (\<lambda>_. None), cs_active = [], cs_stack = [], cs_resources = new_resources\<rparr>)"

definition demo_session :: ambient_session where
  "demo_session = \<lparr>as_context = demo_ctx, as_finished = False, as_session_id = 5,
     as_session_position = 0\<rparr>"

theorem failed_session_never_closes_witness:
  "fst (take_for_close 0 (session_drop demo_session demo_state)) = Inl IncompleteCandidate"
  using failed_session_never_closes [of demo_session 0 "\<lambda>_ s. (Inr (), s)" demo_state
      "session_drop demo_session demo_state" "session_drop demo_session demo_state"]
  by (simp add: demo_session_def demo_ctx_def)

theorem misused_context_never_closes_witness:
  "fst (take_for_close 0 (snd (require_current demo_ctx demo_state))) = Inl IncompleteCandidate
    \<and> is_active 0 demo_state"
proof -
  have "fst (require_current demo_ctx demo_state) = Inl IncompleteCandidate"
    and active: "is_active 0 demo_state"
    unfolding demo_state_def by code_simp+
  then have "require_current demo_ctx demo_state
      = (Inl IncompleteCandidate, snd (require_current demo_ctx demo_state))"
    by (cases "require_current demo_ctx demo_state") simp
  from misused_context_never_closes [OF this, of 0] active show ?thesis
    by (simp add: demo_ctx_def)
qed

theorem context_scope_balanced_witness:
  "cs_stack (snd (context_scope_poll demo_ctx (\<lambda>cs. (length (cs_stack cs), cs)) demo_state))
     = cs_stack demo_state"
  using context_scope_balanced [of "\<lambda>cs. (length (cs_stack cs), cs)" demo_ctx demo_state] by simp

theorem ambient_ids_fresh_witness:
  "\<exists>cs1 cs3 sid sid' pos pos'.
     open_ambient_observation demo_context_io 0 Clock None demo_state = (Inr (sid, pos), cs1)
     \<and> open_ambient_observation demo_context_io 0 Clock None cs1 = (Inr (sid', pos'), cs3)
     \<and> sid < sid'"
proof -
  let ?open = "open_ambient_observation demo_context_io 0 Clock None"
  have "fst (?open demo_state) = Inr (AMBIENT_SESSION_ID_START, 0)"
    "fst (?open (snd (?open demo_state))) = Inr (AMBIENT_SESSION_ID_START + 1, 1)"
    unfolding demo_state_def by code_simp+
  then obtain cs1 cs3 where one: "?open demo_state = (Inr (AMBIENT_SESSION_ID_START, 0), cs1)"
    and two: "?open cs1 = (Inr (AMBIENT_SESSION_ID_START + 1, 1), cs3)"
    by (metis prod.collapse snd_conv)
  from ambient_ids_fresh [OF one rtranclp.rtrancl_refl two] one two show ?thesis by blast
qed

end
