(* ===== verification/Failure_Task.thy ===== *)
theory Failure_Task
  imports Core_Model
begin

text \<open>
  The failure tasks of the engine (\<^verbatim>\<open>crates/reproit-sdk-engine/src/failure_delivery.rs\<close>): a failed
  operation is finalised by a background worker, behind a task whose state a caller waits on and
  may cancel.  Every method of a task is one section of its lock.  The job (operation, failure
  identity and project token) is a type parameter, and so is the sink that finalising it yields.
\<close>

definition MAX_FAILURE_TASKS :: nat where [limits]: "MAX_FAILURE_TASKS = 16"

section \<open>Tasks\<close>

datatype ('j, 's) task_state =
    Cancelled | Failed error_code | Pending "'j option" | Ready 's | Running

definition task_pending :: "'j \<Rightarrow> ('j, 's) task_state" where
  "task_pending job = Pending (Some job)"

definition task_cancel :: "('j, 's) task_state \<Rightarrow> ('j, 's) task_state" where
  "task_cancel state = Cancelled"

definition task_complete :: "'s res \<Rightarrow> ('j, 's) task_state \<Rightarrow> ('j, 's) task_state" where
  "task_complete result state =
     (case state of
        Cancelled \<Rightarrow> Cancelled
      | _ \<Rightarrow> (case result of Inr sink \<Rightarrow> Ready sink | Inl e \<Rightarrow> Failed e))"

definition take_job :: "('j, 's) task_state \<Rightarrow> 'j option \<times> ('j, 's) task_state" where
  "take_job state =
     (case state of
        Pending (Some job) \<Rightarrow> (Some job, Running)
      | Pending None \<Rightarrow> (None, Pending None)
      | _ \<Rightarrow> (None, state))"

text \<open>
  \<open>finish_failure_task\<close>: what finalising the job yields, \<open>None\<close> when it panics, ends in the task.
\<close>

definition finish_failure_task ::
  "'s res option \<Rightarrow> ('j, 's) task_state \<Rightarrow> ('j, 's) task_state" where
  "finish_failure_task outcome state =
     task_complete (case outcome of None \<Rightarrow> Inl ServiceUnavailable | Some result \<Rightarrow> result) state"

text \<open>
  \<open>wait_until_idle\<close>.  The thread looks at the state, waits on the condition variable, and looks
  again: a wake-up is the time since the start, whether the wait timed out, and the state found
  then.  \<open>idle\<close> is the answer of the sink for the remaining time.  \<open>None\<close> means that the thread
  still waits when the list of wake-ups ends.
\<close>

record ('j, 's) wake_up =
  wk_elapsed :: nat
  wk_timed_out :: bool
  wk_state :: "('j, 's) task_state"

definition task_answer ::
  "('s \<Rightarrow> nat \<Rightarrow> bool) \<Rightarrow> nat \<Rightarrow> nat \<Rightarrow> ('j, 's) task_state \<Rightarrow> bool res option" where
  "task_answer idle timeout elapsed state =
     (case state of
        Cancelled \<Rightarrow> Some (Inl NotFound)
      | Failed e \<Rightarrow> Some (Inl e)
      | Ready sink \<Rightarrow> Some (Inr (idle sink (timeout - elapsed)))
      | Pending _ \<Rightarrow> None
      | Running \<Rightarrow> None)"

fun task_wait ::
  "('s \<Rightarrow> nat \<Rightarrow> bool) \<Rightarrow> nat \<Rightarrow> nat \<Rightarrow> ('j, 's) task_state \<Rightarrow> ('j, 's) wake_up list
     \<Rightarrow> bool res option" where
  "task_wait idle timeout elapsed state wakes =
     (case task_answer idle timeout elapsed state of
        Some answer \<Rightarrow> Some answer
      | None \<Rightarrow>
          if timeout - elapsed = 0 then Some (Inr False)
          else case wakes of
              [] \<Rightarrow> None
            | wk # rest \<Rightarrow>
                if wk_timed_out wk \<and> task_answer idle timeout (wk_elapsed wk) (wk_state wk) = None
                then Some (Inr False)
                else task_wait idle timeout (wk_elapsed wk) (wk_state wk) rest)"

declare task_wait.simps [simp del]

section \<open>The worker\<close>

text \<open>\<open>FailureWorker\<close>: the sender is there when the thread was spawned.  \<open>try_send\<close> on a bounded
  channel of tasks.\<close>

record failure_worker =
  fw_channel :: "nat list"
  fw_spawned :: bool
  fw_connected :: bool

definition worker_start :: "bool \<Rightarrow> failure_worker" where
  "worker_start spawned = \<lparr>fw_channel = [], fw_spawned = spawned, fw_connected = True\<rparr>"

definition send_bounded :: "nat \<Rightarrow> failure_worker \<Rightarrow> unit res \<times> failure_worker" where
  "send_bounded task w =
     (if \<not> fw_connected w then (Inl ServiceUnavailable, w)
      else if length (fw_channel w) \<ge> MAX_FAILURE_TASKS then (Inl RuntimeQuota, w)
      else (Inr (), w\<lparr>fw_channel := fw_channel w @ [task]\<rparr>))"

definition worker_try_send :: "nat \<Rightarrow> failure_worker \<Rightarrow> unit res \<times> failure_worker" where
  "worker_try_send task w =
     (if \<not> fw_spawned w then (Inl ServiceUnavailable, w) else send_bounded task w)"

section \<open>A task in the hands of several threads\<close>

text \<open>
  One task with the worker that may run it: \<open>tk_taken\<close> counts the jobs taken from it, \<open>tk_holds\<close>
  says that a worker holds its job.  \<open>FailureWork::run\<close> is \<open>step_take\<close>, the finalising of the
  job, and \<open>step_finish\<close>; a caller cancels at any time.
\<close>

record ('j, 's) shared_task =
  tk_state :: "('j, 's) task_state"
  tk_taken :: "'j list"
  tk_holds :: bool

inductive task_step :: "('j, 's) shared_task \<Rightarrow> ('j, 's) shared_task \<Rightarrow> bool" where
  step_take: "take_job (tk_state t) = (Some job, st) \<Longrightarrow>
     task_step t (t\<lparr>tk_state := st, tk_taken := tk_taken t @ [job], tk_holds := True\<rparr>)"
| step_skip: "take_job (tk_state t) = (None, st) \<Longrightarrow> task_step t (t\<lparr>tk_state := st\<rparr>)"
| step_finish: "tk_holds t \<Longrightarrow>
     task_step t (t\<lparr>tk_state := finish_failure_task outcome (tk_state t), tk_holds := False\<rparr>)"
| step_cancel: "task_step t (t\<lparr>tk_state := task_cancel (tk_state t)\<rparr>)"

inductive_cases task_stepE: "task_step t u"

definition new_task :: "'j \<Rightarrow> ('j, 's) shared_task" where
  "new_task job = \<lparr>tk_state = task_pending job, tk_taken = [], tk_holds = False\<rparr>"

definition task_inv :: "'j \<Rightarrow> ('j, 's) shared_task \<Rightarrow> bool" where
  "task_inv job t \<longleftrightarrow>
     (case tk_state t of
        Pending (Some j) \<Rightarrow> j = job \<and> tk_taken t = [] \<and> \<not> tk_holds t
      | Pending None \<Rightarrow> False
      | Running \<Rightarrow> tk_taken t = [job] \<and> tk_holds t
      | Failed _ \<Rightarrow> tk_taken t = [job] \<and> \<not> tk_holds t
      | Ready _ \<Rightarrow> tk_taken t = [job] \<and> \<not> tk_holds t
      | Cancelled \<Rightarrow> tk_taken t = [job] \<or> tk_taken t = [] \<and> \<not> tk_holds t)"

lemma task_inv_step: "task_step t u \<Longrightarrow> task_inv job t \<Longrightarrow> task_inv job u"
  by (erule task_stepE)
    (auto simp: task_inv_def take_job_def finish_failure_task_def task_complete_def task_cancel_def
      split: task_state.splits option.splits sum.splits)

lemma task_inv_steps: "task_step\<^sup>*\<^sup>* t u \<Longrightarrow> task_inv job t \<Longrightarrow> task_inv job u"
  by (induction rule: rtranclp_induct) (auto intro: task_inv_step)

lemma cancelled_step: "task_step t u \<Longrightarrow> tk_state t = Cancelled \<Longrightarrow> tk_state u = Cancelled
     \<and> tk_taken u = tk_taken t"
  by (erule task_stepE)
    (auto simp: take_job_def finish_failure_task_def task_complete_def task_cancel_def)

lemma cancelled_steps:
  "task_step\<^sup>*\<^sup>* t u \<Longrightarrow> tk_state t = Cancelled \<Longrightarrow> tk_state u = Cancelled \<and> tk_taken u = tk_taken t"
  by (induction rule: rtranclp_induct) (auto dest: cancelled_step)

text \<open>
  C35: A failed operation is finalised at most once, and never after its task was cancelled.  From
  a new task, after any interleaving of workers and callers, its job was taken at most once; the
  task is ready or failed only when it was taken and finished; and once it is cancelled it stays
  cancelled, whatever a worker that still holds the job reports, and nothing takes the job.
\<close>

theorem task_finalised_once:
  assumes "task_step\<^sup>*\<^sup>* (new_task job) t" "task_step\<^sup>*\<^sup>* t u"
  shows "tk_taken t \<in> {[], [job]}
    \<and> (tk_state t = Running \<longrightarrow> tk_taken t = [job] \<and> tk_holds t)
    \<and> ((\<exists>e sink. tk_state t = Failed e \<or> tk_state t = Ready sink)
         \<longrightarrow> tk_taken t = [job] \<and> \<not> tk_holds t)
    \<and> (tk_state t = Cancelled \<longrightarrow> tk_state u = Cancelled \<and> tk_taken u = tk_taken t)"
proof -
  have "task_inv job (new_task job :: ('a, 'b) shared_task)"
    by (simp add: task_inv_def new_task_def task_pending_def)
  then have "task_inv job t" by (rule task_inv_steps [OF assms(1)])
  then show ?thesis
    using cancelled_steps [OF assms(2)]
    by (auto simp: task_inv_def split: task_state.splits option.splits)
qed

section \<open>Waiting\<close>


section \<open>Concrete tasks\<close>

theorem task_finalised_once_witness:
  "tk_state (new_task (7 :: nat)\<lparr>tk_state := Cancelled\<rparr> :: (nat, unit) shared_task) = Cancelled
    \<and> tk_taken (new_task (7 :: nat)\<lparr>tk_state := Cancelled\<rparr> :: (nat, unit) shared_task) \<in> {[], [7]}"
proof -
  let ?t = "new_task (7 :: nat)\<lparr>tk_state := Cancelled\<rparr> :: (nat, unit) shared_task"
  have "task_step (new_task 7) ?t"
    using step_cancel [of "new_task (7 :: nat)"] by (simp add: task_cancel_def)
  then have "task_step\<^sup>*\<^sup>* (new_task 7) ?t" by (rule r_into_rtranclp)
  from task_finalised_once [OF this rtranclp.rtrancl_refl] show ?thesis by simp
qed


end
