(* ===== verification/Semantic_Session.thy ===== *)
theory Semantic_Session
  imports World_Core
begin

text \<open>
  The semantic dependency session of the engine
  (\<^verbatim>\<open>crates/reproit-sdk-engine/src/semantic_dependency.rs\<close>, \<open>SemanticDependencySession\<close>): it
  follows the bytes of one dependency call, validates the request when it is dispatched and the
  response when it is finished, and keeps a response the engine built itself so that it need not
  be parsed back.  Parsing, validation, canonical form and digests are those of \<open>world_env\<close>.
\<close>

text \<open>The bound on a record and the digest of a request, both of the core crate.\<close>

record dependency_core =
  max_record_bytes :: nat
  dependency_request_digest :: "dependency_request \<Rightarrow> digest res"

section \<open>State and inputs\<close>

datatype dependency_action = DependencyCapture | DependencyReplay

record dependency_session =
  ds_action :: "dependency_action option"
  ds_session_position :: "nat option"
  ds_class :: observation_class
  ds_request :: bytes
  ds_response :: bytes
  ds_validated_request :: "dependency_request option"
  ds_validated_response :: "dependency_response option"

record dependency_request_input =
  qi_encoding :: string
  qi_metadata :: bytes
  qi_method :: "string option"
  qi_class :: observation_class
  qi_operation :: nat
  qi_payload :: string
  qi_protocol :: string
  qi_target :: string

record dependency_response_input =
  pi_error_code :: "nat option"
  pi_error_number :: "nat option"
  pi_metadata :: bytes
  pi_outcome :: dependency_outcome
  pi_payload :: "string option"
  pi_status :: "string option"
  pi_status_code :: "nat option"

definition for_class :: "observation_class \<Rightarrow> dependency_session option" where
  "for_class class =
     (if class \<in> set [Database, OutboundHttp, Queue]
      then Some \<lparr>ds_action = None, ds_session_position = None, ds_class = class,
                 ds_request = [], ds_response = [], ds_validated_request = None,
                 ds_validated_response = None\<rparr>
      else None)"

definition into_request :: "dependency_request_input \<Rightarrow> dependency_request" where
  "into_request i =
     \<lparr>dq_encoding = qi_encoding i, dq_metadata = qi_metadata i, dq_method = qi_method i,
      dq_class = qi_class i, dq_operation = qi_operation i, dq_payload = qi_payload i,
      dq_protocol = qi_protocol i, dq_target = qi_target i\<rparr>"

definition into_response ::
  "dependency_core \<Rightarrow> dependency_request \<Rightarrow> dependency_response_input \<Rightarrow> dependency_response res" where
  "into_response dc request i =
     bind_res (map_err IncompleteCandidate (dependency_request_digest dc request)) (\<lambda>digest.
       Inr \<lparr>dp_error_code = pi_error_code i, dp_error_number = pi_error_number i,
            dp_metadata = pi_metadata i, dp_class = dq_class request,
            dp_operation = dq_operation request, dp_outcome = pi_outcome i,
            dp_payload = pi_payload i, dp_request_digest = digest, dp_status = pi_status i,
            dp_status_code = pi_status_code i\<rparr>)"

section \<open>Operations\<close>

definition bind_action :: "string \<Rightarrow> (dependency_session, unit) act" where
  "bind_action action se =
     (case (if action = ''capture'' then Some DependencyCapture
            else if action = ''replay'' then Some DependencyReplay else None) of
        None \<Rightarrow> (Inl IncompleteCandidate, se)
      | Some a \<Rightarrow>
          (if ds_action se \<noteq> None then Inl IncompleteCandidate else Inr (),
           se\<lparr>ds_action := Some a\<rparr>))"

definition validate_finish_input :: "bool \<Rightarrow> dependency_session \<Rightarrow> unit res" where
  "validate_finish_input has_response se =
     (if (ds_action se, has_response) = (Some DependencyCapture, True)
         \<or> (ds_action se, has_response) = (Some DependencyReplay, False)
      then Inr () else Inl IncompleteCandidate)"

definition canonical_request ::
  "'r world_env \<Rightarrow> dependency_request_input \<Rightarrow> bytes res" where
  "canonical_request we i =
     (let request = into_request i
      in bind_res (map_err IncompleteCandidate
             (codec_validate (dependency_request_codec we) request)) (\<lambda>_.
           map_err IncompleteCandidate (codec_bytes (dependency_request_codec we) request)))"

definition bind_session_position :: "nat \<Rightarrow> (dependency_session, unit) act" where
  "bind_session_position pos se =
     (if ds_session_position se \<noteq> None then Inl IncompleteCandidate else Inr (),
      se\<lparr>ds_session_position := Some pos\<rparr>)"

definition session_position :: "dependency_session \<Rightarrow> nat res" where
  "session_position se = ok_or IncompleteCandidate (ds_session_position se)"

definition canonical_response ::
  "'r world_env \<Rightarrow> dependency_core \<Rightarrow> dependency_response_input \<Rightarrow> dependency_session
     \<Rightarrow> (bytes \<times> dependency_response) res" where
  "canonical_response we dc i se =
     bind_res (ok_or IncompleteCandidate (ds_validated_request se)) (\<lambda>request.
     bind_res (into_response dc request i) (\<lambda>response.
     bind_res (map_err IncompleteCandidate (validate_dependency_pair we request response)) (\<lambda>_.
     bind_res (map_err IncompleteCandidate
         (codec_bytes (dependency_response_codec we) response)) (\<lambda>encoded.
       Inr (encoded, response)))))"

definition cache_validated_response ::
  "dependency_response \<Rightarrow> (dependency_session, unit) act" where
  "cache_validated_response response se =
     (if ds_validated_response se \<noteq> None then Inl IncompleteCandidate else Inr (),
      se\<lparr>ds_validated_response := Some response\<rparr>)"

definition session_write ::
  "dependency_core \<Rightarrow> observation_stream \<Rightarrow> bytes \<Rightarrow> (dependency_session, unit) act" where
  "session_write dc stream chunk se =
     (case (stream, ds_validated_request se \<noteq> None) of
        (RequestStream, False) \<Rightarrow>
          (case checked_add (length (ds_request se)) (length chunk) of
             None \<Rightarrow> (Inl RuntimeQuota, se)
           | Some n \<Rightarrow>
               if n > max_record_bytes dc then (Inl RuntimeQuota, se)
               else (Inr (), se\<lparr>ds_request := ds_request se @ chunk\<rparr>))
      | (ResponseStream, True) \<Rightarrow>
          (let se1 = se\<lparr>ds_validated_response := None\<rparr>
           in case checked_add (length (ds_response se1)) (length chunk) of
                None \<Rightarrow> (Inl RuntimeQuota, se1)
              | Some n \<Rightarrow>
                  if n > max_record_bytes dc then (Inl RuntimeQuota, se1)
                  else (Inr (), se1\<lparr>ds_response := ds_response se1 @ chunk\<rparr>))
      | _ \<Rightarrow> (Inl IncompleteCandidate, se))"

definition parse_canonical :: "dependency_core \<Rightarrow> 'a codec \<Rightarrow> bytes \<Rightarrow> 'a res" where
  "parse_canonical dc codec data =
     (if data = [] \<or> length data > max_record_bytes dc then Inl IncompleteCandidate
      else bind_res (map_err IncompleteCandidate (codec_parse codec data)) (\<lambda>x.
           bind_res (map_err IncompleteCandidate (codec_validate codec x)) (\<lambda>_.
           bind_res (map_err IncompleteCandidate (codec_bytes codec x)) (\<lambda>canonical.
             if canonical \<noteq> data then Inl IncompleteCandidate else Inr x))))"

definition dependency_dispatch ::
  "'r world_env \<Rightarrow> dependency_core \<Rightarrow> (dependency_session, unit) act" where
  "dependency_dispatch we dc se =
     (if ds_validated_request se \<noteq> None \<or> ds_response se \<noteq> [] then (Inl IncompleteCandidate, se)
      else case parse_canonical dc (dependency_request_codec we) (ds_request se) of
          Inl e \<Rightarrow> (Inl e, se)
        | Inr request \<Rightarrow>
            if dq_class request \<noteq> ds_class se then (Inl IncompleteCandidate, se)
            else (Inr (), se\<lparr>ds_validated_request := Some request\<rparr>))"

definition validated_response ::
  "'r world_env \<Rightarrow> dependency_core \<Rightarrow> (dependency_session, dependency_response) act" where
  "validated_response we dc se =
     (case ds_validated_response se of
        Some response \<Rightarrow> (Inr response, se)
      | None \<Rightarrow>
          case ds_validated_request se of
            None \<Rightarrow> (Inl IncompleteCandidate, se)
          | Some request \<Rightarrow>
              case bind_res (parse_canonical dc (dependency_response_codec we) (ds_response se))
                  (\<lambda>response. bind_res (map_err IncompleteCandidate
                      (validate_dependency_pair we request response)) (\<lambda>_. Inr response)) of
                Inl e \<Rightarrow> (Inl e, se)
              | Inr response \<Rightarrow> (Inr response, se\<lparr>ds_validated_response := Some response\<rparr>))"

definition dependency_finish ::
  "'r world_env \<Rightarrow> dependency_core \<Rightarrow> dependency_outcome \<Rightarrow> (dependency_session, dependency_response) act"
  where
  "dependency_finish we dc outcome se =
     (case validated_response we dc se of
        (Inl e, se1) \<Rightarrow> (Inl e, se1)
      | (Inr response, se1) \<Rightarrow>
          (if dp_outcome response \<noteq> outcome then Inl IncompleteCandidate else Inr response, se1))"

section \<open>Sequences of chunks\<close>

fun session_writes ::
  "dependency_core \<Rightarrow> observation_stream \<Rightarrow> bytes list \<Rightarrow> (dependency_session, unit) act" where
  "session_writes dc stream [] se = (Inr (), se)"
| "session_writes dc stream (chunk # chunks) se =
     (case session_write dc stream chunk se of
        (Inl e, se1) \<Rightarrow> (Inl e, se1)
      | (Inr _, se1) \<Rightarrow> session_writes dc stream chunks se1)"

lemma response_writes_ok:
  "session_writes dc ResponseStream chunks se = (Inr (), se') \<Longrightarrow>
     ds_response se' = ds_response se @ concat chunks
     \<and> ds_validated_request se' = ds_validated_request se
     \<and> (chunks \<noteq> [] \<longrightarrow> ds_validated_response se' = None
          \<and> length (ds_response se @ concat chunks) \<le> max_record_bytes dc)
     \<and> (chunks = [] \<longrightarrow> ds_validated_response se' = ds_validated_response se)"
proof (induction chunks arbitrary: se)
  case Nil
  then show ?case by simp
next
  case (Cons chunk chunks)
  obtain se1 where se1: "session_write dc ResponseStream chunk se = (Inr (), se1)"
    "session_writes dc ResponseStream chunks se1 = (Inr (), se')"
    using Cons.prems by (auto split: prod.splits sum.splits)
  have "ds_response se1 = ds_response se @ chunk \<and> ds_validated_response se1 = None
      \<and> ds_validated_request se1 = ds_validated_request se
      \<and> length (ds_response se1) \<le> max_record_bytes dc"
    using se1(1) by (auto simp: session_write_def Let_def split: option.splits if_splits bool.splits)
  with Cons.IH [OF se1(2)] show ?case by (cases chunks) auto
qed

text \<open>
  The codec gives back what it encoded: the documented behaviour of canonical JSON for a record
  that validates.
\<close>

definition codec_faithful :: "'a codec \<Rightarrow> 'a \<Rightarrow> bool" where
  "codec_faithful codec x \<longleftrightarrow>
     (\<exists>data. codec_bytes codec x = Inr data \<and> data \<noteq> [] \<and> codec_parse codec data = Inr x
        \<and> codec_validate codec x = Inr ())"

text \<open>
  C36: Keeping the response instead of parsing it back changes nothing.  The engine builds the
  canonical response of a validated request, writes it to the session in chunks of any size, and
  caches it.  The response the session then gives is the one a session without the cache would
  parse and validate from the bytes written, as long as the codec gives back what it encoded.
\<close>

theorem cached_response_equivalent:
  assumes built: "canonical_response we dc input se = Inr (encoded, response)"
    and empty: "ds_response se = []"
    and chunks: "concat chunks = encoded" "session_writes dc ResponseStream chunks se = (Inr (), se1)"
    and cached: "cache_validated_response response se1 = (Inr (), se2)"
    and codec: "codec_faithful (dependency_response_codec we) response"
  shows "fst (validated_response we dc se2) = Inr response
    \<and> fst (validated_response we dc (se2\<lparr>ds_validated_response := None\<rparr>)) = Inr response
    \<and> snd (validated_response we dc (se2\<lparr>ds_validated_response := None\<rparr>)) = se2
    \<and> ds_response se2 = encoded"
proof -
  obtain request where request: "ds_validated_request se = Some request"
      "validate_dependency_pair we request response = Inr ()"
      "codec_bytes (dependency_response_codec we) response = Inr encoded"
    using built by (auto simp: canonical_response_def bind_res_eq_Inr)
  have parts: "encoded \<noteq> []" "codec_parse (dependency_response_codec we) encoded = Inr response"
    "codec_validate (dependency_response_codec we) response = Inr ()"
    using codec request(3) by (auto simp: codec_faithful_def)
  then have some: "chunks \<noteq> []" using chunks(1) by auto
  have se2: "se2 = se1\<lparr>ds_validated_response := Some response\<rparr>"
    using cached by (auto simp: cache_validated_response_def split: if_splits)
  note written = response_writes_ok [OF chunks(2)]
  have bound: "length encoded \<le> max_record_bytes dc"
    using written some empty chunks(1) by simp
  have "parse_canonical dc (dependency_response_codec we) encoded = Inr response"
    using parts request(3) bound by (simp add: parse_canonical_def map_err_def)
  then show ?thesis
    using written request(1,2) empty chunks(1)
    by (simp add: validated_response_def se2 map_err_def)
qed

end
