(* ===== verification/Engine_Witnesses.thy ===== *)
theory Engine_Witnesses
  imports Semantic_Session World_Witnesses
begin

text \<open>A dependency session of the engine with a response the engine built itself.\<close>

definition demo_dependency_core :: dependency_core where
  "demo_dependency_core =
     \<lparr>max_record_bytes = 8, dependency_request_digest = (\<lambda>_. Inr (Digest 0))\<rparr>"

definition demo_dependency_session :: dependency_session where
  "demo_dependency_session =
     snd (dependency_dispatch demo_env demo_dependency_core
       (snd (session_write demo_dependency_core RequestStream [1, 2] (the (for_class Database)))))"

definition demo_response_input :: dependency_response_input where
  "demo_response_input =
     \<lparr>pi_error_code = None, pi_error_number = None, pi_metadata = [4, 5, 6],
      pi_outcome = OutcomeResponse, pi_payload = None, pi_status = None, pi_status_code = None\<rparr>"

definition demo_response :: dependency_response where
  "demo_response =
     \<lparr>dp_error_code = None, dp_error_number = None, dp_metadata = [4, 5, 6], dp_class = Database,
      dp_operation = 0, dp_outcome = OutcomeResponse, dp_payload = None,
      dp_request_digest = Digest 0, dp_status = None, dp_status_code = None\<rparr>"

theorem cached_response_equivalent_witness:
  "\<exists>se1 se2.
     session_writes demo_dependency_core ResponseStream [[4, 5], [6]] demo_dependency_session
       = (Inr (), se1)
     \<and> cache_validated_response demo_response se1 = (Inr (), se2)
     \<and> fst (validated_response demo_env demo_dependency_core
              (se2\<lparr>ds_validated_response := None\<rparr>)) = Inr demo_response"
proof -
  let ?se = demo_dependency_session
  let ?writes = "session_writes demo_dependency_core ResponseStream [[4, 5], [6]] ?se"
  have built: "canonical_response demo_env demo_dependency_core demo_response_input ?se
      = Inr ([4, 5, 6], demo_response)"
    unfolding demo_dependency_session_def by code_simp
  have empty: "ds_response ?se = []" and "fst ?writes = Inr ()"
    and "ds_validated_response (snd ?writes) = None"
    unfolding demo_dependency_session_def by code_simp+
  then obtain se1 where se1: "?writes = (Inr (), se1)" "ds_validated_response se1 = None"
    by (cases ?writes) auto
  have cached: "cache_validated_response demo_response se1
      = (Inr (), se1\<lparr>ds_validated_response := Some demo_response\<rparr>)"
    using se1(2) by (simp add: cache_validated_response_def)
  have "codec_faithful (dependency_response_codec demo_env) demo_response"
    by (simp add: codec_faithful_def demo_env_def demo_codec_def demo_response_def)
  from cached_response_equivalent [OF built empty _ se1(1) cached this] se1(1) cached
  show ?thesis by auto
qed

end
