(* ===== verification/Managed_Closure.thy ===== *)
theory Managed_Closure
  imports World_Closing
begin

text \<open>
  The closure of a capture, frozen (\<^verbatim>\<open>crates/reproit-sdk-rust/src/managed.rs\<close>, \<open>freeze\<close> and what it
  calls): the artifacts of a World are copied into a private directory, under the name of their
  digest, and checked against the World twice.  The files copied from belong to somebody else and
  may change at any time, so each pass over one of them reads what it reads: a list of the results
  of its \<open>read\<close> calls.
\<close>

section \<open>Reading a file\<close>

definition MAX_CHUNK_BYTES :: nat where [limits]: "MAX_CHUNK_BYTES = 8388608"
definition MAX_ARTIFACTS :: nat where [limits]: "MAX_ARTIFACTS = 32767"

record file_stat =
  fs_is_file :: bool
  fs_len :: nat
  fs_modified :: "nat option"

text \<open>The results of the \<open>read\<close> calls of one pass: \<open>None\<close> is an error, an empty read or the end of
  the list the end of the file.\<close>

type_synonym file_pass = "bytes option list"

text \<open>
  The loop of \<open>copy_and_digest\<close> and \<open>digest_file\<close>: the bytes hashed, which are those copied, and
  their number.
\<close>

fun expected_pass :: "nat \<Rightarrow> nat \<Rightarrow> bytes \<Rightarrow> file_pass \<Rightarrow> (bytes \<times> nat) res" where
  "expected_pass expected count hashed [] =
     (if count \<noteq> expected then Inl IncompleteCandidate else Inr (hashed, count))"
| "expected_pass expected count hashed (None # reads) = Inl IncompleteCandidate"
| "expected_pass expected count hashed (Some chunk # reads) =
     (if chunk = []
      then (if count \<noteq> expected then Inl IncompleteCandidate else Inr (hashed, count))
      else case checked_add count (length chunk) of
          None \<Rightarrow> Inl IncompleteCandidate
        | Some count' \<Rightarrow>
            if count' > expected then Inl IncompleteCandidate
            else expected_pass expected count' (hashed @ chunk) reads)"

text \<open>The loop of \<open>hash_file\<close>, which reads to the end.\<close>

fun whole_pass :: "nat \<Rightarrow> bytes \<Rightarrow> file_pass \<Rightarrow> (nat \<times> bytes) res" where
  "whole_pass count hashed [] = Inr (count, hashed)"
| "whole_pass count hashed (None # reads) = Inl IncompleteCandidate"
| "whole_pass count hashed (Some chunk # reads) =
     (if chunk = [] then Inr (count, hashed)
      else case checked_add count (length chunk) of
          None \<Rightarrow> Inl IncompleteCandidate
        | Some count' \<Rightarrow> whole_pass count' (hashed @ chunk) reads)"

text \<open>
  What a directory answers, by the number of the call: its metadata (\<open>fs_is_file\<close> is false for a link
  where the code asks for \<open>symlink_metadata\<close>), one pass (\<open>None\<close> when the file cannot be opened), and \<open>fs::read\<close>.
\<close>

record 'p files =
  fl_stat :: "nat \<Rightarrow> 'p \<Rightarrow> file_stat option"
  fl_pass :: "nat \<Rightarrow> 'p \<Rightarrow> file_pass option"
  fl_read :: "nat \<Rightarrow> 'p \<Rightarrow> bytes option"

definition closure_digest_file ::
  "'r world_env \<Rightarrow> file_pass option \<Rightarrow> nat \<Rightarrow> (digest \<times> nat) res" where
  "closure_digest_file we pass expected =
     bind_res (ok_or IncompleteCandidate pass) (\<lambda>reads.
     bind_res (expected_pass expected 0 [] reads) (\<lambda>(hashed, count).
       Inr (sha256 we hashed, count)))"

definition hash_file :: "'r world_env \<Rightarrow> 'p files \<Rightarrow> 'p \<Rightarrow> (nat \<times> digest) res" where
  "hash_file we fl path =
     bind_res (ok_or IncompleteCandidate (fl_stat fl 1 path)) (\<lambda>initial.
       if \<not> fs_is_file initial then Inl IncompleteCandidate
       else bind_res (ok_or IncompleteCandidate (fl_pass fl 0 path)) (\<lambda>reads.
            bind_res (whole_pass 0 [] reads) (\<lambda>(count, hashed).
            bind_res (ok_or IncompleteCandidate (fl_stat fl 2 path)) (\<lambda>after.
              if fs_len initial \<noteq> count \<or> fs_len after \<noteq> count
                 \<or> fs_modified initial \<noteq> fs_modified after
              then Inl IncompleteCandidate else Inr (count, sha256 we hashed)))))"

section \<open>The artifacts a World asks for\<close>

type_synonym expected_artifact = "string \<times> digest \<times> nat \<times> string"

definition expected_world :: "world_checkpoint \<Rightarrow> expected_artifact list" where
  "expected_world world =
     remdups (map (\<lambda>a. (ar_uri a, ar_digest a, ar_size a, ar_media_type a))
       (concat (map rp_artifacts (wp_points world))))"

definition supplied_world :: "'p candidate_artifact list \<Rightarrow> string list" where
  "supplied_world artifacts =
     remdups (map ca_uri (filter (\<lambda>a. ca_role a = WorldStateRole) artifacts))"

definition check_transcript :: "'r world_env \<Rightarrow> bytes option \<Rightarrow> transcript res" where
  "check_transcript we contents =
     bind_res (ok_or IncompleteCandidate contents) (\<lambda>data.
     bind_res (codec_parse (transcript_codec we) data) (\<lambda>transcript.
     bind_res (codec_validate (transcript_codec we) transcript) (\<lambda>_. Inr transcript)))"

definition is_transcript :: "'p candidate_artifact \<Rightarrow> bool" where
  "is_transcript a \<longleftrightarrow> ca_role a = DependencyTranscriptRole
     \<and> ca_media_type a = DEPENDENCY_TRANSCRIPT_MEDIA_TYPE"

text \<open>\<open>!metadata.file_type().is_file() || ... || metadata.len() > MAX_WORLD_ARTIFACT_BYTES\<close>\<close>

definition plain_artifact_file :: "file_stat \<Rightarrow> bool" where
  "plain_artifact_file st \<longleftrightarrow>
     fs_is_file st \<and> fs_len st \<noteq> 0 \<and> fs_len st \<le> MAX_WORLD_ARTIFACT_BYTES"

text \<open>One turn of the loop of \<open>validate_static_artifact_set\<close>, with the identifiers seen before.\<close>

definition check_artifact ::
  "'r world_env \<Rightarrow> 'p files \<Rightarrow> expected_artifact list \<Rightarrow> nat list \<Rightarrow> string list
     \<Rightarrow> 'p candidate_artifact \<Rightarrow> unit res" where
  "check_artifact we fl expected object_ids uris a =
     (if ca_role a \<notin> set [DependencyTranscriptRole, WorldStateRole]
         \<or> ca_uri a = [] \<or> length (ca_uri a) > 2048
         \<or> ca_media_type a = [] \<or> length (ca_media_type a) > 256
         \<or> ca_object_id a \<in> set object_ids \<or> ca_uri a \<in> set uris
      then Inl IncompleteCandidate
      else bind_res (ok_or IncompleteCandidate (fl_stat fl 0 (ca_path a))) (\<lambda>st.
        if \<not> plain_artifact_file st then Inl IncompleteCandidate
        else bind_res (hash_file we fl (ca_path a)) (\<lambda>(count, digest).
          if ca_role a = WorldStateRole
             \<and> (ca_uri a, digest, count, ca_media_type a) \<notin> set expected
          then Inl IncompleteCandidate
          else if is_transcript a
          then (if count > MAX_CHUNK_BYTES then Inl IncompleteCandidate
                else bind_res (check_transcript we (fl_read fl 0 (ca_path a))) (\<lambda>_. Inr ()))
          else Inr ())))"

fun check_artifacts ::
  "'r world_env \<Rightarrow> 'p files \<Rightarrow> expected_artifact list \<Rightarrow> nat list \<Rightarrow> string list
     \<Rightarrow> 'p candidate_artifact list \<Rightarrow> unit res" where
  "check_artifacts we fl expected object_ids uris [] = Inr ()"
| "check_artifacts we fl expected object_ids uris (a # rest) =
     bind_res (check_artifact we fl expected object_ids uris a) (\<lambda>_.
       check_artifacts we fl expected (ca_object_id a # object_ids) (ca_uri a # uris) rest)"

definition validate_static_artifact_set ::
  "'r world_env \<Rightarrow> 'p files \<Rightarrow> world_checkpoint \<Rightarrow> 'p candidate_artifact list \<Rightarrow> unit res" where
  "validate_static_artifact_set we fl world artifacts =
     (let expected = expected_world world; supplied = supplied_world artifacts
      in if length artifacts > MAX_ARTIFACTS then Inl IncompleteCandidate
         else if length expected \<noteq> length supplied
            \<or> (\<exists>(uri, _) \<in> set expected. uri \<notin> set supplied)
         then Inl IncompleteCandidate
         else check_artifacts we fl expected [] [] artifacts)"

section \<open>Objects of a candidate\<close>

record logical_object =
  lo_media_type :: string
  lo_object_id :: nat
  lo_plain_digest :: digest
  lo_plain_size :: nat
  lo_role :: object_role

datatype 'p object_source = SourceBytes bytes | SourceFile 'p

record 'p prepared_object =
  po_descriptor :: logical_object
  po_source :: "'p object_source"

text \<open>What the core crate does with worlds and objects.\<close>

record closure_core =
  world_id_of :: "world_checkpoint \<Rightarrow> digest res"
  validate_object :: "logical_object \<Rightarrow> unit res"

section \<open>Freezing\<close>

text \<open>The private directory: its files by the digest in their name.\<close>

type_synonym frozen_spool = "digest \<Rightarrow> bytes option"

text \<open>
  The system during one freeze.  The source directory is read in two stages: \<open>fi_validated\<close>
  answers the first \<open>validate_static_artifact_set\<close>, \<open>fi_source\<close> what follows: statement 0 is the
  one that sizes the reservation, 1 the one of \<open>capture_artifact\<close>, pass 0 copies and pass 1
  verifies.  The other fields say which calls on the private directory succeed.
\<close>

record freeze_io =
  fi_validated :: "spool_file files"
  fi_source :: "spool_file files"
  fi_directory :: bool
  fi_object_id :: "spool_file \<Rightarrow> unit res"
  fi_copied :: "spool_file \<Rightarrow> bool"
  fi_placed :: "spool_file \<Rightarrow> bool"
  fi_readable :: "nat \<Rightarrow> digest \<Rightarrow> bool"
  fi_modified :: "digest \<Rightarrow> nat option"

definition own_files :: "freeze_io \<Rightarrow> frozen_spool \<Rightarrow> digest files" where
  "own_files fi store =
     \<lparr>fl_stat = (\<lambda>k d. if fi_readable fi k d
        then map_option (\<lambda>b. \<lparr>fs_is_file = True, fs_len = length b, fs_modified = fi_modified fi d\<rparr>)
               (store d) else None),
      fl_pass = (\<lambda>k d. if fi_readable fi k d then map_option (\<lambda>b. [Some b]) (store d) else None),
      fl_read = (\<lambda>k d. if fi_readable fi k d then store d else None)\<rparr>"

text \<open>The file is put in its place, or the one already there is checked.\<close>

definition place_copy ::
  "'r world_env \<Rightarrow> freeze_io \<Rightarrow> spool_file \<Rightarrow> digest \<Rightarrow> nat \<Rightarrow> bytes \<Rightarrow> frozen_spool \<Rightarrow> frozen_spool res"
  where
  "place_copy we fi source first_digest copied data store =
     (if store first_digest \<noteq> None
      then bind_res (closure_digest_file we (fl_pass (own_files fi store) 0 first_digest) copied)
             (\<lambda>(stored_digest, stored_size).
               if stored_digest \<noteq> first_digest \<or> stored_size \<noteq> copied then Inl ObjectDigestMismatch
               else if fi_placed fi source then Inr store else Inl ServiceUnavailable)
      else if fi_placed fi source then Inr (store(first_digest \<mapsto> data))
      else Inl ServiceUnavailable)"

definition capture_artifact ::
  "'r world_env \<Rightarrow> closure_core \<Rightarrow> freeze_io \<Rightarrow> spool_file candidate_artifact \<Rightarrow> frozen_spool
     \<Rightarrow> (digest prepared_object \<times> frozen_spool) res" where
  "capture_artifact we cl fi a store =
     bind_res (ok_or IncompleteCandidate (fl_stat (fi_source fi) 1 (ca_path a))) (\<lambda>st.
       if \<not> plain_artifact_file st then Inl IncompleteCandidate
       else bind_res (fi_object_id fi (ca_path a)) (\<lambda>_.
       bind_res (ok_or IncompleteCandidate (fl_pass (fi_source fi) 0 (ca_path a))) (\<lambda>reads.
       bind_res (if fi_copied fi (ca_path a) then expected_pass (fs_len st) 0 [] reads
                 else Inl ServiceUnavailable) (\<lambda>(data, copied).
       bind_res (closure_digest_file we (fl_pass (fi_source fi) 1 (ca_path a)) (fs_len st))
         (\<lambda>(second_digest, verified).
       let first_digest = sha256 we data
       in if first_digest \<noteq> second_digest \<or> copied \<noteq> verified then Inl IncompleteCandidate
          else bind_res (place_copy we fi (ca_path a) first_digest copied data store) (\<lambda>store'.
          let descriptor = \<lparr>lo_media_type = ca_media_type a, lo_object_id = ca_object_id a,
                            lo_plain_digest = first_digest, lo_plain_size = copied,
                            lo_role = ca_role a\<rparr>
          in bind_res (validate_object cl descriptor) (\<lambda>_.
            Inr (\<lparr>po_descriptor = descriptor, po_source = SourceFile first_digest\<rparr>, store'))))))))"

definition freeze_artifact ::
  "'r world_env \<Rightarrow> closure_core \<Rightarrow> freeze_io \<Rightarrow> spool_file candidate_artifact \<Rightarrow> frozen_spool
     \<Rightarrow> (digest candidate_artifact \<times> frozen_spool) res" where
  "freeze_artifact we cl fi a store =
     bind_res (capture_artifact we cl fi a store) (\<lambda>(captured, store').
       case po_source captured of
         SourceBytes _ \<Rightarrow> Inl IncompleteCandidate
       | SourceFile path \<Rightarrow>
           Inr (\<lparr>ca_media_type = lo_media_type (po_descriptor captured),
                 ca_object_id = lo_object_id (po_descriptor captured), ca_path = path,
                 ca_role = lo_role (po_descriptor captured), ca_uri = ca_uri a\<rparr>, store'))"

fun freeze_artifacts ::
  "'r world_env \<Rightarrow> closure_core \<Rightarrow> freeze_io \<Rightarrow> spool_file candidate_artifact list \<Rightarrow> frozen_spool
     \<Rightarrow> (digest candidate_artifact list \<times> frozen_spool) res" where
  "freeze_artifacts we cl fi [] store = Inr ([], store)"
| "freeze_artifacts we cl fi (a # rest) store =
     bind_res (freeze_artifact we cl fi a store) (\<lambda>(frozen, store').
     bind_res (freeze_artifacts we cl fi rest store') (\<lambda>(frozens, store'').
       Inr (frozen # frozens, store'')))"

text \<open>The bytes to reserve, by the sizes the directory reports.\<close>

fun world_bytes :: "spool_file files \<Rightarrow> nat \<Rightarrow> spool_file candidate_artifact list \<Rightarrow> nat res" where
  "world_bytes fl acc [] = Inr acc"
| "world_bytes fl acc (a # rest) =
     bind_res (ok_or IncompleteCandidate (fl_stat fl 0 (ca_path a))) (\<lambda>st.
       if fs_len st > MAX_WORLD_ARTIFACT_BYTES then Inl IncompleteCandidate
       else bind_res (ok_or IncompleteCandidate (checked_add acc (fs_len st))) (\<lambda>acc'.
         world_bytes fl acc' rest))"

record frozen_closure =
  fz_closure :: "digest capture_closure"
  fz_reservation :: nat
  fz_spool :: frozen_spool

text \<open>The part of \<open>freeze\<close> that holds a reservation.\<close>

definition freeze_reserved ::
  "'r world_env \<Rightarrow> closure_core \<Rightarrow> freeze_io \<Rightarrow> spool_file capture_closure \<Rightarrow> nat
     \<Rightarrow> frozen_closure res" where
  "freeze_reserved we cl fi closure held =
     (if cl_artifacts closure \<noteq> [] \<and> \<not> fi_directory fi then Inl ServiceUnavailable
      else bind_res (freeze_artifacts we cl fi (cl_artifacts closure) (\<lambda>_. None))
        (\<lambda>(artifacts, store).
        bind_res (validate_static_artifact_set we (own_files fi store) (cl_world closure) artifacts)
          (\<lambda>_. Inr \<lparr>fz_closure = \<lparr>cl_artifacts = artifacts, cl_completion = cl_completion closure,
                                   cl_world = cl_world closure\<rparr>,
                    fz_reservation = held, fz_spool = store\<rparr>)))"

text \<open>\<open>freeze\<close>: the reservation goes into the frozen closure, or is given back with an error.\<close>

definition freeze ::
  "'r world_env \<Rightarrow> closure_core \<Rightarrow> freeze_io \<Rightarrow> spool_file capture_closure \<Rightarrow> process_resources
     \<Rightarrow> frozen_closure res \<times> process_resources" where
  "freeze we cl fi closure r =
     (case bind_res (validate_checkpoint we (cl_world closure)) (\<lambda>_.
           bind_res (validate_static_artifact_set we (fi_validated fi) (cl_world closure)
               (cl_artifacts closure)) (\<lambda>_.
             world_bytes (fi_source fi) 0 (cl_artifacts closure))) of
        Inl e \<Rightarrow> (Inl e, r)
      | Inr n \<Rightarrow>
          if n > MAX_WORLD_BYTES then (Inl UploadLimitExceeded, r)
          else case reserve_capture_bytes 0 n r of
              (False, held, r1) \<Rightarrow> (Inl UploadLimitExceeded, reservation_drop held r1)
            | (True, held, r1) \<Rightarrow>
                case freeze_reserved we cl fi closure held of
                  Inl e \<Rightarrow> (Inl e, reservation_drop held r1)
                | Inr frozen \<Rightarrow> (Inr frozen, r1))"

section \<open>The closure of an operation\<close>

definition foreign_interaction :: "operation_id \<Rightarrow> interaction \<Rightarrow> bool" where
  "foreign_interaction op i \<longleftrightarrow>
     in_operation_id i \<noteq> op \<and> in_causal_parent_id i \<noteq> Some op"

fun validate_bindings ::
  "'r world_env \<Rightarrow> digest files \<Rightarrow> operation_id \<Rightarrow> digest candidate_artifact list \<Rightarrow> unit res" where
  "validate_bindings we fl op [] = Inr ()"
| "validate_bindings we fl op (a # rest) =
     (if \<not> is_transcript a then validate_bindings we fl op rest
      else bind_res (check_transcript we (fl_read fl 1 (ca_path a))) (\<lambda>transcript.
        if (\<exists>i \<in> set (tr_interactions transcript). foreign_interaction op i)
        then Inl IncompleteCandidate
        else validate_bindings we fl op rest))"

definition validate_operation_binding ::
  "'r world_env \<Rightarrow> freeze_io \<Rightarrow> operation_id \<Rightarrow> frozen_closure \<Rightarrow> unit res" where
  "validate_operation_binding we fi op frozen =
     validate_bindings we (own_files fi (fz_spool frozen)) op (cl_artifacts (fz_closure frozen))"

record operation_closure =
  oc_closure :: frozen_closure
  oc_operation_id :: operation_id

definition frozen_drop :: "frozen_closure \<Rightarrow> process_resources \<Rightarrow> process_resources" where
  "frozen_drop frozen r = reservation_drop (fz_reservation frozen) r"

text \<open>\<open>ManagedRustOperationClosure::capture\<close>, with what the provider answers.\<close>

definition capture_operation_closure ::
  "'r world_env \<Rightarrow> closure_core \<Rightarrow> freeze_io \<Rightarrow> operation_id \<Rightarrow> spool_file capture_closure res
     \<Rightarrow> process_resources \<Rightarrow> operation_closure res \<times> process_resources" where
  "capture_operation_closure we cl fi op provided r =
     (case provided of
        Inl e \<Rightarrow> (Inl e, r)
      | Inr closure \<Rightarrow>
          case freeze we cl fi closure r of
            (Inl e, r1) \<Rightarrow> (Inl e, r1)
          | (Inr frozen, r1) \<Rightarrow>
              case validate_operation_binding we fi op frozen of
                Inl e \<Rightarrow> (Inl e, frozen_drop frozen r1)
              | Inr _ \<Rightarrow> (Inr \<lparr>oc_closure = frozen, oc_operation_id = op\<rparr>, r1))"

definition operation_closure_world_id :: "closure_core \<Rightarrow> operation_closure \<Rightarrow> digest res" where
  "operation_closure_world_id cl oc = world_id_of cl (cl_world (fz_closure (oc_closure oc)))"

end
