(* ===== verification/Automatic_Engine.thy ===== *)
theory Automatic_Engine
  imports Automatic_Context Candidate_Sinks Fuzz_Context Managed_Closure
begin

text \<open>
  The automatic engine and the operations it starts
  (\<^verbatim>\<open>crates/reproit-sdk-rust/src/automatic_engine.rs\<close>): an operation has an SDK of its own with a
  local recorder, a coordinator behind a shared context, and, after its World is closed, the frozen
  closure that its failure is delivered with.  The state of the process is one record: the contexts
  with the ledger, the sentinel's controller, the counter of native handles and the fuzz contexts
  of the thread that runs.
\<close>

section \<open>The process\<close>

record 'r process_state =
  ps_contexts :: "'r context_state"
  ps_controller :: controller
  ps_native_handle :: nat
  ps_fuzz :: fuzz_stack
  ps_thread :: int

definition ps_resources :: "'r process_state \<Rightarrow> process_resources" where
  "ps_resources ps = cs_resources (ps_contexts ps)"

definition set_resources :: "process_resources \<Rightarrow> 'r process_state \<Rightarrow> 'r process_state" where
  "set_resources r ps = ps\<lparr>ps_contexts := (ps_contexts ps)\<lparr>cs_resources := r\<rparr>\<rparr>"

definition on_controller :: "(controller \<Rightarrow> controller) \<Rightarrow> 'r process_state \<Rightarrow> 'r process_state" where
  "on_controller f ps = ps\<lparr>ps_controller := f (ps_controller ps)\<rparr>"

text \<open>
  A call under \<open>engine_call_scope\<close>: its thread is ignored until the guard is dropped.  The guard
  is of the runtime it was taken from; when that is gone its drop changes nothing any more.
\<close>

definition scope_drop :: "nat option \<Rightarrow> controller \<Rightarrow> controller" where
  "scope_drop guard ct =
     (case (guard, ct_runtime ct) of
        (Some slot, Some rt) \<Rightarrow>
          ct\<lparr>ct_runtime := Some (rt\<lparr>rt_shared := ignore_guard_drop slot (rt_shared rt)\<rparr>)\<rparr>
      | _ \<Rightarrow> ct)"

definition scoped ::
  "('s \<times> 'r process_state \<Rightarrow> 'a \<times> 's \<times> 'r process_state) \<Rightarrow> 's \<times> 'r process_state
     \<Rightarrow> 'a \<times> 's \<times> 'r process_state" where
  "scoped m st =
     (let (guard, ct) = engine_call_scope (ps_thread (snd st)) (ps_controller (snd st));
          (result, x, ps) = m (fst st, (snd st)\<lparr>ps_controller := ct\<rparr>)
      in (result, x, on_controller (scope_drop guard) ps))"

definition next_native_operation_handle :: "('r process_state, nat) act" where
  "next_native_operation_handle ps =
     (case checked_add (ps_native_handle ps) 1 of
        None \<Rightarrow> (Inl RuntimeQuota, ps)
      | Some next \<Rightarrow> (Inr (ps_native_handle ps), ps\<lparr>ps_native_handle := next\<rparr>))"

section \<open>The engine\<close>

record subject_module =
  sm_path :: string
  sm_module_digest :: digest

record subject_manifest =
  sj_modules :: "subject_module list"
  sj_executable :: string
  sj_rest :: bytes

record 'p automatic_engine =
  en_registrations :: "(observation_class, registration) btree"
  en_project :: 'p
  en_sentinel :: bool
  en_subject :: subject_manifest

definition RUST_NATIVE_GUARD_ADAPTER_ID :: string where
  "RUST_NATIVE_GUARD_ADAPTER_ID = ''rust-native-coverage-sentinel''"
definition RUST_NATIVE_GUARD_ADAPTER_VERSION :: string where
  "RUST_NATIVE_GUARD_ADAPTER_VERSION = ''1.0.0''"

definition new_unregistered :: "'p \<Rightarrow> subject_manifest \<Rightarrow> 'p automatic_engine" where
  "new_unregistered project subject =
     \<lparr>en_registrations = [], en_project = project, en_sentinel = False, en_subject = subject\<rparr>"

fun guard_registrations ::
  "'r world_env \<Rightarrow> digest \<Rightarrow> observation_class list \<Rightarrow> (observation_class, registration) btree
     \<Rightarrow> (observation_class, registration) btree" where
  "guard_registrations we d [] regs = regs"
| "guard_registrations we d (class # classes) regs =
     (case new_registration we class RUST_NATIVE_GUARD_ADAPTER_ID
             RUST_NATIVE_GUARD_ADAPTER_VERSION d of
        Inl _ \<Rightarrow> []
      | Inr rg \<Rightarrow> guard_registrations we d classes (bt_insert class rg regs))"

definition install_native_guard_adapters ::
  "'r world_env \<Rightarrow> 'p automatic_engine \<Rightarrow> 'p automatic_engine" where
  "install_native_guard_adapters we en =
     (case find (\<lambda>m. sm_path m = sj_executable (en_subject en)) (sj_modules (en_subject en)) of
        None \<Rightarrow> en
      | Some m \<Rightarrow>
          en\<lparr>en_registrations :=
               guard_registrations we (sm_module_digest m) ALL_CLASSES (en_registrations en)\<rparr>)"

text \<open>\<open>AutomaticManagedEngine::new\<close>, with the runtime that installing the sentinel would give.\<close>

definition new_engine ::
  "'r world_env \<Rightarrow> trace_runtime option \<Rightarrow> 'p \<Rightarrow> subject_manifest \<Rightarrow> 'r process_state
     \<Rightarrow> 'p automatic_engine \<times> 'r process_state" where
  "new_engine we installed project subject ps =
     (install_native_guard_adapters we
        \<lparr>en_registrations = [], en_project = project, en_sentinel = True, en_subject = subject\<rparr>,
      on_controller (engine_opened installed) ps)"

text \<open>Drop of the last owner of the engine's lease.\<close>

definition engine_drop :: "'p automatic_engine \<Rightarrow> 'r process_state \<Rightarrow> 'r process_state" where
  "engine_drop en ps = (if en_sentinel en then on_controller engine_closed ps else ps)"

definition register_observation_adapter ::
  "'r world_env \<Rightarrow> observation_class \<Rightarrow> string \<Rightarrow> string \<Rightarrow> digest
     \<Rightarrow> ('p automatic_engine, unit) act" where
  "register_observation_adapter we class adapter_id adapter_version implementation_digest en =
     (case new_registration we class adapter_id adapter_version implementation_digest of
        Inl e \<Rightarrow> (Inl e, en)
      | Inr rg \<Rightarrow>
          (if bt_contains (en_registrations en) class then Inl SchemaInvalid else Inr (),
           en\<lparr>en_registrations := bt_insert class rg (en_registrations en)\<rparr>))"

section \<open>Operations\<close>

record managed_operation =
  mo_closure :: "operation_closure option"
  mo_finished :: bool
  mo_operation_id :: operation_id
  mo_operation_kind :: operation_kind
  mo_operation_name :: string
  mo_recorder :: local_recorder
  mo_sdk :: sdk
  mo_sentinel_handle :: "nat option"
  mo_shared :: nat

text \<open>A call of an operation reads and writes the operation and the process.\<close>

type_synonym 'r operation_state = "managed_operation \<times> 'r process_state"

text \<open>
  The SDK is one object, which the operation shares with its coordinator: it is the coordinator's
  while there is one, and the operation's when the coordinator has been taken.
\<close>

definition coordinator_of :: "nat \<Rightarrow> 'r context_state \<Rightarrow> 'r automatic_world option" where
  "coordinator_of a cs = Option.bind (cs_shared cs a) sh_coordinator"

definition operation_sdk :: "'r operation_state \<Rightarrow> sdk" where
  "operation_sdk st =
     (case coordinator_of (mo_shared (fst st)) (ps_contexts (snd st)) of
        None \<Rightarrow> mo_sdk (fst st)
      | Some s \<Rightarrow> aw_sdk s)"

definition put_sdk :: "sdk \<Rightarrow> process_resources \<Rightarrow> 'r operation_state \<Rightarrow> 'r operation_state" where
  "put_sdk sd r st =
     (let op = fst st; ps = snd st
      in (op\<lparr>mo_sdk := sd\<rparr>,
          set_resources r (ps\<lparr>ps_contexts := update_shared (mo_shared op)
            (\<lambda>sh. sh\<lparr>sh_coordinator := map_option (\<lambda>s. s\<lparr>aw_sdk := sd\<rparr>) (sh_coordinator sh)\<rparr>)
            (ps_contexts ps)\<rparr>)))"

definition sdk_call ::
  "(sdk \<Rightarrow> process_resources \<Rightarrow> 'a \<times> sdk \<times> process_resources) \<Rightarrow> 'r operation_state
     \<Rightarrow> 'a \<times> 'r operation_state" where
  "sdk_call f st =
     (let (result, sd, r) = f (operation_sdk st) (ps_resources (snd st))
      in (result, put_sdk sd r st))"

text \<open>Before its coordinator goes the operation keeps the SDK.\<close>

definition keep_sdk :: "'r operation_state \<Rightarrow> 'r operation_state" where
  "keep_sdk st = ((fst st)\<lparr>mo_sdk := operation_sdk st\<rparr>, snd st)"

definition on_contexts ::
  "(nat \<Rightarrow> 'r context_state \<Rightarrow> 'a \<times> 'r context_state) \<Rightarrow> 'r operation_state
     \<Rightarrow> 'a \<times> 'r operation_state" where
  "on_contexts m st =
     (let (result, cs) = m (mo_shared (fst st)) (ps_contexts (snd st))
      in (result, fst st, (snd st)\<lparr>ps_contexts := cs\<rparr>))"

definition coordinator_call ::
  "('r automatic_world, 'a) act \<Rightarrow> ('r operation_state, 'a) act" where
  "coordinator_call action = scoped (on_contexts (\<lambda>a. with_coordinator a action))"

definition operation_record_input ::
  "core \<Rightarrow> input_payload \<Rightarrow> ('r operation_state, unit) act" where
  "operation_record_input c p =
     scoped (\<lambda>st. sdk_call (record_input c (mo_operation_id (fst st)) p) st)"

definition operation_open_observation where
  "operation_open_observation io sid class parent =
     coordinator_call (open_observation io sid class parent)"

definition operation_write where
  "operation_write io sid stream chunk = coordinator_call (write_observation io sid stream chunk)"

definition operation_dispatch ::
  "'r world_env \<Rightarrow> world_io \<Rightarrow> nat \<Rightarrow> ('r operation_state, string) act" where
  "operation_dispatch we io sid =
     coordinator_call (act_bind (dispatch_observation we io sid)
       (\<lambda>action. act_res (Inr (action_as_str action))))"

definition operation_read where
  "operation_read io sid = coordinator_call (read_observation_response io sid)"

definition operation_finish where
  "operation_finish we io sid outcome pos =
     coordinator_call (finish_observation we io sid outcome pos)"

definition operation_abandon_observation where
  "operation_abandon_observation sid = coordinator_call (abandon_observation sid)"

definition operation_mark_unowned where
  "operation_mark_unowned we io class parent evidence =
     coordinator_call (mark_unowned we io class parent evidence)"

definition operation_bind_coverage where
  "operation_bind_coverage we evidence =
     coordinator_call (bind_native_sentinel_coverage we evidence)"

section \<open>Closing the World\<close>

text \<open>The operation asks the sentinel once, and binds clean evidence to the registrations.\<close>

definition bind_own_sentinel :: "'r world_env \<Rightarrow> ('r operation_state, unit) act" where
  "bind_own_sentinel we st =
     (case mo_sentinel_handle (fst st) of
        None \<Rightarrow> (Inr (), st)
      | Some handle \<Rightarrow>
          let (coverage, ct) = operation_finished handle (ps_controller (snd st));
              st1 = ((fst st)\<lparr>mo_sentinel_handle := None\<rparr>, (snd st)\<lparr>ps_controller := ct\<rparr>)
          in case coverage of
               CoverageIncomplete \<Rightarrow> (Inr (), st1)
             | CleanKernelTrace evidence \<Rightarrow>
                 operation_bind_coverage we (evidence_encode evidence) st1)"

definition close_taken ::
  "'r world_env \<Rightarrow> world_io \<Rightarrow> trigger_completion \<Rightarrow> 'r automatic_world
     \<Rightarrow> ('r operation_state, world_capture) act" where
  "close_taken we io completion coordinator st =
     (let (result, sd, r) = close_world we io completion coordinator
      in (result, put_sdk sd r st))"

text \<open>\<open>bind_world\<close>: an operation closure that cannot be bound is dropped with its reservation.\<close>

definition bind_world ::
  "'r world_env \<Rightarrow> closure_core \<Rightarrow> freeze_io \<Rightarrow> spool_file capture_closure
     \<Rightarrow> ('r operation_state, unit) act" where
  "bind_world we cl fi closure st =
     (if mo_closure (fst st) \<noteq> None then (Inl SchemaInvalid, st)
      else
        let op = mo_operation_id (fst st);
            (captured, r) = capture_operation_closure we cl fi op (Inr closure) (ps_resources (snd st));
            st1 = (fst st, set_resources r (snd st))
        in case captured of
             Inl e \<Rightarrow> (Inl e, st1)
           | Inr oc \<Rightarrow>
               let (result, st2) =
                     (case operation_closure_world_id cl oc of
                        Inl e \<Rightarrow> (Inl e, st1)
                      | Inr world_id \<Rightarrow>
                          sdk_call (\<lambda>sd r. let (result, sd') = bind_automatic_world op world_id sd
                                           in (result, sd', r)) st1)
               in case result of
                    Inl e \<Rightarrow> (Inl e, fst st2,
                      set_resources (frozen_drop (oc_closure oc) (ps_resources (snd st2))) (snd st2))
                  | Inr _ \<Rightarrow> (Inr (), (fst st2)\<lparr>mo_closure := Some oc\<rparr>, snd st2))"

text \<open>\<open>bind_automatic_world\<close> of the operation: what is left of the capture is dropped at its end.\<close>

definition bind_capture ::
  "'r world_env \<Rightarrow> closure_core \<Rightarrow> freeze_io \<Rightarrow> world_capture \<Rightarrow> ('r operation_state, unit) act" where
  "bind_capture we cl fi capture st =
     (let (result, st1) =
            act_bind (\<lambda>st. sdk_call (record_observation_fence (we_core we)
                (mo_operation_id (fst st)) (wcap_fence capture)) st)
              (\<lambda>_. bind_world we cl fi (wcap_closure capture)) st
      in (result, fst st1,
          set_resources (capture_drop capture (ps_resources (snd st1))) (snd st1)))"

definition operation_close_world ::
  "'r world_env \<Rightarrow> closure_core \<Rightarrow> world_io \<Rightarrow> freeze_io \<Rightarrow> trigger_completion
     \<Rightarrow> ('r operation_state, unit) act" where
  "operation_close_world we cl io fi completion =
     scoped
       (act_bind (bind_own_sentinel we) (\<lambda>_.
        act_bind (\<lambda>st. on_contexts take_for_close (keep_sdk st)) (\<lambda>coordinator.
        act_bind (close_taken we io completion coordinator) (\<lambda>capture.
          bind_capture we cl fi capture))))"

section \<open>The end of an operation\<close>

definition remove_native_operation :: "'r operation_state \<Rightarrow> 'r operation_state" where
  "remove_native_operation st =
     (case mo_sentinel_handle (fst st) of
        None \<Rightarrow> st
      | Some handle \<Rightarrow>
          snd (scoped (\<lambda>(op, ps). ((), op\<lparr>mo_sentinel_handle := None\<rparr>,
                 on_controller (remove_operation handle) ps)) st))"

definition deactivate_operation :: "'r operation_state \<Rightarrow> 'r operation_state" where
  "deactivate_operation st = snd (on_contexts (\<lambda>a cs. ((), deactivate a cs)) (keep_sdk st))"

text \<open>The fields of a finished operation are dropped: the closure, the recorder and the SDK.\<close>

definition drop_fields :: "'r operation_state \<Rightarrow> 'r process_state" where
  "drop_fields st =
     (let op = fst st; ps = snd st;
          r1 = (case mo_closure op of None \<Rightarrow> ps_resources ps
                | Some oc \<Rightarrow> frozen_drop (oc_closure oc) (ps_resources ps));
          r2 = recorder_drop r1 (mo_recorder op)
      in set_resources (drop_state (operation_sdk st) r2) ps)"

definition sdk_delete ::
  "(operation_id \<Rightarrow> sdk \<Rightarrow> process_resources \<Rightarrow> sdk \<times> process_resources) \<Rightarrow> 'r operation_state
     \<Rightarrow> 'r operation_state" where
  "sdk_delete delete st =
     snd (sdk_call (\<lambda>sd r. ((), delete (mo_operation_id (fst st)) sd r)) st)"

definition operation_succeed :: "'r operation_state \<Rightarrow> 'r process_state" where
  "operation_succeed st =
     drop_fields (sdk_delete state_delete (deactivate_operation (remove_native_operation st)))"

definition operation_abandon :: "'r operation_state \<Rightarrow> 'r process_state" where
  "operation_abandon st =
     drop_fields (sdk_delete abandon_incomplete (deactivate_operation (remove_native_operation st)))"

text \<open>Drop: an operation that was not finished is abandoned.\<close>

definition operation_drop :: "'r operation_state \<Rightarrow> 'r process_state" where
  "operation_drop st = (if mo_finished (fst st) then drop_fields st else operation_abandon st)"

section \<open>Starting an operation\<close>

text \<open>
  What the core crate, the project and the recorder's subject answer: the deployment of the project,
  the validation of a manifest, and \<open>bind_deployment\<close>, which reads the platform of the host.
\<close>

record 'p engine_env =
  ee_deployment :: "'p \<Rightarrow> deployment res"
  ee_validate_manifest :: "subject_manifest \<Rightarrow> unit res"
  ee_bind_deployment :: "subject_manifest \<Rightarrow> deployment \<Rightarrow> deployment res"

text \<open>
  What one start is given: the identifiers generated, the value of the environment variable, whether
  the spool directory can be made, the environment, and a new address for the shared context.
\<close>

record start_io =
  si_capture_id :: "capture_id res"
  si_operation_id :: "operation_id res"
  si_fuzz_target :: "string option"
  si_spool_created :: bool
  si_environment_io :: world_io
  si_clock_io :: world_io
  si_vars :: "(bytes \<times> bytes) list"
  si_address :: nat

definition thread_context :: "'r process_state \<Rightarrow> (fuzz_context_identity \<times> fuzz_context) option" where
  "thread_context ps =
     (case current_context (ps_fuzz ps) of
        Inl _ \<Rightarrow> None
      | Inr ctx \<Rightarrow> Some (cc_identity ctx, cc_context ctx))"

text \<open>The candidate of a new operation, from its identifiers and its deployment.\<close>

definition start_candidate ::
  "'p engine_env \<Rightarrow> start_io \<Rightarrow> 'p automatic_engine \<Rightarrow> candidate_start res" where
  "start_candidate ee si en =
     bind_res (si_capture_id si) (\<lambda>capture_id.
     bind_res (si_operation_id si) (\<lambda>op.
     bind_res (ee_validate_manifest ee (en_subject en)) (\<lambda>_.
     bind_res (ee_deployment ee (en_project en)) (\<lambda>deployment.
     bind_res (ee_bind_deployment ee (en_subject en) deployment) (\<lambda>bound.
       Inr \<lparr>start_capture_id = capture_id, start_deployment = bound, start_operation_id = op,
            start_world_id = Digest 0\<rparr>)))))"

text \<open>
  The coordinator of a new operation with its ambient observations: an error leaves the SDK without
  the operation, and a coordinator is dropped.
\<close>

definition start_coordinator ::
  "'r world_env \<Rightarrow> start_io \<Rightarrow> (observation_class, registration) btree \<Rightarrow> operation_id \<Rightarrow> sdk
     \<Rightarrow> process_resources \<Rightarrow> 'r automatic_world res \<times> process_resources" where
  "start_coordinator we si regs op sd r =
     (case new_with_registrations (si_spool_created si) op regs sd r of
        Inl e \<Rightarrow> (Inl e, let (sd', r') = abandon_incomplete op sd r in drop_state sd' r')
      | Inr s \<Rightarrow>
          case capture_ambient we (si_environment_io si) (si_clock_io si) (si_vars si) s of
            (Inl e, s1) \<Rightarrow>
              (Inl e, let (sd', r') = abandon_incomplete op (aw_sdk s1) (aw_resources s1)
                      in drop_state sd' (reservation_drop (aw_reserved s1) r'))
          | (Inr _, s1) \<Rightarrow> (Inr s1, aw_resources s1))"

text \<open>
  The native handle of a new operation.  When there is none left the shared context and the SDK are
  dropped, which gives everything back.
\<close>

definition start_sentinel ::
  "bool \<Rightarrow> nat \<Rightarrow> sdk \<Rightarrow> ('r process_state, nat option) act" where
  "start_sentinel watched a sd ps =
     (if \<not> watched then (Inr None, ps)
      else case next_native_operation_handle ps of
          (Inl e, ps1) \<Rightarrow>
            let ps2 = ps1\<lparr>ps_contexts := shared_drop a (ps_contexts ps1)\<rparr>
            in (Inl e, set_resources (drop_state sd (ps_resources ps2)) ps2)
        | (Inr handle, ps1) \<Rightarrow>
            (Inr (Some handle),
             snd (snd (scoped (\<lambda>(u, ps). ((), u, on_controller (operation_started handle) ps))
               ((), ps1)))))"

definition start_operation ::
  "'r world_env \<Rightarrow> 'p engine_env \<Rightarrow> start_io \<Rightarrow> 'p automatic_engine \<Rightarrow> begin_payload
     \<Rightarrow> ('r process_state, managed_operation) act" where
  "start_operation we ee si en p ps =
     (case start_candidate ee si en of
        Inl e \<Rightarrow> (Inl e, ps)
      | Inr start \<Rightarrow>
          let op = start_operation_id start; a = si_address si
          in case begin_automatic (we_core we) (sha256 we (text_bytes we ''pending automatic World''))
                start p (thread_context ps) (new_from_environment (si_fuzz_target si))
                (ps_resources ps) of
               (Inl e, sd, r) \<Rightarrow> (Inl e, set_resources (drop_state sd r) ps)
             | (Inr _, sd, r) \<Rightarrow>
                 case start_coordinator we si (en_registrations en) op sd r of
                   (Inl e, r1) \<Rightarrow> (Inl e, set_resources r1 ps)
                 | (Inr coordinator, r1) \<Rightarrow>
                     case shared_new a op coordinator (ps_contexts (set_resources r1 ps)) of
                       (Inl e, cs) \<Rightarrow>
                         (Inl e, let (sd', r') = abandon_incomplete op (aw_sdk coordinator)
                                                   (cs_resources cs)
                                 in set_resources (drop_state sd' r') (ps\<lparr>ps_contexts := cs\<rparr>))
                     | (Inr _, cs) \<Rightarrow>
                         act_bind (start_sentinel (en_sentinel en) a (aw_sdk coordinator))
                           (\<lambda>handle. act_res (Inr
                             \<lparr>mo_closure = None, mo_finished = False, mo_operation_id = op,
                              mo_operation_kind = begin_operation_kind p,
                              mo_operation_name = begin_operation_name p,
                              mo_recorder = empty_recorder, mo_sdk = aw_sdk coordinator,
                              mo_sentinel_handle = handle, mo_shared = a\<rparr>))
                           (ps\<lparr>ps_contexts := cs\<rparr>))"

section \<open>Failing\<close>

text \<open>What the core crate says of a failure identity, which is opaque.\<close>

record failure_core =
  validate_identity :: "bytes \<Rightarrow> unit res"
  identity_operation :: "bytes \<Rightarrow> operation_kind \<times> string"
  identity_grouping :: "bytes \<Rightarrow> failure_reference res"

definition make_failure_payload ::
  "failure_core \<Rightarrow> bytes \<Rightarrow> operation_kind \<Rightarrow> string \<Rightarrow> failure_payload res" where
  "make_failure_payload fc identity expected_kind expected_name =
     bind_res (validate_identity fc identity) (\<lambda>_.
       if identity_operation fc identity \<noteq> (expected_kind, expected_name) then Inl SchemaInvalid
       else bind_res (identity_grouping fc identity) (\<lambda>reference.
         Inr \<lparr>fp_failure = reference, fp_identity = identity\<rparr>))"

text \<open>\<open>sdk.fail\<close> with the recorder as the sink.\<close>

definition recorded_fail ::
  "core \<Rightarrow> nat \<Rightarrow> failure_payload \<Rightarrow> ('r operation_state, unit) act" where
  "recorded_fail c now_ms failure st =
     (let op = fst st;
          (result, sd, r, recorder) =
            sdk_fail c (recorder_sink c (mo_operation_id op)) now_ms (mo_operation_id op) failure
              (operation_sdk st) (ps_resources (snd st)) (mo_recorder op)
      in (result, put_sdk sd r (op\<lparr>mo_recorder := recorder\<rparr>, snd st)))"

definition take_recorded :: "('r operation_state, candidate) act" where
  "take_recorded st =
     (let (taken, r, recorder) = take_failed_candidate (ps_resources (snd st)) (mo_recorder (fst st))
      in (ok_or IncompleteCandidate taken,
          (fst st)\<lparr>mo_recorder := recorder\<rparr>, set_resources r (snd st)))"

text \<open>
  \<open>fail\<close> consumes the operation.  \<open>finalize\<close> is \<open>finalize_official\<close> of the recorded failure: it
  consumes the closure and yields the sink that delivers the candidate.
\<close>

definition operation_fail ::
  "core \<Rightarrow> failure_core \<Rightarrow> nat
     \<Rightarrow> (candidate \<Rightarrow> operation_closure \<Rightarrow> 't \<Rightarrow> process_resources \<Rightarrow> 's res \<times> process_resources)
     \<Rightarrow> bytes \<Rightarrow> 't \<Rightarrow> 'r operation_state \<Rightarrow> 's res \<times> 'r process_state" where
  "operation_fail c fc now_ms finalize identity token st =
     (case mo_closure (fst st) of
        None \<Rightarrow> (Inl IncompleteCandidate, operation_drop st)
      | Some oc \<Rightarrow>
          let st1 = ((fst st)\<lparr>mo_closure := None\<rparr>, snd st)
          in case act_bind (act_res (make_failure_payload fc identity (mo_operation_kind (fst st))
                     (mo_operation_name (fst st))))
                 (\<lambda>failure. act_bind (recorded_fail c now_ms failure) (\<lambda>_. take_recorded)) st1 of
               (Inl e, st2) \<Rightarrow>
                 (Inl e, operation_drop (fst st2,
                    set_resources (frozen_drop (oc_closure oc) (ps_resources (snd st2))) (snd st2)))
             | (Inr cand, st2) \<Rightarrow>
                 let (sink, r) = finalize cand oc token (ps_resources (snd st2))
                 in (sink, drop_fields ((fst st2)\<lparr>mo_finished := True\<rparr>, set_resources r (snd st2))))"

section \<open>The operation of the factory\<close>

definition validate_completion :: "operation_kind \<Rightarrow> trigger_completion \<Rightarrow> unit res" where
  "validate_completion kind completion =
     (if (kind, completion) \<in> set [(RequestResponse, Return), (Stream, StreamEnd),
           (DeliveredWork, Acknowledgment), (DeliveredWork, TaskEnd)]
      then Inr () else Inl SchemaInvalid)"

text \<open>\<open>AutomaticFactoryOperation::fail\<close>: each error drops the operation.\<close>

definition factory_fail ::
  "'r world_env \<Rightarrow> closure_core \<Rightarrow> world_io \<Rightarrow> freeze_io \<Rightarrow> failure_core \<Rightarrow> nat
     \<Rightarrow> (candidate \<Rightarrow> operation_closure \<Rightarrow> 't \<Rightarrow> process_resources \<Rightarrow> 's res \<times> process_resources)
     \<Rightarrow> 't res \<Rightarrow> bytes \<Rightarrow> trigger_completion \<Rightarrow> 'r operation_state \<Rightarrow> 's res \<times> 'r process_state" where
  "factory_fail we cl io fi fc now_ms finalize token identity completion st =
     (case act_bind (act_res (validate_completion (mo_operation_kind (fst st)) completion)) (\<lambda>_.
           act_bind (operation_close_world we cl io fi completion) (\<lambda>_. act_res token)) st of
        (Inl e, st1) \<Rightarrow> (Inl e, operation_drop st1)
      | (Inr t, st1) \<Rightarrow> operation_fail (we_core we) fc now_ms finalize identity t st1)"

end
