(* ===== verification/Closure_Theorems.thy ===== *)
theory Closure_Theorems
  imports Managed_Closure
begin

text \<open>
  What a frozen closure guarantees, whatever happens to the files it was copied from: its own files
  are those the World names, byte for byte, and the ledger holds exactly its reservation.
\<close>

section \<open>The checks\<close>

lemma check_artifact_seen:
  "check_artifact we fl expected ids uris a = Inr () \<Longrightarrow>
     check_artifact we fl expected [] [] a = Inr ()
     \<and> ca_object_id a \<notin> set ids \<and> ca_uri a \<notin> set uris"
  by (auto simp: check_artifact_def split: if_splits)

lemma check_artifacts_ok:
  "check_artifacts we fl expected ids uris as = Inr () \<Longrightarrow>
     (\<forall>a \<in> set as. check_artifact we fl expected [] [] a = Inr ()
        \<and> ca_object_id a \<notin> set ids \<and> ca_uri a \<notin> set uris)
     \<and> distinct (map ca_object_id as) \<and> distinct (map ca_uri as)"
proof (induction as arbitrary: ids uris)
  case Nil
  then show ?case by simp
next
  case (Cons a as)
  have "check_artifact we fl expected ids uris a = Inr ()"
    "check_artifacts we fl expected (ca_object_id a # ids) (ca_uri a # uris) as = Inr ()"
    using Cons.prems by (auto simp: bind_res_eq_Inr)
  with Cons.IH [OF this(2)] show ?case by (auto dest: check_artifact_seen)
qed

lemma own_hash:
  assumes "hash_file we (own_files fi store) d = Inr (n, h)"
  shows "\<exists>data. store d = Some data \<and> n = length data \<and> h = sha256 we data"
  using assms
  by (auto simp: hash_file_def own_files_def bind_res_eq_Inr split: if_splits prod.splits option.splits)

lemma own_world_artifact:
  assumes "check_artifact we (own_files fi store) expected [] [] a = Inr ()"
    and "ca_role a = WorldStateRole"
  shows "\<exists>data. store (ca_path a) = Some data \<and> length data \<le> MAX_WORLD_ARTIFACT_BYTES \<and> data \<noteq> []
    \<and> (ca_uri a, sha256 we data, length data, ca_media_type a) \<in> set expected"
proof -
  obtain st n h where parts: "fl_stat (own_files fi store) 0 (ca_path a) = Some st"
    "plain_artifact_file st" "hash_file we (own_files fi store) (ca_path a) = Inr (n, h)"
    "(ca_uri a, h, n, ca_media_type a) \<in> set expected"
    using assms by (auto simp: check_artifact_def bind_res_eq_Inr split: if_splits)
  obtain data where data: "store (ca_path a) = Some data" "n = length data" "h = sha256 we data"
    using own_hash [OF parts(3)] by auto
  moreover have "fs_len st = length data"
    using parts(1) data(1) by (auto simp: own_files_def split: if_splits)
  ultimately show ?thesis using parts(2,4) by (auto simp: plain_artifact_file_def)
qed

text \<open>
  As many uris supplied as tuples expected, each of a tuple: the uris are those of the tuples, and no
  two tuples share one.
\<close>

lemma same_number_covers:
  assumes "finite E" "finite S" "card E = card S" "S \<subseteq> f ` E"
  shows "f ` E = S \<and> inj_on f E"
proof -
  have "card (f ` E) \<le> card S" using assms(1,3) card_image_le [of E f] by simp
  then have "f ` E = S" using assms(1,4) card_seteq [of "f ` E" S] by auto
  then show ?thesis using assms(1,3) eq_card_imp_inj_on [of E f] by auto
qed

lemma static_set_parts:
  assumes "validate_static_artifact_set we fl world as = Inr ()"
  shows "length (expected_world world) = length (supplied_world as)"
    and "\<forall>e \<in> set (expected_world world). fst e \<in> set (supplied_world as)"
    and "check_artifacts we fl (expected_world world) [] [] as = Inr ()"
proof -
  let ?bad = "\<exists>(uri, _) \<in> set (expected_world world). uri \<notin> set (supplied_world as)"
  have parts: "length (expected_world world) = length (supplied_world as)" "\<not> ?bad"
    "check_artifacts we fl (expected_world world) [] [] as = Inr ()"
    using assms unfolding validate_static_artifact_set_def Let_def
    by (simp_all only: split: if_split_asm) blast+
  show "\<forall>e \<in> set (expected_world world). fst e \<in> set (supplied_world as)"
    using parts(2) by (metis (mono_tags, lifting) case_prod_beta)
  show "length (expected_world world) = length (supplied_world as)"
    "check_artifacts we fl (expected_world world) [] [] as = Inr ()"
    by (rule parts)+
qed

lemma static_set_exact:
  assumes "validate_static_artifact_set we (own_files fi store) world as = Inr ()"
    and "(uri, d, n, media) \<in> set (expected_world world)"
  shows "\<exists>a data. a \<in> set as \<and> ca_role a = WorldStateRole \<and> ca_uri a = uri \<and> ca_media_type a = media
    \<and> store (ca_path a) = Some data \<and> sha256 we data = d \<and> length data = n"
proof -
  let ?E = "set (expected_world world)" and ?S = "set (supplied_world as)"
  note checks = static_set_parts [OF assms(1)]
  have each: "\<exists>data. store (ca_path a) = Some data
      \<and> (ca_uri a, sha256 we data, length data, ca_media_type a) \<in> ?E"
    if "a \<in> set as" "ca_role a = WorldStateRole" for a
  proof -
    have "check_artifact we (own_files fi store) (expected_world world) [] [] a = Inr ()"
      using check_artifacts_ok [OF checks(3)] that(1) by simp
    from own_world_artifact [OF this that(2)] show ?thesis by auto
  qed
  have S: "?S = ca_uri ` {a \<in> set as. ca_role a = WorldStateRole}"
    by (auto simp: supplied_world_def)
  have "?S \<subseteq> fst ` ?E" unfolding S using each by force
  moreover have "distinct (expected_world world)" "distinct (supplied_world as)"
    by (simp_all add: expected_world_def supplied_world_def)
  then have "card ?E = card ?S"
    using checks(1) by (simp only: distinct_card)
  ultimately have inj: "inj_on fst ?E"
    using same_number_covers [of ?E ?S fst] by simp
  have "uri \<in> ?S" using checks(2) assms(2) by auto
  then obtain a where a: "a \<in> set as" "ca_role a = WorldStateRole" "ca_uri a = uri"
    unfolding S by auto
  obtain data where data: "store (ca_path a) = Some data"
    "(uri, sha256 we data, length data, ca_media_type a) \<in> ?E"
    using each [OF a(1,2)] a(3) by auto
  have "(uri, sha256 we data, length data, ca_media_type a) = (uri, d, n, media)"
    using inj_onD [OF inj _ data(2) assms(2)] by simp
  then show ?thesis using a data(1) by auto
qed

section \<open>Freezing\<close>

lemma reserve_from_zero:
  assumes "reserve_capture_bytes 0 n r = (True, held, r1)" "n \<le> MAX_WORLD_BYTES"
  shows "held = n" "r1 = r\<lparr>pr_capture_bytes := pr_capture_bytes r + n\<rparr>"
    "pr_capture_bytes r + n \<le> MAX_PROCESS_CAPTURE_BYTES"
  using assms
  by (auto simp: reserve_capture_bytes_def wrapping_add_def limits split: option.splits if_splits)

lemma reserve_refused:
  "reserve_capture_bytes 0 n r = (False, held, r1) \<Longrightarrow> reservation_drop held r1 = r"
  by (auto simp: reserve_capture_bytes_def reservation_drop_def split: option.splits if_splits)

lemma freeze_reserved_ok:
  assumes "freeze_reserved we cl fi closure held = Inr frozen"
  shows "fz_reservation frozen = held"
    and "cl_world (fz_closure frozen) = cl_world closure"
    and "cl_completion (fz_closure frozen) = cl_completion closure"
    and "validate_static_artifact_set we (own_files fi (fz_spool frozen)) (cl_world closure)
           (cl_artifacts (fz_closure frozen)) = Inr ()"
  using assms by (auto simp: freeze_reserved_def bind_res_eq_Inr split: if_splits)

lemma freeze_cases:
  obtains (refused) e where "freeze we cl fi closure r = (Inl e, r)"
  | (frozen) frozen n r1 where "freeze we cl fi closure r = (Inr frozen, r1)"
      "freeze_reserved we cl fi closure n = Inr frozen" "n \<le> MAX_WORLD_BYTES"
      "r1 = r\<lparr>pr_capture_bytes := pr_capture_bytes r + n\<rparr>"
      "pr_capture_bytes r + n \<le> MAX_PROCESS_CAPTURE_BYTES"
proof (cases "bind_res (validate_checkpoint we (cl_world closure)) (\<lambda>_.
    bind_res (validate_static_artifact_set we (fi_validated fi) (cl_world closure)
      (cl_artifacts closure)) (\<lambda>_. world_bytes (fi_source fi) 0 (cl_artifacts closure)))")
  case (Inl e)
  then show ?thesis using refused by (simp add: freeze_def)
next
  case (Inr n)
  obtain ok held r1 where res: "reserve_capture_bytes 0 n r = (ok, held, r1)"
    by (metis prod_cases3)
  consider "n > MAX_WORLD_BYTES" | "n \<le> MAX_WORLD_BYTES" "\<not> ok" | "n \<le> MAX_WORLD_BYTES" "ok"
    by linarith
  then show ?thesis
  proof cases
    case 1
    then show ?thesis using Inr refused by (simp add: freeze_def)
  next
    case 2
    then show ?thesis using Inr refused res reserve_refused [of n r held r1] by (simp add: freeze_def)
  next
    case 3
    note got = reserve_from_zero [OF _ 3(1), of r held r1]
    show ?thesis
    proof (cases "freeze_reserved we cl fi closure held")
      case (Inl e)
      then show ?thesis
        using Inr refused res 3 got by (simp add: freeze_def reservation_drop_def)
    next
      case (Inr f)
      then show ?thesis
        using \<open>bind_res _ _ = Inr n\<close> frozen [of f r1 held] res 3 got by (simp add: freeze_def)
    qed
  qed
qed

lemma frozen_parts:
  assumes "freeze we cl fi closure r = (Inr frozen, r')"
  shows "(uri, d, n, media) \<in> set (expected_world (cl_world closure)) \<Longrightarrow>
      \<exists>a \<in> set (cl_artifacts (fz_closure frozen)). \<exists>data.
        ca_role a = WorldStateRole \<and> ca_uri a = uri \<and> ca_media_type a = media
        \<and> fz_spool frozen (ca_path a) = Some data \<and> sha256 we data = d \<and> length data = n"
    and "distinct (map ca_object_id (cl_artifacts (fz_closure frozen)))"
    and "distinct (map ca_uri (cl_artifacts (fz_closure frozen)))"
    and "cl_world (fz_closure frozen) = cl_world closure"
    and "cl_completion (fz_closure frozen) = cl_completion closure"
    and "fz_reservation frozen \<le> MAX_WORLD_BYTES"
    and "pr_capture_bytes r' = pr_capture_bytes r + fz_reservation frozen"
    and "pr_capture_bytes r' \<le> MAX_PROCESS_CAPTURE_BYTES"
    and "frozen_drop frozen r' = r"
proof -
  obtain k where frozen: "freeze_reserved we cl fi closure k = Inr frozen" "k \<le> MAX_WORLD_BYTES"
      "r' = r\<lparr>pr_capture_bytes := pr_capture_bytes r + k\<rparr>"
      "pr_capture_bytes r + k \<le> MAX_PROCESS_CAPTURE_BYTES"
    using assms by (cases rule: freeze_cases [of we cl fi closure r]) auto
  note parts = freeze_reserved_ok [OF frozen(1)]
  note checks = check_artifacts_ok [OF static_set_parts(3) [OF parts(4)]]
  show "\<exists>a \<in> set (cl_artifacts (fz_closure frozen)). \<exists>data.
        ca_role a = WorldStateRole \<and> ca_uri a = uri \<and> ca_media_type a = media
        \<and> fz_spool frozen (ca_path a) = Some data \<and> sha256 we data = d \<and> length data = n"
    if "(uri, d, n, media) \<in> set (expected_world (cl_world closure))"
    using static_set_exact [OF parts(4) that] by blast
  show "frozen_drop frozen r' = r"
    using frozen(3) parts(1) by (simp add: frozen_drop_def reservation_drop_def)
  show "distinct (map ca_object_id (cl_artifacts (fz_closure frozen)))"
    "distinct (map ca_uri (cl_artifacts (fz_closure frozen)))"
    using checks by simp_all
  show "cl_world (fz_closure frozen) = cl_world closure"
    "cl_completion (fz_closure frozen) = cl_completion closure"
    by (rule parts)+
  show "fz_reservation frozen \<le> MAX_WORLD_BYTES"
    "pr_capture_bytes r' = pr_capture_bytes r + fz_reservation frozen"
    "pr_capture_bytes r' \<le> MAX_PROCESS_CAPTURE_BYTES"
    using frozen parts(1) by simp_all
qed

lemma freeze_refused: "freeze we cl fi closure r = (Inl e, r') \<Longrightarrow> r' = r"
  by (cases rule: freeze_cases [of we cl fi closure r]) auto

section \<open>The transcripts of an operation\<close>

lemma bindings_ok:
  "validate_bindings we fl op as = Inr () \<Longrightarrow> a \<in> set as \<Longrightarrow> is_transcript a \<Longrightarrow>
     \<exists>data t. fl_read fl 1 (ca_path a) = Some data \<and> codec_parse (transcript_codec we) data = Inr t
       \<and> list_all (\<lambda>i. in_operation_id i = op \<or> in_causal_parent_id i = Some op) (tr_interactions t)"
proof (induction as)
  case Nil
  then show ?case by simp
next
  case (Cons b as)
  show ?case
  proof (cases "is_transcript b")
    case False
    then show ?thesis using Cons by auto
  next
    case True
    obtain t where t: "check_transcript we (fl_read fl 1 (ca_path b)) = Inr t"
        "\<not> (\<exists>i \<in> set (tr_interactions t). foreign_interaction op i)"
        "validate_bindings we fl op as = Inr ()"
      using Cons.prems(1) True by (auto simp: bind_res_eq_Inr split: if_splits)
    show ?thesis
    proof (cases "a = b")
      case True
      then show ?thesis
        using t(1,2) by (auto simp: check_transcript_def bind_res_eq_Inr foreign_interaction_def list_all_iff)
    next
      case False
      then show ?thesis using Cons.IH t(3) Cons.prems by simp
    qed
  qed
qed

text \<open>
  C4: The closure of an operation is exactly its World.  Whatever the source files contain, and
  however they change while they are copied, the capture either fails and leaves the process ledger
  as it was, or it holds a private copy in which every reference of the World names one artifact of
  its uri and media type whose own file has exactly the digest and the size of the reference; no two
  artifacts share an object id or a uri; every interaction of a transcript is the operation's, or
  caused by it; the completion and the World are unchanged; and the ledger is charged with exactly
  the reservation, within its bounds, which a drop gives back.
\<close>

theorem operation_closure_exact:
  "case capture_operation_closure we cl fi op (Inr closure) r of
     (Inl _, r') \<Rightarrow> r' = r
   | (Inr oc, r') \<Rightarrow>
       oc_operation_id oc = op
       \<and> (\<forall>(uri, d, n, media) \<in> set (expected_world (cl_world closure)).
          \<exists>a \<in> set (cl_artifacts (fz_closure (oc_closure oc))). \<exists>data.
            ca_role a = WorldStateRole \<and> ca_uri a = uri \<and> ca_media_type a = media
            \<and> fz_spool (oc_closure oc) (ca_path a) = Some data
            \<and> sha256 we data = d \<and> length data = n)
       \<and> distinct (map ca_object_id (cl_artifacts (fz_closure (oc_closure oc))))
       \<and> distinct (map ca_uri (cl_artifacts (fz_closure (oc_closure oc))))
       \<and> (\<forall>a \<in> set (cl_artifacts (fz_closure (oc_closure oc))). is_transcript a \<longrightarrow>
            (\<exists>data t. fz_spool (oc_closure oc) (ca_path a) = Some data
               \<and> codec_parse (transcript_codec we) data = Inr t
               \<and> list_all (\<lambda>i. in_operation_id i = op \<or> in_causal_parent_id i = Some op)
                   (tr_interactions t)))
       \<and> cl_world (fz_closure (oc_closure oc)) = cl_world closure
       \<and> cl_completion (fz_closure (oc_closure oc)) = cl_completion closure
       \<and> fz_reservation (oc_closure oc) \<le> MAX_WORLD_BYTES
       \<and> pr_capture_bytes r' = pr_capture_bytes r + fz_reservation (oc_closure oc)
       \<and> pr_capture_bytes r' \<le> MAX_PROCESS_CAPTURE_BYTES
       \<and> frozen_drop (oc_closure oc) r' = r"
proof (cases "freeze we cl fi closure r")
  case (Pair result r1)
  show ?thesis
  proof (cases result)
    case (Inl e)
    then show ?thesis
      using Pair freeze_refused [of we cl fi closure r e r1] by (simp add: capture_operation_closure_def)
  next
    case (Inr frozen)
    note parts = frozen_parts [OF Pair [unfolded Inr]]
    show ?thesis
    proof (cases "validate_operation_binding we fi op frozen")
      case (Inl e)
      then show ?thesis using Pair Inr parts(9) by (simp add: capture_operation_closure_def)
    next
      case bound: (Inr u)
      have own: "fz_spool frozen (ca_path a) = Some data"
        if "fl_read (own_files fi (fz_spool frozen)) 1 (ca_path a) = Some data" for a data
        using that by (auto simp: own_files_def split: if_splits)
      have transcripts: "\<exists>data t. fz_spool frozen (ca_path a) = Some data
          \<and> codec_parse (transcript_codec we) data = Inr t
          \<and> list_all (\<lambda>i. in_operation_id i = op \<or> in_causal_parent_id i = Some op) (tr_interactions t)"
        if "a \<in> set (cl_artifacts (fz_closure frozen))" "is_transcript a" for a
        using bindings_ok [OF _ that, of we "own_files fi (fz_spool frozen)" op] bound own
        by (auto simp: validate_operation_binding_def)
      show ?thesis
        using Pair Inr bound parts transcripts by (auto simp: capture_operation_closure_def)
    qed
  qed
qed

end
