(* ===== verification/Engine_Safety.thy ===== *)
theory Engine_Safety
  imports Automatic_Engine Context_Theorems Closure_Theorems Sink_Safety
begin

text \<open>
  An automatic operation leaves no trace in the ledger of the process: from its start, through any
  calls and whatever they answer, to its end, the ledger is the one before the operation plus what
  the operation holds, and at its end nothing is held.
\<close>

section \<open>An SDK of one operation\<close>

text \<open>
  The SDK holds at most the operation, the ledger is charged for it exactly then, and without that
  charge the ledger is \<open>r0\<close> but for the bytes captured.
\<close>

definition alone :: "operation_id \<Rightarrow> process_resources \<Rightarrow> sdk \<Rightarrow> process_resources \<Rightarrow> bool" where
  "alone op r0 sd r \<longleftrightarrow>
     sdk_inv sd r
     \<and> release_operation op r = r0\<lparr>pr_capture_bytes := pr_capture_bytes r\<rparr>
     \<and> (\<forall>k. k \<noteq> op \<longrightarrow> bt_get (sdk_operations sd) k = None)
     \<and> bt_contains (pr_active r) op = bt_contains (sdk_operations sd) op"

lemma alone_inv: "alone op r0 sd r \<Longrightarrow> sdk_inv sd r"
  by (simp add: alone_def)

lemma release_capture_bytes:
  "release_operation op (r\<lparr>pr_capture_bytes := n\<rparr>) = (release_operation op r)\<lparr>pr_capture_bytes := n\<rparr>"
  "pr_capture_bytes (release_operation op r) = pr_capture_bytes r"
  by (simp_all add: release_operation_def split: option.split)

lemma alone_capture:
  assumes "alone op r0 sd r" "n \<le> MAX_PROCESS_CAPTURE_BYTES"
  shows "alone op r0 sd (r\<lparr>pr_capture_bytes := n\<rparr>)"
  using assms by (auto simp: alone_def release_capture_bytes sdk_inv_def ledger_ok_def)

lemma bt_all_None:
  assumes "\<And>k. bt_get m k = None"
  shows "m = []"
proof (cases m)
  case (Cons e m')
  then have "bt_get m (fst e) \<noteq> None" by (cases e) simp
  then show ?thesis using assms by simp
qed

text \<open>Deleting the operation settles the ledger.\<close>

lemma alone_delete:
  assumes alone: "alone op r0 sd r" and step: "state_delete op sd r = (sd', r')"
  shows "sdk_operations sd' = [] \<and> r' = r0\<lparr>pr_capture_bytes := pr_capture_bytes r\<rparr>
    \<and> alone op r0 sd' r'"
proof -
  have get: "bt_get (sdk_operations sd') k = None" for k
    using state_delete_inv(2) [OF alone_inv [OF alone] step, of k] alone by (auto simp: alone_def)
  have empty: "sdk_operations sd' = []" by (rule bt_all_None) (rule get)
  have r': "r' = release_operation op r"
  proof (cases "bt_get (sdk_operations sd) op")
    case None
    then have "bt_get (pr_active r) op = None" using alone by (simp add: alone_def bt_contains_def)
    then show ?thesis using step None by (simp add: state_delete_def release_operation_def)
  next
    case (Some a)
    then show ?thesis using step by (simp add: state_delete_def)
  qed
  have gone: "bt_get (pr_active r') op = None"
    unfolding r' using release_operation_get [OF sdk_inv_ledger [OF alone_inv [OF alone]], of op op] by simp
  have "release_operation op r' = r'" using gone by (simp add: release_operation_def)
  moreover have "r' = r0\<lparr>pr_capture_bytes := pr_capture_bytes r\<rparr>"
    unfolding r' using alone by (simp add: alone_def)
  ultimately show ?thesis
    using empty gone state_delete_inv(1) [OF alone_inv [OF alone] step]
    by (simp add: alone_def bt_contains_def)
qed

lemma alone_abandon:
  assumes alone: "alone op r0 sd r" and step: "abandon_incomplete op sd r = (sd', r')"
  shows "sdk_operations sd' = [] \<and> r' = r0\<lparr>pr_capture_bytes := pr_capture_bytes r\<rparr>"
proof (cases "bt_contains (sdk_operations sd) op")
  case True
  obtain sd1 r1 where "state_delete op sd r = (sd1, r1)" by (cases "state_delete op sd r")
  then show ?thesis
    using alone_delete [OF alone] step True
    by (auto simp: abandon_incomplete_def bump_incomplete_def)
next
  case False
  then have "bt_get (sdk_operations sd) k = None" for k
    using alone by (cases "k = op") (auto simp: alone_def bt_contains_def)
  then have "sdk_operations sd = []" by (rule bt_all_None)
  moreover have "release_operation op r = r"
    using alone False by (simp add: alone_def release_operation_def bt_contains_def split: option.split)
  ultimately show ?thesis
    using alone step False by (simp add: abandon_incomplete_def alone_def)
qed

lemma alone_append:
  assumes alone: "alone op r0 sd r" and kind: "kind \<notin> {Begin, Failure, Terminal}"
    and step: "sdk_append c op kind p sd r = (res, sd', r')"
  shows "alone op r0 sd' r'"
proof -
  have inv: "sdk_inv sd' r'" by (rule sdk_append_inv [OF alone_inv [OF alone] kind step])
  consider "sd' = sd" "r' = r" | "state_delete op sd r = (sd', r')"
    | a n where "bt_get (sdk_operations sd) op \<noteq> None" "grow_operation op n r = (True, r')"
        "sdk_operations sd' = bt_insert op a (sdk_operations sd)"
    using step grow_operation_failure [of op _ r]
    by (fastforce simp: sdk_append_def Let_def split: option.splits sum.splits if_splits prod.splits
        bool.splits)
  then show ?thesis
  proof cases
    case 1
    then show ?thesis using alone by simp
  next
    case 2
    then show ?thesis using alone_delete [OF alone] by blast
  next
    case 3
    note ok = sdk_inv_ledger [OF alone_inv [OF alone]]
    have "release_operation op r' = release_operation op r"
      using release_after_grow [OF ok, of op n] 3(2) by simp
    moreover have "pr_capture_bytes r' = pr_capture_bytes r"
      using grow_operation_capture_bytes [of op n r] 3(2) by simp
    moreover obtain b where "bt_get (pr_active r) op = Some b"
      using 3(1) alone by (auto simp: alone_def bt_contains_def)
    then have "bt_contains (pr_active r') op"
      using grow_operation_success(1) [OF ok 3(2), of b op] by (simp add: bt_contains_def)
    ultimately show ?thesis using inv alone 3(3) by (simp add: alone_def)
  qed
qed

section \<open>The coordinator of one operation\<close>

definition world_alone :: "operation_id \<Rightarrow> process_resources \<Rightarrow> 'r automatic_world \<Rightarrow> bool" where
  "world_alone op r0 s \<longleftrightarrow>
     aw_operation_id s = op \<and> alone op r0 (aw_sdk s) (aw_resources s)
     \<and> holds_bytes (pr_capture_bytes r0) s"

lemma aw_reserve_parts:
  "aw_sdk (snd (aw_reserve n s)) = aw_sdk s"
  "aw_operation_id (snd (aw_reserve n s)) = aw_operation_id s"
  "\<exists>m. aw_resources (snd (aw_reserve n s)) = (aw_resources s)\<lparr>pr_capture_bytes := m\<rparr>"
  by (auto simp: aw_reserve_def reserve_capture_bytes_def split: option.splits
      intro: exI [of _ "pr_capture_bytes (aw_resources s)"])

lemma reserve_alone:
  assumes "world_alone op r0 s"
  shows "world_alone op r0 (snd (aw_reserve n s))"
proof -
  have holds: "holds_bytes (pr_capture_bytes r0) (snd (aw_reserve n s))"
    by (rule reserve_holds) (use assms in \<open>simp add: world_alone_def\<close>)
  obtain m where m: "aw_resources (snd (aw_reserve n s)) = (aw_resources s)\<lparr>pr_capture_bytes := m\<rparr>"
    using aw_reserve_parts(3) by blast
  then have "m \<le> MAX_PROCESS_CAPTURE_BYTES" using holds by (simp add: holds_bytes_def)
  then show ?thesis
    using assms holds m by (simp add: world_alone_def aw_reserve_parts alone_capture)
qed

lemma push_alone:
  assumes "world_alone op r0 s"
  shows "world_alone op r0 (snd (push_observation we ob s))"
    and "world_alone op r0 (snd (push_dependency we c s))"
  using assms
  by (auto simp: world_alone_def holds_bytes_def push_ledger)
    (auto simp: push_observation_def push_dependency_def record_observation_def
      record_dependency_def elim: alone_append split: world_mode.split prod.split sum.split)

interpretation lone: coordinator_property we "world_alone op r0" for we op r0
proof unfold_locales
  show "world_alone op r0 (snd (aw_reserve n s))" if "world_alone op r0 s"
    for n and s :: "'a automatic_world"
    by (rule reserve_alone [OF that])
  show "world_alone op r0 (snd (push_observation we ob s))" if "world_alone op r0 s"
    for ob and s :: "'a automatic_world"
    by (rule push_alone(1) [OF that])
  show "world_alone op r0 (snd (push_dependency we c s))" if "world_alone op r0 s"
    for c and s :: "'a automatic_world"
    by (rule push_alone(2) [OF that])
qed (auto simp: world_alone_def holds_bytes_def)

section \<open>The operation\<close>

definition closure_held :: "managed_operation \<Rightarrow> nat" where
  "closure_held op = (case mo_closure op of None \<Rightarrow> 0 | Some oc \<Rightarrow> fz_reservation (oc_closure oc))"

text \<open>
  Without its coordinator the operation holds \<open>n\<close> captured bytes beside its closure; with it, what
  the coordinator holds.
\<close>

definition owes :: "nat \<Rightarrow> operation_id \<Rightarrow> process_resources \<Rightarrow> 'r operation_state \<Rightarrow> bool" where
  "owes n op r0 st \<longleftrightarrow>
     mo_operation_id (fst st) = op \<and> lr_candidate (mo_recorder (fst st)) = None
     \<and> \<not> mo_finished (fst st)
     \<and> coordinator_of (mo_shared (fst st)) (ps_contexts (snd st)) = None
     \<and> alone op r0 (mo_sdk (fst st)) (ps_resources (snd st))
     \<and> pr_capture_bytes (ps_resources (snd st)) = pr_capture_bytes r0 + n + closure_held (fst st)"

definition captures ::
  "'r automatic_world \<Rightarrow> operation_id \<Rightarrow> process_resources \<Rightarrow> 'r operation_state \<Rightarrow> bool" where
  "captures s op r0 st \<longleftrightarrow>
     mo_operation_id (fst st) = op \<and> lr_candidate (mo_recorder (fst st)) = None
     \<and> \<not> mo_finished (fst st)
     \<and> mo_closure (fst st) = None
     \<and> world_alone op r0 (s\<lparr>aw_resources := ps_resources (snd st)\<rparr>)"

definition operation_inv :: "operation_id \<Rightarrow> process_resources \<Rightarrow> 'r operation_state \<Rightarrow> bool" where
  "operation_inv op r0 st \<longleftrightarrow>
     (case coordinator_of (mo_shared (fst st)) (ps_contexts (snd st)) of
        None \<Rightarrow> owes 0 op r0 st
      | Some s \<Rightarrow> captures s op r0 st)"

lemmas operation_defs = operation_inv_def owes_def captures_def

lemma ps_resources_simps [simp]:
  "ps_resources (set_resources r ps) = r"
  "ps_resources (ps\<lparr>ps_contexts := cs\<rparr>) = cs_resources cs"
  "ps_resources (ps\<lparr>ps_controller := ct\<rparr>) = ps_resources ps"
  "ps_resources (on_controller f ps) = ps_resources ps"
  "ps_contexts (on_controller f ps) = ps_contexts ps"
  "cs_resources (ps_contexts ps) = ps_resources ps"
  "ps_contexts (set_resources r ps) = (ps_contexts ps)\<lparr>cs_resources := r\<rparr>"
  "ps_resources (ps\<lparr>ps_native_handle := n\<rparr>) = ps_resources ps"
  by (simp_all add: ps_resources_def set_resources_def on_controller_def)

lemma coordinator_of_resources [simp]:
  "coordinator_of a (cs\<lparr>cs_resources := r\<rparr>) = coordinator_of a cs"
  by (simp add: coordinator_of_def)

text \<open>The sentinel's controller is no part of the invariants.\<close>

lemma operation_inv_controller [simp]:
  "operation_inv op r0 (x, ps\<lparr>ps_controller := ct\<rparr>) = operation_inv op r0 (x, ps)"
  "operation_inv op r0 (x, on_controller f ps) = operation_inv op r0 (x, ps)"
  by (simp_all add: operation_defs on_controller_def split: option.split)

lemma operation_inv_scoped:
  assumes "\<And>st. operation_inv op r0 st \<Longrightarrow> operation_inv op r0 (snd (m st))" "operation_inv op r0 st"
  shows "operation_inv op r0 (snd (scoped m st))"
proof -
  obtain guard ct where "engine_call_scope (ps_thread (snd st)) (ps_controller (snd st)) = (guard, ct)"
    by fastforce
  moreover have "operation_inv op r0 (fst st, (snd st)\<lparr>ps_controller := ct\<rparr>)"
    using assms(2) by simp
  from assms(1) [OF this] show ?thesis
    using calculation by (auto simp: scoped_def split: prod.split)
qed

lemma on_contexts_snd:
  "snd (on_contexts m st)
     = (fst st, (snd st)\<lparr>ps_contexts := snd (m (mo_shared (fst st)) (ps_contexts (snd st)))\<rparr>)"
  by (simp add: on_contexts_def split: prod.split)

lemma coordinator_call_inv:
  assumes inv: "operation_inv op r0 st"
    and action: "\<And>s. world_alone op r0 s \<Longrightarrow> world_alone op r0 (snd (action s))"
  shows "operation_inv op r0 (snd (coordinator_call action st))"
  unfolding coordinator_call_def
proof (rule operation_inv_scoped [OF _ inv])
  fix st :: "'a operation_state"
  assume inv: "operation_inv op r0 st"
  let ?a = "mo_shared (fst st)" and ?cs = "ps_contexts (snd st)"
  show "operation_inv op r0 (snd (on_contexts (\<lambda>a. with_coordinator a action) st))"
  proof (cases "cs_shared ?cs ?a")
    case None
    then show ?thesis using inv by (simp add: on_contexts_snd with_coordinator_def)
  next
    case (Some sh)
    show ?thesis
    proof (cases "sh_invalid_context sh \<or> sh_coordinator sh = None")
      case True
      then show ?thesis using inv Some by (auto simp: on_contexts_snd with_coordinator_def)
    next
      case False
      then obtain s where s: "sh_coordinator sh = Some s" "\<not> sh_invalid_context sh" by auto
      then have "captures s op r0 st"
        using inv Some by (simp add: operation_inv_def coordinator_of_def)
      moreover obtain x t where t: "action (s\<lparr>aw_resources := ps_resources (snd st)\<rparr>) = (x, t)"
        by (cases "action (s\<lparr>aw_resources := ps_resources (snd st)\<rparr>)")
      ultimately have "world_alone op r0 t"
        using action [of "s\<lparr>aw_resources := ps_resources (snd st)\<rparr>"] by (simp add: captures_def)
      then show ?thesis
        using \<open>captures s op r0 st\<close> Some s t
        by (simp add: on_contexts_snd with_coordinator_def run_coordinator_def operation_inv_def
            captures_def coordinator_of_def)
    qed
  qed
qed

section \<open>Calls on the SDK\<close>

text \<open>What a call on the SDK keeps: the operation alone, and the bytes captured.\<close>

definition keeps_alone ::
  "(sdk \<Rightarrow> process_resources \<Rightarrow> 'a \<times> sdk \<times> process_resources) \<Rightarrow> operation_id
     \<Rightarrow> process_resources \<Rightarrow> bool" where
  "keeps_alone f op r0 \<longleftrightarrow>
     (\<forall>sd r x sd' r'. alone op r0 sd r \<longrightarrow> f sd r = (x, sd', r') \<longrightarrow>
        alone op r0 sd' r' \<and> pr_capture_bytes r' = pr_capture_bytes r)"

lemma keeps_aloneD:
  "keeps_alone f op r0 \<Longrightarrow> alone op r0 sd r \<Longrightarrow> f sd r = (x, sd', r') \<Longrightarrow>
     alone op r0 sd' r' \<and> pr_capture_bytes r' = pr_capture_bytes r"
  unfolding keeps_alone_def by blast

lemma keeps_aloneI:
  assumes "\<And>sd r sd' r'. alone op r0 sd r \<Longrightarrow> delete sd r = (sd', r') \<Longrightarrow>
     alone op r0 sd' r' \<and> pr_capture_bytes r' = pr_capture_bytes r"
  shows "keeps_alone (\<lambda>sd r. ((), delete sd r)) op r0"
  unfolding keeps_alone_def
proof (intro allI impI)
  fix sd r x sd' r'
  assume "alone op r0 sd r" "((), delete sd r) = (x, sd', r')"
  with assms [of sd r sd' r'] show "alone op r0 sd' r' \<and> pr_capture_bytes r' = pr_capture_bytes r"
    by simp
qed

lemma append_keeps_alone:
  assumes "kind \<notin> {Begin, Failure, Terminal}"
  shows "keeps_alone (sdk_append c op kind p) op r0"
  using alone_append [OF _ assms] sdk_append_capture_bytes [of c op kind p]
  unfolding keeps_alone_def by (metis snd_conv)

lemma record_keeps_alone:
  "keeps_alone (record_input c op p) op r0" "keeps_alone (record_observation_fence c op fence) op r0"
  unfolding record_input_def record_observation_fence_def by (rule append_keeps_alone; simp)+

lemma bind_keeps_alone:
  "keeps_alone (\<lambda>sd r. let (result, sd') = bind_automatic_world op w sd in (result, sd', r)) op r0"
proof -
  have "alone op r0 sd' r" if "alone op r0 sd r" "bind_automatic_world op w sd = (res, sd')" for sd r res sd'
    using that bind_automatic_world_inv [OF alone_inv [OF that(1)] that(2)]
    by (auto simp: alone_def bind_automatic_world_def bt_contains_def split: option.splits if_splits)
  then show ?thesis by (auto simp: keeps_alone_def split: prod.splits)
qed

lemma coordinator_of_update:
  "coordinator_of a (update_shared a (\<lambda>sh. sh\<lparr>sh_coordinator := f (sh_coordinator sh)\<rparr>) cs)
     = (if cs_shared cs a = None then None else f (coordinator_of a cs))"
  by (simp add: coordinator_of_def update_shared_def split: option.split)

lemma put_sdk_parts [simp]:
  "fst (put_sdk sd r st) = (fst st)\<lparr>mo_sdk := sd\<rparr>"
  "ps_resources (snd (put_sdk sd r st)) = r"
  "coordinator_of (mo_shared (fst st)) (ps_contexts (snd (put_sdk sd r st)))
     = map_option (\<lambda>s. s\<lparr>aw_sdk := sd\<rparr>)
         (coordinator_of (mo_shared (fst st)) (ps_contexts (snd st)))"
  by (simp_all add: put_sdk_def Let_def coordinator_of_def update_shared_def split: option.split)

lemma sdk_call_snd:
  "snd (sdk_call f st) = put_sdk (fst (snd (f (operation_sdk st) (ps_resources (snd st)))))
     (snd (snd (f (operation_sdk st) (ps_resources (snd st))))) st"
  by (simp add: sdk_call_def split: prod.split)

lemma sdk_call_inv:
  assumes inv: "operation_inv op r0 st" and keeps: "keeps_alone f op r0"
  shows "operation_inv op r0 (snd (sdk_call f st))"
proof (cases "coordinator_of (mo_shared (fst st)) (ps_contexts (snd st))")
  case None
  obtain x sd' r' where f: "f (mo_sdk (fst st)) (ps_resources (snd st)) = (x, sd', r')"
    by (metis prod_cases3)
  have "alone op r0 (mo_sdk (fst st)) (ps_resources (snd st))"
    using inv None by (simp add: operation_defs)
  from keeps_aloneD [OF keeps this f] show ?thesis
    using inv None f by (simp add: operation_defs sdk_call_snd operation_sdk_def closure_held_def)
next
  case (Some s)
  obtain x sd' r' where f: "f (aw_sdk s) (ps_resources (snd st)) = (x, sd', r')"
    by (metis prod_cases3)
  have world: "world_alone op r0 (s\<lparr>aw_resources := ps_resources (snd st)\<rparr>)"
    using inv Some by (simp add: operation_defs)
  then have "alone op r0 (aw_sdk s) (ps_resources (snd st))" by (simp add: world_alone_def)
  from keeps_aloneD [OF keeps this f] show ?thesis
    using inv Some world f
    by (simp add: operation_defs sdk_call_snd operation_sdk_def world_alone_def holds_bytes_def)
qed

lemma sdk_call_owes:
  assumes owes: "owes n op r0 st" and keeps: "keeps_alone f op r0"
  shows "owes n op r0 (snd (sdk_call f st))"
proof -
  obtain x sd' r' where f: "f (mo_sdk (fst st)) (ps_resources (snd st)) = (x, sd', r')"
    by (metis prod_cases3)
  have "alone op r0 (mo_sdk (fst st)) (ps_resources (snd st))"
    using owes by (simp add: owes_def)
  from keeps_aloneD [OF keeps this f] show ?thesis
    using owes f by (simp add: owes_def sdk_call_snd operation_sdk_def closure_held_def)
qed

section \<open>Closing\<close>

text \<open>The coordinator is taken with the SDK kept, or is dropped and gives its bytes back.\<close>

lemma unregister_parts [simp]:
  "coordinator_of a (shared_unregister b cs) = coordinator_of a cs"
  "cs_resources (shared_unregister b cs) = cs_resources cs"
  by (auto simp: shared_unregister_def coordinator_of_def update_shared_def
      unregister_active_operation_def Let_def split: option.splits if_splits)

lemma take_parts:
  "(case take_for_close a cs of
      (Inr s, cs') \<Rightarrow> (\<exists>s0. coordinator_of a cs = Some s0 \<and> s = s0\<lparr>aw_resources := cs_resources cs\<rparr>)
        \<and> coordinator_of a cs' = None \<and> cs_resources cs' = cs_resources cs
    | (Inl _, cs') \<Rightarrow> coordinator_of a cs' = None
        \<and> cs_resources cs' = (case coordinator_of a cs of None \<Rightarrow> cs_resources cs
            | Some s \<Rightarrow> reservation_drop (aw_reserved s) (cs_resources cs)))"
proof -
  have shared: "cs_shared (shared_unregister a cs) a
      = map_option (\<lambda>sh. sh\<lparr>sh_registered := False\<rparr>) (cs_shared cs a)"
    by (auto simp: shared_unregister_def update_shared_def unregister_active_operation_def Let_def
        split: option.splits if_splits)
  have res: "cs_resources (shared_unregister a cs) = cs_resources cs" by simp
  show ?thesis
  proof (cases "cs_shared cs a")
    case None
    then show ?thesis
      using shared res by (simp add: take_for_close_def coordinator_of_def Let_def)
  next
    case (Some sh)
    then show ?thesis
      using shared res
      by (cases "sh_coordinator sh")
        (auto simp: take_for_close_def coordinator_of_def Let_def update_shared_def
          drop_coordinator_def ok_or_def)
  qed
qed

lemma owes_inv: "owes 0 op r0 st \<Longrightarrow> operation_inv op r0 st"
  by (simp add: operation_inv_def owes_def)

lemma keep_sdk_parts [simp]:
  "snd (keep_sdk st) = snd st" "mo_shared (fst (keep_sdk st)) = mo_shared (fst st)"
  "mo_sdk (fst (keep_sdk st)) = operation_sdk st" "mo_closure (fst (keep_sdk st)) = mo_closure (fst st)"
  "mo_operation_id (fst (keep_sdk st)) = mo_operation_id (fst st)"
  "mo_recorder (fst (keep_sdk st)) = mo_recorder (fst st)"
  "mo_sentinel_handle (fst (keep_sdk st)) = mo_sentinel_handle (fst st)"
  "mo_finished (fst (keep_sdk st)) = mo_finished (fst st)"
  by (simp_all add: keep_sdk_def)

lemma reservation_drop_eq: "reservation_drop n r = r\<lparr>pr_capture_bytes := pr_capture_bytes r - n\<rparr>"
  by (simp add: reservation_drop_def)

lemma alone_bound: "alone op r0 sd r \<Longrightarrow> pr_capture_bytes r \<le> MAX_PROCESS_CAPTURE_BYTES"
  by (simp add: alone_def sdk_inv_def ledger_ok_def)

lemma alone_drop: "alone op r0 sd r \<Longrightarrow> alone op r0 sd (reservation_drop n r)"
  unfolding reservation_drop_eq by (rule alone_capture) (auto dest: alone_bound)

text \<open>A coordinator that is gone, with its reservation, leaves an operation that owes nothing.\<close>

lemma captures_gone:
  assumes "captures s op r0 st" "mo_sdk (fst st') = aw_sdk s"
    "coordinator_of (mo_shared (fst st')) (ps_contexts (snd st')) = None"
    "ps_resources (snd st') = reservation_drop (aw_reserved s) (ps_resources (snd st))"
    "mo_operation_id (fst st') = mo_operation_id (fst st)" "mo_closure (fst st') = mo_closure (fst st)"
    "mo_recorder (fst st') = mo_recorder (fst st)" "mo_finished (fst st') = mo_finished (fst st)"
  shows "owes 0 op r0 st'"
  using assms
  by (auto simp: captures_def owes_def world_alone_def holds_bytes_def closure_held_def alone_drop)
    (simp add: reservation_drop_eq)

lemma take_inv:
  assumes inv: "operation_inv op r0 st"
  shows "case on_contexts take_for_close (keep_sdk st) of
      (Inl e, st') \<Rightarrow> owes 0 op r0 st'
    | (Inr s, st') \<Rightarrow> captures s op r0 st' \<and> mo_sdk (fst st') = aw_sdk s
        \<and> coordinator_of (mo_shared (fst st')) (ps_contexts (snd st')) = None
        \<and> aw_resources s = ps_resources (snd st')"
proof -
  let ?a = "mo_shared (fst st)" and ?cs = "ps_contexts (snd st)"
  obtain result cs' where take: "take_for_close ?a ?cs = (result, cs')"
    by (cases "take_for_close ?a ?cs")
  note parts = take_parts [of ?a ?cs, unfolded take]
  show ?thesis
  proof (cases result)
    case (Inr s)
    then obtain s0 where "coordinator_of ?a ?cs = Some s0" "s = s0\<lparr>aw_resources := ps_resources (snd st)\<rparr>"
      using parts by auto
    then show ?thesis
      using inv take Inr parts
      by (simp add: on_contexts_def operation_inv_def captures_def operation_sdk_def)
  next
    case (Inl e)
    show ?thesis
    proof (cases "coordinator_of ?a ?cs")
      case None
      then show ?thesis
        using inv take Inl parts
        by (simp add: on_contexts_def operation_inv_def owes_def operation_sdk_def closure_held_def)
    next
      case (Some s)
      then have "captures s op r0 st" using inv by (simp add: operation_inv_def)
      from captures_gone [OF this, of "((fst (keep_sdk st)), (snd st)\<lparr>ps_contexts := cs'\<rparr>)"]
      show ?thesis
        using take Inl parts Some by (simp add: on_contexts_def operation_sdk_def)
    qed
  qed
qed

lemma close_taken_inv:
  assumes "captures s op r0 st" "mo_sdk (fst st) = aw_sdk s"
    "coordinator_of (mo_shared (fst st)) (ps_contexts (snd st)) = None"
    "aw_resources s = ps_resources (snd st)"
  shows "case close_taken we io completion s st of
      (Inl e, st') \<Rightarrow> owes 0 op r0 st'
    | (Inr cap, st') \<Rightarrow> owes (wcap_reservation cap) op r0 st' \<and> mo_closure (fst st') = None"
proof -
  have "s\<lparr>aw_resources := aw_resources s\<rparr> = s" by simp
  then have "s\<lparr>aw_resources := ps_resources (snd st)\<rparr> = s" by (simp only: assms(4))
  then have s: "world_alone op r0 s" "mo_closure (fst st) = None" "mo_operation_id (fst st) = op"
    "lr_candidate (mo_recorder (fst st)) = None" "\<not> mo_finished (fst st)"
    using assms(1) by (simp_all add: captures_def)
  obtain result t where t: "close_steps we io completion s = (result, t)"
    by (cases "close_steps we io completion s")
  have "snd (close_steps we io completion s) \<in> {s, snd (commit_dependency_transcript we io s)}"
    by (auto simp: close_steps_def snd_act_bind split: sum.splits)
  then have "world_alone op r0 t" using s(1) lone.transcripts [OF s(1)] by (auto simp: t)
  then have alone: "alone op r0 (aw_sdk t) (aw_resources t)"
      "pr_capture_bytes (aw_resources t) = pr_capture_bytes r0 + aw_reserved t"
    by (simp_all add: world_alone_def holds_bytes_def)
  show ?thesis
  proof (cases result)
    case (Inl e)
    have "pr_capture_bytes (world_drop t) = pr_capture_bytes r0"
      using alone(2) by (simp add: world_drop_def reservation_drop_eq)
    moreover have "alone op r0 (aw_sdk t) (world_drop t)"
      unfolding world_drop_def by (rule alone_drop [OF alone(1)])
    ultimately show ?thesis
      using Inl t s(2-5) assms(3)
      by (simp add: close_taken_def close_world_def owes_def closure_held_def)
  next
    case (Inr cap)
    then have "wcap_reservation cap = aw_reserved t"
      using close_steps_Inr [of we io completion s cap t] t by auto
    then show ?thesis
      using Inr t alone s(2-5) assms(3)
      by (simp add: close_taken_def close_world_def owes_def closure_held_def)
  qed
qed

section \<open>Binding the closure\<close>

lemma drop_owes:
  assumes "owes (m + n) op r0 (x, ps)"
  shows "owes m op r0 (x, set_resources (reservation_drop n (ps_resources ps)) ps)"
  using assms by (simp add: owes_def alone_drop) (simp add: reservation_drop_eq)

lemma captured_closure:
  assumes "capture_operation_closure we cl fi op (Inr closure) r = (result, r')"
  shows "case result of
      Inl e \<Rightarrow> r' = r
    | Inr oc \<Rightarrow> \<exists>n \<le> MAX_PROCESS_CAPTURE_BYTES. r' = r\<lparr>pr_capture_bytes := n\<rparr>
        \<and> n = pr_capture_bytes r + fz_reservation (oc_closure oc)"
proof (cases "freeze we cl fi closure r")
  case (Pair froze r1)
  then show ?thesis
    using assms
    by (cases rule: freeze_cases [of we cl fi closure r])
      (auto simp: capture_operation_closure_def frozen_drop_def reservation_drop_eq
        split: sum.splits dest: freeze_reserved_ok(1))
qed

lemma bind_world_owes:
  assumes owes: "owes n op r0 st" and none: "mo_closure (fst st) = None"
  shows "owes n op r0 (snd (bind_world we cl fi closure st))"
proof -
  let ?r = "ps_resources (snd st)"
  obtain result r' where cap: "capture_operation_closure we cl fi op (Inr closure) ?r = (result, r')"
    by (cases "capture_operation_closure we cl fi op (Inr closure) ?r")
  have op: "mo_operation_id (fst st) = op" using owes by (simp add: owes_def)
  show ?thesis
  proof (cases result)
    case (Inl e)
    then have "r' = ?r" using captured_closure [OF cap] by simp
    then show ?thesis using Inl cap op none owes by (simp add: bind_world_def owes_def Let_def)
  next
    case (Inr oc)
    let ?n = "fz_reservation (oc_closure oc)" and ?st1 = "(fst st, set_resources r' (snd st))"
    obtain m where m: "m \<le> MAX_PROCESS_CAPTURE_BYTES" "r' = ?r\<lparr>pr_capture_bytes := m\<rparr>"
        "m = pr_capture_bytes ?r + ?n"
      using captured_closure [OF cap] Inr by auto
    have st1: "owes (n + ?n) op r0 ?st1"
      using owes none m by (simp add: owes_def closure_held_def alone_capture)
    define bound where
      "bound = (case operation_closure_world_id cl oc of
          Inl e \<Rightarrow> (Inl e, ?st1)
        | Inr world_id \<Rightarrow> sdk_call (\<lambda>sd r. let (result, sd') = bind_automatic_world op world_id sd
             in (result, sd', r)) ?st1)"
    have st2: "owes (n + ?n) op r0 (snd bound)" "mo_closure (fst (snd bound)) = None"
      using st1 none sdk_call_owes [OF st1 bind_keeps_alone]
      by (auto simp: bound_def sdk_call_snd split: sum.split)
    have run: "bind_world we cl fi closure st
        = (case bound of
             (Inl e, st2) \<Rightarrow> (Inl e, fst st2,
               set_resources (frozen_drop (oc_closure oc) (ps_resources (snd st2))) (snd st2))
           | (Inr _, st2) \<Rightarrow> (Inr (), (fst st2)\<lparr>mo_closure := Some oc\<rparr>, snd st2))"
      using none by (simp add: bind_world_def bound_def Let_def op cap [unfolded Inr])
    have "owes n op r0 (x, set_resources (reservation_drop ?n (ps_resources ps)) ps)"
      "owes n op r0 (x\<lparr>mo_closure := Some oc\<rparr>, ps)"
      if "snd bound = (x, ps)" for x ps
      using drop_owes [of n ?n op r0 x ps] st2 that by (simp_all add: owes_def closure_held_def)
    then show ?thesis
      unfolding run frozen_drop_def by (cases bound) (auto split: sum.split)
  qed
qed

lemma bind_capture_owes:
  assumes owes: "owes (wcap_reservation cap) op r0 st" and none: "mo_closure (fst st) = None"
  shows "owes 0 op r0 (snd (bind_capture we cl fi cap st))"
proof -
  have op: "mo_operation_id (fst st) = op" using owes by (simp add: owes_def)
  let ?fence = "\<lambda>st. sdk_call (record_observation_fence (we_core we)
      (mo_operation_id (fst st)) (wcap_fence cap)) st"
  have fence: "owes (wcap_reservation cap) op r0 (snd (?fence st))" "mo_closure (fst (snd (?fence st))) = None"
    using sdk_call_owes [OF owes record_keeps_alone(2)] none by (simp_all add: op sdk_call_snd)
  obtain x st1 where run: "act_bind ?fence (\<lambda>_. bind_world we cl fi (wcap_closure cap)) st = (x, st1)"
    by (cases "act_bind ?fence (\<lambda>_. bind_world we cl fi (wcap_closure cap)) st")
  have "owes (wcap_reservation cap) op r0 (snd (act_bind ?fence (\<lambda>_. bind_world we cl fi (wcap_closure cap)) st))"
    unfolding snd_act_bind using fence bind_world_owes [OF fence] by (auto split: sum.split)
  then have "owes (0 + wcap_reservation cap) op r0 (fst st1, snd st1)" unfolding run by simp
  from drop_owes [OF this] show ?thesis
    unfolding bind_capture_def run capture_drop_def by simp
qed

section \<open>The calls of an operation\<close>

lemma keep_sdk_inv:
  assumes "operation_inv op r0 st"
  shows "operation_inv op r0 (keep_sdk st)"
  using assms
  by (auto simp: operation_defs operation_sdk_def closure_held_def split: option.splits)

lemma close_rest_inv:
  assumes inv: "operation_inv op r0 st"
  shows "operation_inv op r0 (snd (act_bind (\<lambda>st. on_contexts take_for_close (keep_sdk st)) (\<lambda>s.
    act_bind (close_taken we io completion s) (\<lambda>cap. bind_capture we cl fi cap)) st))"
proof -
  obtain result st1 where take: "on_contexts take_for_close (keep_sdk st) = (result, st1)"
    by (cases "on_contexts take_for_close (keep_sdk st)")
  show ?thesis
  proof (cases result)
    case (Inl e)
    then show ?thesis using take_inv [OF inv] take by (simp add: act_bind_cases owes_inv)
  next
    case (Inr s)
    then have "captures s op r0 st1" "mo_sdk (fst st1) = aw_sdk s"
        "coordinator_of (mo_shared (fst st1)) (ps_contexts (snd st1)) = None"
        "aw_resources s = ps_resources (snd st1)"
      using take_inv [OF inv] take by simp_all
    then have closed: "case close_taken we io completion s st1 of
        (Inl e, st') \<Rightarrow> owes 0 op r0 st'
      | (Inr cap, st') \<Rightarrow> owes (wcap_reservation cap) op r0 st' \<and> mo_closure (fst st') = None"
      by (rule close_taken_inv)
    obtain result2 st2 where "close_taken we io completion s st1 = (result2, st2)"
      by (cases "close_taken we io completion s st1")
    then show ?thesis
      using closed take Inr
      by (cases result2) (auto simp: act_bind_cases intro: owes_inv bind_capture_owes)
  qed
qed

lemma bind_own_sentinel_inv:
  assumes "operation_inv op r0 st"
  shows "operation_inv op r0 (snd (bind_own_sentinel we st))"
proof (cases "mo_sentinel_handle (fst st)")
  case None
  then show ?thesis using assms by (simp add: bind_own_sentinel_def)
next
  case (Some handle)
  obtain coverage ct where finished: "operation_finished handle (ps_controller (snd st)) = (coverage, ct)"
    by (cases "operation_finished handle (ps_controller (snd st))")
  have inv: "operation_inv op r0
      ((fst st)\<lparr>mo_sentinel_handle := None\<rparr>, (snd st)\<lparr>ps_controller := ct\<rparr>)"
    using assms by (auto simp: operation_defs closure_held_def split: option.splits)
  show ?thesis
    using inv finished Some lone.binding
    by (cases coverage)
      (auto simp: bind_own_sentinel_def operation_bind_coverage_def intro!: coordinator_call_inv)
qed

lemma operation_close_world_inv:
  assumes "operation_inv op r0 st"
  shows "operation_inv op r0 (snd (operation_close_world we cl io fi completion st))"
  unfolding operation_close_world_def
proof (rule operation_inv_scoped [OF _ assms])
  fix st :: "'a operation_state"
  assume "operation_inv op r0 st"
  from bind_own_sentinel_inv [OF this]
  show "operation_inv op r0 (snd (act_bind (bind_own_sentinel we) (\<lambda>_.
    act_bind (\<lambda>st. on_contexts take_for_close (keep_sdk st)) (\<lambda>s.
    act_bind (close_taken we io completion s) (\<lambda>cap. bind_capture we cl fi cap))) st))"
    by (rule act_bind_inv) (rule close_rest_inv)
qed

datatype operation_call =
    InputCall input_payload
  | OpenCall world_io nat observation_class "operation_id option"
  | WriteCall world_io nat observation_stream bytes
  | DispatchCall world_io nat
  | ReadCall world_io nat
  | FinishCall world_io nat dependency_outcome nat
  | AbandonCall nat
  | UnownedCall world_io observation_class "operation_id option" bytes
  | CoverageCall bytes
  | CloseCall world_io freeze_io trigger_completion

fun operation_step ::
  "'r world_env \<Rightarrow> closure_core \<Rightarrow> operation_call \<Rightarrow> 'r operation_state \<Rightarrow> 'r operation_state" where
  "operation_step we cl (InputCall p) st = snd (operation_record_input (we_core we) p st)"
| "operation_step we cl (OpenCall io sid class parent) st =
     snd (operation_open_observation io sid class parent st)"
| "operation_step we cl (WriteCall io sid stream chunk) st =
     snd (operation_write io sid stream chunk st)"
| "operation_step we cl (DispatchCall io sid) st = snd (operation_dispatch we io sid st)"
| "operation_step we cl (ReadCall io sid) st = snd (operation_read io sid st)"
| "operation_step we cl (FinishCall io sid outcome pos) st =
     snd (operation_finish we io sid outcome pos st)"
| "operation_step we cl (AbandonCall sid) st = snd (operation_abandon_observation sid st)"
| "operation_step we cl (UnownedCall io class parent evidence) st =
     snd (operation_mark_unowned we io class parent evidence st)"
| "operation_step we cl (CoverageCall evidence) st = snd (operation_bind_coverage we evidence st)"
| "operation_step we cl (CloseCall io fi completion) st =
     snd (operation_close_world we cl io fi completion st)"

definition operation_run ::
  "'r world_env \<Rightarrow> closure_core \<Rightarrow> operation_call list \<Rightarrow> 'r operation_state \<Rightarrow> 'r operation_state" where
  "operation_run we cl calls st = fold (operation_step we cl) calls st"

lemma record_input_inv:
  assumes "operation_inv op r0 st"
  shows "operation_inv op r0 (snd (operation_record_input c p st))"
  unfolding operation_record_input_def
proof (rule operation_inv_scoped [OF _ assms])
  fix st :: "'a operation_state"
  assume inv: "operation_inv op r0 st"
  then have "mo_operation_id (fst st) = op" by (simp add: operation_defs split: option.splits)
  then show "operation_inv op r0 (snd (sdk_call (record_input c (mo_operation_id (fst st)) p) st))"
    using sdk_call_inv [OF inv record_keeps_alone(1)] by simp
qed

lemmas operation_call_defs = operation_open_observation_def operation_write_def operation_dispatch_def
  operation_read_def operation_finish_def operation_abandon_observation_def
  operation_mark_unowned_def operation_bind_coverage_def open_observation_def

lemma dispatch_alone:
  assumes "world_alone op r0 s"
  shows "world_alone op r0 (snd (act_bind (dispatch_observation we io sid)
    (\<lambda>action. act_res (Inr (action_as_str action))) s))"
  using lone.dispatching [OF assms, of we io sid]
  by (simp add: snd_act_bind act_res_def split: sum.split)

lemma operation_step_inv:
  assumes inv: "operation_inv op r0 st"
  shows "operation_inv op r0 (operation_step we cl call st)"
  by (cases call)
    (simp_all add: operation_call_defs record_input_inv [OF inv] operation_close_world_inv [OF inv]
      coordinator_call_inv [OF inv] dispatch_alone lone.opens lone.writing lone.reading
      lone.finishing lone.abandoning lone.unowned lone.binding)

lemma operation_run_inv:
  assumes "operation_inv op r0 st"
  shows "operation_inv op r0 (operation_run we cl calls st)"
  unfolding operation_run_def
  using assms by (induction calls arbitrary: st) (simp_all add: operation_step_inv)

section \<open>The end of an operation\<close>

lemma distinct_one: "distinct xs \<Longrightarrow> (\<And>x. x \<in> set xs \<Longrightarrow> x = a) \<Longrightarrow> xs = [] \<or> xs = [a]"
  by (cases xs; cases "tl xs") auto

lemma alone_fresh:
  assumes "alone op r0 sd r"
  shows "bt_get (pr_active r0) op = None"
proof -
  have "bt_get (pr_active (release_operation op r)) op = None"
    using release_operation_get [OF sdk_inv_ledger [OF alone_inv [OF assms]], of op op] by simp
  then show ?thesis using assms by (simp add: alone_def)
qed

lemma alone_drop_state:
  assumes alone: "alone op r0 sd r"
  shows "drop_state sd r = r0\<lparr>pr_capture_bytes := pr_capture_bytes r\<rparr>"
proof -
  have keys: "k = op" if "k \<in> set (map fst (sdk_operations sd))" for k
    using alone that bt_get_None_iff [of "sdk_operations sd" k] by (auto simp: alone_def)
  have "distinct (map fst (sdk_operations sd))"
    by (rule bt_ok_distinct [OF sdk_inv_bt [OF alone_inv [OF alone]]])
  then have "map fst (sdk_operations sd) = [] \<or> map fst (sdk_operations sd) = [op]"
    using keys by (rule distinct_one)
  moreover have "release_operation op r = r" if "map fst (sdk_operations sd) = []"
    using that alone by (simp add: alone_def release_operation_def bt_contains_def split: option.split)
  ultimately show ?thesis
    using alone by (auto simp: drop_state_def alone_def)
qed

lemma delete_keeps_alone:
  "keeps_alone (\<lambda>sd r. ((), state_delete op sd r)) op r0"
  "keeps_alone (\<lambda>sd r. ((), abandon_incomplete op sd r)) op r0"
proof -
  show "keeps_alone (\<lambda>sd r. ((), state_delete op sd r)) op r0"
  proof (rule keeps_aloneI)
    show "alone op r0 sd' r' \<and> pr_capture_bytes r' = pr_capture_bytes r"
      if "alone op r0 sd r" "state_delete op sd r = (sd', r')" for sd r sd' r'
      using alone_delete [OF that] by auto
  qed
  show "keeps_alone (\<lambda>sd r. ((), abandon_incomplete op sd r)) op r0"
  proof (rule keeps_aloneI)
    fix sd r sd' r'
    assume that: "alone op r0 sd r" "abandon_incomplete op sd r = (sd', r')"
    have "sdk_operations sd' = []" "r' = r0\<lparr>pr_capture_bytes := pr_capture_bytes r\<rparr>"
      using alone_abandon [OF that] by simp_all
    moreover have "sdk_inv sd' r'"
      by (rule abandon_incomplete_inv [OF alone_inv [OF that(1)] that(2)])
    ultimately show "alone op r0 sd' r' \<and> pr_capture_bytes r' = pr_capture_bytes r"
      using alone_fresh [OF that(1)] by (simp add: alone_def release_operation_def bt_contains_def)
  qed
qed

lemma sdk_delete_owes:
  assumes "owes n op r0 st"
  shows "owes n op r0 (sdk_delete state_delete st)" "owes n op r0 (sdk_delete abandon_incomplete st)"
proof -
  have "mo_operation_id (fst st) = op" using assms by (simp add: owes_def)
  then show "owes n op r0 (sdk_delete state_delete st)" "owes n op r0 (sdk_delete abandon_incomplete st)"
    unfolding sdk_delete_def
    using sdk_call_owes [OF assms delete_keeps_alone(1)] sdk_call_owes [OF assms delete_keeps_alone(2)]
    by simp_all
qed

lemma drop_fields_settled:
  assumes "owes 0 op r0 st"
  shows "ps_resources (drop_fields st) = r0"
proof -
  let ?r = "ps_resources (snd st)" and ?n = "closure_held (fst st)"
  have "(case mo_closure (fst st) of None \<Rightarrow> ?r | Some oc \<Rightarrow> frozen_drop (oc_closure oc) ?r)
      = reservation_drop ?n ?r"
    by (simp add: closure_held_def frozen_drop_def reservation_drop_eq split: option.split)
  moreover have "alone op r0 (mo_sdk (fst st)) (reservation_drop ?n ?r)"
    using assms by (simp add: owes_def alone_drop)
  from alone_drop_state [OF this] have "drop_state (mo_sdk (fst st)) (reservation_drop ?n ?r) = r0"
    using assms by (simp add: owes_def reservation_drop_eq)
  ultimately show ?thesis
    using assms by (simp add: drop_fields_def owes_def operation_sdk_def recorder_drop_def Let_def)
qed

lemma remove_native_inv:
  assumes "operation_inv op r0 st"
  shows "operation_inv op r0 (remove_native_operation st)"
proof (cases "mo_sentinel_handle (fst st)")
  case (Some handle)
  have "operation_inv op r0 (snd (scoped (\<lambda>(mo, ps). ((), mo\<lparr>mo_sentinel_handle := None\<rparr>,
      on_controller (remove_operation handle) ps)) st))"
  proof (rule operation_inv_scoped [OF _ assms])
    fix st :: "'a operation_state"
    assume "operation_inv op r0 st"
    then show "operation_inv op r0 (snd ((\<lambda>(mo, ps). ((), mo\<lparr>mo_sentinel_handle := None\<rparr>,
        on_controller (remove_operation handle) ps)) st))"
      by (cases st) (auto simp: operation_defs closure_held_def split: option.splits)
  qed
  then show ?thesis using Some by (simp add: remove_native_operation_def)
qed (use assms in \<open>simp add: remove_native_operation_def\<close>)

lemma deactivate_parts:
  "coordinator_of a (deactivate a cs) = None"
  "cs_resources (deactivate a cs) = (case coordinator_of a cs of None \<Rightarrow> cs_resources cs
     | Some s \<Rightarrow> reservation_drop (aw_reserved s) (cs_resources cs))"
proof -
  have res: "cs_resources (shared_unregister a cs) = cs_resources cs"
    and co: "coordinator_of a (shared_unregister a cs) = coordinator_of a cs" by simp_all
  show "coordinator_of a (deactivate a cs) = None"
    "cs_resources (deactivate a cs) = (case coordinator_of a cs of None \<Rightarrow> cs_resources cs
     | Some s \<Rightarrow> reservation_drop (aw_reserved s) (cs_resources cs))"
    using res co
    by (auto simp: deactivate_def coordinator_of_def Let_def update_shared_def drop_coordinator_def
        split: option.splits)
qed

lemma deactivate_owes:
  assumes inv: "operation_inv op r0 st"
  shows "owes 0 op r0 (deactivate_operation st)"
proof (cases "coordinator_of (mo_shared (fst st)) (ps_contexts (snd st))")
  case None
  then show ?thesis
    using inv deactivate_parts [of "mo_shared (fst st)" "ps_contexts (snd st)"]
    by (simp add: deactivate_operation_def on_contexts_snd operation_inv_def owes_def
        operation_sdk_def closure_held_def)
next
  case (Some s)
  then have "captures s op r0 st" using inv by (simp add: operation_inv_def)
  from captures_gone [OF this, of "deactivate_operation st"] show ?thesis
    using Some deactivate_parts [of "mo_shared (fst st)" "ps_contexts (snd st)"]
    by (simp add: deactivate_operation_def on_contexts_snd operation_sdk_def)
qed

lemma operation_ends_settled:
  assumes "operation_inv op r0 st"
  shows "ps_resources (operation_succeed st) = r0" "ps_resources (operation_abandon st) = r0"
    "ps_resources (operation_drop st) = r0"
proof -
  have owes: "owes 0 op r0 (deactivate_operation (remove_native_operation st))"
    by (rule deactivate_owes [OF remove_native_inv [OF assms]])
  show succeed: "ps_resources (operation_succeed st) = r0"
    unfolding operation_succeed_def by (rule drop_fields_settled [OF sdk_delete_owes(1) [OF owes]])
  show abandon: "ps_resources (operation_abandon st) = r0"
    unfolding operation_abandon_def by (rule drop_fields_settled [OF sdk_delete_owes(2) [OF owes]])
  have "\<not> mo_finished (fst st)" using assms by (auto simp: operation_defs split: option.splits)
  then show "ps_resources (operation_drop st) = r0" by (simp add: operation_drop_def abandon)
qed

section \<open>The start of an operation\<close>

lemma new_sdk_parts [simp]: "sdk_operations (new_from_environment target) = []"
  by (simp add: new_from_environment_def new_sdk_def)

lemma begin_alone:
  assumes ok: "ledger_ok r0"
    and entry: "begin_automatic c w start p ctx (new_from_environment target) r0 = (res, sd, r)"
  shows "case res of
      Inl _ \<Rightarrow> drop_state sd r = r0
    | Inr _ \<Rightarrow> alone (start_operation_id start) r0 sd r \<and> pr_capture_bytes r = pr_capture_bytes r0"
proof (cases res)
  case (Inl e)
  then have "sdk_operations sd = [] \<and> r = r0"
    using entry
    by (auto simp: begin_automatic_def begin_inner_def Let_def dest: reserve_operation_failure
        split: sum.splits if_splits prod.splits bool.splits)
  then show ?thesis using Inl by (simp add: drop_state_def)
next
  case (Inr u)
  let ?op = "start_operation_id start"
  obtain n a where res: "reserve_operation ?op n r0 = (True, r)"
    and sd: "sdk_operations sd = bt_insert ?op a []"
    using entry Inr
    by (auto simp: begin_automatic_def begin_inner_def Let_def
        split: sum.splits if_splits prod.splits bool.splits)
  have "sdk_inv (new_from_environment target) r0"
    unfolding new_from_environment_def by (rule sdk_inv_new [OF ok])
  then have "sdk_inv sd r"
    using entry unfolding begin_automatic_def by (rule begin_inner_inv)
  moreover have "release_operation ?op r = r0" using release_after_reserve [OF ok, of ?op n] res by simp
  moreover have "pr_capture_bytes r = pr_capture_bytes r0" "bt_contains (pr_active r) ?op"
    using res by (auto simp: reserve_operation_def split: if_splits)
  ultimately show ?thesis using Inr sd by (auto simp: alone_def bt_contains_def)
qed

lemma abandon_settled:
  assumes "alone op r0 sd r" "abandon_incomplete op sd r = (sd', r')"
  shows "drop_state sd' (reservation_drop n r') = r0\<lparr>pr_capture_bytes := pr_capture_bytes r - n\<rparr>"
  using alone_abandon [OF assms] by (simp add: drop_state_def reservation_drop_eq)

lemma start_coordinator_alone:
  fixes we :: "'r world_env"
  assumes alone: "alone op r0 sd r" and bytes: "pr_capture_bytes r = pr_capture_bytes r0"
    and start: "start_coordinator we si regs op sd r = (res, r')"
  shows "case res of
      Inl _ \<Rightarrow> r' = r0
    | Inr s \<Rightarrow> world_alone op r0 s \<and> r' = aw_resources s"
proof (cases "new_with_registrations (si_spool_created si) op regs sd r :: 'r automatic_world res")
  case (Inl e)
  obtain sd' r1 where gone: "abandon_incomplete op sd r = (sd', r1)"
    by (cases "abandon_incomplete op sd r")
  from abandon_settled [OF alone gone, of 0] have "drop_state sd' r1 = r0"
    using bytes by (simp add: reservation_drop_eq)
  moreover have "(Inl e, drop_state sd' r1) = (res, r')"
    using start unfolding start_coordinator_def Inl gone by simp
  ultimately show ?thesis by auto
next
  case (Inr s)
  then have "aw_operation_id s = op" "aw_sdk s = sd" "aw_resources s = r" "aw_reserved s = 0"
    by (auto simp: new_with_registrations_def new_mode_def split: if_splits)
  then have world: "world_alone op r0 s"
    using alone bytes alone_bound [OF alone] by (simp add: world_alone_def holds_bytes_def)
  obtain res1 s1 where ambient: "capture_ambient we (si_environment_io si) (si_clock_io si) (si_vars si) s
      = (res1, s1)"
    by (cases "capture_ambient we (si_environment_io si) (si_clock_io si) (si_vars si) s")
  have s1: "world_alone op r0 s1" using lone.ambients [OF world] ambient by (metis snd_conv)
  obtain sd' r1 where gone: "abandon_incomplete op (aw_sdk s1) (aw_resources s1) = (sd', r1)"
    by (cases "abandon_incomplete op (aw_sdk s1) (aw_resources s1)")
  have "alone op r0 (aw_sdk s1) (aw_resources s1)" using s1 by (simp add: world_alone_def)
  from abandon_settled [OF this gone, of "aw_reserved s1"]
  have "drop_state sd' (reservation_drop (aw_reserved s1) r1) = r0"
    using s1 by (simp add: world_alone_def holds_bytes_def)
  then show ?thesis
    using start Inr ambient gone s1 by (cases res1) (auto simp: start_coordinator_def)
qed

lemma retain_resources [simp]: "cs_resources (retain_alive cs) = cs_resources cs"
  by (simp add: retain_alive_def)

lemma shared_new_parts:
  assumes "shared_new a op s cs = (res, cs')"
  shows "case res of
      Inl _ \<Rightarrow> cs_resources cs' = reservation_drop (aw_reserved s) (cs_resources cs)
    | Inr _ \<Rightarrow> cs_resources cs' = cs_resources cs \<and> coordinator_of a cs' = Some s"
  using assms
  by (auto simp: shared_new_def register_active_operation_def Let_def drop_coordinator_def
      update_shared_def coordinator_of_def retain_alive_def split: if_splits)

lemma shared_drop_resources:
  "coordinator_of a cs = Some s \<Longrightarrow>
     cs_resources (shared_drop a cs) = reservation_drop (aw_reserved s) (cs_resources cs)"
  by (auto simp: shared_drop_def coordinator_of_def drop_coordinator_def Let_def split: option.splits)

lemma start_sentinel_parts:
  assumes world: "world_alone op r0 s" "ps_resources ps = aw_resources s"
    and shared: "coordinator_of a (ps_contexts ps) = Some s"
    and start: "start_sentinel watched a (aw_sdk s) ps = (res, ps')"
  shows "case res of
      Inl _ \<Rightarrow> ps_resources ps' = r0
    | Inr _ \<Rightarrow> ps_contexts ps' = ps_contexts ps"
proof (cases "next_native_operation_handle ps")
  case (Pair handle ps1)
  then have ps1: "ps_contexts ps1 = ps_contexts ps"
    by (auto simp: next_native_operation_handle_def split: option.splits)
  have "alone op r0 (aw_sdk s) (reservation_drop (aw_reserved s) (aw_resources s))"
    using world(1) by (simp add: world_alone_def alone_drop)
  from alone_drop_state [OF this]
  have "drop_state (aw_sdk s) (reservation_drop (aw_reserved s) (aw_resources s)) = r0"
    using world(1) by (simp add: world_alone_def holds_bytes_def reservation_drop_eq)
  then show ?thesis
    using start Pair ps1 shared world(2) shared_drop_resources [OF shared]
    by (auto simp: start_sentinel_def Let_def scoped_def split: if_splits sum.splits prod.splits)
qed

lemma start_operation_inv:
  assumes ok: "ledger_ok (ps_resources ps)" and start: "start_operation we ee si en p ps = (res, ps')"
  shows "case res of
      Inl _ \<Rightarrow> ps_resources ps' = ps_resources ps
    | Inr mo \<Rightarrow> operation_inv (mo_operation_id mo) (ps_resources ps) (mo, ps')"
proof (cases "start_candidate ee si en")
  case (Inl e)
  then show ?thesis using start by (auto simp: start_operation_def)
next
  case start1: (Inr st)
  let ?op = "start_operation_id st" and ?r0 = "ps_resources ps" and ?a = "si_address si"
  obtain res1 sd r where entry: "begin_automatic (we_core we)
      (sha256 we (text_bytes we ''pending automatic World'')) st p (thread_context ps)
      (new_from_environment (si_fuzz_target si)) ?r0 = (res1, sd, r)"
    by (metis prod_cases3)
  note begun = begin_alone [OF ok entry]
  show ?thesis
  proof (cases res1)
    case (Inl e)
    then show ?thesis using start start1 entry begun by (auto simp: start_operation_def Let_def)
  next
    case res1: (Inr u)
    obtain res2 r1 where coord: "start_coordinator we si (en_registrations en) ?op sd r = (res2, r1)"
      by (cases "start_coordinator we si (en_registrations en) ?op sd r")
    have coordinated: "case res2 of Inl _ \<Rightarrow> r1 = ?r0
        | Inr s \<Rightarrow> world_alone ?op ?r0 s \<and> r1 = aw_resources s"
      by (rule start_coordinator_alone [OF _ _ coord]) (use begun res1 in simp_all)
    show ?thesis
    proof (cases res2)
      case (Inl e)
      then show ?thesis
        using start start1 entry res1 coord coordinated by (auto simp: start_operation_def Let_def)
    next
      case res2: (Inr s)
      then have world: "world_alone ?op ?r0 s" "r1 = aw_resources s" using coordinated by simp_all
      obtain res3 cs where new: "shared_new ?a ?op s (ps_contexts (set_resources r1 ps)) = (res3, cs)"
        by (cases "shared_new ?a ?op s (ps_contexts (set_resources r1 ps))")
      note shared = shared_new_parts [OF new]
      show ?thesis
      proof (cases res3)
        case (Inl e)
        obtain sd' r2 where gone: "abandon_incomplete ?op (aw_sdk s) (cs_resources cs) = (sd', r2)"
          by (cases "abandon_incomplete ?op (aw_sdk s) (cs_resources cs)")
        have "alone ?op ?r0 (aw_sdk s) (cs_resources cs)"
          using world shared Inl by (simp add: world_alone_def alone_drop)
        from abandon_settled [OF this gone, of 0] have "drop_state sd' r2 = ?r0"
          using world shared Inl by (simp add: reservation_drop_eq world_alone_def holds_bytes_def)
        then show ?thesis
          using start start1 entry res1 coord res2 new Inl gone
          by (auto simp: start_operation_def Let_def)
      next
        case res3: (Inr b)
        let ?ps = "ps\<lparr>ps_contexts := cs\<rparr>"
        obtain res4 ps4 where sentinel: "start_sentinel (en_sentinel en) ?a (aw_sdk s) ?ps = (res4, ps4)"
          by (cases "start_sentinel (en_sentinel en) ?a (aw_sdk s) ?ps")
        have watched: "case res4 of Inl _ \<Rightarrow> ps_resources ps4 = ?r0
            | Inr _ \<Rightarrow> ps_contexts ps4 = ps_contexts ?ps"
          by (rule start_sentinel_parts [OF world(1) _ _ sentinel]) (use shared res3 world in simp_all)
        have run: "start_operation we ee si en p ps =
            act_bind (start_sentinel (en_sentinel en) ?a (aw_sdk s)) (\<lambda>handle. act_res (Inr
               \<lparr>mo_closure = None, mo_finished = False, mo_operation_id = ?op,
                mo_operation_kind = begin_operation_kind p, mo_operation_name = begin_operation_name p,
                mo_recorder = empty_recorder, mo_sdk = aw_sdk s, mo_sentinel_handle = handle,
                mo_shared = ?a\<rparr>)) ?ps"
          using start1 entry res1 coord res2 new res3 by (simp add: start_operation_def Let_def)
        show ?thesis
        proof (cases res4)
          case (Inl e)
          then show ?thesis
            using start sentinel watched unfolding run by (auto simp: act_bind_cases)
        next
          case (Inr handle)
          let ?mo = "\<lparr>mo_closure = None, mo_finished = False, mo_operation_id = ?op,
              mo_operation_kind = begin_operation_kind p, mo_operation_name = begin_operation_name p,
              mo_recorder = empty_recorder, mo_sdk = aw_sdk s, mo_sentinel_handle = handle,
              mo_shared = ?a\<rparr>"
          have "ps_contexts ps4 = cs" using watched Inr by simp
          then have "ps_resources ps4 = aw_resources s" "coordinator_of ?a (ps_contexts ps4) = Some s"
            using shared res3 world(2) by (simp_all add: ps_resources_def)
          moreover have "s\<lparr>aw_resources := aw_resources s\<rparr> = s" by simp
          ultimately have "operation_inv ?op ?r0 (?mo, ps4)"
            using world(1) by (simp add: operation_inv_def captures_def empty_recorder_def)
          moreover have "res = Inr ?mo" "ps' = ps4"
            using start sentinel Inr unfolding run by (simp_all add: act_bind_cases act_res_def)
          ultimately show ?thesis by simp
        qed
      qed
    qed
  qed
qed

section \<open>Failing\<close>

text \<open>The recorder keeps the candidate it is handed, and gives the ledger back with it.\<close>

lemma recorder_hand_off:
  assumes ok: "ledger_ok r" and none: "lr_candidate s = None"
    and cand: "canonical_candidate c cand = Inr bs"
    and step: "hand_off c (recorder_sink c own) cand bs k r s = (res, k', r', s')"
  shows "recorder_drop r' s' = r" and "\<not> is_ok res \<Longrightarrow> lr_candidate s' = None"
proof -
  let ?cap = "cand_capture_id cand" and ?n = "length bs"
  obtain reserved r1 where res: "reserve_candidate_handoff ?cap ?n r = (reserved, r1)"
    by (cases "reserve_candidate_handoff ?cap ?n r")
  have "recorder_drop r' s' = r \<and> (\<not> is_ok res \<longrightarrow> lr_candidate s' = None)"
  proof (cases "?n > MAX_OPERATION_BYTES \<or> \<not> reserved")
    case True
    then have "r' = r \<and> s' = s \<and> \<not> is_ok res"
      using step res by (auto simp: hand_off_def reserve_candidate_handoff_def split: if_splits)
    then show ?thesis using none by (simp add: recorder_drop_def)
  next
    case False
    note exact = handoff_exact [OF ok, of ?cap ?n r1]
    have handed: "handed ?cap ?n r1" using exact(2) res False by (simp add: handed_def)
    note claim = claim_handed [OF handed]
    have given: "release_candidate ?cap r1 = r" "release_candidate ?cap (claimed ?cap ?n r1) = r"
      using exact(4,5) res False claim by simp_all
    have ok1: "ledger_ok r1" using reserve_candidate_handoff_ok [OF ok, of ?cap ?n] res by simp
    have retained: "candidate_is_retained ?cap (claimed ?cap ?n r1)"
      using claimed_get [OF ok1, of ?cap ?n ?cap] by (simp add: retained_iff)
    have gone: "bt_get (pr_candidates r) ?cap = None" using exact(1) res False by simp
    then have "release_candidate ?cap r = r" "\<not> candidate_is_retained ?cap r"
      by (simp_all add: release_candidate_def candidate_is_retained_def)
    moreover obtain sent r2 s2 where send: "recorder_try_send c own cand r1 s = (sent, r2, s2)"
      by (metis prod_cases3)
    moreover note out = recorder_send [OF cand handed send]
    ultimately show ?thesis
      using step res False none given retained handed_not_retained [OF handed]
      by (cases sent)
        (auto simp: hand_off_def recorder_sink_def recorder_drop_def send_outcome_def
          bump_lr_incomplete_def split: if_splits)
  qed
  then show "recorder_drop r' s' = r" "\<not> is_ok res \<Longrightarrow> lr_candidate s' = None" by simp_all
qed

lemma storm_alone:
  assumes alone: "alone op r0 sd r" and storm: "admit_storm now_ms key r = (d, r')"
  shows "\<exists>g. alone op (r0\<lparr>pr_storm := g\<rparr>) sd r'" and "pr_capture_bytes r' = pr_capture_bytes r"
proof -
  obtain g where r': "r' = r\<lparr>pr_storm := g\<rparr>"
    using storm by (auto simp: admit_storm_def split: prod.splits)
  have "ledger_ok r'"
    using admit_storm_ok [OF sdk_inv_ledger [OF alone_inv [OF alone]], of now_ms key] storm by simp
  moreover have "release_operation op r' = (release_operation op r)\<lparr>pr_storm := g\<rparr>"
    by (simp add: r' release_operation_def split: option.split)
  ultimately show "\<exists>g. alone op (r0\<lparr>pr_storm := g\<rparr>) sd r'"
    using alone by (auto simp: alone_def r' sdk_inv_def intro!: exI [of _ g])
  show "pr_capture_bytes r' = pr_capture_bytes r" by (simp add: r')
qed

lemma alone_recall [simp]: "alone op r0 (sd\<lparr>sdk_recall := k\<rparr>) r = alone op r0 sd r"
  by (simp add: alone_def)

text \<open>
  Failing the operation settles the ledger but for the storm gate, once the recorder has given the
  candidate up.
\<close>

definition failed_settled ::
  "operation_id \<Rightarrow> process_resources \<Rightarrow> nat \<Rightarrow> unit res \<Rightarrow> sdk \<Rightarrow> process_resources \<Rightarrow> local_recorder \<Rightarrow> bool"
  where
  "failed_settled op r0 n res sd r rec \<longleftrightarrow>
     (\<exists>g. alone op (r0\<lparr>pr_storm := g\<rparr>) sd (recorder_drop r rec))
     \<and> pr_capture_bytes (recorder_drop r rec) = n
     \<and> (if is_ok res then sdk_operations sd = [] else lr_candidate rec = None)"

lemma failed_settledI:
  "alone op r0 sd r \<Longrightarrow> lr_candidate rec = None \<Longrightarrow> (is_ok res \<Longrightarrow> sdk_operations sd = []) \<Longrightarrow>
     failed_settled op r0 (pr_capture_bytes r) res sd r rec"
  by (auto simp: failed_settled_def recorder_drop_def intro!: exI [of _ "pr_storm r0"])

lemma sdk_fail_settled:
  assumes alone: "alone op r0 sd r" and none: "lr_candidate rec = None"
    and step: "sdk_fail c (recorder_sink c own) now_ms op failure sd r rec = (res, sd', r', rec')"
  shows "failed_settled op r0 (pr_capture_bytes r) res sd' r' rec'"
proof -
  let ?sd = "sd\<lparr>sdk_recall := bump_eligible (sdk_recall sd)\<rparr>"
  have alone1: "alone op r0 ?sd r" using alone by simp
  show ?thesis
  proof (cases "failure_record c op failure ?sd")
    case (Inl e)
    then have "res = Inl e" "sd' = ?sd" "r' = r" "rec' = rec" using step by (simp_all add: sdk_fail_def)
    then show ?thesis using failed_settledI [OF alone1 none, of res] by simp
  next
    case frec: (Inr frec)
    then obtain a where a: "bt_get (sdk_operations ?sd) op = Some a"
      by (auto simp: failure_record_def split: option.splits)
    obtain sd1 r1 where del: "state_delete op ?sd r = (sd1, r1)" by (cases "state_delete op ?sd r")
    then have alone2: "alone op r0 sd1 r1" "pr_capture_bytes r1 = pr_capture_bytes r"
      and empty: "sdk_operations sd1 = []"
      using alone_delete [OF alone1 del] by auto
    have settled: "failed_settled op r0 (pr_capture_bytes r) x sd1 r1 rec" for x
      using failed_settledI [OF alone2(1) none, of x] empty alone2(2) by simp
    have run: "(case close_candidate c op failure frec a of
        Inl e \<Rightarrow> (Inl e, sd1, r1, rec)
      | Inr cand \<Rightarrow> (case failure_storm_key c cand of
            Inl e \<Rightarrow> (Inl e, sd1, r1, rec)
          | Inr key \<Rightarrow> (case admit_storm now_ms key r1 of
                (SuppressedExact, r2) \<Rightarrow>
                  (Inr (), sd1\<lparr>sdk_recall := bump_exact (sdk_recall sd1)\<rparr>, r2, rec)
              | (SuppressedHighCardinality, r2) \<Rightarrow>
                  (Inr (), sd1\<lparr>sdk_recall := bump_high (sdk_recall sd1)\<rparr>, r2, rec)
              | (Admitted, r2) \<Rightarrow> (case canonical_candidate c cand of
                    Inl e \<Rightarrow> (Inl e, sd1, r2, rec)
                  | Inr bs \<Rightarrow>
                      let (res, k, r3, s') = hand_off c (recorder_sink c own) cand bs (sdk_recall sd1) r2 rec
                      in (res, sd1\<lparr>sdk_recall := k\<rparr>, r3, s'))))) = (res, sd', r', rec')"
      using step frec a del by (simp add: sdk_fail_def fail_commit_def)
    show ?thesis
    proof (cases "close_candidate c op failure frec a")
      case (Inl e)
      then show ?thesis using run settled by auto
    next
      case cand: (Inr cand)
      show ?thesis
      proof (cases "failure_storm_key c cand")
        case (Inl e)
        then show ?thesis using run settled cand by auto
      next
        case (Inr key)
        obtain d r2 where storm: "admit_storm now_ms key r1 = (d, r2)"
          by (cases "admit_storm now_ms key r1")
        obtain g where alone3: "alone op (r0\<lparr>pr_storm := g\<rparr>) sd1 r2"
          using storm_alone(1) [OF alone2(1) storm] by blast
        have bytes: "pr_capture_bytes r2 = pr_capture_bytes r"
          using storm_alone(2) [OF alone2(1) storm] alone2(2) by simp
        have idle: "failed_settled op r0 (pr_capture_bytes r) x (sd1\<lparr>sdk_recall := k\<rparr>) r2 rec" for x k
          using alone3 bytes none empty by (auto simp: failed_settled_def recorder_drop_def)
        show ?thesis
        proof (cases "d = Admitted \<and> is_ok (canonical_candidate c cand)")
          case False
          then show ?thesis
            using run cand Inr storm idle [of _ "sdk_recall sd1"] idle
            by (cases d; cases "canonical_candidate c cand") auto
        next
          case True
          then obtain bs where bs: "canonical_candidate c cand = Inr bs"
            by (cases "canonical_candidate c cand") auto
          obtain x k r3 s' where hand: "hand_off c (recorder_sink c own) cand bs (sdk_recall sd1) r2 rec
              = (x, k, r3, s')"
            by (metis prod_cases4)
          note exact = recorder_hand_off [OF sdk_inv_ledger [OF alone_inv [OF alone3]] none bs hand]
          have "res = x" "sd' = sd1\<lparr>sdk_recall := k\<rparr>" "r' = r3" "rec' = s'"
            using run cand Inr storm True bs hand by simp_all
          then show ?thesis
            using exact alone3 bytes empty by (cases "is_ok x") (auto simp: failed_settled_def)
        qed
      qed
    qed
  qed
qed

lemma sdk_operations_settled: "sdk_operations sd = [] \<Longrightarrow> drop_state sd r = r"
  by (simp add: drop_state_def)

text \<open>Recording the failure and taking the candidate back, with the closure held apart.\<close>

lemma record_and_take:
  assumes owes: "owes n op r0 st" and none: "mo_closure (fst st) = None"
    and step: "act_bind (recorded_fail c now_ms failure) (\<lambda>_. take_recorded) st = (res, st')"
  shows "\<exists>g. owes n op (r0\<lparr>pr_storm := g\<rparr>) st'" and "mo_closure (fst st') = None"
    and "is_ok res \<Longrightarrow> sdk_operations (operation_sdk st') = []"
    and "is_ok res \<Longrightarrow> \<exists>g. ps_resources (snd st') = r0\<lparr>pr_storm := g, pr_capture_bytes := pr_capture_bytes r0 + n\<rparr>"
proof -
  let ?r = "ps_resources (snd st)" and ?sd = "mo_sdk (fst st)" and ?rec = "mo_recorder (fst st)"
  have st: "mo_operation_id (fst st) = op" "operation_sdk st = ?sd" "lr_candidate ?rec = None"
      "alone op r0 ?sd ?r" "pr_capture_bytes ?r = pr_capture_bytes r0 + n"
      "coordinator_of (mo_shared (fst st)) (ps_contexts (snd st)) = None" "\<not> mo_finished (fst st)"
    using owes none by (auto simp: owes_def operation_sdk_def closure_held_def)
  obtain res1 sd r rec where fail: "sdk_fail c (recorder_sink c op) now_ms op failure ?sd ?r ?rec
      = (res1, sd, r, rec)"
    by (metis prod_cases4)
  from sdk_fail_settled [OF st(4,3) this]
  obtain g where settled: "alone op (r0\<lparr>pr_storm := g\<rparr>) sd (recorder_drop r rec)"
      "pr_capture_bytes (recorder_drop r rec) = pr_capture_bytes r0 + n"
      "if is_ok res1 then sdk_operations sd = [] else lr_candidate rec = None"
    using st(5) by (auto simp: failed_settled_def)
  define st1 where "st1 = put_sdk sd r ((fst st)\<lparr>mo_recorder := rec\<rparr>, snd st)"
  have run: "recorded_fail c now_ms failure st = (res1, st1)"
    using fail st by (simp add: recorded_fail_def st1_def)
  have st1: "mo_operation_id (fst st1) = op" "mo_closure (fst st1) = None"
      "mo_recorder (fst st1) = rec" "mo_sdk (fst st1) = sd" "ps_resources (snd st1) = r"
      "coordinator_of (mo_shared (fst st1)) (ps_contexts (snd st1)) = None" "\<not> mo_finished (fst st1)"
    using st none put_sdk_parts(3) [of "((fst st)\<lparr>mo_recorder := rec\<rparr>, snd st)" sd r]
    by (simp_all add: st1_def)
  have "owes n op (r0\<lparr>pr_storm := g\<rparr>) st' \<and> mo_closure (fst st') = None
      \<and> (is_ok res \<longrightarrow> sdk_operations (operation_sdk st') = []
           \<and> ps_resources (snd st') = recorder_drop r rec)"
  proof (cases res1)
    case (Inl e)
    then have "res = Inl e" "st' = st1" using step run by (simp_all add: act_bind_cases)
    then show ?thesis
      using st1 settled Inl by (simp add: owes_def closure_held_def recorder_drop_def)
  next
    case (Inr u)
    then have "take_recorded st1 = (res, st')" using step run by (simp add: act_bind_cases)
    then have st': "st' = ((fst st1)\<lparr>mo_recorder := rec\<lparr>lr_bytes := 0, lr_candidate := None\<rparr>\<rparr>,
        set_resources (recorder_drop r rec) (snd st1))"
      using st1 by (auto simp: take_recorded_def take_failed_candidate_def recorder_drop_def)
    show ?thesis
      unfolding st' using st1 settled Inr by (simp add: owes_def closure_held_def operation_sdk_def)
  qed
  moreover have "recorder_drop r rec = r0\<lparr>pr_storm := g, pr_capture_bytes := pr_capture_bytes r0 + n\<rparr>"
    if "sdk_operations sd = []"
    using alone_drop_state [OF settled(1)] settled(2) that by (simp add: drop_state_def)
  moreover have "sdk_operations sd = []" if "is_ok res"
    using settled(3) step run that by (cases res1) (auto simp: act_bind_cases)
  ultimately show "\<exists>g. owes n op (r0\<lparr>pr_storm := g\<rparr>) st'" "mo_closure (fst st') = None"
    "is_ok res \<Longrightarrow> sdk_operations (operation_sdk st') = []"
    "is_ok res \<Longrightarrow> \<exists>g. ps_resources (snd st') = r0\<lparr>pr_storm := g, pr_capture_bytes := pr_capture_bytes r0 + n\<rparr>"
    by auto
qed

text \<open>The end of the failed operation: settled, or what \<open>finalize\<close> made of the settled ledger.\<close>

lemma operation_fail_settled:
  fixes st :: "'r operation_state"
  assumes inv: "operation_inv op r0 st"
    and step: "operation_fail c fc now_ms finalize identity token st = (res, ps')"
  shows "(\<exists>g. ps_resources ps' = r0\<lparr>pr_storm := g\<rparr> \<and> \<not> is_ok res)
    \<or> (\<exists>g cand oc. mo_closure (fst st) = Some oc
         \<and> finalize cand oc token (r0\<lparr>pr_storm := g,
              pr_capture_bytes := pr_capture_bytes r0 + fz_reservation (oc_closure oc)\<rparr>)
           = (res, ps_resources ps'))"
proof (cases "mo_closure (fst st)")
  case None
  then have "res = Inl IncompleteCandidate" "ps_resources ps' = r0"
    using step operation_ends_settled(3) [OF inv] by (auto simp: operation_fail_def)
  then have "ps_resources ps' = r0\<lparr>pr_storm := pr_storm r0\<rparr> \<and> \<not> is_ok res" by simp
  then show ?thesis by blast
next
  case (Some oc)
  let ?n = "fz_reservation (oc_closure oc)" and ?st1 = "((fst st)\<lparr>mo_closure := None\<rparr>, snd st)"
  have owes: "owes ?n op r0 ?st1"
    using inv Some by (auto simp: operation_defs closure_held_def split: option.splits)
  have drop: "\<exists>g. ps_resources (operation_drop (fst st2,
        set_resources (frozen_drop (oc_closure oc) (ps_resources (snd st2))) (snd st2)))
      = r0\<lparr>pr_storm := g\<rparr>"
    if held: "\<exists>g. owes ?n op (r0\<lparr>pr_storm := g\<rparr>) st2" for st2 :: "'r operation_state"
  proof -
    obtain g where "owes (0 + ?n) op (r0\<lparr>pr_storm := g\<rparr>) (fst st2, snd st2)" using held by auto
    from operation_ends_settled(3) [OF owes_inv [OF drop_owes [OF this]]]
    show ?thesis unfolding frozen_drop_def by blast
  qed
  show ?thesis
  proof (cases "make_failure_payload fc identity (mo_operation_kind (fst st)) (mo_operation_name (fst st))")
    case (Inl e)
    have "\<exists>g. owes ?n op (r0\<lparr>pr_storm := g\<rparr>) ?st1"
      using owes by (intro exI [of _ "pr_storm r0"]) simp
    from drop [OF this] show ?thesis
      using step Some Inl by (auto simp: operation_fail_def act_bind_cases act_res_def Let_def)
  next
    case (Inr failure)
    obtain x st2 where taken: "act_bind (recorded_fail c now_ms failure) (\<lambda>_. take_recorded) ?st1 = (x, st2)"
      by (cases "act_bind (recorded_fail c now_ms failure) (\<lambda>_. take_recorded) ?st1")
    note parts = record_and_take [OF owes _ taken]
    have run: "(case (x, st2) of
        (Inl e, st2) \<Rightarrow> (Inl e, operation_drop (fst st2,
           set_resources (frozen_drop (oc_closure oc) (ps_resources (snd st2))) (snd st2)))
      | (Inr cand, st2) \<Rightarrow>
          let (sink, r) = finalize cand oc token (ps_resources (snd st2))
          in (sink, drop_fields ((fst st2)\<lparr>mo_finished := True\<rparr>, set_resources r (snd st2)))) = (res, ps')"
      using step Some Inr by (simp add: operation_fail_def bind_act_res Let_def taken)
    show ?thesis
    proof (cases x)
      case (Inl e)
      then show ?thesis using run drop [OF parts(1)] by auto
    next
      case (Inr cand)
      obtain sink r where fin: "finalize cand oc token (ps_resources (snd st2)) = (sink, r)"
        by (cases "finalize cand oc token (ps_resources (snd st2))")
      obtain g where g: "ps_resources (snd st2)
          = r0\<lparr>pr_storm := g, pr_capture_bytes := pr_capture_bytes r0 + ?n\<rparr>"
        using parts(4) Inr by auto
      have "sdk_operations (operation_sdk st2) = []" "mo_closure (fst st2) = None"
          "lr_candidate (mo_recorder (fst st2)) = None"
        using parts(1-3) Inr by (auto simp: owes_def)
      moreover have "operation_sdk ((fst st2)\<lparr>mo_finished := True\<rparr>, set_resources r (snd st2))
          = operation_sdk st2"
        by (simp add: operation_sdk_def split: option.split)
      ultimately have "ps_resources (drop_fields ((fst st2)\<lparr>mo_finished := True\<rparr>, set_resources r (snd st2))) = r"
        by (simp add: drop_fields_def recorder_drop_def drop_state_def Let_def)
      then have "finalize cand oc token (ps_resources (snd st2)) = (res, ps_resources ps')"
        using run Inr fin by auto
      then show ?thesis using Some g by auto
    qed
  qed
qed

end
