(* ===== verification/Engine_Theorems.thy ===== *)
theory Engine_Theorems
  imports Engine_Safety
begin

text \<open>
  What an automatic operation guarantees from its start to its end: it leaves no trace in the
  ledger, and its World closes only on clean evidence of the sentinel.
\<close>

section \<open>No trace in the ledger\<close>

datatype operation_end = Succeeds | Abandons | Drops

fun end_operation :: "operation_end \<Rightarrow> 'r operation_state \<Rightarrow> 'r process_state" where
  "end_operation Succeeds st = operation_succeed st"
| "end_operation Abandons st = operation_abandon st"
| "end_operation Drops st = operation_drop st"

lemma end_operation_settled:
  "operation_inv op r0 st \<Longrightarrow> ps_resources (end_operation e st) = r0"
  by (cases e) (simp_all add: operation_ends_settled)

text \<open>
  C1: An automatic operation leaves no trace.  Whatever its start meets, an operation that does not
  start leaves the process ledger as it was; and one that starts leaves it as it was once it has
  succeeded, was abandoned or dropped, after any calls with any answers of the system: inputs,
  observations, chunks that are refused, a World that closes, or one that does not.
\<close>

theorem operation_leaves_no_trace:
  assumes "ledger_ok (ps_resources ps)"
  shows "case start_operation we ee si en p ps of
      (Inl _, ps1) \<Rightarrow> ps_resources ps1 = ps_resources ps
    | (Inr mo, ps1) \<Rightarrow>
        ps_resources (end_operation e (operation_run we cl calls (mo, ps1))) = ps_resources ps"
proof -
  obtain res ps1 where start: "start_operation we ee si en p ps = (res, ps1)"
    by (cases "start_operation we ee si en p ps")
  note started = start_operation_inv [OF assms start]
  show ?thesis
  proof (cases res)
    case (Inr mo)
    then have "operation_inv (mo_operation_id mo) (ps_resources ps) (mo, ps1)" using started by simp
    from end_operation_settled [OF operation_run_inv [OF this]] show ?thesis
      using start Inr by simp
  qed (use start started in simp)
qed

lemma factory_fail_settled:
  assumes inv: "operation_inv op r0 st"
    and step: "factory_fail we cl io fi fc now_ms finalize token identity completion st = (res, ps')"
  shows "(\<exists>g. ps_resources ps' = r0\<lparr>pr_storm := g\<rparr> \<and> \<not> is_ok res)
    \<or> (\<exists>g cand oc t. token = Inr t
         \<and> finalize cand oc t (r0\<lparr>pr_storm := g,
              pr_capture_bytes := pr_capture_bytes r0 + fz_reservation (oc_closure oc)\<rparr>)
           = (res, ps_resources ps'))"
proof -
  let ?close = "act_bind (act_res (validate_completion (mo_operation_kind (fst st)) completion)) (\<lambda>_.
      act_bind (operation_close_world we cl io fi completion) (\<lambda>_. act_res token)) st"
  obtain x st1 where close: "?close = (x, st1)" by (cases ?close)
  have "st1 = st \<or> st1 = snd (operation_close_world we cl io fi completion st)"
    using close by (auto simp: act_bind_cases act_res_def split: sum.splits)
  then have inv1: "operation_inv op r0 st1"
    using inv operation_close_world_inv [OF inv] by auto
  show ?thesis
  proof (cases x)
    case (Inl e)
    then have "ps_resources ps' = r0" "\<not> is_ok res"
      using step operation_ends_settled(3) [OF inv1] by (auto simp: factory_fail_def close)
    then have "ps_resources ps' = r0\<lparr>pr_storm := pr_storm r0\<rparr> \<and> \<not> is_ok res" by simp
    then show ?thesis by blast
  next
    case (Inr t)
    then have "token = Inr t"
      using close by (auto simp: act_bind_cases act_res_def split: sum.splits)
    moreover have "operation_fail (we_core we) fc now_ms finalize identity t st1 = (res, ps')"
      using step Inr by (simp add: factory_fail_def close)
    from operation_fail_settled [OF inv1 this] show ?thesis using calculation by blast
  qed
qed


section \<open>The World of an operation\<close>

text \<open>
  A property of the coordinator, while the operation has one, and the sentinel's handle of the
  operation.
\<close>

definition watches :: "nat option \<Rightarrow> ('r automatic_world \<Rightarrow> bool) \<Rightarrow> 'r operation_state \<Rightarrow> bool" where
  "watches handle R st \<longleftrightarrow>
     mo_sentinel_handle (fst st) = handle
     \<and> pred_option R (coordinator_of (mo_shared (fst st)) (ps_contexts (snd st)))"

text \<open>A property that does not read the SDK or the ledger.\<close>

definition world_local :: "('r automatic_world \<Rightarrow> bool) \<Rightarrow> bool" where
  "world_local R \<longleftrightarrow> (\<forall>s sd r. R (s\<lparr>aw_sdk := sd\<rparr>) = R s \<and> R (s\<lparr>aw_resources := r\<rparr>) = R s)"

lemma world_localD:
  "world_local R \<Longrightarrow> R (s\<lparr>aw_sdk := sd\<rparr>) = R s" "world_local R \<Longrightarrow> R (s\<lparr>aw_resources := r\<rparr>) = R s"
  by (simp_all add: world_local_def)

lemma watches_controller [simp]:
  "watches h R (x, ps\<lparr>ps_controller := ct\<rparr>) = watches h R (x, ps)"
  "watches h R (x, on_controller f ps) = watches h R (x, ps)"
  by (simp_all add: watches_def on_controller_def)

lemma scoped_result:
  "fst (scoped m st) = fst (m (fst st, (snd st)\<lparr>ps_controller :=
     snd (engine_call_scope (ps_thread (snd st)) (ps_controller (snd st)))\<rparr>))"
  by (simp add: scoped_def split: prod.split)

lemma watches_scoped:
  assumes "\<And>st. watches h R st \<Longrightarrow> watches h R (snd (m st))" "watches h R st"
  shows "watches h R (snd (scoped m st))"
proof -
  obtain guard ct where "engine_call_scope (ps_thread (snd st)) (ps_controller (snd st)) = (guard, ct)"
    by fastforce
  moreover have "watches h R (fst st, (snd st)\<lparr>ps_controller := ct\<rparr>)" using assms(2) by simp
  from assms(1) [OF this] show ?thesis
    using calculation by (auto simp: scoped_def split: prod.split)
qed

lemma watches_coordinator:
  assumes local: "world_local R" and action: "\<And>s. R s \<Longrightarrow> R (snd (action s))"
    and watches: "watches h R st"
  shows "watches h R (snd (coordinator_call action st))"
  unfolding coordinator_call_def
proof (rule watches_scoped [OF _ watches])
  fix st :: "'a operation_state"
  assume st: "watches h R st"
  have run: "R t" if "R s" "action (s\<lparr>aw_resources := r\<rparr>) = (x, t)" for s r x t
    using action [of "s\<lparr>aw_resources := r\<rparr>"] that by (simp add: world_localD [OF local])
  show "watches h R (snd (on_contexts (\<lambda>a. with_coordinator a action) st))"
    using st
    by (auto dest: run simp: watches_def on_contexts_snd with_coordinator_def run_coordinator_def
        coordinator_of_def split: option.splits prod.splits)
qed

lemma watches_sdk:
  assumes local: "world_local R" and watches: "watches h R st"
  shows "watches h R (snd (sdk_call f st))"
  using watches put_sdk_parts(3) [of st]
  by (auto simp: watches_def sdk_call_snd world_localD [OF local] option.pred_map o_def)

text \<open>The calls an adapter makes: all but the closing and the binding of coverage.\<close>

fun adapter_call :: "operation_call \<Rightarrow> bool" where
  "adapter_call (CoverageCall evidence) = False"
| "adapter_call (CloseCall io fi completion) = False"
| "adapter_call _ = True"

interpretation unbound: coordinator_frame we "\<lambda>s. aw_registrations s = rs" for we rs
  by unfold_locales
    (auto simp: push_observation_def push_dependency_def aw_reserve_def
      split: world_mode.splits prod.splits sum.splits)

lemma dispatch_unbound:
  "aw_registrations s = rs \<Longrightarrow> aw_registrations (snd (act_bind (dispatch_observation we io sid)
     (\<lambda>action. act_res (Inr (action_as_str action))) s)) = rs"
  using unbound.dispatching [of s rs we io sid]
  by (simp add: snd_act_bind act_res_def split: sum.split)

lemma watches_step:
  assumes "adapter_call call" "watches h (\<lambda>s. aw_registrations s = rs) st"
  shows "watches h (\<lambda>s. aw_registrations s = rs) (operation_step we cl call st)"
proof -
  have local: "world_local (\<lambda>s. aw_registrations s = rs)" by (simp add: world_local_def)
  have input: "watches h (\<lambda>s. aw_registrations s = rs) (snd (operation_record_input c p st))" for c p
    unfolding operation_record_input_def
    by (rule watches_scoped [OF watches_sdk [OF local] assms(2)])
  note call = watches_coordinator [OF local _ assms(2)]
  show ?thesis
    using assms(1)
    by (cases call)
      (simp_all add: operation_call_defs input call dispatch_unbound unbound.opens unbound.writing
        unbound.reading unbound.finishing unbound.abandoning unbound.unowned)
qed

lemma watches_run:
  assumes "list_all adapter_call calls" "watches h (\<lambda>s. aw_registrations s = rs) st"
  shows "watches h (\<lambda>s. aw_registrations s = rs) (operation_run we cl calls st)"
  unfolding operation_run_def
  using assms by (induction calls arbitrary: st) (simp_all add: watches_step)

section \<open>Closing needs clean evidence\<close>

text \<open>The engines a program builds: registrations are added, and never bound.\<close>

inductive built_engine :: "'r world_env \<Rightarrow> 'p automatic_engine \<Rightarrow> bool" for we where
  unregistered: "built_engine we (new_unregistered project subject)"
| opened: "built_engine we (fst (new_engine we installed project subject ps))"
| registered: "built_engine we en \<Longrightarrow>
    built_engine we (snd (register_observation_adapter we cls adapter_id version d en))"

definition unbound_registrations :: "(observation_class, registration) btree \<Rightarrow> bool" where
  "unbound_registrations regs \<longleftrightarrow>
     (\<forall>(cls, rg) \<in> set regs. rg_sentinel_coverage_digest rg = None)"

lemma unbound_insert:
  assumes "unbound_registrations regs" "new_registration we cls adapter_id version d = Inr rg"
  shows "unbound_registrations (bt_insert cls' rg regs)"
proof -
  have "rg_sentinel_coverage_digest rg = None"
    using assms(2) by (auto simp: new_registration_def bind_res_eq_Inr Let_def split: if_splits)
  then show ?thesis
    using assms(1) set_bt_insert_subset [of cls' rg regs] by (fastforce simp: unbound_registrations_def)
qed

lemma unbound_guards:
  "unbound_registrations regs \<Longrightarrow> unbound_registrations (guard_registrations we d classes regs)"
  by (induction classes arbitrary: regs)
    (auto simp: unbound_insert split: sum.split, simp add: unbound_registrations_def)

lemma built_unbound: "built_engine we en \<Longrightarrow> unbound_registrations (en_registrations en)"
proof (induction rule: built_engine.induct)
  case (registered en cls adapter_id version d)
  then show ?case
    by (auto simp: register_observation_adapter_def unbound_insert split: sum.split)
next
  case (opened installed project subject ps)
  have "unbound_registrations []" by (simp add: unbound_registrations_def)
  then show ?case
    by (auto simp: new_engine_def install_native_guard_adapters_def unbound_guards split: option.split)
qed (simp add: new_unregistered_def unbound_registrations_def)

lemma start_sentinel_contexts:
  assumes "fst (start_sentinel watched a sd ps) = Inr handle"
  shows "ps_contexts (snd (start_sentinel watched a sd ps)) = ps_contexts ps"
  using assms
  by (auto simp: start_sentinel_def next_native_operation_handle_def scoped_def Let_def
      split: if_splits option.splits prod.splits)

lemma start_coordinator_registrations:
  fixes we :: "'r world_env"
  assumes "start_coordinator we si regs op sd r = (Inr s, r')"
  shows "aw_registrations s = regs"
proof -
  obtain s0 where s0: "new_with_registrations (si_spool_created si) op regs sd r = Inr s0"
    and s: "s = snd (capture_ambient we (si_environment_io si) (si_clock_io si) (si_vars si) s0)"
    using assms by (auto simp: start_coordinator_def Let_def split: sum.splits prod.splits)
  have "aw_registrations s0 = regs"
    using s0 by (auto simp: new_with_registrations_def new_mode_def split: if_splits)
  from unbound.ambients [OF this] show ?thesis unfolding s .
qed

lemma start_watches:
  assumes start: "start_operation we ee si en p ps = (Inr mo, ps1)"
  shows "watches (mo_sentinel_handle mo) (\<lambda>s. aw_registrations s = en_registrations en) (mo, ps1)"
proof -
  obtain op sd r r1 s b cs handle where
      coord: "start_coordinator we si (en_registrations en) op sd r = (Inr s, r1)"
    and new: "shared_new (si_address si) op s (ps_contexts (set_resources r1 ps)) = (Inr b, cs)"
    and sentinel: "fst (start_sentinel (en_sentinel en) (si_address si) (aw_sdk s) (ps\<lparr>ps_contexts := cs\<rparr>))
       = Inr handle"
      "ps1 = snd (start_sentinel (en_sentinel en) (si_address si) (aw_sdk s) (ps\<lparr>ps_contexts := cs\<rparr>))"
    and mo: "mo_shared mo = si_address si"
    using start
    by (auto simp: start_operation_def Let_def act_bind_cases act_res_def
        split: sum.splits prod.splits)
  have "coordinator_of (mo_shared mo) (ps_contexts ps1) = Some s"
    using shared_new_parts [OF new] start_sentinel_contexts [OF sentinel(1)] by (simp add: mo sentinel(2))
  then show ?thesis
    using start_coordinator_registrations [OF coord] by (simp add: watches_def)
qed

text \<open>Without a binding the coordinator keeps its registrations, and a World is open.\<close>

lemma unbound_is_open:
  assumes "unbound_registrations (aw_registrations s)"
  shows "world_is_open s"
proof (cases "aw_registrations s")
  case Nil
  then show ?thesis by (simp add: world_is_open_def ALL_CLASSES_def)
next
  case (Cons e rest)
  then show ?thesis using assms by (auto simp: world_is_open_def unbound_registrations_def)
qed

lemma close_taken_unbound:
  assumes "unbound_registrations (aw_registrations s)"
  shows "\<not> is_ok (fst (close_taken we io completion s st))"
  using unbound_is_open [OF assms]
  by (simp add: close_taken_def close_world_def close_steps_def split: prod.split)

lemma refused_bind: "\<not> is_ok (fst (m t)) \<Longrightarrow> \<not> is_ok (fst (act_bind m f t))"
  by (auto simp: act_bind_cases split: sum.splits)

text \<open>
  C2: The World of an operation closes only on clean evidence.  For an engine built with any
  registrations, an operation whose adapters make any calls, and whose \<open>close_world\<close> then succeeds,
  was watched by the sentinel, and the sentinel answered the close with a clean trace of this
  operation: a World is never closed without it.
\<close>

theorem world_needs_clean_evidence:
  assumes engine: "built_engine we en"
    and start: "start_operation we ee si en p ps = (Inr mo, ps1)"
    and calls: "list_all adapter_call calls" "st = operation_run we cl calls (mo, ps1)"
    and close: "operation_close_world we cl io fi completion st = (Inr (), st')"
  shows "\<exists>handle evidence. mo_sentinel_handle mo = Some handle
    \<and> fst (operation_finished handle
         (snd (engine_call_scope (ps_thread (snd st)) (ps_controller (snd st)))))
       = CleanKernelTrace evidence"
proof (rule ccontr)
  assume no: "\<not> ?thesis"
  let ?ct = "snd (engine_call_scope (ps_thread (snd st)) (ps_controller (snd st)))"
  let ?st = "(fst st, (snd st)\<lparr>ps_controller := ?ct\<rparr>)"
  define rs where "rs = en_registrations en"
  have rs: "unbound_registrations rs" unfolding rs_def by (rule built_unbound [OF engine])
  have watched: "watches (mo_sentinel_handle mo) (\<lambda>s. aw_registrations s = rs) ?st"
    using watches_run [OF calls(1) start_watches [OF start]] by (simp add: calls(2) rs_def)
  obtain x st1 where own: "bind_own_sentinel we ?st = (x, st1)" by (cases "bind_own_sentinel we ?st")
  have "pred_option (\<lambda>s. aw_registrations s = rs)
      (coordinator_of (mo_shared (fst st1)) (ps_contexts (snd st1)))"
  proof (cases "mo_sentinel_handle (fst st)")
    case None
    then have "st1 = ?st" using own by (simp add: bind_own_sentinel_def)
    then show ?thesis using watched by (simp add: watches_def)
  next
    case (Some handle)
    then have "fst (operation_finished handle ?ct) = CoverageIncomplete"
      using no watched by (cases "fst (operation_finished handle ?ct)") (auto simp: watches_def)
    then show ?thesis
      using own Some watched
      by (cases "operation_finished handle ?ct") (auto simp: bind_own_sentinel_def watches_def)
  qed
  moreover have "fst (operation_close_world we cl io fi completion st)
      = fst (act_bind (bind_own_sentinel we) (\<lambda>_.
          act_bind (\<lambda>st. on_contexts take_for_close (keep_sdk st)) (\<lambda>s.
          act_bind (close_taken we io completion s) (\<lambda>cap. bind_capture we cl fi cap))) ?st)"
    unfolding operation_close_world_def by (rule scoped_result)
  moreover have "\<not> is_ok (fst (act_bind (\<lambda>st. on_contexts take_for_close (keep_sdk st)) (\<lambda>s.
      act_bind (close_taken we io completion s) (\<lambda>cap. bind_capture we cl fi cap)) st1))"
  proof -
    obtain y st2 where Pair: "on_contexts take_for_close (keep_sdk st1) = (y, st2)"
      by (cases "on_contexts take_for_close (keep_sdk st1)")
    have "unbound_registrations (aw_registrations s)" if "y = Inr s" for s
      using Pair that calculation(1) rs take_parts [of "mo_shared (fst st1)" "ps_contexts (snd st1)"]
      by (auto simp: on_contexts_def split: prod.splits)
    then have "\<not> is_ok (fst (close_taken we io completion s st2))" if "y = Inr s" for s
      using that by (intro close_taken_unbound) simp
    then show ?thesis
      using Pair
      by (cases y) (auto simp: act_bind_cases [of "\<lambda>st. on_contexts take_for_close (keep_sdk st)"] refused_bind)
  qed
  moreover have "is_ok (fst (operation_close_world we cl io fi completion st))" by (simp add: close)
  ultimately show False
    using own by (cases x) (simp_all add: act_bind_cases [of "bind_own_sentinel we"])
qed

end
