(* ===== verification/Operation_Witnesses.thy ===== *)
theory Operation_Witnesses
  imports Engine_Theorems World_Witnesses Sentinel_Coverage
begin

text \<open>
  A whole automatic operation on concrete inputs: an engine with its guard registrations, a start,
  a database call, a World that closes on clean evidence, and a failure that is delivered.
\<close>

text \<open>A digest here is a length, shown, and object ids are distinct for the calls.\<close>

definition op_env :: "bytes world_env" where
  "op_env = demo_env\<lparr>show_digest := (\<lambda>d. case d of Digest n \<Rightarrow> show_nat n),
     text_bytes := (\<lambda>_. [1])\<rparr>"

definition op_io :: "nat \<Rightarrow> world_io" where
  "op_io k = demo_io\<lparr>io_object_id := (\<lambda>n. Inr (10 * k + n))\<rparr>"

definition demo_subject :: subject_manifest where
  "demo_subject = \<lparr>sj_modules = [\<lparr>sm_path = ''app'', sm_module_digest = Digest 2\<rparr>],
     sj_executable = ''app'', sj_rest = []\<rparr>"

definition demo_process :: "bytes process_state" where
  "demo_process = \<lparr>ps_contexts = \<lparr>cs_shared = (\<lambda>_. None), cs_active = [], cs_stack = [],
     cs_resources = new_resources\<rparr>, ps_controller = new_controller, ps_native_handle = 1,
     ps_fuzz = [], ps_thread = 20\<rparr>"

definition demo_opened :: "unit automatic_engine \<times> bytes process_state" where
  "demo_opened = new_engine op_env (Some demo_runtime) () demo_subject demo_process"

definition demo_engine_env :: "unit engine_env" where
  "demo_engine_env = \<lparr>ee_deployment = (\<lambda>_. Inr demo_deployment), ee_validate_manifest = (\<lambda>_. Inr ()),
     ee_bind_deployment = (\<lambda>_ d. Inr d)\<rparr>"

definition demo_start_io :: start_io where
  "demo_start_io = \<lparr>si_capture_id = Inr (CaptureId 1), si_operation_id = Inr (OperationId 7),
     si_fuzz_target = None, si_spool_created = True, si_environment_io = op_io 1,
     si_clock_io = op_io 2, si_vars = [([65], [66, 67])], si_address = 0\<rparr>"

definition demo_started :: "managed_operation res \<times> bytes process_state" where
  "demo_started = start_operation op_env demo_engine_env demo_start_io (fst demo_opened) demo_begin
     (snd demo_opened)"

definition demo_adapter_calls :: "operation_call list" where
  "demo_adapter_calls =
     [OpenCall (op_io 3) 1 Database None, WriteCall (op_io 3) 1 RequestStream [1, 2],
      DispatchCall (op_io 3) 1, WriteCall (op_io 3) 1 ResponseStream [3],
      FinishCall (op_io 3) 1 OutcomeResponse 0]"

definition demo_closure_core :: closure_core where
  "demo_closure_core = \<lparr>world_id_of = (\<lambda>_. Inr (Digest 11)), validate_object = (\<lambda>_. Inr ())\<rparr>"

definition demo_ready :: "bytes operation_state" where
  "demo_ready = operation_run op_env demo_closure_core [InputCall demo_input]
     (projr (fst demo_started), snd demo_started)"

text \<open>The files of the World, read back without a change while they are copied.\<close>

definition demo_contents :: "spool_file \<Rightarrow> bytes" where
  "demo_contents f =
     (case f of
        RequestFile sid \<Rightarrow>
          if sid = 1 then [1, 2] else [1]
      | ResponseFile sid \<Rightarrow>
          if sid = 1 then [3] else if sid = U64_MAX then [1, 2]
          else [1]
      | _ \<Rightarrow> [1])"

definition demo_files :: "spool_file files" where
  "demo_files =
     \<lparr>fl_stat = (\<lambda>_ f. Some \<lparr>fs_is_file = True, fs_len = length (demo_contents f), fs_modified = Some 0\<rparr>),
      fl_pass = (\<lambda>_ f. Some [Some (demo_contents f)]), fl_read = (\<lambda>_ f. Some (demo_contents f))\<rparr>"

definition demo_freeze_io :: freeze_io where
  "demo_freeze_io = \<lparr>fi_validated = demo_files, fi_source = demo_files, fi_directory = True,
     fi_object_id = (\<lambda>_. Inr ()), fi_copied = (\<lambda>_. True), fi_placed = (\<lambda>_. True),
     fi_readable = (\<lambda>_ _. True), fi_modified = (\<lambda>_. Some 0)\<rparr>"

definition demo_closing :: "unit res \<times> bytes operation_state" where
  "demo_closing = operation_close_world op_env demo_closure_core (op_io 4) demo_freeze_io Return demo_ready"

lemma demo_starts: "is_ok (fst demo_started)"
  unfolding demo_started_def by code_simp

lemma demo_startedE:
  obtains mo ps where "start_operation op_env demo_engine_env demo_start_io (fst demo_opened) demo_begin
      (snd demo_opened) = (Inr mo, ps)" "demo_started = (Inr mo, ps)"
  using demo_starts by (cases demo_started; cases "fst demo_started") (auto simp: demo_started_def)

lemma opened_ledger: "ledger_ok (ps_resources (snd demo_opened))"
  by (simp add: demo_opened_def new_engine_def demo_process_def ps_resources_def on_controller_def
      ledger_ok_new)

theorem operation_leaves_no_trace_witness:
  "\<exists>mo ps. demo_started = (Inr mo, ps)
     \<and> ps_resources (end_operation Drops (operation_run op_env demo_closure_core demo_adapter_calls (mo, ps)))
       = new_resources"
proof -
  obtain mo ps where start: "start_operation op_env demo_engine_env demo_start_io (fst demo_opened)
      demo_begin (snd demo_opened) = (Inr mo, ps)" "demo_started = (Inr mo, ps)"
    by (rule demo_startedE)
  have "ps_resources (snd demo_opened) = new_resources"
    by (simp add: demo_opened_def new_engine_def demo_process_def ps_resources_def on_controller_def)
  with operation_leaves_no_trace [OF opened_ledger, where we = op_env and ee = demo_engine_env
      and si = demo_start_io and en = "fst demo_opened" and p = demo_begin and e = Drops
      and cl = demo_closure_core and calls = demo_adapter_calls]
  have "ps_resources (end_operation Drops
      (operation_run op_env demo_closure_core demo_adapter_calls (mo, ps))) = new_resources"
    unfolding start(1) by simp
  with start(2) show ?thesis by blast
qed

definition demo_failure_core :: failure_core where
  "demo_failure_core = \<lparr>validate_identity = (\<lambda>_. Inr ()),
     identity_operation = (\<lambda>_. (RequestResponse, ''orders'')),
     identity_grouping = (\<lambda>_. Inr \<lparr>fr_identity = Digest 4, fr_rest = []\<rparr>)\<rparr>"

text \<open>A delivery that gives the reservation of the closure back.\<close>

definition demo_finalize ::
  "candidate \<Rightarrow> operation_closure \<Rightarrow> unit \<Rightarrow> process_resources \<Rightarrow> capture_id res \<times> process_resources" where
  "demo_finalize cand oc token r = (Inr (cand_capture_id cand), frozen_drop (oc_closure oc) r)"


lemma demo_closes_world: "is_ok (fst demo_closing)"
  by code_simp

theorem world_needs_clean_evidence_witness:
  "is_ok (fst demo_closing)
   \<and> (\<exists>handle evidence. mo_sentinel_handle (fst demo_ready) = Some handle
       \<and> fst (operation_finished handle (snd (engine_call_scope (ps_thread (snd demo_ready))
           (ps_controller (snd demo_ready))))) = CleanKernelTrace evidence)"
proof -
  obtain mo ps where start: "start_operation op_env demo_engine_env demo_start_io (fst demo_opened)
      demo_begin (snd demo_opened) = (Inr mo, ps)" "demo_started = (Inr mo, ps)"
    by (rule demo_startedE)
  have engine: "built_engine op_env (fst demo_opened)"
    unfolding demo_opened_def by (rule built_engine.opened)
  have calls: "list_all adapter_call [InputCall demo_input]" by simp
  have ready: "demo_ready = operation_run op_env demo_closure_core [InputCall demo_input] (mo, ps)"
    by (simp add: demo_ready_def start(2))
  obtain st' where "operation_close_world op_env demo_closure_core (op_io 4) demo_freeze_io Return demo_ready
      = (Inr (), st')"
    using demo_closes_world by (cases demo_closing; cases "fst demo_closing") (auto simp: demo_closing_def)
  from world_needs_clean_evidence [OF engine start(1) calls ready this]
  have "\<exists>handle evidence. mo_sentinel_handle mo = Some handle
      \<and> fst (operation_finished handle (snd (engine_call_scope (ps_thread (snd demo_ready))
           (ps_controller (snd demo_ready))))) = CleanKernelTrace evidence" .
  moreover have "mo_sentinel_handle (fst demo_ready) = mo_sentinel_handle mo"
    using watches_run [OF calls start_watches [OF start(1)], of op_env demo_closure_core]
    by (simp add: ready watches_def)
  ultimately show ?thesis using demo_closes_world by simp
qed

definition demo_closure :: "spool_file capture_closure" where
  "demo_closure =
     \<lparr>cl_artifacts = [\<lparr>ca_media_type = ''a'', ca_object_id = 1, ca_path = ResponseFile 1,
        ca_role = WorldStateRole, ca_uri = ''u''\<rparr>],
      cl_completion = Return,
      cl_world = \<lparr>wp_created_at = [], wp_points = [\<lparr>rp_artifacts =
        [\<lparr>ar_digest = Digest 1, ar_media_type = ''a'', ar_size = 1, ar_uri = ''u''\<rparr>],
        rp_capabilities = [], rp_configuration_digest = Digest 8, rp_engine_identity = [],
        rp_engine_version = [], rp_generation = 1, rp_point = [], rp_provider_id = [],
        rp_published_at = [], rp_recoverable_until = [], rp_materialized_bytes = 1,
        rp_objects = 1, rp_pinned_bytes = 1, rp_temporary_bytes = 1\<rparr>]\<rparr>\<rparr>"

definition demo_capture :: "operation_closure res \<times> process_resources" where
  "demo_capture = capture_operation_closure op_env demo_closure_core demo_freeze_io (OperationId 7)
     (Inr demo_closure) new_resources"

theorem operation_closure_exact_witness:
  "case demo_capture of
     (Inl _, _) \<Rightarrow> False
   | (Inr oc, r') \<Rightarrow> oc_operation_id oc = OperationId 7 \<and> frozen_drop (oc_closure oc) r' = new_resources"
proof -
  have "is_ok (fst demo_capture)" by code_simp
  then show ?thesis
    using operation_closure_exact [where we = op_env and cl = demo_closure_core and fi = demo_freeze_io
        and op = "OperationId 7" and closure = demo_closure and r = new_resources]
    unfolding demo_capture_def by (auto split: sum.splits prod.splits)
qed

end
