(* ===== verification/Engine_Registry.thy ===== *)
theory Engine_Registry
  imports Automatic_Engine Semantic_Session Failure_Task
begin

text \<open>
  The registry of the shared engine (\<^verbatim>\<open>crates/reproit-sdk-engine/src/lib.rs\<close>, \<^verbatim>\<open>observation.rs\<close> and the
  registry's part of \<^verbatim>\<open>semantic_dependency.rs\<close>): the handles that the C interface gives out, the calls
  on them, and the boundary they come through.  A call runs under the lock of the registry; the
  process, the sentinel, the failure tasks and their worker are part of the state.
\<close>

section \<open>State\<close>

definition ABI_VERSION :: nat where "ABI_VERSION = 1"
definition CALL_FORMAT :: string where "CALL_FORMAT = ''reproit.sdk-engine-call.v1''"
definition RESPONSE_FORMAT :: string where "RESPONSE_FORMAT = ''reproit.sdk-engine-response.v1''"
definition MAX_CALL_BYTES :: nat where [limits]: "MAX_CALL_BYTES = 1048576"
definition MIN_RESPONSE_CAPACITY :: nat where [limits]: "MIN_RESPONSE_CAPACITY = 16384"
definition MAX_ERROR_RESPONSE_BYTES :: nat where [limits]: "MAX_ERROR_RESPONSE_BYTES = 256"
definition MAX_ENGINES :: nat where [limits]: "MAX_ENGINES = 64"
definition MAX_EVIDENCE_BYTES :: nat where [limits]: "MAX_EVIDENCE_BYTES = 785408"
definition MAX_OPERATIONS :: nat where [limits]: "MAX_OPERATIONS = 512"
definition MAX_SINKS :: nat where [limits]: "MAX_SINKS = MAX_FAILURE_TASKS"
definition MAX_SINK_WAIT_MS :: nat where [limits]: "MAX_SINK_WAIT_MS = CANDIDATE_DELIVERY_LIFETIME_MS"
definition RESULT_INVALID_CALL_BOUNDARY :: int where "RESULT_INVALID_CALL_BOUNDARY = -1"
definition RESULT_ENGINE_PANIC :: int where "RESULT_ENGINE_PANIC = -2"
definition RESULT_OUTPUT_CAPACITY_EXCEEDED :: int where "RESULT_OUTPUT_CAPACITY_EXCEEDED = -3"
definition RESULT_RESPONSE_LENGTH_OVERFLOW :: int where "RESULT_RESPONSE_LENGTH_OVERFLOW = -4"

text \<open>The limit of the registry on observations, and of a response read.\<close>

definition MAX_REGISTRY_OBSERVATIONS :: nat where [limits]: "MAX_REGISTRY_OBSERVATIONS = 1024"
definition MAX_OBSERVATION_RESPONSE_READ_BYTES :: nat where
  [limits]: "MAX_OBSERVATION_RESPONSE_READ_BYTES = MAX_RESPONSE_READ_BYTES"
definition ISIZE_MAX :: nat where [limits]: "ISIZE_MAX = 9223372036854775807"
definition MAX_PROJECT_TOKEN_BYTES :: nat where [limits]: "MAX_PROJECT_TOKEN_BYTES = 1024"

record operation_entry =
  oe_engine :: nat
  oe_operation :: managed_operation

record sink_entry =
  se_engine :: nat
  se_task :: nat

record observation_entry =
  be_operation :: nat
  be_session :: "dependency_session option"

record 'p registry =
  reg_engines :: "(nat, 'p automatic_engine) btree"
  reg_next_handle :: nat
  reg_observations :: "(nat, observation_entry) btree"
  reg_operations :: "(nat, operation_entry) btree"
  reg_sinks :: "(nat, sink_entry) btree"

definition new_registry :: "'p registry" where
  "new_registry = \<lparr>reg_engines = [], reg_next_handle = 1, reg_observations = [],
     reg_operations = [], reg_sinks = []\<rparr>"

record failure_job =
  fj_failure :: bytes
  fj_operation :: managed_operation
  fj_token :: string

text \<open>A task is shared with its worker: it has an address in a store that only grows.\<close>

record ('p, 'r, 's) engine_state =
  es_registry :: "'p registry"
  es_process :: "'r process_state"
  es_tasks :: "(failure_job, 's) task_state list"
  es_worker :: "failure_worker option"
  es_held :: "(nat \<times> failure_job) option"

definition on_registry ::
  "('p registry \<Rightarrow> 'p registry) \<Rightarrow> ('p, 'r, 's) engine_state \<Rightarrow> ('p, 'r, 's) engine_state" where
  "on_registry f st = st\<lparr>es_registry := f (es_registry st)\<rparr>"

definition on_process ::
  "('r process_state \<Rightarrow> 'r process_state) \<Rightarrow> ('p, 'r, 's) engine_state \<Rightarrow> ('p, 'r, 's) engine_state" where
  "on_process f st = st\<lparr>es_process := f (es_process st)\<rparr>"

text \<open>
  What the code relies on from elsewhere: the project of a build, the frozen subject package, the
  decoding of a key, the match of a fuzz identity, and the parsing and printing of JSON.
\<close>

record observation_adapter =
  oa_id :: string
  oa_version :: string
  oa_class :: observation_class
  oa_implementation :: digest

record engine_configuration =
  cf_build_repository_id :: string
  cf_adapters :: "observation_adapter list"
  cf_project_toml :: string
  cf_sdk :: nat
  cf_source_revision :: string
  cf_subject_manifest :: subject_manifest
  cf_subject_objects :: "(digest \<times> string \<times> nat) list"

record ('r, 'p) registry_env =
  re_world :: "'r world_env"
  re_dependency :: dependency_core
  re_fuzz :: fuzz_core
  re_engine :: "'p engine_env"
  re_closure :: closure_core
  re_project :: "string \<Rightarrow> string \<Rightarrow> string \<Rightarrow> nat \<Rightarrow> 'p res"
  re_freeze :: "subject_manifest \<Rightarrow> (digest \<times> string \<times> nat) list \<Rightarrow> subject_manifest res"
  re_decode_key :: "string \<Rightarrow> bytes res"
  re_matches :: "fuzz_context_identity \<Rightarrow> fuzz_context \<Rightarrow> unit res"
  re_contract_parses :: bool

text \<open>The answers of the system during one call.\<close>

record engine_io =
  ei_world :: world_io
  ei_freeze :: freeze_io
  ei_start :: start_io
  ei_installed :: "trace_runtime option"
  ei_spawned :: bool

section \<open>Results\<close>

datatype engine_result =
    EmptyResult
  | ContractResult
  | EngineResult nat
  | OperationResult nat operation_id
  | ObservationResult nat nat
  | ActionResult string
  | DependencyResult string nat
  | OutcomeResult dependency_outcome
  | ReadResult string bool
  | SinkResult nat
  | IdleResult bool

text \<open>\<open>result.get(...).and_then(Value::as_u64)\<close> and the like.\<close>

fun result_observation_handle :: "engine_result \<Rightarrow> nat option" where
  "result_observation_handle (ObservationResult h pos) = Some h"
| "result_observation_handle _ = None"

fun result_session_position :: "engine_result \<Rightarrow> nat option" where
  "result_session_position (ObservationResult h pos) = Some pos"
| "result_session_position _ = None"

fun result_action :: "engine_result \<Rightarrow> string option" where
  "result_action (ActionResult action) = Some action"
| "result_action (DependencyResult action h) = Some action"
| "result_action _ = None"

section \<open>Handles and entries\<close>

definition allocate_handle :: "(('p, 'r, 's) engine_state, nat) act" where
  "allocate_handle st =
     (let handle = reg_next_handle (es_registry st)
      in case checked_add handle 1 of
           None \<Rightarrow> (Inl RuntimeQuota, st)
         | Some next \<Rightarrow> (Inr handle, on_registry (\<lambda>rg. rg\<lparr>reg_next_handle := next\<rparr>) st))"

text \<open>\<open>get_mut(...).ok_or_else(not_found)?\<close>, and a call on the operation of a handle.\<close>

definition require_operation :: "nat \<Rightarrow> (('p, 'r, 's) engine_state, unit) act" where
  "require_operation h st =
     (if bt_contains (reg_operations (es_registry st)) h then Inr () else Inl NotFound, st)"

definition with_operation ::
  "nat \<Rightarrow> ('r operation_state \<Rightarrow> 'a res \<times> 'r operation_state) \<Rightarrow> (('p, 'r, 's) engine_state, 'a) act" where
  "with_operation h m st =
     (case bt_get (reg_operations (es_registry st)) h of
        None \<Rightarrow> (Inl NotFound, st)
      | Some entry \<Rightarrow>
          let (result, op, ps) = m (oe_operation entry, es_process st)
          in (result, on_registry (\<lambda>rg. rg\<lparr>reg_operations :=
                bt_insert h (entry\<lparr>oe_operation := op\<rparr>) (reg_operations rg)\<rparr>) (st\<lparr>es_process := ps\<rparr>)))"

definition sentinel_call ::
  "(controller \<Rightarrow> controller) \<Rightarrow> ('p, 'r, 's) engine_state \<Rightarrow> ('p, 'r, 's) engine_state" where
  "sentinel_call f = on_process (on_controller f)"

definition remove_operation_observations ::
  "nat \<Rightarrow> ('p, 'r, 's) engine_state \<Rightarrow> ('p, 'r, 's) engine_state" where
  "remove_operation_observations h =
     on_registry (\<lambda>rg. rg\<lparr>reg_observations :=
       bt_retain (\<lambda>_ entry. be_operation entry \<noteq> h) (reg_observations rg)\<rparr>)"

text \<open>Taking an entry out of a table, and dropping the operation in it.\<close>

definition take_operation :: "nat \<Rightarrow> (('p, 'r, 's) engine_state, operation_entry) act" where
  "take_operation h st =
     (ok_or NotFound (bt_get (reg_operations (es_registry st)) h),
      on_registry (\<lambda>rg. rg\<lparr>reg_operations := bt_remove h (reg_operations rg)\<rparr>) st)"

definition end_entry ::
  "('r operation_state \<Rightarrow> 'r process_state) \<Rightarrow> operation_entry \<Rightarrow> ('p, 'r, 's) engine_state
     \<Rightarrow> ('p, 'r, 's) engine_state" where
  "end_entry finish entry st = on_process (\<lambda>ps. finish (oe_operation entry, ps)) st"

section \<open>Engines\<close>

definition validate_adapter_implementations ::
  "observation_adapter list \<Rightarrow> subject_manifest \<Rightarrow> unit res" where
  "validate_adapter_implementations adapters subject =
     (if length adapters \<noteq> length ALL_CLASSES
         \<or> set (map oa_class adapters) \<noteq> set ALL_CLASSES
      then Inl SchemaInvalid
      else if \<exists>a \<in> set adapters. oa_implementation a \<notin> set (map sm_module_digest (sj_modules subject))
      then Inl SchemaInvalid
      else Inr ())"

fun register_adapters ::
  "'r world_env \<Rightarrow> observation_adapter list \<Rightarrow> ('p automatic_engine, unit) act" where
  "register_adapters we [] en = (Inr (), en)"
| "register_adapters we (a # rest) en =
     act_bind (register_observation_adapter we (oa_class a) (oa_id a) (oa_version a)
         (oa_implementation a)) (\<lambda>_. register_adapters we rest) en"

text \<open>The configured engine: nothing of the registry is read or changed.\<close>

definition build_engine ::
  "('r, 'p) registry_env \<Rightarrow> engine_configuration \<Rightarrow> 'p automatic_engine res" where
  "build_engine re cf =
     bind_res (re_project re (cf_project_toml cf) (cf_build_repository_id cf) (cf_source_revision cf)
         (cf_sdk cf)) (\<lambda>project.
     bind_res (re_freeze re (cf_subject_manifest cf) (cf_subject_objects cf)) (\<lambda>subject.
     bind_res (validate_adapter_implementations (cf_adapters cf) subject) (\<lambda>_.
       case register_adapters (re_world re) (cf_adapters cf) (new_unregistered project subject) of
         (Inl e, _) \<Rightarrow> Inl e
       | (Inr _, en) \<Rightarrow> Inr en)))"

definition open_engine ::
  "('r, 'p) registry_env \<Rightarrow> engine_io \<Rightarrow> engine_configuration
     \<Rightarrow> (('p, 'r, 's) engine_state, engine_result) act" where
  "open_engine re io cf st =
     (if length (reg_engines (es_registry st)) \<ge> MAX_ENGINES then (Inl RuntimeQuota, st)
      else act_bind (act_res (build_engine re cf)) (\<lambda>en.
           act_bind allocate_handle (\<lambda>handle.
           act_bind (act_do (on_registry (\<lambda>rg. rg\<lparr>reg_engines := bt_insert handle en (reg_engines rg)\<rparr>)))
             (\<lambda>_. act_bind (act_do (sentinel_call (engine_opened (ei_installed io)))) (\<lambda>_.
               act_res (Inr (EngineResult handle)))))) st)"

text \<open>Cancelling a task drops a job that is pending, and the operation in it.\<close>

definition cancel_task :: "nat \<Rightarrow> ('p, 'r, 's) engine_state \<Rightarrow> ('p, 'r, 's) engine_state" where
  "cancel_task t st =
     (let st1 = st\<lparr>es_tasks := (es_tasks st)[t := task_cancel (es_tasks st ! t)]\<rparr>
      in case es_tasks st ! t of
           Pending (Some job) \<Rightarrow> on_process (\<lambda>ps. operation_drop (fj_operation job, ps)) st1
         | _ \<Rightarrow> st1)"

text \<open>What \<open>close_engine\<close> does to each operation, and to each sink, of the engine.\<close>

definition forget_operation :: "nat \<Rightarrow> ('p, 'r, 's) engine_state \<Rightarrow> ('p, 'r, 's) engine_state" where
  "forget_operation h st = sentinel_call (remove_operation h) (remove_operation_observations h st)"

definition remove_engine_operations :: "nat \<Rightarrow> ('p, 'r, 's) engine_state \<Rightarrow> ('p, 'r, 's) engine_state" where
  "remove_engine_operations e st =
     fold (end_entry operation_drop)
       (map snd (filter (\<lambda>(_, entry). oe_engine entry = e) (reg_operations (es_registry st))))
       (on_registry (\<lambda>rg. rg\<lparr>reg_operations :=
          bt_retain (\<lambda>_ entry. oe_engine entry \<noteq> e) (reg_operations rg)\<rparr>) st)"

definition remove_engine_sinks :: "nat \<Rightarrow> ('p, 'r, 's) engine_state \<Rightarrow> ('p, 'r, 's) engine_state" where
  "remove_engine_sinks e st =
     fold (\<lambda>entry. cancel_task (se_task entry))
       (map snd (filter (\<lambda>(_, entry). se_engine entry = e) (reg_sinks (es_registry st))))
       (on_registry (\<lambda>rg. rg\<lparr>reg_sinks :=
          bt_retain (\<lambda>_ entry. se_engine entry \<noteq> e) (reg_sinks rg)\<rparr>) st)"

definition close_engine :: "nat \<Rightarrow> (('p, 'r, 's) engine_state, engine_result) act" where
  "close_engine e st =
     (case bt_get (reg_engines (es_registry st)) e of
        None \<Rightarrow> (Inl NotFound, st)
      | Some en \<Rightarrow>
          let st1 = on_process (engine_drop en)
                (on_registry (\<lambda>rg. rg\<lparr>reg_engines := bt_remove e (reg_engines rg)\<rparr>) st);
              handles = map fst (filter (\<lambda>(_, entry). oe_engine entry = e)
                (reg_operations (es_registry st1)));
              st2 = fold forget_operation handles st1
          in (Inr EmptyResult, sentinel_call engine_closed
                (remove_engine_sinks e (remove_engine_operations e st2))))"

section \<open>Operations\<close>

record fuzz_context_input =
  fi_encoded :: string
  fi_now :: nat
  fi_project_id :: nat
  fi_service_id :: nat
  fi_verification_key :: string

definition validate_fuzz_context_input ::
  "('r, 'p) registry_env \<Rightarrow> begin_payload \<Rightarrow> fuzz_context_input option \<Rightarrow> campaign_context option res" where
  "validate_fuzz_context_input re p input =
     (case (begin_campaign_context p, input) of
        (None, None) \<Rightarrow> Inr None
      | (Some identity, Some i) \<Rightarrow>
          bind_res (decode_base64url_bytes (re_fuzz re) (fi_encoded i)) (\<lambda>data.
          if length data > MAX_CONTEXT_BYTES then Inl SchemaInvalid
          else bind_res (parse_fuzz_context (re_fuzz re) data) (\<lambda>context.
          bind_res (canonical_fuzz_context (re_fuzz re) context) (\<lambda>canonical.
          if canonical \<noteq> data then Inl SchemaInvalid
          else bind_res (re_decode_key re (fi_verification_key i)) (\<lambda>key.
          bind_res (verify_fuzz_context (re_fuzz re) context key (fi_project_id i) (fi_service_id i)
              (fi_now i)) (\<lambda>_.
          bind_res (re_matches re identity context) (\<lambda>_.
          bind_res (from_verified (re_fuzz re) (fi_encoded i) context None) (\<lambda>ctx.
            Inr (Some ctx))))))))
      | _ \<Rightarrow> Inl SchemaInvalid)"

text \<open>\<open>engine.start\<close>, under the scope of the fuzz context when there is one.\<close>

definition start_scoped ::
  "campaign_context option \<Rightarrow> ('r process_state, 'a) act \<Rightarrow> ('r process_state, 'a) act" where
  "start_scoped context start ps =
     (case context of
        None \<Rightarrow> start ps
      | Some ctx \<Rightarrow>
          let ((result, ps1), stack) =
                scope_sync ctx (\<lambda>stack. let (result, ps1) = start (ps\<lparr>ps_fuzz := stack\<rparr>)
                                        in ((result, ps1), ps_fuzz ps1)) (ps_fuzz ps)
          in (result, ps1\<lparr>ps_fuzz := stack\<rparr>))"

definition process_call :: "('r process_state, 'a) act \<Rightarrow> (('p, 'r, 's) engine_state, 'a) act" where
  "process_call m st =
     (let (result, ps) = m (es_process st) in (result, st\<lparr>es_process := ps\<rparr>))"

text \<open>A handle for a started operation: without one the operation is dropped.\<close>

definition insert_operation :: "nat \<Rightarrow> managed_operation \<Rightarrow> (('p, 'r, 's) engine_state, engine_result) act" where
  "insert_operation e op st =
     (case allocate_handle st of
        (Inl err, st1) \<Rightarrow> (Inl err, on_process (\<lambda>ps. operation_drop (op, ps)) st1)
      | (Inr handle, st1) \<Rightarrow>
          (Inr (OperationResult handle (mo_operation_id op)),
           sentinel_call (operation_started handle) (on_registry (\<lambda>rg. rg\<lparr>reg_operations :=
             bt_insert handle \<lparr>oe_engine = e, oe_operation = op\<rparr> (reg_operations rg)\<rparr>) st1)))"

definition begin_operation ::
  "('r, 'p) registry_env \<Rightarrow> engine_io \<Rightarrow> nat \<Rightarrow> begin_payload \<Rightarrow> fuzz_context_input option
     \<Rightarrow> (('p, 'r, 's) engine_state, engine_result) act" where
  "begin_operation re io e p input st =
     (if length (reg_operations (es_registry st)) \<ge> MAX_OPERATIONS then (Inl RuntimeQuota, st)
      else act_bind (act_res (ok_or NotFound (bt_get (reg_engines (es_registry st)) e))) (\<lambda>en.
           act_bind (act_res (validate_fuzz_context_input re p input)) (\<lambda>context.
           act_bind (process_call (start_scoped context
               (start_operation (re_world re) (re_engine re) (ei_start io) en p))) (\<lambda>op.
             insert_operation e op))) st)"

definition operation_input ::
  "('r, 'p) registry_env \<Rightarrow> nat \<Rightarrow> input_payload \<Rightarrow> (('p, 'r, 's) engine_state, engine_result) act" where
  "operation_input re h p =
     act_bind (with_operation h (operation_record_input (we_core (re_world re)) p))
       (\<lambda>_. act_res (Inr EmptyResult))"

definition record_unowned ::
  "('r, 'p) registry_env \<Rightarrow> engine_io \<Rightarrow> nat \<Rightarrow> observation_class \<Rightarrow> operation_id option \<Rightarrow> string
     \<Rightarrow> (('p, 'r, 's) engine_state, engine_result) act" where
  "record_unowned re io h cls parent evidence st =
     (if length evidence > MAX_EVIDENCE_BYTES then (Inl RuntimeQuota, st)
      else act_bind (act_res (decode_base64url_bytes (re_fuzz re) evidence)) (\<lambda>data.
           act_bind (with_operation h (operation_mark_unowned (re_world re) (ei_world io) cls parent data))
             (\<lambda>_. act_res (Inr EmptyResult))) st)"

definition close_world_call ::
  "('r, 'p) registry_env \<Rightarrow> engine_io \<Rightarrow> nat \<Rightarrow> trigger_completion
     \<Rightarrow> (('p, 'r, 's) engine_state, engine_result) act" where
  "close_world_call re io h completion st =
     (let (coverage, ct) = operation_finished h (ps_controller (es_process st));
          st1 = on_process (\<lambda>ps. ps\<lparr>ps_controller := ct\<rparr>) st
      in act_bind (with_operation h (act_bind
           (case coverage of
              CoverageIncomplete \<Rightarrow> act_res (Inr ())
            | CleanKernelTrace evidence \<Rightarrow>
                operation_bind_coverage (re_world re) (evidence_encode evidence))
           (\<lambda>_. operation_close_world (re_world re) (re_closure re) (ei_world io) (ei_freeze io) completion)))
         (\<lambda>_. act_res (Inr EmptyResult)) st1)"

text \<open>\<open>succeed_operation\<close> and \<open>abandon_operation\<close>: the handle and its observations go in any case.\<close>

definition finish_operation ::
  "('r operation_state \<Rightarrow> 'r process_state) \<Rightarrow> nat \<Rightarrow> (('p, 'r, 's) engine_state, engine_result) act" where
  "finish_operation finish h st =
     act_bind (take_operation h) (\<lambda>entry.
       act_bind (act_do (end_entry finish entry)) (\<lambda>_. act_res (Inr EmptyResult)))
       (sentinel_call (remove_operation h) (remove_operation_observations h st))"

definition succeed_operation :: "nat \<Rightarrow> (('p, 'r, 's) engine_state, engine_result) act" where
  "succeed_operation = finish_operation operation_succeed"

definition abandon_operation :: "nat \<Rightarrow> (('p, 'r, 's) engine_state, engine_result) act" where
  "abandon_operation = finish_operation operation_abandon"

section \<open>Observations\<close>

definition decode_chunk ::
  "('r, 'p) registry_env \<Rightarrow> nat \<Rightarrow> string \<Rightarrow> bytes res" where
  "decode_chunk re maximum value =
     bind_res (ok_or RuntimeQuota (Option.bind (checked_add maximum 2) (\<lambda>n. checked_mul (n div 3) 4)))
       (\<lambda>encoded.
         if value = [] \<or> length value > encoded then Inl RuntimeQuota
         else bind_res (decode_base64url_bytes (re_fuzz re) value) (\<lambda>data.
           if data = [] \<or> length data > maximum then Inl RuntimeQuota else Inr data))"

definition open_registry_observation ::
  "engine_io \<Rightarrow> nat \<Rightarrow> observation_class \<Rightarrow> operation_id option
     \<Rightarrow> (('p, 'r, 's) engine_state, engine_result) act" where
  "open_registry_observation io h cls parent st =
     (if length (reg_observations (es_registry st)) \<ge> MAX_REGISTRY_OBSERVATIONS
      then (Inl RuntimeQuota, st)
      else act_bind allocate_handle (\<lambda>ob.
           act_bind (with_operation h (operation_open_observation (ei_world io) ob cls parent)) (\<lambda>pos.
           act_bind (act_do (on_registry (\<lambda>rg. rg\<lparr>reg_observations :=
               bt_insert ob \<lparr>be_operation = h, be_session = for_class cls\<rparr> (reg_observations rg)\<rparr>)))
             (\<lambda>_. act_res (Inr (ObservationResult ob pos))))) st)"

definition operation_for_observation :: "nat \<Rightarrow> (('p, 'r, 's) engine_state, nat) act" where
  "operation_for_observation ob st =
     (map_sum id be_operation (ok_or NotFound (bt_get (reg_observations (es_registry st)) ob)), st)"

definition remove_observation :: "nat \<Rightarrow> ('p, 'r, 's) engine_state \<Rightarrow> ('p, 'r, 's) engine_state" where
  "remove_observation ob =
     on_registry (\<lambda>rg. rg\<lparr>reg_observations := bt_remove ob (reg_observations rg)\<rparr>)"

definition invalidate_semantic_observation ::
  "nat \<Rightarrow> ('p, 'r, 's) engine_state \<Rightarrow> ('p, 'r, 's) engine_state" where
  "invalidate_semantic_observation ob st =
     (case bt_get (reg_observations (es_registry st)) ob of
        None \<Rightarrow> st
      | Some entry \<Rightarrow>
          snd (with_operation (be_operation entry) (operation_abandon_observation ob)
            (remove_observation ob st)))"

text \<open>An error of \<open>m\<close> is returned after \<open>cleanup\<close>.\<close>

definition or_else :: "('s \<Rightarrow> 's) \<Rightarrow> ('s, 'a) act \<Rightarrow> ('s, 'a) act" where
  "or_else cleanup m st =
     (case m st of
        (Inl e, st1) \<Rightarrow> (Inl e, cleanup st1)
      | (Inr x, st1) \<Rightarrow> (Inr x, st1))"

text \<open>
  A call on the semantic session of an observation.  \<open>absent\<close> is the answer for an observation
  without a session; an error of the session itself is returned after \<open>cleanup\<close>.
\<close>

definition session_call ::
  "'a res \<Rightarrow> (('p, 'r, 's) engine_state \<Rightarrow> ('p, 'r, 's) engine_state) \<Rightarrow> nat
     \<Rightarrow> (dependency_session, 'a) act \<Rightarrow> (('p, 'r, 's) engine_state, 'a) act" where
  "session_call absent cleanup ob m st =
     (case bt_get (reg_observations (es_registry st)) ob of
        None \<Rightarrow> (Inl NotFound, st)
      | Some entry \<Rightarrow>
          case be_session entry of
            None \<Rightarrow> (absent, st)
          | Some se \<Rightarrow>
              or_else cleanup (\<lambda>st1.
                let (result, se1) = m se
                in (result, on_registry (\<lambda>rg. rg\<lparr>reg_observations :=
                      bt_insert ob (entry\<lparr>be_session := Some se1\<rparr>) (reg_observations rg)\<rparr>) st1)) st)"

definition write_observation_bytes ::
  "('r, 'p) registry_env \<Rightarrow> engine_io \<Rightarrow> nat \<Rightarrow> observation_stream \<Rightarrow> bytes
     \<Rightarrow> (('p, 'r, 's) engine_state, engine_result) act" where
  "write_observation_bytes re io ob stream chunk st =
     (if chunk = [] \<or> length chunk > MAX_OBSERVATION_CHUNK_BYTES then (Inl RuntimeQuota, st)
      else act_bind (operation_for_observation ob) (\<lambda>h.
           act_bind (session_call (Inr ()) (invalidate_semantic_observation ob) ob
             (session_write (re_dependency re) stream chunk)) (\<lambda>_.
           act_bind (require_operation h) (\<lambda>_.
           act_bind (or_else (invalidate_semantic_observation ob)
             (with_operation h (operation_write (ei_world io) ob stream chunk))) (\<lambda>_.
             act_res (Inr EmptyResult))))) st)"

definition write_registry_observation ::
  "('r, 'p) registry_env \<Rightarrow> engine_io \<Rightarrow> nat \<Rightarrow> observation_stream \<Rightarrow> string
     \<Rightarrow> (('p, 'r, 's) engine_state, engine_result) act" where
  "write_registry_observation re io ob stream chunk =
     act_bind (act_res (decode_chunk re MAX_OBSERVATION_CHUNK_BYTES chunk))
       (write_observation_bytes re io ob stream)"

definition dispatch_registry_observation ::
  "('r, 'p) registry_env \<Rightarrow> engine_io \<Rightarrow> nat \<Rightarrow> (('p, 'r, 's) engine_state, engine_result) act" where
  "dispatch_registry_observation re io ob =
     act_bind (operation_for_observation ob) (\<lambda>h.
     act_bind (session_call (Inr ()) (invalidate_semantic_observation ob) ob
       (dependency_dispatch (re_world re) (re_dependency re))) (\<lambda>_.
     act_bind (require_operation h) (\<lambda>_.
     act_bind (or_else (invalidate_semantic_observation ob)
       (with_operation h (operation_dispatch (re_world re) (ei_world io) ob))) (\<lambda>action.
       act_res (Inr (ActionResult action))))))"

definition encode_observation_read_result ::
  "('r, 'p) registry_env \<Rightarrow> bytes \<Rightarrow> bool \<Rightarrow> engine_result res" where
  "encode_observation_read_result re chunk eof =
     (if length chunk > MAX_OBSERVATION_RESPONSE_READ_BYTES then Inl RuntimeQuota
      else Inr (ReadResult (encode_base64url (we_core (re_world re)) chunk) eof))"

definition read_registry_observation ::
  "('r, 'p) registry_env \<Rightarrow> engine_io \<Rightarrow> nat \<Rightarrow> (('p, 'r, 's) engine_state, engine_result) act" where
  "read_registry_observation re io ob =
     act_bind (operation_for_observation ob) (\<lambda>h.
     act_bind (with_operation h (operation_read (ei_world io) ob)) (\<lambda>(chunk, eof).
     act_bind (session_call (Inr ()) (invalidate_semantic_observation ob) ob
       (session_write (re_dependency re) ResponseStream chunk)) (\<lambda>_.
       act_res (encode_observation_read_result re chunk eof))))"

text \<open>\<open>finish_observation_inner\<close>: the response of the session, when there is one.\<close>

definition finish_observation_inner ::
  "('r, 'p) registry_env \<Rightarrow> engine_io \<Rightarrow> nat \<Rightarrow> dependency_outcome \<Rightarrow> nat
     \<Rightarrow> (('p, 'r, 's) engine_state, dependency_response option) act" where
  "finish_observation_inner re io ob outcome pos =
     act_bind (operation_for_observation ob) (\<lambda>h.
     act_bind (session_call (Inr None) (invalidate_semantic_observation ob) ob
       (act_bind (dependency_finish (re_world re) (re_dependency re) outcome)
          (\<lambda>response. act_res (Inr (Some response))))) (\<lambda>response.
     act_bind (require_operation h) (\<lambda>_.
     act_bind (or_else (invalidate_semantic_observation ob)
       (with_operation h (operation_finish (re_world re) (ei_world io) ob outcome pos))) (\<lambda>_.
     act_bind (operation_for_observation ob) (\<lambda>_.
     act_bind (act_do (remove_observation ob)) (\<lambda>_.
       act_res (Inr response)))))))"

definition finish_registry_observation ::
  "('r, 'p) registry_env \<Rightarrow> engine_io \<Rightarrow> nat \<Rightarrow> dependency_outcome \<Rightarrow> nat
     \<Rightarrow> (('p, 'r, 's) engine_state, engine_result) act" where
  "finish_registry_observation re io ob outcome pos =
     act_bind (finish_observation_inner re io ob outcome pos) (\<lambda>_. act_res (Inr EmptyResult))"

definition abandon_registry_observation :: "nat \<Rightarrow> (('p, 'r, 's) engine_state, engine_result) act" where
  "abandon_registry_observation ob =
     act_bind (operation_for_observation ob) (\<lambda>h.
     act_bind (with_operation h (operation_abandon_observation ob)) (\<lambda>_.
     act_bind (operation_for_observation ob) (\<lambda>_.
     act_bind (act_do (remove_observation ob)) (\<lambda>_.
       act_res (Inr EmptyResult)))))"

section \<open>Semantic dependency calls\<close>

definition cleanup_dependency :: "nat \<Rightarrow> ('p, 'r, 's) engine_state \<Rightarrow> ('p, 'r, 's) engine_state" where
  "cleanup_dependency ob st =
     invalidate_semantic_observation ob (sentinel_call (observation_finished ob) st)"

fun write_records ::
  "('r, 'p) registry_env \<Rightarrow> engine_io \<Rightarrow> nat \<Rightarrow> observation_stream \<Rightarrow> bytes list
     \<Rightarrow> (('p, 'r, 's) engine_state, unit) act" where
  "write_records re io ob stream [] = act_res (Inr ())"
| "write_records re io ob stream (chunk # rest) =
     act_bind (write_observation_bytes re io ob stream chunk)
       (\<lambda>_. write_records re io ob stream rest)"

definition write_dependency_record ::
  "('r, 'p) registry_env \<Rightarrow> engine_io \<Rightarrow> nat \<Rightarrow> observation_stream \<Rightarrow> bytes
     \<Rightarrow> (('p, 'r, 's) engine_state, unit) act" where
  "write_dependency_record re io ob stream record_bytes =
     write_records re io ob stream (slice_chunks MAX_OBSERVATION_CHUNK_BYTES record_bytes)"

definition sentinel_dispatched :: "nat \<Rightarrow> ('p, 'r, 's) engine_state \<Rightarrow> ('p, 'r, 's) engine_state" where
  "sentinel_dispatched ob st =
     sentinel_call (observation_dispatched ob (ps_thread (es_process st))) st"

text \<open>The part of \<open>open_dependency\<close> after the observation was opened.\<close>

definition prepare_dependency ::
  "('r, 'p) registry_env \<Rightarrow> engine_io \<Rightarrow> nat \<Rightarrow> nat \<Rightarrow> bytes
     \<Rightarrow> (('p, 'r, 's) engine_state, engine_result) act" where
  "prepare_dependency re io ob pos request_bytes =
     act_bind (session_call (Inl IncompleteCandidate) (cleanup_dependency ob) ob
       (bind_session_position pos)) (\<lambda>_.
     act_bind (or_else (cleanup_dependency ob)
       (write_dependency_record re io ob RequestStream request_bytes)) (\<lambda>_.
     act_bind (or_else (cleanup_dependency ob) (dispatch_registry_observation re io ob)) (\<lambda>dispatched.
     act_bind (act_do (sentinel_dispatched ob)) (\<lambda>_.
     act_bind (or_else (cleanup_dependency ob)
       (act_res (ok_or SchemaInvalid (result_action dispatched)))) (\<lambda>action.
     act_bind (session_call (Inl IncompleteCandidate) (cleanup_dependency ob) ob
       (bind_action action)) (\<lambda>_.
       act_res (Inr (DependencyResult action ob))))))))"

definition open_dependency ::
  "('r, 'p) registry_env \<Rightarrow> engine_io \<Rightarrow> nat \<Rightarrow> operation_id option \<Rightarrow> dependency_request_input
     \<Rightarrow> (('p, 'r, 's) engine_state, engine_result) act" where
  "open_dependency re io h parent request =
     act_bind (act_res (canonical_request (re_world re) request)) (\<lambda>request_bytes.
     act_bind (open_registry_observation io h (qi_class request) parent) (\<lambda>opened.
     act_bind (act_res (ok_or SchemaInvalid (result_observation_handle opened))) (\<lambda>ob.
     act_bind (act_res (ok_or SchemaInvalid (result_session_position opened))) (\<lambda>pos.
     act_bind (act_do (sentinel_call (observation_opened ob h (qi_class request)))) (\<lambda>_.
       prepare_dependency re io ob pos request_bytes)))))"

text \<open>The response the caller gave to \<open>finish_dependency\<close>, written and kept.\<close>

definition supply_response ::
  "('r, 'p) registry_env \<Rightarrow> engine_io \<Rightarrow> nat \<Rightarrow> dependency_response_input
     \<Rightarrow> (('p, 'r, 's) engine_state, unit) act" where
  "supply_response re io ob input =
     act_bind (session_call (Inl IncompleteCandidate) (cleanup_dependency ob) ob
       (\<lambda>se. (canonical_response (re_world re) (re_dependency re) input se, se)))
       (\<lambda>(response_bytes, response).
     act_bind (or_else (cleanup_dependency ob)
       (write_dependency_record re io ob ResponseStream response_bytes)) (\<lambda>_.
       session_call (Inl IncompleteCandidate) (cleanup_dependency ob) ob
         (cache_validated_response response)))"

definition finish_dependency ::
  "('r, 'p) registry_env \<Rightarrow> engine_io \<Rightarrow> nat \<Rightarrow> dependency_response_input option
     \<Rightarrow> (('p, 'r, 's) engine_state, engine_result) act" where
  "finish_dependency re io ob response st =
     (case bt_get (reg_observations (es_registry st)) ob of
        None \<Rightarrow> (Inl NotFound, st)
      | Some entry \<Rightarrow>
          act_bind (or_else (cleanup_dependency ob)
            (act_res (bind_res (ok_or IncompleteCandidate (be_session entry)) session_position))) (\<lambda>pos.
          act_bind (session_call (Inl IncompleteCandidate) (cleanup_dependency ob) ob
            (\<lambda>se. (validate_finish_input (response \<noteq> None) se, se))) (\<lambda>_.
          act_bind (case response of
              None \<Rightarrow> act_res (Inr ())
            | Some input \<Rightarrow> supply_response re io ob input) (\<lambda>_.
          act_bind (session_call (Inl IncompleteCandidate) (cleanup_dependency ob) ob
            (validated_response (re_world re) (re_dependency re))) (\<lambda>validated.
          act_bind (or_else (cleanup_dependency ob)
            (finish_observation_inner re io ob (dp_outcome validated) pos)) (\<lambda>finished.
          act_bind (or_else (cleanup_dependency ob)
            (act_res (ok_or IncompleteCandidate finished))) (\<lambda>_.
          act_bind (act_do (sentinel_call (observation_finished ob))) (\<lambda>_.
            act_res (Inr (OutcomeResult (dp_outcome validated)))))))))) st)"

section \<open>Failing an operation\<close>

definition project_token_new :: "string \<Rightarrow> string res" where
  "project_token_new value =
     (if value = [] \<or> length value > MAX_PROJECT_TOKEN_BYTES
         \<or> \<not> list_all (\<lambda>c. 33 \<le> (of_char c :: nat) \<and> (of_char c :: nat) \<le> 126) value
      then Inl SchemaInvalid else Inr value)"

definition take_failure_operation ::
  "nat \<Rightarrow> bool \<Rightarrow> (('p, 'r, 's) engine_state, operation_entry) act" where
  "take_failure_operation h at_capacity =
     act_bind (take_operation h) (\<lambda>entry.
       if at_capacity
       then act_bind (act_do (end_entry operation_abandon entry)) (\<lambda>_. act_res (Inl RuntimeQuota))
       else act_res (Inr entry))"

definition validate_failure_token ::
  "operation_entry \<Rightarrow> string \<Rightarrow> (('p, 'r, 's) engine_state, operation_entry \<times> string) act" where
  "validate_failure_token entry token =
     or_else (end_entry operation_abandon entry)
       (act_bind (act_res (project_token_new token)) (\<lambda>t. act_res (Inr (entry, t))))"

definition prepare_failure ::
  "operation_entry \<Rightarrow> bytes \<Rightarrow> string \<Rightarrow> (('p, 'r, 's) engine_state, nat \<times> nat) act" where
  "prepare_failure entry failure token st =
     act_bind (or_else (end_entry operation_abandon entry) allocate_handle) (\<lambda>handle st1.
       let task = length (es_tasks st1);
           job = \<lparr>fj_failure = failure, fj_operation = oe_operation entry, fj_token = token\<rparr>
       in (Inr (handle, task),
           on_registry (\<lambda>rg. rg\<lparr>reg_sinks :=
             bt_insert handle \<lparr>se_engine = oe_engine entry, se_task = task\<rparr> (reg_sinks rg)\<rparr>)
             (st1\<lparr>es_tasks := es_tasks st1 @ [task_pending job]\<rparr>))) st"

text \<open>\<open>enqueue_failure\<close> under the lock of the registry: the operation goes in any case.\<close>

definition take_failed ::
  "nat \<Rightarrow> bytes \<Rightarrow> string \<Rightarrow> (('p, 'r, 's) engine_state, nat \<times> nat) act" where
  "take_failed h failure token st =
     (let at_capacity = length (reg_sinks (es_registry st)) \<ge> MAX_SINKS;
          (entry, st1) = take_failure_operation h at_capacity st;
          st2 = sentinel_call (remove_operation h) (remove_operation_observations h st1)
      in act_bind (act_res entry) (\<lambda>entry.
         act_bind (validate_failure_token entry token) (\<lambda>(entry, token).
           prepare_failure entry failure token)) st2)"

definition remove_sink_if_same :: "nat \<Rightarrow> nat \<Rightarrow> ('p, 'r, 's) engine_state \<Rightarrow> ('p, 'r, 's) engine_state" where
  "remove_sink_if_same sink task st =
     (case bt_get (reg_sinks (es_registry st)) sink of
        None \<Rightarrow> st
      | Some entry \<Rightarrow>
          if se_task entry = task
          then on_registry (\<lambda>rg. rg\<lparr>reg_sinks := bt_remove sink (reg_sinks rg)\<rparr>) st
          else st)"

definition reject_failure_enqueue ::
  "nat \<Rightarrow> nat \<Rightarrow> ('p, 'r, 's) engine_state \<Rightarrow> ('p, 'r, 's) engine_state" where
  "reject_failure_enqueue sink task st = remove_sink_if_same sink task (cancel_task task st)"

text \<open>\<open>FAILURE_WORKER\<close> is started by the first call.\<close>

definition get_worker :: "bool \<Rightarrow> ('p, 'r, 's) engine_state \<Rightarrow> ('p, 'r, 's) engine_state" where
  "get_worker spawned st =
     (case es_worker st of
        None \<Rightarrow> st\<lparr>es_worker := Some (worker_start spawned)\<rparr>
      | Some _ \<Rightarrow> st)"

text \<open>Outside the lock: the task is sent to the worker, or the sink is withdrawn.\<close>

definition send_failed :: "nat \<Rightarrow> nat \<Rightarrow> (('p, 'r, 's) engine_state, engine_result) act" where
  "send_failed sink task st =
     (case es_worker st of
        None \<Rightarrow> (Inl ServiceUnavailable, st)
      | Some w \<Rightarrow>
          let (result, w1) = worker_try_send task w
          in or_else (reject_failure_enqueue sink task)
               (act_bind (act_res result) (\<lambda>_. act_res (Inr (SinkResult sink))))
               (st\<lparr>es_worker := Some w1\<rparr>))"

definition enqueue_failure ::
  "engine_io \<Rightarrow> nat \<Rightarrow> bytes \<Rightarrow> string \<Rightarrow> (('p, 'r, 's) engine_state, engine_result) act" where
  "enqueue_failure io h failure token st =
     act_bind (take_failed h failure token) (\<lambda>(sink, task). send_failed sink task)
       (get_worker (ei_spawned io) st)"

section \<open>Waiting for a sink\<close>

text \<open>
  The task of a sink is looked up under the lock, waited for outside of it, and the answer given
  with the lock again.  \<open>wakes\<close> are the wake-ups of the wait, \<open>others\<close> what the other threads did
  meanwhile.
\<close>

definition find_sink :: "nat \<Rightarrow> nat \<Rightarrow> ('p, 'r, 's) engine_state \<Rightarrow> nat res" where
  "find_sink sink timeout_ms st =
     (if timeout_ms > MAX_SINK_WAIT_MS then Inl RuntimeQuota
      else map_sum id se_task (ok_or NotFound (bt_get (reg_sinks (es_registry st)) sink)))"

definition answer_sink ::
  "nat \<Rightarrow> nat \<Rightarrow> bool res \<Rightarrow> (('p, 'r, 's) engine_state, engine_result) act" where
  "answer_sink sink task answer st =
     (case answer of
        Inl e \<Rightarrow> (Inl e, remove_sink_if_same sink task st)
      | Inr idle \<Rightarrow>
          (Inr (IdleResult idle), if idle then remove_sink_if_same sink task st else st))"

definition wait_for_sink ::
  "('s \<Rightarrow> nat \<Rightarrow> bool) \<Rightarrow> (failure_job, 's) wake_up list
     \<Rightarrow> (('p, 'r, 's) engine_state \<Rightarrow> ('p, 'r, 's) engine_state) \<Rightarrow> nat \<Rightarrow> nat
     \<Rightarrow> ('p, 'r, 's) engine_state \<Rightarrow> engine_result res option \<times> ('p, 'r, 's) engine_state" where
  "wait_for_sink idle wakes others sink timeout_ms st =
     (case find_sink sink timeout_ms st of
        Inl e \<Rightarrow> (Some (Inl e), st)
      | Inr task \<Rightarrow>
          case task_wait idle timeout_ms 0 (es_tasks st ! task) wakes of
            None \<Rightarrow> (None, others st)
          | Some answer \<Rightarrow>
              let (result, st1) = answer_sink sink task answer (others st) in (Some result, st1))"

section \<open>The worker\<close>

text \<open>
  \<open>FailureWork::run\<close> in two sections: the job is taken, and what failing its operation gives is
  put into the task.  \<open>es_held\<close> is the job in the hands of the worker's thread.
\<close>

definition worker_take :: "('p, 'r, 's) engine_state \<Rightarrow> ('p, 'r, 's) engine_state" where
  "worker_take st =
     (case (es_worker st, es_held st) of
        (Some w, None) \<Rightarrow>
          (case fw_channel w of
             [] \<Rightarrow> st
           | task # rest \<Rightarrow>
               let (job, state) = take_job (es_tasks st ! task)
               in st\<lparr>es_worker := Some (w\<lparr>fw_channel := rest\<rparr>),
                     es_tasks := (es_tasks st)[task := state],
                     es_held := map_option (Pair task) job\<rparr>)
      | _ \<Rightarrow> st)"

type_synonym ('r, 's) failing =
  "bytes \<Rightarrow> string \<Rightarrow> 'r operation_state \<Rightarrow> 's res \<times> 'r process_state"

definition worker_run :: "('r, 's) failing \<Rightarrow> ('p, 'r, 's) engine_state \<Rightarrow> ('p, 'r, 's) engine_state" where
  "worker_run fail st =
     (case es_held st of
        None \<Rightarrow> st
      | Some (task, job) \<Rightarrow>
          let (result, ps) = fail (fj_failure job) (fj_token job) (fj_operation job, es_process st)
          in st\<lparr>es_process := ps, es_held := None,
                es_tasks := (es_tasks st)[task := finish_failure_task (Some result)
                  (es_tasks st ! task)]\<rparr>)"

section \<open>Calls\<close>

datatype engine_call =
    ContractCall string
  | DependencyFinish nat string "dependency_response_input option"
  | DependencyOpen "operation_id option" string nat dependency_request_input
  | EngineOpen engine_configuration string
  | EngineClose nat string
  | OperationBegin begin_payload nat string "fuzz_context_input option"
  | OperationInput string input_payload nat
  | ObservationOpen "operation_id option" observation_class string nat
  | ObservationRead string nat
  | ObservationWrite string string nat observation_stream
  | ObservationDispatch string nat
  | ObservationFinish string nat dependency_outcome nat
  | ObservationAbandon string nat
  | OperationUnowned "operation_id option" observation_class string string nat
  | OperationCloseWorld trigger_completion string nat
  | OperationSucceed string nat
  | OperationAbandon string nat
  | OperationFail bytes string nat string
  | SinkWait string nat nat

fun call_format :: "engine_call \<Rightarrow> string" where
  "call_format (ContractCall format) = format"
| "call_format (DependencyFinish _ format _) = format"
| "call_format (DependencyOpen _ format _ _) = format"
| "call_format (EngineOpen _ format) = format"
| "call_format (EngineClose _ format) = format"
| "call_format (OperationBegin _ _ format _) = format"
| "call_format (OperationInput format _ _) = format"
| "call_format (ObservationOpen _ _ format _) = format"
| "call_format (ObservationRead format _) = format"
| "call_format (ObservationWrite _ format _ _) = format"
| "call_format (ObservationDispatch format _) = format"
| "call_format (ObservationFinish format _ _ _) = format"
| "call_format (ObservationAbandon format _) = format"
| "call_format (OperationUnowned _ _ _ format _) = format"
| "call_format (OperationCloseWorld _ format _) = format"
| "call_format (OperationSucceed format _) = format"
| "call_format (OperationAbandon format _) = format"
| "call_format (OperationFail _ format _ _) = format"
| "call_format (SinkWait format _ _) = format"

definition open_observation_call ::
  "engine_io \<Rightarrow> nat \<Rightarrow> observation_class \<Rightarrow> operation_id option
     \<Rightarrow> (('p, 'r, 's) engine_state, engine_result) act" where
  "open_observation_call io h cls parent =
     act_bind (open_registry_observation io h cls parent) (\<lambda>opened.
     act_bind (act_res (ok_or SchemaInvalid (result_observation_handle opened))) (\<lambda>ob.
     act_bind (act_do (sentinel_call (observation_opened ob h cls))) (\<lambda>_.
       act_res (Inr opened))))"

definition dispatch_observation_call ::
  "('r, 'p) registry_env \<Rightarrow> engine_io \<Rightarrow> engine_call \<Rightarrow> (('p, 'r, 's) engine_state, engine_result) act"
  where
  "dispatch_observation_call re io call =
     (case call of
        ObservationOpen parent cls _ h \<Rightarrow> open_observation_call io h cls parent
      | ObservationWrite chunk _ ob stream \<Rightarrow> write_registry_observation re io ob stream chunk
      | ObservationDispatch _ ob \<Rightarrow>
          act_bind (dispatch_registry_observation re io ob) (\<lambda>result.
          act_bind (act_do (sentinel_dispatched ob)) (\<lambda>_. act_res (Inr result)))
      | ObservationRead _ ob \<Rightarrow> read_registry_observation re io ob
      | ObservationFinish _ ob outcome pos \<Rightarrow>
          act_bind (act_do (sentinel_call (observation_finished ob)))
            (\<lambda>_. finish_registry_observation re io ob outcome pos)
      | ObservationAbandon _ ob \<Rightarrow>
          act_bind (act_do (sentinel_call (observation_finished ob)))
            (\<lambda>_. abandon_registry_observation ob)
      | _ \<Rightarrow> act_res (Inl SchemaInvalid))"

definition dispatch_operation ::
  "('r, 'p) registry_env \<Rightarrow> engine_io \<Rightarrow> engine_call \<Rightarrow> (('p, 'r, 's) engine_state, engine_result) act"
  where
  "dispatch_operation re io call =
     (case call of
        OperationBegin p e _ context \<Rightarrow> begin_operation re io e p context
      | OperationInput _ p h \<Rightarrow> operation_input re h p
      | DependencyOpen parent _ h request \<Rightarrow> open_dependency re io h parent request
      | DependencyFinish ob _ response \<Rightarrow> finish_dependency re io ob response
      | OperationUnowned parent cls evidence _ h \<Rightarrow> record_unowned re io h cls parent evidence
      | OperationCloseWorld completion _ h \<Rightarrow> close_world_call re io h completion
      | OperationSucceed _ h \<Rightarrow> succeed_operation h
      | OperationAbandon _ h \<Rightarrow> abandon_operation h
      | OperationFail _ _ _ _ \<Rightarrow> act_res (Inl SchemaInvalid)
      | SinkWait _ _ _ \<Rightarrow> act_res (Inl SchemaInvalid)
      | ContractCall _ \<Rightarrow> act_res (Inl SchemaInvalid)
      | EngineOpen _ _ \<Rightarrow> act_res (Inl SchemaInvalid)
      | EngineClose _ _ \<Rightarrow> act_res (Inl SchemaInvalid)
      | observation_call \<Rightarrow> dispatch_observation_call re io observation_call)"

definition dispatch_immediate ::
  "('r, 'p) registry_env \<Rightarrow> engine_io \<Rightarrow> engine_call \<Rightarrow> (('p, 'r, 's) engine_state, engine_result) act"
  where
  "dispatch_immediate re io call =
     (case call of
        ContractCall _ \<Rightarrow> act_res (if re_contract_parses re then Inr ContractResult else Inl SchemaInvalid)
      | EngineOpen cf _ \<Rightarrow> open_engine re io cf
      | EngineClose e _ \<Rightarrow> close_engine e
      | operation_call \<Rightarrow> dispatch_operation re io operation_call)"

text \<open>What a call that waits needs besides: see \<open>wait_for_sink\<close>.\<close>

record ('p, 'r, 's) waiting =
  wt_idle :: "'s \<Rightarrow> nat \<Rightarrow> bool"
  wt_wakes :: "(failure_job, 's) wake_up list"
  wt_others :: "('p, 'r, 's) engine_state \<Rightarrow> ('p, 'r, 's) engine_state"

definition dispatch_call ::
  "('r, 'p) registry_env \<Rightarrow> engine_io \<Rightarrow> ('p, 'r, 's) waiting \<Rightarrow> engine_call
     \<Rightarrow> ('p, 'r, 's) engine_state \<Rightarrow> engine_result res option \<times> ('p, 'r, 's) engine_state" where
  "dispatch_call re io wt call st =
     (if call_format call \<noteq> CALL_FORMAT then (Some (Inl SchemaInvalid), st)
      else case call of
          OperationFail failure _ h token \<Rightarrow> apfst Some (enqueue_failure io h failure token st)
        | SinkWait _ sink timeout_ms \<Rightarrow>
            wait_for_sink (wt_idle wt) (wt_wakes wt) (wt_others wt) sink timeout_ms st
        | immediate \<Rightarrow> apfst Some (dispatch_immediate re io immediate st))"

section \<open>The boundary\<close>

record engine_response =
  rp_error_code :: "error_code option"
  rp_format :: string
  rp_ok :: bool
  rp_result :: engine_result

text \<open>JSON, as the code uses it: \<open>None\<close> is an error of \<open>serde_json\<close>.\<close>

record json_codec =
  js_parse_call :: "bytes \<Rightarrow> engine_call option"
  js_print_response :: "engine_response \<Rightarrow> bytes option"

definition ascii :: "string \<Rightarrow> bytes" where
  "ascii = map (\<lambda>c. of_nat (of_char c))"

definition FALLBACK :: bytes where
  "FALLBACK = ascii (''{\"error_code\":\"SCHEMA_INVALID\",'' @
     ''\"format\":\"reproit.sdk-engine-response.v1\",'' @ ''\"ok\":false,\"result\":{}}'')"

definition error_response :: "error_code \<Rightarrow> engine_response" where
  "error_response e =
     \<lparr>rp_error_code = Some e, rp_format = RESPONSE_FORMAT, rp_ok = False, rp_result = EmptyResult\<rparr>"

definition serialize_response :: "json_codec \<Rightarrow> engine_response \<Rightarrow> bytes" where
  "serialize_response js response =
     (let printed = (case js_print_response js response of None \<Rightarrow> FALLBACK | Some bs \<Rightarrow> bs)
      in if \<not> rp_ok response \<and> length printed > MAX_ERROR_RESPONSE_BYTES then FALLBACK else printed)"

text \<open>
  \<open>execute\<close>: the call runs under the scope of the sentinel.  \<open>None\<close> is a wait that has not
  answered yet.
\<close>

definition execute ::
  "json_codec \<Rightarrow> ('r, 'p) registry_env \<Rightarrow> engine_io \<Rightarrow> ('p, 'r, 's) waiting \<Rightarrow> bytes
     \<Rightarrow> ('p, 'r, 's) engine_state \<Rightarrow> bytes option \<times> ('p, 'r, 's) engine_state" where
  "execute js re io wt input st =
     (case js_parse_call js input of
        None \<Rightarrow> (Some (serialize_response js (error_response SchemaInvalid)), st)
      | Some call \<Rightarrow>
          let (guard, ct) = engine_call_scope (ps_thread (es_process st)) (ps_controller (es_process st));
              (answer, st1) = dispatch_call re io wt call
                (on_process (\<lambda>ps. ps\<lparr>ps_controller := ct\<rparr>) st);
              response = (\<lambda>result. case result of
                  Inr result \<Rightarrow> \<lparr>rp_error_code = None, rp_format = RESPONSE_FORMAT, rp_ok = True,
                                 rp_result = result\<rparr>
                | Inl e \<Rightarrow> error_response e)
          in (map_option (\<lambda>result. serialize_response js (response result)) answer,
              sentinel_call (scope_drop guard) st1))"

text \<open>
  The C function: the result code and the bytes written to the output.  \<open>unwound\<close> is
  the state that a panic inside of the call leaves, when it panics.
\<close>

definition reproit_sdk_engine_call ::
  "json_codec \<Rightarrow> ('r, 'p) registry_env \<Rightarrow> engine_io \<Rightarrow> ('p, 'r, 's) waiting
     \<Rightarrow> ('p, 'r, 's) engine_state option \<Rightarrow> bytes option \<Rightarrow> nat option
     \<Rightarrow> ('p, 'r, 's) engine_state \<Rightarrow> (int \<times> bytes) option \<times> ('p, 'r, 's) engine_state" where
  "reproit_sdk_engine_call js re io wt unwound input output_capacity st =
     (case (input, output_capacity) of
        (Some bs, Some capacity) \<Rightarrow>
          if bs = [] \<or> length bs > MAX_CALL_BYTES \<or> capacity < MIN_RESPONSE_CAPACITY
          then (Some (RESULT_INVALID_CALL_BOUNDARY, []), st)
          else (case unwound of
              Some st1 \<Rightarrow> (Some (RESULT_ENGINE_PANIC, []), st1)
            | None \<Rightarrow>
                apfst (map_option (\<lambda>response.
                  if length response > capacity then (RESULT_OUTPUT_CAPACITY_EXCEEDED, [])
                  else if length response > ISIZE_MAX then (RESULT_RESPONSE_LENGTH_OVERFLOW, [])
                  else (int (length response), response))) (execute js re io wt bs st))
      | _ \<Rightarrow> (Some (RESULT_INVALID_CALL_BOUNDARY, []), st))"

end
