(* ===== verification/Registry_Handles.thy ===== *)
theory Registry_Handles
  imports Engine_Registry Sentinel_Coverage
begin

text \<open>
  What the registry of the engine promises about its handles.  \<open>handles\<close> forgets everything of
  the registry but which handle names which kind of object and what it belongs to;
  \<open>handle_step\<close> is the abstract machine of these tables.  Every section of a call that holds the
  lock of the registry, and every step of the worker, is a sequence of steps of that machine, so
  what holds of the machine holds of the engine.
\<close>

section \<open>The abstract machine\<close>

record handles =
  hs_engines :: "(nat, unit) btree"
  hs_next :: nat
  hs_observations :: "(nat, nat) btree"
  hs_operations :: "(nat, nat) btree"
  hs_sinks :: "(nat, nat \<times> nat) btree"
  hs_tasks :: nat

inductive handle_step :: "handles \<Rightarrow> handles \<Rightarrow> bool" where
  hs_unused: "hs_next s < U64_MAX \<Longrightarrow> handle_step s (s\<lparr>hs_next := Suc (hs_next s)\<rparr>)"
| hs_engine: "hs_next s < U64_MAX \<Longrightarrow> length (hs_engines s) < MAX_ENGINES \<Longrightarrow>
     handle_step s (s\<lparr>hs_next := Suc (hs_next s),
       hs_engines := bt_insert (hs_next s) () (hs_engines s)\<rparr>)"
| hs_operation: "hs_next s < U64_MAX \<Longrightarrow> length (hs_operations s) < MAX_OPERATIONS \<Longrightarrow>
     bt_contains (hs_engines s) e \<Longrightarrow>
     handle_step s (s\<lparr>hs_next := Suc (hs_next s),
       hs_operations := bt_insert (hs_next s) e (hs_operations s)\<rparr>)"
| hs_observation: "hs_next s < U64_MAX \<Longrightarrow>
     length (hs_observations s) < MAX_REGISTRY_OBSERVATIONS \<Longrightarrow> bt_contains (hs_operations s) h \<Longrightarrow>
     handle_step s (s\<lparr>hs_next := Suc (hs_next s),
       hs_observations := bt_insert (hs_next s) h (hs_observations s)\<rparr>)"
| hs_fail: "hs_next s < U64_MAX \<Longrightarrow> length (hs_sinks s) < MAX_SINKS \<Longrightarrow>
     bt_get (hs_operations s) h = Some e \<Longrightarrow>
     handle_step s (s\<lparr>hs_operations := bt_remove h (hs_operations s),
       hs_observations := bt_retain (\<lambda>_ h'. h' \<noteq> h) (hs_observations s),
       hs_next := Suc (hs_next s), hs_tasks := Suc (hs_tasks s),
       hs_sinks := bt_insert (hs_next s) (e, hs_tasks s) (hs_sinks s)\<rparr>)"
| hs_end: "handle_step s (s\<lparr>hs_operations := bt_remove h (hs_operations s),
       hs_observations := bt_retain (\<lambda>_ h'. h' \<noteq> h) (hs_observations s)\<rparr>)"
| hs_forget: "handle_step s (s\<lparr>hs_observations := bt_remove ob (hs_observations s)\<rparr>)"
| hs_sink: "handle_step s (s\<lparr>hs_sinks := bt_remove sink (hs_sinks s)\<rparr>)"
| hs_close: "handle_step s (s\<lparr>hs_engines := bt_remove e (hs_engines s),
       hs_observations := bt_retain (\<lambda>_ h. (h, e) \<notin> set (hs_operations s)) (hs_observations s),
       hs_operations := bt_retain (\<lambda>_ e'. e' \<noteq> e) (hs_operations s),
       hs_sinks := bt_retain (\<lambda>_ (e', _). e' \<noteq> e) (hs_sinks s)\<rparr>)"

inductive_cases handle_stepE: "handle_step s s'"

definition handles :: "('p, 'r, 's) engine_state \<Rightarrow> handles" where
  "handles st =
     \<lparr>hs_engines = bt_map_values (\<lambda>_. ()) (reg_engines (es_registry st)),
      hs_next = reg_next_handle (es_registry st),
      hs_observations = bt_map_values be_operation (reg_observations (es_registry st)),
      hs_operations = bt_map_values oe_engine (reg_operations (es_registry st)),
      hs_sinks = bt_map_values (\<lambda>entry. (se_engine entry, se_task entry)) (reg_sinks (es_registry st)),
      hs_tasks = length (es_tasks st)\<rparr>"

text \<open>The handles the tables hold, by kind.\<close>

datatype handle_kind = EngineHandle | ObservationHandle | OperationHandle | SinkHandle

definition live :: "handles \<Rightarrow> handle_kind \<Rightarrow> nat \<Rightarrow> bool" where
  "live s kind h =
     (case kind of
        EngineHandle \<Rightarrow> bt_contains (hs_engines s) h
      | ObservationHandle \<Rightarrow> bt_contains (hs_observations s) h
      | OperationHandle \<Rightarrow> bt_contains (hs_operations s) h
      | SinkHandle \<Rightarrow> bt_contains (hs_sinks s) h)"

definition tables_ok :: "handles \<Rightarrow> bool" where
  "tables_ok s \<longleftrightarrow>
     bt_ok (hs_engines s) \<and> bt_ok (hs_observations s) \<and> bt_ok (hs_operations s) \<and> bt_ok (hs_sinks s)"

definition tables_small :: "handles \<Rightarrow> bool" where
  "tables_small s \<longleftrightarrow>
     length (hs_engines s) \<le> MAX_ENGINES \<and> length (hs_observations s) \<le> MAX_REGISTRY_OBSERVATIONS
     \<and> length (hs_operations s) \<le> MAX_OPERATIONS \<and> length (hs_sinks s) \<le> MAX_SINKS
     \<and> hs_next s \<le> U64_MAX"

definition kinds_ok :: "handles \<Rightarrow> bool" where
  "kinds_ok s \<longleftrightarrow>
     (\<forall>kind h. live s kind h \<longrightarrow> h < hs_next s)
     \<and> (\<forall>kind kind' h. live s kind h \<longrightarrow> live s kind' h \<longrightarrow> kind = kind')"

definition owners_ok :: "handles \<Rightarrow> bool" where
  "owners_ok s \<longleftrightarrow>
     (\<forall>ob h. bt_get (hs_observations s) ob = Some h \<longrightarrow> bt_contains (hs_operations s) h)
     \<and> (\<forall>h e. bt_get (hs_operations s) h = Some e \<longrightarrow> bt_contains (hs_engines s) e)
     \<and> (\<forall>sink e t. bt_get (hs_sinks s) sink = Some (e, t) \<longrightarrow>
          bt_contains (hs_engines s) e \<and> t < hs_tasks s)"

definition sinks_distinct :: "handles \<Rightarrow> bool" where
  "sinks_distinct s \<longleftrightarrow>
     (\<forall>sink sink' e e' t. bt_get (hs_sinks s) sink = Some (e, t) \<longrightarrow>
          bt_get (hs_sinks s) sink' = Some (e', t) \<longrightarrow> sink = sink')"

definition handles_ok :: "handles \<Rightarrow> bool" where
  "handles_ok s \<longleftrightarrow> tables_ok s \<and> tables_small s \<and> kinds_ok s \<and> owners_ok s \<and> sinks_distinct s"

section \<open>The machine keeps its tables\<close>

lemma length_bt_insert_le: "length (bt_insert k v m) \<le> Suc (length m)"
  by (induction m) auto

lemma length_bt_remove_le: "length (bt_remove k m) \<le> length m"
  by (induction m) auto

lemma bt_contains_get: "bt_contains m k \<longleftrightarrow> (\<exists>v. bt_get m k = Some v)"
  by (simp add: bt_contains_def)

lemma bt_get_retain_Some:
  "bt_ok m \<Longrightarrow> bt_get (bt_retain P m) k = Some v \<longleftrightarrow> bt_get m k = Some v \<and> P k v"
  by (auto simp: bt_get_retain split: option.splits)

lemma bt_contains_retain:
  "bt_ok m \<Longrightarrow> bt_contains (bt_retain P m) k \<longleftrightarrow> (\<exists>v. bt_get m k = Some v \<and> P k v)"
  by (auto simp: bt_contains_get bt_get_retain split: option.splits)

lemma tables_ok_step: "handle_step s s' \<Longrightarrow> tables_ok s \<Longrightarrow> tables_ok s'"
  by (erule handle_stepE) (simp_all add: tables_ok_def)

lemma tables_small_step: "handle_step s s' \<Longrightarrow> tables_small s \<Longrightarrow> tables_small s'"
  by (erule handle_stepE)
    (auto simp: tables_small_def Suc_le_eq
      intro!: order_trans [OF length_bt_insert_le] order_trans [OF length_bt_remove_le]
        order_trans [OF length_bt_retain])

text \<open>The one handle that is new after a step is the next one, and it names one object.\<close>

definition grows :: "handles \<Rightarrow> handles \<Rightarrow> bool" where
  "grows s s' \<longleftrightarrow>
     hs_next s \<le> hs_next s'
     \<and> (\<exists>K. \<forall>kind h. live s' kind h \<longrightarrow>
          live s kind h \<or> h = hs_next s \<and> kind = K \<and> hs_next s' = Suc (hs_next s))"

lemma live_simps [simp]:
  "live s EngineHandle h \<longleftrightarrow> bt_contains (hs_engines s) h"
  "live s ObservationHandle h \<longleftrightarrow> bt_contains (hs_observations s) h"
  "live s OperationHandle h \<longleftrightarrow> bt_contains (hs_operations s) h"
  "live s SinkHandle h \<longleftrightarrow> bt_contains (hs_sinks s) h"
  by (simp_all add: live_def)

lemma all_kinds: "(\<forall>kind. P kind) \<longleftrightarrow>
    P EngineHandle \<and> P ObservationHandle \<and> P OperationHandle \<and> P SinkHandle"
  by (metis handle_kind.exhaust)

lemma grows_step: "handle_step s s' \<Longrightarrow> tables_ok s \<Longrightarrow> grows s s'"
proof (induction rule: handle_step.induct)
  case (hs_engine s)
  show ?case unfolding grows_def all_kinds by (intro conjI exI [of _ EngineHandle]) auto
next
  case (hs_operation s e)
  show ?case unfolding grows_def all_kinds by (intro conjI exI [of _ OperationHandle]) auto
next
  case (hs_observation s h)
  show ?case unfolding grows_def all_kinds by (intro conjI exI [of _ ObservationHandle]) auto
next
  case (hs_fail s h e)
  then show ?case unfolding grows_def all_kinds
    by (intro conjI exI [of _ SinkHandle]) (auto simp: tables_ok_def bt_get_retain_Some bt_contains_get)
qed (auto simp: grows_def all_kinds tables_ok_def bt_get_retain_Some bt_contains_get)

lemma kinds_ok_step: "grows s s' \<Longrightarrow> kinds_ok s \<Longrightarrow> kinds_ok s'"
  unfolding grows_def kinds_ok_def by (metis less_Suc_eq less_irrefl_nat order_less_le_trans)

lemma owners_ok_step: "handle_step s s' \<Longrightarrow> handles_ok s \<Longrightarrow> owners_ok s'"
proof (induction rule: handle_step.induct)
  case (hs_close s e)
  then show ?case
    by (fastforce simp: handles_ok_def owners_ok_def tables_ok_def bt_get_retain_Some
        bt_contains_get bt_get_set_iff [symmetric])
qed (auto simp: handles_ok_def owners_ok_def tables_ok_def bt_get_retain_Some bt_contains_get less_Suc_eq
      split: if_splits)

lemma sinks_distinct_step: "handle_step s s' \<Longrightarrow> handles_ok s \<Longrightarrow> sinks_distinct s'"
proof (induction rule: handle_step.induct)
  case (hs_fail s h e)
  then show ?case
    by (fastforce simp: handles_ok_def sinks_distinct_def owners_ok_def split: if_splits)
next
  case (hs_close s e)
  then show ?case
    by (auto simp: handles_ok_def sinks_distinct_def tables_ok_def bt_get_retain_Some)
qed (auto simp: handles_ok_def sinks_distinct_def tables_ok_def)

lemma handles_ok_step: "handle_step s s' \<Longrightarrow> handles_ok s \<Longrightarrow> handles_ok s'"
  using tables_ok_step tables_small_step kinds_ok_step grows_step owners_ok_step
    sinks_distinct_step
  unfolding handles_ok_def by metis

lemma handles_ok_steps: "handle_step\<^sup>*\<^sup>* s s' \<Longrightarrow> handles_ok s \<Longrightarrow> handles_ok s'"
  by (induction rule: rtranclp_induct) (auto intro: handles_ok_step)

text \<open>A handle that was given out keeps its kind, and one that is gone never comes back.\<close>

definition never_reused :: "handles \<Rightarrow> handles \<Rightarrow> bool" where
  "never_reused s s' \<longleftrightarrow>
     hs_next s \<le> hs_next s' \<and> (\<forall>kind h. live s' kind h \<longrightarrow> live s kind h \<or> hs_next s \<le> h)"

lemma never_reused_steps:
  assumes "handle_step\<^sup>*\<^sup>* s s'" "handles_ok s"
  shows "never_reused s s'"
  using assms
proof (induction rule: rtranclp_induct)
  case base
  then show ?case by (simp add: never_reused_def)
next
  case (step s1 s2)
  have "grows s1 s2"
    using step.hyps handles_ok_steps [OF step.hyps(1) step.prems]
    by (auto intro: grows_step simp: handles_ok_def)
  then show ?case
    using step.IH [OF step.prems] by (auto simp: never_reused_def grows_def)
qed

section \<open>Entries and their abstraction\<close>

lemma bt_map_values_insert [simp]:
  "bt_map_values f (bt_insert k v m) = bt_insert k (f v) (bt_map_values f m)"
  by (induction m) (auto simp: bt_map_values_def)

lemma bt_map_values_remove [simp]:
  "bt_map_values f (bt_remove k m) = bt_remove k (bt_map_values f m)"
  by (induction m) (auto simp: bt_map_values_def)

lemma bt_map_values_retain:
  "(\<And>k v. P k v \<longleftrightarrow> Q k (f v)) \<Longrightarrow>
     bt_map_values f (bt_retain P m) = bt_retain Q (bt_map_values f m)"
  by (induction m) (auto simp: bt_map_values_def bt_retain_def)

lemma length_bt_map_values [simp]: "length (bt_map_values f m) = length m"
  by (simp add: bt_map_values_def)

lemma bt_contains_map_values [simp]: "bt_contains (bt_map_values f m) k \<longleftrightarrow> bt_contains m k"
  by (auto simp: bt_contains_def)

lemma bt_insert_same: "bt_get m k = Some v \<Longrightarrow> bt_ok m \<Longrightarrow> bt_insert k v m = m"
  by (induction m) (use bt_ok_tl bt_get_less [OF _ less_imp_le] in \<open>fastforce+\<close>)

lemma bt_map_values_same:
  "bt_get m k = Some v \<Longrightarrow> f v' = f v \<Longrightarrow> bt_ok m \<Longrightarrow>
     bt_map_values f (bt_insert k v' m) = bt_map_values f m"
  by (simp add: bt_insert_same)

lemma handles_simps [simp]:
  "handles (st\<lparr>es_process := ps\<rparr>) = handles st"
  "handles (st\<lparr>es_worker := w\<rparr>) = handles st"
  "handles (st\<lparr>es_held := held\<rparr>) = handles st"
  "handles (st\<lparr>es_tasks := (es_tasks st)[t := x]\<rparr>) = handles st"
  "handles (on_process f st) = handles st"
  "handles (sentinel_call g st) = handles st"
  "handles (end_entry finish entry st) = handles st"
  by (simp_all add: handles_def on_process_def sentinel_call_def end_entry_def)

lemma handles_sel:
  "hs_engines (handles st) = bt_map_values (\<lambda>_. ()) (reg_engines (es_registry st))"
  "hs_next (handles st) = reg_next_handle (es_registry st)"
  "hs_observations (handles st) = bt_map_values be_operation (reg_observations (es_registry st))"
  "hs_operations (handles st) = bt_map_values oe_engine (reg_operations (es_registry st))"
  "hs_sinks (handles st) = bt_map_values (\<lambda>entry. (se_engine entry, se_task entry))
     (reg_sinks (es_registry st))"
  "hs_tasks (handles st) = length (es_tasks st)"
  by (simp_all add: handles_def)

lemma handles_cancel [simp]: "handles (cancel_task t st) = handles st"
  by (auto simp: cancel_task_def Let_def split: task_state.split option.split)

section \<open>Calls that change no handle\<close>

lemma handles_with_operation:
  assumes "tables_ok (handles st)"
  shows "handles (snd (with_operation h m st)) = handles st"
  using assms
  by (auto simp: with_operation_def handles_def on_registry_def tables_ok_def bt_insert_same
      split: option.split prod.split)

lemma with_operation_Inr:
  "with_operation h m st = (Inr x, st') \<Longrightarrow> bt_contains (reg_operations (es_registry st)) h"
  by (auto simp: with_operation_def bt_contains_def split: option.splits)

text \<open>\<open>moves m\<close>: whatever \<open>m\<close> answers, it makes steps of the machine; \<open>stays m\<close>: none at all.\<close>

definition refines :: "('p, 'r, 's) engine_state \<Rightarrow> ('p, 'r, 's) engine_state \<Rightarrow> bool" where
  "refines st st' \<longleftrightarrow> (tables_ok (handles st) \<longrightarrow> handle_step\<^sup>*\<^sup>* (handles st) (handles st'))"

definition moves :: "(('p, 'r, 's) engine_state, 'a) act \<Rightarrow> bool" where
  "moves m \<longleftrightarrow> (\<forall>st. refines st (snd (m st)))"

definition stays :: "(('p, 'r, 's) engine_state, 'a) act \<Rightarrow> bool" where
  "stays m \<longleftrightarrow> (\<forall>st. tables_ok (handles st) \<longrightarrow> handles (snd (m st)) = handles st)"

lemma tables_ok_steps: "handle_step\<^sup>*\<^sup>* s s' \<Longrightarrow> tables_ok s \<Longrightarrow> tables_ok s'"
  by (induction rule: rtranclp_induct) (auto intro: tables_ok_step)

lemma refines_refl [simp, intro]: "refines st st"
  by (simp add: refines_def)

lemma refines_trans [trans]: "refines st1 st2 \<Longrightarrow> refines st2 st3 \<Longrightarrow> refines st1 st3"
  unfolding refines_def by (meson rtranclp_trans tables_ok_steps)

lemma refines_same: "handles st' = handles st \<Longrightarrow> refines st st'"
  by (simp add: refines_def)

lemma refines_step: "(tables_ok (handles st) \<Longrightarrow> handle_step (handles st) (handles st')) \<Longrightarrow> refines st st'"
  by (auto simp: refines_def)

named_theorems move_intros \<open>calls that are steps of the machine\<close>

lemma stays_moves: "stays m \<Longrightarrow> moves m"
  by (simp add: stays_def moves_def refines_def)

lemma moves_bind [move_intros]:
  "moves m \<Longrightarrow> (\<And>x. moves (f x)) \<Longrightarrow> moves (act_bind m f)"
  unfolding moves_def act_bind_def by (auto split: prod.split sum.split) (metis refines_trans snd_conv)+

lemma moves_res [move_intros]: "moves (act_res r)"
  by (simp add: moves_def act_res_def)

lemma moves_do [move_intros]: "(\<And>st. refines st (f st)) \<Longrightarrow> moves (act_do f)"
  by (simp add: moves_def act_do_def)

lemma moves_or_else [move_intros]:
  "moves m \<Longrightarrow> (\<And>st. refines st (f st)) \<Longrightarrow> moves (or_else f m)"
  unfolding moves_def or_else_def by (auto split: prod.split sum.split) (metis refines_trans snd_conv)+

lemma moves_with_operation [move_intros]: "moves (with_operation h m)"
  by (intro stays_moves) (simp add: stays_def handles_with_operation)

lemma moves_require [move_intros]: "moves (require_operation h)"
  by (simp add: moves_def require_operation_def)

lemma moves_for_observation [move_intros]: "moves (operation_for_observation ob)"
  by (simp add: moves_def operation_for_observation_def)

lemma refines_process [move_intros]:
  "refines st (on_process f st)" "refines st (sentinel_call g st)"
  "refines st (end_entry finish entry st)" "refines st (sentinel_dispatched ob st)"
  by (simp_all add: refines_same sentinel_dispatched_def)

lemma refines_forget [move_intros]: "refines st (remove_observation ob st)"
  by (rule refines_step)
    (use hs_forget [of "handles st" ob] in
      \<open>simp add: remove_observation_def on_registry_def handles_def\<close>)

lemma refines_invalidate [move_intros]: "refines st (invalidate_semantic_observation ob st)"
  using moves_with_operation
  by (auto simp: invalidate_semantic_observation_def moves_def split: option.split
      intro: refines_trans [OF refines_forget])

lemma refines_cleanup [move_intros]: "refines st (cleanup_dependency ob st)"
  unfolding cleanup_dependency_def by (rule refines_trans [OF refines_process(2) refines_invalidate])

lemma moves_session_call [move_intros]:
  assumes "\<And>st. refines st (cleanup st)"
  shows "moves (session_call absent cleanup ob m)"
proof -
  have updated: "refines st (on_registry (\<lambda>rg. rg\<lparr>reg_observations :=
      bt_insert ob (entry\<lparr>be_session := se\<rparr>) (reg_observations rg)\<rparr>) st)"
    if "bt_get (reg_observations (es_registry st)) ob = Some entry" for st :: "('a, 'b, 'c) engine_state"
      and entry se
    using that by (auto simp: refines_def handles_def on_registry_def tables_ok_def bt_insert_same)
  show ?thesis
    using assms unfolding moves_def session_call_def or_else_def
    by (auto split: option.split prod.split sum.split intro: updated refines_trans [OF updated])
qed

section \<open>Calls on observations\<close>

lemma moves_if [move_intros]: "moves m \<Longrightarrow> moves m' \<Longrightarrow> moves (\<lambda>st. if P st then m st else m' st)"
  by (simp add: moves_def)

lemma moves_inl [move_intros]: "moves (\<lambda>st. (r, st))"
  by (simp add: moves_def)

lemma moves_write_bytes [move_intros]: "moves (write_observation_bytes re io ob stream chunk)"
  unfolding write_observation_bytes_def [abs_def] by (intro move_intros)

lemma moves_write [move_intros]: "moves (write_registry_observation re io ob stream chunk)"
  unfolding write_registry_observation_def by (intro move_intros)

lemma moves_dispatch [move_intros]: "moves (dispatch_registry_observation re io ob)"
  unfolding dispatch_registry_observation_def by (intro move_intros)

lemma moves_split [move_intros]: "(\<And>x y. moves (f x y)) \<Longrightarrow> moves (case p of (x, y) \<Rightarrow> f x y)"
  by (cases p) simp

lemma moves_option [move_intros]:
  "moves m \<Longrightarrow> (\<And>x. moves (f x)) \<Longrightarrow> moves (case v of None \<Rightarrow> m | Some x \<Rightarrow> f x)"
  by (cases v) simp_all

lemma moves_read [move_intros]: "moves (read_registry_observation re io ob)"
  unfolding read_registry_observation_def by (intro move_intros)

lemma moves_finish_inner [move_intros]: "moves (finish_observation_inner re io ob outcome pos)"
  unfolding finish_observation_inner_def by (intro move_intros)

lemma moves_finish [move_intros]: "moves (finish_registry_observation re io ob outcome pos)"
  unfolding finish_registry_observation_def by (intro move_intros)

lemma moves_abandon [move_intros]: "moves (abandon_registry_observation ob)"
  unfolding abandon_registry_observation_def by (intro move_intros)

lemma moves_write_records [move_intros]: "moves (write_records re io ob stream records)"
  by (induction records) (simp_all, (intro move_intros | assumption)+)

lemma moves_write_record [move_intros]: "moves (write_dependency_record re io ob stream data)"
  unfolding write_dependency_record_def by (intro move_intros)

lemma moves_prepare_dependency [move_intros]: "moves (prepare_dependency re io ob pos data)"
  unfolding prepare_dependency_def by (intro move_intros)

lemma moves_supply_response [move_intros]: "moves (supply_response re io ob input)"
  unfolding supply_response_def by (intro move_intros)

lemma moves_finish_dependency [move_intros]: "moves (finish_dependency re io ob response)"
  unfolding moves_def finish_dependency_def
  by (auto split: option.split intro!: move_intros [unfolded moves_def, rule_format])

section \<open>Handles given out\<close>

lemma allocate_handle_Inr:
  "allocate_handle st = (Inr h, st1) \<longleftrightarrow>
     h = hs_next (handles st) \<and> h < U64_MAX
     \<and> st1 = on_registry (\<lambda>rg. rg\<lparr>reg_next_handle := Suc h\<rparr>) st"
  by (auto simp: allocate_handle_def handles_sel Let_def split: option.splits)

lemma allocate_handle_Inl:
  "allocate_handle st = (Inl e, st1) \<Longrightarrow> st1 = st"
  by (auto simp: allocate_handle_def Let_def split: option.splits)

lemma handles_allocated:
  "handles (on_registry (\<lambda>rg. rg\<lparr>reg_next_handle := n\<rparr>) st) = handles st\<lparr>hs_next := n\<rparr>"
  by (simp add: handles_def on_registry_def)

lemma moves_open_observation [move_intros]: "moves (open_registry_observation io h cls parent)"
  unfolding moves_def
proof
  fix st :: "('a, 'b, 'c) engine_state"
  show "refines st (snd (open_registry_observation io h cls parent st))"
  proof (cases "length (reg_observations (es_registry st)) \<ge> MAX_REGISTRY_OBSERVATIONS")
    case False
    obtain r st1 where alloc: "allocate_handle st = (r, st1)" by fastforce
    show ?thesis
    proof (cases r)
      case (Inr ob)
      with alloc have ob: "ob = hs_next (handles st)" "ob < U64_MAX"
        "handles st1 = handles st\<lparr>hs_next := Suc ob\<rparr>"
        by (auto simp: allocate_handle_Inr handles_allocated)
      obtain x st2 where call: "with_operation h (operation_open_observation (ei_world io) ob cls parent) st1
          = (x, st2)" by fastforce
      show ?thesis
      proof (rule refines_step)
        assume ok: "tables_ok (handles st)"
        then have "tables_ok (handles st1)" using ob by (simp add: tables_ok_def)
        from handles_with_operation [OF this, of h "operation_open_observation (ei_world io) ob cls parent"]
        have same: "handles st2 = handles st1" by (simp add: call)
        show "handle_step (handles st) (handles (snd (open_registry_observation io h cls parent st)))"
        proof (cases x)
          case (Inl e)
          then show ?thesis
            using hs_unused [of "handles st"] False alloc Inr call same ob
            by (simp add: open_registry_observation_def act_bind_def)
        next
          case Inr': (Inr pos)
          have "bt_contains (hs_operations (handles st)) h"
            using with_operation_Inr [OF call [unfolded Inr']] ob(3)
            by (metis bt_contains_map_values handles.select_convs(4) handles.surjective handles.update_convs(2) handles_sel(4))
          then have "handle_step (handles st) (handles st\<lparr>hs_next := Suc (hs_next (handles st)),
              hs_observations := bt_insert (hs_next (handles st)) h (hs_observations (handles st))\<rparr>)"
            using False ob by (intro hs_observation) (auto simp: handles_sel)
          moreover have "handles (snd (open_registry_observation io h cls parent st))
              = handles st2\<lparr>hs_observations := bt_insert ob h (hs_observations (handles st2))\<rparr>"
            using False alloc Inr call Inr'
            by (simp add: open_registry_observation_def act_bind_def act_do_def act_res_def
                on_registry_def handles_def)
          ultimately show ?thesis by (simp add: same ob)
        qed
      qed
    qed (use alloc allocate_handle_Inl False in \<open>auto simp: open_registry_observation_def act_bind_def\<close>)
  qed (simp add: open_registry_observation_def)
qed

lemma moves_open_dependency [move_intros]: "moves (open_dependency re io h parent request)"
  unfolding open_dependency_def by (intro move_intros)

section \<open>Engines and operations\<close>

lemma moves_open_engine [move_intros]: "moves (open_engine re io cf)"
  unfolding moves_def
proof
  fix st :: "('a, 'b, 'c) engine_state"
  show "refines st (snd (open_engine re io cf st))"
  proof (cases "length (reg_engines (es_registry st)) < MAX_ENGINES \<and> (\<exists>en. build_engine re cf = Inr en)")
    case True
    then obtain en where en: "build_engine re cf = Inr en" by blast
    obtain r st1 where alloc: "allocate_handle st = (r, st1)" by fastforce
    show ?thesis
    proof (cases r)
      case (Inl e)
      then show ?thesis
        using alloc allocate_handle_Inl [of st e st1] True en
        by (simp add: open_engine_def act_bind_def act_res_def)
    next
      case (Inr h)
      with alloc have h: "h = hs_next (handles st)" "h < U64_MAX"
        "handles st1 = handles st\<lparr>hs_next := Suc h\<rparr>"
        by (auto simp: allocate_handle_Inr handles_allocated)
      have "handles (snd (open_engine re io cf st))
          = handles st1\<lparr>hs_engines := bt_insert h () (hs_engines (handles st1))\<rparr>"
        using True en alloc Inr
        by (simp add: open_engine_def act_bind_def act_res_def act_do_def)
          (simp add: handles_def on_registry_def)
      then show ?thesis
        using hs_engine [of "handles st"] True h by (auto intro!: refines_step simp: handles_sel)
    qed
  qed (auto simp: open_engine_def act_bind_def act_res_def split: sum.split)
qed

lemma process_call_handles: "handles (snd (process_call m st)) = handles st"
  by (simp add: process_call_def split: prod.split)

lemma insert_operation_refines:
  assumes "length (reg_operations (es_registry st)) < MAX_OPERATIONS"
    and "bt_contains (reg_engines (es_registry st)) e"
  shows "refines st (snd (insert_operation e op st))"
proof -
  obtain r st1 where alloc: "allocate_handle st = (r, st1)" by fastforce
  show ?thesis
  proof (cases r)
    case (Inl err)
    then show ?thesis
      using alloc allocate_handle_Inl [of st err st1]
      by (simp add: insert_operation_def refines_same)
  next
    case (Inr h)
    with alloc have h: "h = hs_next (handles st)" "h < U64_MAX"
      "handles st1 = handles st\<lparr>hs_next := Suc h\<rparr>"
      by (auto simp: allocate_handle_Inr handles_allocated)
    have "handles (snd (insert_operation e op st))
        = handles st1\<lparr>hs_operations := bt_insert h e (hs_operations (handles st1))\<rparr>"
      using alloc Inr by (simp add: insert_operation_def) (simp add: handles_def on_registry_def)
    then show ?thesis
      using hs_operation [of "handles st" e] assms h by (auto intro!: refines_step simp: handles_sel)
  qed
qed

lemma process_call_registry [simp]:
  "es_registry (snd (process_call m st)) = es_registry st"
  by (simp add: process_call_def split: prod.split)

lemma moves_begin_operation [move_intros]: "moves (begin_operation re io e p context)"
  unfolding moves_def
proof
  fix st :: "('a, 'b, 'c) engine_state"
  show "refines st (snd (begin_operation re io e p context st))"
  proof (cases "length (reg_operations (es_registry st)) < MAX_OPERATIONS")
    case True
    show ?thesis
    proof (cases "bt_get (reg_engines (es_registry st)) e")
      case (Some en)
      show ?thesis
      proof (cases "validate_fuzz_context_input re p context")
        case (Inr ctx)
        let ?start = "process_call (start_scoped ctx
            (start_operation (re_world re) (re_engine re) (ei_start io) en p)) :: (('a, 'b, 'c) engine_state, _) act"
        obtain r st1 where start: "?start st = (r, st1)" by fastforce
        have same: "es_registry st1 = es_registry st" "handles st1 = handles st"
          using process_call_registry [of _ st] process_call_handles [of _ st] start
          by (metis snd_conv)+
        have "refines st1 (snd (insert_operation e op st1))" for op
          by (rule insert_operation_refines) (use same True Some in \<open>auto simp: bt_contains_def\<close>)
        then have "refines st (snd (insert_operation e op st1))" for op
          using refines_trans [OF refines_same [OF same(2)]] by blast
        then show ?thesis
          using start True Some Inr same(2)
          by (auto simp: begin_operation_def act_bind_def act_res_def refines_same split: sum.split)
      qed (use True Some in \<open>simp add: begin_operation_def act_bind_def act_res_def\<close>)
    qed (use True in \<open>simp add: begin_operation_def act_bind_def act_res_def\<close>)
  qed (simp add: begin_operation_def)
qed

lemma moves_operation_input [move_intros]: "moves (operation_input re h p)"
  unfolding operation_input_def by (intro move_intros)

lemma moves_unowned [move_intros]: "moves (record_unowned re io h cls parent evidence)"
  unfolding record_unowned_def [abs_def] by (intro move_intros)

lemma refines_after: "refines st st1 \<Longrightarrow> moves m \<Longrightarrow> refines st (snd (m st1))"
  unfolding moves_def by (blast intro: refines_trans)

lemma moves_close_world [move_intros]: "moves (close_world_call re io h completion)"
  unfolding moves_def close_world_call_def Let_def
  by (auto split: prod.split intro!: refines_after [OF refines_process(1)] move_intros)

text \<open>Ending an operation: its entry and its observations go together.\<close>

lemma handles_forget_observations:
  "handles (remove_operation_observations h st)
     = handles st\<lparr>hs_observations := bt_retain (\<lambda>_ h'. h' \<noteq> h) (hs_observations (handles st))\<rparr>"
  by (simp add: remove_operation_observations_def on_registry_def handles_def
      bt_map_values_retain [where Q = "\<lambda>_ h'. h' \<noteq> h"])

lemma handles_take_operation:
  "handles (snd (take_operation h st))
     = handles st\<lparr>hs_operations := bt_remove h (hs_operations (handles st))\<rparr>"
  by (simp add: take_operation_def on_registry_def handles_def)

lemma moves_finish_operation [move_intros]: "moves (finish_operation finish h)"
  unfolding moves_def
proof
  fix st :: "('a, 'b, 'c) engine_state"
  let ?st = "sentinel_call (remove_operation h) (remove_operation_observations h st)"
  have "handles (snd (finish_operation finish h st)) = handles (snd (take_operation h ?st))"
    by (simp add: finish_operation_def act_bind_def act_do_def act_res_def split: prod.split sum.split)
  also have "\<dots> = handles st\<lparr>hs_operations := bt_remove h (hs_operations (handles st)),
       hs_observations := bt_retain (\<lambda>_ h'. h' \<noteq> h) (hs_observations (handles st))\<rparr>"
    by (simp add: handles_take_operation handles_forget_observations)
  finally show "refines st (snd (finish_operation finish h st))"
    using hs_end [of "handles st" h] by (auto intro!: refines_step)
qed

lemma moves_succeed [move_intros]: "moves (succeed_operation h)"
  and moves_abandon_operation [move_intros]: "moves (abandon_operation h)"
  by (simp_all add: succeed_operation_def abandon_operation_def move_intros)

section \<open>Failing and waiting\<close>

lemma handles_or_else: "(\<And>st. handles (f st) = handles st) \<Longrightarrow> handles (snd (or_else f m st)) = handles (snd (m st))"
  by (auto simp: or_else_def split: prod.split sum.split)

lemma take_failure_operation_cases:
  "take_failure_operation h full st = (r, st1) \<Longrightarrow>
     handles st1 = handles st\<lparr>hs_operations := bt_remove h (hs_operations (handles st))\<rparr>
     \<and> (\<forall>entry. r = Inr entry \<longrightarrow> bt_get (hs_operations (handles st)) h = Some (oe_engine entry) \<and> \<not> full)"
  using handles_take_operation [of h st]
  by (auto simp: take_failure_operation_def act_bind_def act_do_def act_res_def take_operation_def handles_sel
      split: prod.splits sum.splits if_splits)

lemma prepare_failure_cases:
  "prepare_failure entry failure token st = (r, st1) \<Longrightarrow>
     (case r of
        Inl e \<Rightarrow> handles st1 = handles st
      | Inr (sink, task) \<Rightarrow> sink = hs_next (handles st) \<and> task = hs_tasks (handles st) \<and> sink < U64_MAX
          \<and> handles st1 = handles st\<lparr>hs_next := Suc sink, hs_tasks := Suc task,
              hs_sinks := bt_insert sink (oe_engine entry, task) (hs_sinks (handles st))\<rparr>)"
  by (auto simp: prepare_failure_def act_bind_def or_else_def allocate_handle_Inr Let_def
      dest!: allocate_handle_Inl split: prod.splits sum.splits)
    (auto simp: handles_def on_registry_def)

lemma validate_failure_token_cases:
  "validate_failure_token entry token st = (r, st1) \<Longrightarrow>
     handles st1 = handles st \<and> (\<forall>x. r = Inr x \<longrightarrow> st1 = st \<and> fst x = entry)"
  by (auto simp: validate_failure_token_def or_else_def act_bind_def act_res_def
      split: prod.splits sum.splits)

lemma moves_take_failed [move_intros]: "moves (take_failed h failure token)"
  unfolding moves_def
proof
  fix st :: "('a, 'b, 'c) engine_state"
  let ?full = "length (reg_sinks (es_registry st)) \<ge> MAX_SINKS"
  obtain r st1 where taken: "take_failure_operation h ?full st = (r, st1)" by fastforce
  note taken' = take_failure_operation_cases [OF taken]
  let ?st2 = "sentinel_call (remove_operation h) (remove_operation_observations h st1)"
  let ?ended = "handles st\<lparr>hs_operations := bt_remove h (hs_operations (handles st)),
       hs_observations := bt_retain (\<lambda>_ h'. h' \<noteq> h) (hs_observations (handles st))\<rparr>"
  have st2: "handles ?st2 = ?ended" using taken' by (simp add: handles_forget_observations)
  have ended: "refines st st'" if "handles st' = ?ended" for st' :: "('a, 'b, 'c) engine_state"
    using hs_end [of "handles st" h] that by (auto intro!: refines_step)
  show "refines st (snd (take_failed h failure token st))"
  proof (cases r)
    case (Inl e)
    then show ?thesis
      using ended [OF st2] by (simp add: take_failed_def taken act_bind_def act_res_def)
  next
    case (Inr entry)
    obtain r3 st3 where valid: "validate_failure_token entry token ?st2 = (r3, st3)" by fastforce
    note valid' = validate_failure_token_cases [OF valid]
    show ?thesis
    proof (cases r3)
      case (Inl e)
      then show ?thesis
        using ended [of st3] valid' st2 Inr
        by (simp add: take_failed_def taken act_bind_def act_res_def valid)
    next
      case Inr3: (Inr x)
      obtain token' where x: "x = (entry, token')" using valid' Inr3 by (cases x) auto
      obtain r4 st4 where prep: "prepare_failure entry failure token' ?st2 = (r4, st4)" by fastforce
      have result: "snd (take_failed h failure token st) = st4"
        using prep valid valid' Inr Inr3 x by (simp add: take_failed_def taken act_bind_def act_res_def)
      show ?thesis
      proof (cases r4)
        case (Inl e)
        then show ?thesis using ended [of st4] prepare_failure_cases [OF prep] st2 result by simp
      next
        case (Inr y)
        then have new: "handles st4 = ?ended\<lparr>hs_next := Suc (hs_next (handles st)),
              hs_tasks := Suc (hs_tasks (handles st)),
              hs_sinks := bt_insert (hs_next (handles st)) (oe_engine entry, hs_tasks (handles st))
                (hs_sinks (handles st))\<rparr>" "hs_next (handles st) < U64_MAX"
          using prepare_failure_cases [OF prep] st2 by auto
        have "bt_get (hs_operations (handles st)) h = Some (oe_engine entry)" "\<not> ?full"
          using taken' \<open>r = Inr entry\<close> by auto
        from hs_fail [of "handles st", OF new(2) _ this(1)] this(2)
        show ?thesis by (auto intro!: refines_step simp: result new handles_sel)
      qed
    qed
  qed
qed

lemma refines_remove_sink [move_intros]: "refines st (remove_sink_if_same sink task st)"
  using hs_sink [of "handles st" sink]
  by (auto simp: remove_sink_if_same_def on_registry_def handles_def intro!: refines_step split: option.split)

lemma refines_reject [move_intros]: "refines st (reject_failure_enqueue sink task st)"
  unfolding reject_failure_enqueue_def
  by (rule refines_trans [OF refines_same [OF handles_cancel] refines_remove_sink])

lemma moves_send_failed [move_intros]: "moves (send_failed sink task)"
  unfolding moves_def
proof
  fix st :: "('a, 'b, 'c) engine_state"
  show "refines st (snd (send_failed sink task st))"
    by (auto simp: send_failed_def split: option.split prod.split
        intro!: refines_after [OF refines_same] move_intros)
qed

lemma refines_get_worker [move_intros]: "refines st (get_worker spawned st)"
  by (simp add: get_worker_def refines_same split: option.split)

lemma moves_enqueue [move_intros]: "moves (enqueue_failure io h failure token)"
  unfolding moves_def enqueue_failure_def
  by (auto intro!: refines_after [OF refines_get_worker] move_intros)

lemma moves_answer_sink [move_intros]: "moves (answer_sink sink task answer)"
  by (auto simp: moves_def answer_sink_def move_intros split: sum.split)

lemma refines_worker [move_intros]: "refines st (worker_take st)" "refines st (worker_run fail st)"
  by (auto simp: worker_take_def worker_run_def handles_def intro!: refines_same
      split: option.split prod.split list.split)

section \<open>Closing an engine\<close>

lemma fold_forget_operation:
  "es_registry (fold forget_operation hs st) = (es_registry st)\<lparr>reg_observations :=
     bt_retain (\<lambda>_ entry. be_operation entry \<notin> set hs) (reg_observations (es_registry st))\<rparr>
   \<and> es_tasks (fold forget_operation hs st) = es_tasks st"
proof (induction hs arbitrary: st)
  case Nil
  then show ?case by (simp add: bt_retain_def)
next
  case (Cons h hs)
  have "es_registry (forget_operation h st) = (es_registry st)\<lparr>reg_observations :=
      bt_retain (\<lambda>_ entry. be_operation entry \<noteq> h) (reg_observations (es_registry st))\<rparr>"
    "es_tasks (forget_operation h st) = es_tasks st"
    by (simp_all add: forget_operation_def sentinel_call_def on_process_def
        remove_operation_observations_def on_registry_def)
  with Cons show ?case by (simp add: bt_retain_def case_prod_unfold)
qed

lemma fold_end_entry: "handles (fold (end_entry finish) entries st) = handles st"
  by (induction entries arbitrary: st) simp_all

lemma fold_cancel: "handles (fold (\<lambda>entry. cancel_task (se_task entry)) entries st) = handles st"
  by (induction entries arbitrary: st) simp_all

lemma handles_close_engine:
  assumes "bt_get (reg_engines (es_registry st)) e = Some en"
  shows "handles (snd (close_engine e st)) = handles st\<lparr>hs_engines := bt_remove e (hs_engines (handles st)),
       hs_observations := bt_retain (\<lambda>_ h. (h, e) \<notin> set (hs_operations (handles st)))
         (hs_observations (handles st)),
       hs_operations := bt_retain (\<lambda>_ e'. e' \<noteq> e) (hs_operations (handles st)),
       hs_sinks := bt_retain (\<lambda>_ (e', _). e' \<noteq> e) (hs_sinks (handles st))\<rparr>"
proof -
  let ?st1 = "on_process (engine_drop en)
      (on_registry (\<lambda>rg. rg\<lparr>reg_engines := bt_remove e (reg_engines rg)\<rparr>) st)"
  let ?hs = "map fst (filter (\<lambda>(_, entry). oe_engine entry = e) (reg_operations (es_registry ?st1)))"
  let ?st2 = "fold forget_operation ?hs ?st1"
  have hs: "h \<in> set ?hs \<longleftrightarrow> (h, e) \<in> set (hs_operations (handles st))" for h
    by (force simp: handles_sel bt_map_values_def on_process_def on_registry_def)
  have st2: "handles ?st2 = handles st\<lparr>hs_engines := bt_remove e (hs_engines (handles st)),
      hs_observations := bt_retain (\<lambda>_ h. (h, e) \<notin> set (hs_operations (handles st)))
        (hs_observations (handles st))\<rparr>"
    using fold_forget_operation [of ?hs ?st1] hs
    by (simp add: handles_def bt_map_values_retain [where Q = "\<lambda>_ h. h \<notin> set ?hs"])
      (simp add: on_process_def on_registry_def)
  have operations: "handles (remove_engine_operations e st') = handles st'\<lparr>hs_operations :=
      bt_retain (\<lambda>_ e'. e' \<noteq> e) (hs_operations (handles st'))\<rparr>" for st' :: "('a, 'b, 'c) engine_state"
    unfolding remove_engine_operations_def fold_end_entry
    by (simp add: on_registry_def handles_def bt_map_values_retain [where Q = "\<lambda>_ e'. e' \<noteq> e"])
  have sinks: "handles (remove_engine_sinks e st') = handles st'\<lparr>hs_sinks :=
      bt_retain (\<lambda>_ (e', _). e' \<noteq> e) (hs_sinks (handles st'))\<rparr>" for st' :: "('a, 'b, 'c) engine_state"
    unfolding remove_engine_sinks_def fold_cancel
    by (simp add: on_registry_def handles_def bt_map_values_retain [where Q = "\<lambda>_ (e', _). e' \<noteq> e"])
  have "handles (snd (close_engine e st))
      = handles (remove_engine_sinks e (remove_engine_operations e ?st2))"
    using assms by (simp add: close_engine_def Let_def)
  then show ?thesis by (simp add: st2 operations sinks)
qed

lemma moves_close_engine [move_intros]: "moves (close_engine e)"
  unfolding moves_def
proof
  fix st :: "('a, 'b, 'c) engine_state"
  show "refines st (snd (close_engine e st))"
  proof (cases "bt_get (reg_engines (es_registry st)) e")
    case (Some en)
    then show ?thesis
      using hs_close [of "handles st" e] by (auto intro!: refines_step simp: handles_close_engine)
  qed (simp add: close_engine_def)
qed

section \<open>The sections of the calls\<close>

lemma moves_open_observation_call [move_intros]: "moves (open_observation_call io h cls parent)"
  unfolding open_observation_call_def by (intro move_intros)

lemma moves_observation_call [move_intros]: "moves (dispatch_observation_call re io call)"
  by (cases call) (simp_all add: dispatch_observation_call_def move_intros)

lemma moves_operation [move_intros]: "moves (dispatch_operation re io call)"
  by (cases call) (simp_all add: dispatch_operation_def move_intros)

lemma moves_immediate [move_intros]: "moves (dispatch_immediate re io call)"
  by (cases call) (simp_all add: dispatch_immediate_def move_intros)

text \<open>
  A call without a wait holds the lock of the registry throughout; failing an operation and waiting
  for a sink release it between their sections, so another call or the worker may come between.
  The scope of the sentinel, and whatever else of the process changes, is \<open>section_process\<close>.
\<close>

inductive engine_section ::
  "('r, 'p) registry_env \<Rightarrow> ('p, 'r, 's) engine_state \<Rightarrow> ('p, 'r, 's) engine_state \<Rightarrow> bool"
  for re :: "('r, 'p) registry_env" where
  section_immediate: "engine_section re st (snd (dispatch_immediate re io call st))"
| section_process: "engine_section re st (on_process f st)"
| section_worker: "engine_section re st (get_worker spawned st)"
| section_failed: "engine_section re st (snd (take_failed h failure token st))"
| section_send: "engine_section re st (snd (send_failed sink task st))"
| section_answer: "engine_section re st (snd (answer_sink sink task answer st))"
| section_take: "engine_section re st (worker_take st)"
| section_run: "engine_section re st (worker_run fail st)"

lemma section_refines: "engine_section re st st' \<Longrightarrow> refines st st'"
  by (induction rule: engine_section.induct) (auto intro: move_intros simp: move_intros [unfolded moves_def])

lemma sections_refine: "(engine_section re)\<^sup>*\<^sup>* st st' \<Longrightarrow> refines st st'"
  by (induction rule: rtranclp_induct) (auto dest: section_refines intro: refines_trans)

end
