(* ===== verification/Registry_Dependency.thy ===== *)
theory Registry_Dependency
  imports Registry_Handles World_Safety
begin

text \<open>
  The dependency calls of the registry: opening and finishing a dependency work on one observation,
  and leave nothing of it behind when they fail.
\<close>

section \<open>One observation\<close>

abbreviation traced :: "('p, 'r, 's) engine_state \<Rightarrow> (nat, traced_observation) btree" where
  "traced st \<equiv> ct_observations (ps_controller (es_process st))"

abbreviation registered :: "('p, 'r, 's) engine_state \<Rightarrow> (nat, observation_entry) btree" where
  "registered st \<equiv> reg_observations (es_registry st)"

definition sorted_state :: "('p, 'r, 's) engine_state \<Rightarrow> bool" where
  "sorted_state st \<longleftrightarrow> tables_ok (handles st) \<and> bt_ok (traced st)"

text \<open>Nothing but the observation \<open>ob\<close> changes, in the registry and in the sentinel.\<close>

definition touches :: "nat \<Rightarrow> ('p, 'r, 's) engine_state \<Rightarrow> ('p, 'r, 's) engine_state \<Rightarrow> bool" where
  "touches ob st st' \<longleftrightarrow>
     (sorted_state st \<longrightarrow> sorted_state st'
        \<and> (\<forall>k. k \<noteq> ob \<longrightarrow> bt_get (registered st') k = bt_get (registered st) k
              \<and> bt_get (traced st') k = bt_get (traced st) k))"

definition in_session :: "nat \<Rightarrow> ('p, 'r, 's) engine_state \<Rightarrow> bool" where
  "in_session ob st \<longleftrightarrow> (\<exists>entry. bt_get (registered st) ob = Some entry \<and> be_session entry \<noteq> None)"

definition forgotten :: "nat \<Rightarrow> ('p, 'r, 's) engine_state \<Rightarrow> bool" where
  "forgotten ob st \<longleftrightarrow>
     bt_get (registered st) ob = None \<and> \<not> observation_is_active ob (ps_controller (es_process st))"

text \<open>
  \<open>guarded ob m\<close>: in a session of \<open>ob\<close>, \<open>m\<close> works on \<open>ob\<close> only; a success leaves the session, an
  error leaves nothing.  \<open>unguarded ob m\<close> promises nothing of an error.
\<close>

definition unguarded :: "nat \<Rightarrow> (('p, 'r, 's) engine_state, 'a) act \<Rightarrow> bool" where
  "unguarded ob m \<longleftrightarrow> (\<forall>st r st'. m st = (r, st') \<longrightarrow> touches ob st st'
     \<and> (sorted_state st \<longrightarrow> in_session ob st \<longrightarrow> is_ok r \<longrightarrow> in_session ob st'))"

definition guarded :: "nat \<Rightarrow> (('p, 'r, 's) engine_state, 'a) act \<Rightarrow> bool" where
  "guarded ob m \<longleftrightarrow> unguarded ob m \<and> (\<forall>st e st'. m st = (Inl e, st') \<longrightarrow> sorted_state st \<longrightarrow>
     in_session ob st \<longrightarrow> forgotten ob st')"

named_theorems guard_intros \<open>calls on one observation\<close>

lemma touches_refl [simp, intro]: "touches ob st st"
  by (simp add: touches_def)

lemma touches_trans: "touches ob st1 st2 \<Longrightarrow> touches ob st2 st3 \<Longrightarrow> touches ob st1 st3"
  by (simp add: touches_def)

lemma unguarded_bind [guard_intros]:
  assumes "unguarded ob m" "\<And>x. unguarded ob (f x)"
  shows "unguarded ob (act_bind m f)"
  unfolding unguarded_def
proof (intro allI impI conjI)
  fix st r st'
  assume run: "act_bind m f st = (r, st')"
  obtain r1 st1 where m: "m st = (r1, st1)" by fastforce
  note m' = assms(1) [unfolded unguarded_def, rule_format, OF m]
  show "touches ob st st'"
  proof (cases r1)
    case (Inr x)
    then have "f x st1 = (r, st')" using run m by (simp add: act_bind_def)
    with assms(2) have "touches ob st1 st'" by (auto simp: unguarded_def)
    then show ?thesis using m' by (blast intro: touches_trans)
  qed (use run m m' in \<open>auto simp: act_bind_def\<close>)
  show "in_session ob st'" if "sorted_state st" "in_session ob st" "is_ok r"
  proof (cases r1)
    case (Inr x)
    then have "f x st1 = (r, st')" using run m by (simp add: act_bind_def)
    moreover have "sorted_state st1" "in_session ob st1" using m' that Inr by (auto simp: touches_def)
    ultimately show ?thesis using assms(2) that(3) by (auto simp: unguarded_def)
  qed (use run m that in \<open>auto simp: act_bind_def\<close>)
qed

lemma guarded_bind [guard_intros]:
  assumes "guarded ob m" "\<And>x. guarded ob (f x)"
  shows "guarded ob (act_bind m f)"
  unfolding guarded_def
proof (intro conjI allI impI)
  show "unguarded ob (act_bind m f)" using assms by (intro unguarded_bind) (simp_all add: guarded_def)
  fix st e st'
  assume run: "act_bind m f st = (Inl e, st')" and st: "sorted_state st" "in_session ob st"
  obtain r1 st1 where m: "m st = (r1, st1)" by fastforce
  show "forgotten ob st'"
  proof (cases r1)
    case (Inl e1)
    then show ?thesis using run m st assms(1) by (auto simp: act_bind_def guarded_def)
  next
    case (Inr x)
    have "sorted_state st1" "in_session ob st1"
      using assms(1) m st Inr by (auto simp: guarded_def unguarded_def touches_def)
    moreover have "f x st1 = (Inl e, st')" using run m Inr by (simp add: act_bind_def)
    ultimately show ?thesis using assms(2) by (auto simp: guarded_def)
  qed
qed

lemma guarded_or_else [guard_intros]:
  assumes "unguarded ob m" "\<And>st. touches ob st (cleanup st)"
    "\<And>st. sorted_state st \<Longrightarrow> forgotten ob (cleanup st)"
  shows "guarded ob (or_else cleanup m)"
  using assms
  by (auto simp: guarded_def unguarded_def or_else_def touches_def split: prod.splits sum.splits)

lemma unguarded_or_else [guard_intros]:
  assumes "unguarded ob m" "\<And>st. touches ob st (cleanup st)"
  shows "unguarded ob (or_else cleanup m)"
  using assms
  by (auto simp: unguarded_def or_else_def touches_def split: prod.splits sum.splits)

lemma unguarded_res [guard_intros]: "unguarded ob (act_res r)"
  by (simp add: unguarded_def act_res_def)

lemma guarded_ok [guard_intros]: "guarded ob (act_res (Inr x))"
  by (simp add: guarded_def unguarded_def act_res_def)

lemma guardedD:
  "guarded ob m \<Longrightarrow> m st = (r, st') \<Longrightarrow> touches ob st st'"
  "guarded ob m \<Longrightarrow> m st = (Inr x, st') \<Longrightarrow> sorted_state st \<Longrightarrow> in_session ob st \<Longrightarrow> in_session ob st'"
  "guarded ob m \<Longrightarrow> m st = (Inl e, st') \<Longrightarrow> sorted_state st \<Longrightarrow> in_session ob st \<Longrightarrow> forgotten ob st'"
  unfolding guarded_def unguarded_def by (blast, metis is_ok_simps(2), blast)

lemma touchesD:
  "touches ob st st' \<Longrightarrow> sorted_state st \<Longrightarrow> sorted_state st'"
  "touches ob st st' \<Longrightarrow> sorted_state st \<Longrightarrow> k \<noteq> ob \<Longrightarrow>
     bt_get (registered st') k = bt_get (registered st) k \<and> bt_get (traced st') k = bt_get (traced st) k"
  unfolding touches_def by blast+

section \<open>What each call touches\<close>

lemma mark_all_observations [simp]: "ct_observations (mark_all_incomplete c) = ct_observations c"
  by (simp add: mark_all_incomplete_def)

lemma drain_loop_observations:
  "drain_loop rt c = (rt1, c1) \<Longrightarrow> ct_observations c1 = ct_observations c"
proof (induction rt c rule: drain_loop.induct)
  case (1 rt c)
  obtain events rt2 where read: "runtime_drain 64 rt = (events, rt2)" by fastforce
  show ?case
  proof (cases "length events < 64")
    case True
    then show ?thesis using "1.prems" read by (subst (asm) drain_loop.simps) (auto simp: Let_def)
  next
    case False
    then have "drain_loop rt2 (fold apply_event events c) = (rt1, c1)"
      using "1.prems" read by (subst (asm) drain_loop.simps) (simp add: Let_def)
    from "1.IH" [OF read [symmetric] refl refl False this] show ?thesis by simp
  qed
qed

lemma drain_observations [simp]: "ct_observations (drain c) = ct_observations c"
  by (auto simp: drain_def Let_def dest: drain_loop_observations split: option.split prod.split)

lemma scope_observations [simp]:
  "ct_observations (scope_drop guard c) = ct_observations c"
  "engine_call_scope t c = (g, c') \<Longrightarrow> ct_observations c' = ct_observations c"
  by (auto simp: scope_drop_def engine_call_scope_def split: option.splits prod.splits)

lemma coordinator_call_traced:
  "ct_observations (ps_controller (snd (snd (coordinator_call action st))))
     = ct_observations (ps_controller (snd st))"
  by (auto simp: coordinator_call_def scoped_def on_contexts_def on_controller_def split: prod.split)

lemma with_operation_touches:
  "with_operation h (coordinator_call action) st = (r, st') \<Longrightarrow>
     registered st' = registered st \<and> traced st' = traced st
     \<and> (tables_ok (handles st) \<longrightarrow> handles st' = handles st)"
  using handles_with_operation [of st h "coordinator_call action"]
    coordinator_call_traced [of action]
  by (auto simp: with_operation_def on_registry_def split: option.splits prod.splits)
    (metis snd_conv)+

lemma unguarded_same:
  assumes "\<And>st r st'. m st = (r, st') \<Longrightarrow> registered st' = registered st \<and> traced st' = traced st
     \<and> (tables_ok (handles st) \<longrightarrow> handles st' = handles st)"
  shows "unguarded ob m"
  using assms by (force simp: unguarded_def touches_def sorted_state_def in_session_def)

lemma unguarded_with_operation [guard_intros]: "unguarded ob (with_operation h (coordinator_call action))"
  by (rule unguarded_same) (rule with_operation_touches)

lemmas operation_calls = operation_open_observation_def operation_write_def operation_dispatch_def
  operation_read_def operation_finish_def operation_abandon_observation_def

lemma unguarded_lookups [guard_intros]:
  "unguarded ob (require_operation h)" "unguarded ob (operation_for_observation ob')"
  by (rule unguarded_same; simp add: require_operation_def operation_for_observation_def)+

lemma handles_sorted: "tables_ok (handles st) \<Longrightarrow> bt_ok (registered st)"
  by (simp add: tables_ok_def handles_sel)

lemma remove_observation_simps [simp]:
  "registered (remove_observation ob st) = bt_remove ob (registered st)"
  "traced (remove_observation ob st) = traced st"
  "reg_operations (es_registry (remove_observation ob st)) = reg_operations (es_registry st)"
  by (simp_all add: remove_observation_def on_registry_def)

lemma tables_ok_refines: "refines st st' \<Longrightarrow> tables_ok (handles st) \<Longrightarrow> tables_ok (handles st')"
  by (auto simp: refines_def dest: tables_ok_steps)

lemma touches_remove: "touches ob st (remove_observation ob st)"
  using tables_ok_refines [OF refines_forget]
  by (auto simp: touches_def sorted_state_def dest: handles_sorted)

lemma touches_invalidate [guard_intros]: "touches ob st (invalidate_semantic_observation ob st)"
proof (cases "bt_get (registered st) ob")
  case (Some entry)
  obtain r st' where call: "with_operation (be_operation entry) (operation_abandon_observation ob)
      (remove_observation ob st) = (r, st')" by fastforce
  have "touches ob (remove_observation ob st) st'"
    using unguarded_with_operation [of ob "be_operation entry" "abandon_observation ob"] call
    by (auto simp: unguarded_def operation_abandon_observation_def)
  then show ?thesis
    using Some call touches_trans [OF touches_remove]
    by (simp add: invalidate_semantic_observation_def)
qed (simp add: invalidate_semantic_observation_def)

lemma invalidate_parts:
  assumes "sorted_state st"
  shows "bt_get (registered (invalidate_semantic_observation ob st)) ob = None
    \<and> traced (invalidate_semantic_observation ob st) = traced st"
proof (cases "bt_get (registered st) ob")
  case (Some entry)
  obtain r st' where call: "with_operation (be_operation entry) (operation_abandon_observation ob)
      (remove_observation ob st) = (r, st')" by fastforce
  have "bt_ok (registered st)" using assms handles_sorted by (auto simp: sorted_state_def)
  then show ?thesis
    using with_operation_touches [OF call [unfolded operation_abandon_observation_def]] Some call
    by (simp add: invalidate_semantic_observation_def)
qed (simp add: invalidate_semantic_observation_def)

lemma sentinel_call_simps [simp]:
  "registered (sentinel_call f st) = registered st"
  "ps_controller (es_process (sentinel_call f st)) = f (ps_controller (es_process st))"
  "reg_operations (es_registry (sentinel_call f st)) = reg_operations (es_registry st)"
  by (simp_all add: sentinel_call_def on_process_def on_controller_def)

lemma observation_finished_traced:
  "ct_observations (observation_finished ob c) = bt_remove ob (ct_observations c)"
  by (simp add: observation_finished_def Let_def split: option.split)

lemma observation_dispatched_traced:
  "k \<noteq> ob \<Longrightarrow> bt_get (ct_observations (observation_dispatched ob t c)) k = bt_get (ct_observations c) k"
  "bt_ok (ct_observations c) \<Longrightarrow> bt_ok (ct_observations (observation_dispatched ob t c))"
  by (simp_all add: observation_dispatched_def Let_def split: option.split)

lemma touches_finished [guard_intros]: "touches ob st (sentinel_call (observation_finished ob) st)"
  by (simp add: touches_def sorted_state_def observation_finished_traced)

lemma touches_dispatched [guard_intros]: "touches ob st (sentinel_dispatched ob st)"
  by (simp add: touches_def sorted_state_def sentinel_dispatched_def observation_dispatched_traced)

lemma touches_cleanup [guard_intros]: "touches ob st (cleanup_dependency ob st)"
  unfolding cleanup_dependency_def by (rule touches_trans [OF touches_finished touches_invalidate])

lemma cleanup_forgets [guard_intros]:
  assumes "sorted_state st"
  shows "forgotten ob (cleanup_dependency ob st)"
proof -
  have "sorted_state (sentinel_call (observation_finished ob) st)"
    using touches_finished [of ob st] assms unfolding touches_def by blast
  from invalidate_parts [OF this, of ob] show ?thesis
    using assms by (simp add: forgotten_def cleanup_dependency_def observation_is_active_def
        observation_finished_traced sorted_state_def)
qed

section \<open>The dependency calls\<close>

lemma session_call_cases:
  assumes "session_call absent cleanup ob m st = (r, st')"
  obtains "bt_get (registered st) ob = None" "r = Inl NotFound" "st' = st"
  | entry where "bt_get (registered st) ob = Some entry" "be_session entry = None" "r = absent" "st' = st"
  | entry se se1 where "bt_get (registered st) ob = Some entry" "be_session entry = Some se"
      "m se = (r, se1)"
      "st' = (let st1 = on_registry (\<lambda>rg. rg\<lparr>reg_observations :=
          bt_insert ob (entry\<lparr>be_session := Some se1\<rparr>) (reg_observations rg)\<rparr>) st
        in if is_ok r then st1 else cleanup st1)"
  using assms
  by (auto simp: session_call_def or_else_def Let_def split: option.splits prod.splits sum.splits)

lemma update_session:
  fixes st :: "('p, 'r, 's) engine_state"
  assumes "bt_get (registered st) ob = Some entry"
    and "st1 = on_registry (\<lambda>rg. rg\<lparr>reg_observations :=
      bt_insert ob (entry\<lparr>be_session := Some se\<rparr>) (reg_observations rg)\<rparr>) st"
  shows "touches ob st st1 \<and> in_session ob st1"
proof -
  have "handles st1 = handles st" if "tables_ok (handles st)"
    using assms that by (simp add: handles_def on_registry_def tables_ok_def bt_insert_same)
  then show ?thesis
    using assms by (auto simp: touches_def sorted_state_def in_session_def on_registry_def)
qed

lemma unguarded_session_call [guard_intros]:
  assumes "\<And>st. touches ob st (cleanup st)"
  shows "unguarded ob (session_call absent cleanup ob m)"
  unfolding unguarded_def
proof (intro allI impI)
  fix st r and st' :: "('a, 'b, 'c) engine_state"
  assume "session_call absent cleanup ob m st = (r, st')"
  then show "touches ob st st' \<and> (sorted_state st \<longrightarrow> in_session ob st \<longrightarrow> is_ok r \<longrightarrow> in_session ob st')"
  proof (cases rule: session_call_cases)
    case (3 entry se se1)
    then show ?thesis
      using update_session [OF 3(1) refl, of se1] assms
      by (auto simp: Let_def intro: touches_trans)
  qed auto
qed

lemma guarded_session_call [guard_intros]:
  "guarded ob (session_call absent (cleanup_dependency ob) ob m)"
  unfolding guarded_def
proof (intro conjI allI impI)
  show "unguarded ob (session_call absent (cleanup_dependency ob) ob m)"
    by (intro guard_intros)
  fix st e and st' :: "('a, 'b, 'c) engine_state"
  assume run: "session_call absent (cleanup_dependency ob) ob m st = (Inl e, st')"
    and st: "sorted_state st" "in_session ob st"
  from run show "forgotten ob st'"
  proof (cases rule: session_call_cases)
    case (3 entry se se1)
    then show ?thesis
      using update_session [OF 3(1) refl, of se1] st by (auto simp: Let_def touches_def intro: cleanup_forgets)
  qed (use st in \<open>auto simp: in_session_def\<close>)
qed

lemma unguarded_if [guard_intros]:
  "unguarded ob m \<Longrightarrow> unguarded ob m' \<Longrightarrow> unguarded ob (\<lambda>st. if P then m st else m' st)"
  by (cases P) simp_all

lemma unguarded_result [guard_intros]: "unguarded ob (\<lambda>st. (r, st))"
  by (simp add: unguarded_def)

lemma unguarded_write_bytes [guard_intros]: "unguarded ob (write_observation_bytes re io ob stream chunk)"
  unfolding write_observation_bytes_def [abs_def] operation_calls by (intro guard_intros)

lemma unguarded_write_records: "unguarded ob (write_records re io ob stream records)"
  by (induction records) (simp_all, (intro guard_intros | assumption)+)

lemma unguarded_write_record [guard_intros]: "unguarded ob (write_dependency_record re io ob stream data)"
  unfolding write_dependency_record_def by (rule unguarded_write_records)

lemma unguarded_dispatch [guard_intros]: "unguarded ob (dispatch_registry_observation re io ob)"
  unfolding dispatch_registry_observation_def operation_calls by (intro guard_intros)

lemma guarded_dispatched [guard_intros]: "guarded ob (act_do (sentinel_dispatched ob))"
  using touches_dispatched [of ob]
  by (auto simp: guarded_def unguarded_def act_do_def in_session_def sentinel_dispatched_def)

lemma guarded_prepare: "guarded ob (prepare_dependency re io ob pos data)"
  unfolding prepare_dependency_def by (intro guard_intros)

lemma guarded_pair [guard_intros]: "(\<And>x y. guarded ob (f x y)) \<Longrightarrow> guarded ob (case p of (x, y) \<Rightarrow> f x y)"
  by (cases p) simp

lemma guarded_option [guard_intros]:
  "guarded ob m \<Longrightarrow> (\<And>x. guarded ob (f x)) \<Longrightarrow> guarded ob (case v of None \<Rightarrow> m | Some x \<Rightarrow> f x)"
  by (cases v) simp_all

lemma guarded_supply [guard_intros]: "guarded ob (supply_response re io ob input)"
  unfolding supply_response_def by (intro guard_intros)

section \<open>Finishing\<close>

text \<open>\<open>local ob m\<close>: only \<open>ob\<close> changes, whatever \<open>m\<close> answers.\<close>

definition local_to :: "nat \<Rightarrow> (('p, 'r, 's) engine_state, 'a) act \<Rightarrow> bool" where
  "local_to ob m \<longleftrightarrow> (\<forall>st r st'. m st = (r, st') \<longrightarrow> touches ob st st')"

lemma unguarded_local: "unguarded ob m \<Longrightarrow> local_to ob m"
  by (auto simp: unguarded_def local_to_def)

lemma act_bind_assoc: "act_bind (act_bind m f) g = act_bind m (\<lambda>x. act_bind (f x) g)"
  by (auto simp: fun_eq_iff act_bind_def split: prod.split sum.split)

lemma act_bind_Inr [simp]: "act_bind (act_res (Inr x)) f = f x"
  by (simp add: fun_eq_iff act_bind_def act_res_def)

text \<open>Everything of \<open>finish_observation_inner\<close> but the removal of the observation.\<close>

definition finish_checked ::
  "('r, 'p) registry_env \<Rightarrow> engine_io \<Rightarrow> nat \<Rightarrow> dependency_outcome \<Rightarrow> nat
     \<Rightarrow> (('p, 'r, 's) engine_state, dependency_response option) act" where
  "finish_checked re io ob outcome pos =
     act_bind (operation_for_observation ob) (\<lambda>h.
     act_bind (session_call (Inr None) (invalidate_semantic_observation ob) ob
       (act_bind (dependency_finish (re_world re) (re_dependency re) outcome)
          (\<lambda>response. act_res (Inr (Some response))))) (\<lambda>response.
     act_bind (require_operation h) (\<lambda>_.
     act_bind (or_else (invalidate_semantic_observation ob)
       (with_operation h (operation_finish (re_world re) (ei_world io) ob outcome pos))) (\<lambda>_.
     act_bind (operation_for_observation ob) (\<lambda>_. act_res (Inr response))))))"

lemma finish_inner_split:
  "finish_observation_inner re io ob outcome pos =
     act_bind (finish_checked re io ob outcome pos)
       (\<lambda>response. act_bind (act_do (remove_observation ob)) (\<lambda>_. act_res (Inr response)))"
  by (simp add: finish_observation_inner_def finish_checked_def act_bind_assoc)

lemma unguarded_finish_checked: "unguarded ob (finish_checked re io ob outcome pos)"
  unfolding finish_checked_def operation_calls by (intro guard_intros)

lemma finish_inner_parts:
  assumes "finish_observation_inner re io ob outcome pos st = (r, st')"
  shows "touches ob st st'"
    and "sorted_state st \<Longrightarrow> r = Inr x \<Longrightarrow> bt_get (registered st') ob = None"
proof -
  obtain r1 st1 where checked: "finish_checked re io ob outcome pos st = (r1, st1)" by fastforce
  then have st1: "touches ob st st1"
    using unguarded_finish_checked [of ob re io outcome pos] by (auto simp: unguarded_def)
  have cases: "st' = (if is_ok r1 then remove_observation ob st1 else st1)" "is_ok r = is_ok r1"
    using assms checked
    by (auto simp: finish_inner_split act_bind_def act_do_def act_res_def split: sum.splits)
  then show "touches ob st st'" using touches_trans [OF st1 touches_remove] st1 by simp
  assume "sorted_state st" "r = Inr x"
  then have "bt_ok (registered st1)"
    using st1 by (auto simp: touches_def sorted_state_def intro: handles_sorted)
  then show "bt_get (registered st') ob = None" using cases \<open>r = Inr x\<close> by simp
qed

text \<open>The middle of \<open>finish_dependency\<close> works on the session.\<close>

definition finish_middle ::
  "('r, 'p) registry_env \<Rightarrow> engine_io \<Rightarrow> nat \<Rightarrow> dependency_response_input option
     \<Rightarrow> (('p, 'r, 's) engine_state, dependency_response) act" where
  "finish_middle re io ob response =
     act_bind (session_call (Inl IncompleteCandidate) (cleanup_dependency ob) ob
       (\<lambda>se. (validate_finish_input (response \<noteq> None) se, se))) (\<lambda>_.
     act_bind (case response of None \<Rightarrow> act_res (Inr ()) | Some input \<Rightarrow> supply_response re io ob input)
       (\<lambda>_. session_call (Inl IncompleteCandidate) (cleanup_dependency ob) ob
          (validated_response (re_world re) (re_dependency re))))"

lemma guarded_finish_middle: "guarded ob (finish_middle re io ob response)"
  unfolding finish_middle_def by (intro guard_intros)

lemma act_bind_run:
  "m st = (r, st1) \<Longrightarrow> act_bind m f st = (case r of Inl e \<Rightarrow> (Inl e, st1) | Inr x \<Rightarrow> f x st1)"
  by (simp add: act_bind_def)

lemma or_else_ok [simp]: "or_else cleanup (act_res (Inr x)) = act_res (Inr x)"
  by (simp add: fun_eq_iff or_else_def act_res_def)

text \<open>The end of \<open>finish_dependency\<close>: whatever it answers, nothing is left.\<close>

definition finish_rest ::
  "('r, 'p) registry_env \<Rightarrow> engine_io \<Rightarrow> nat \<Rightarrow> nat \<Rightarrow> dependency_response
     \<Rightarrow> (('p, 'r, 's) engine_state, engine_result) act" where
  "finish_rest re io ob pos response =
     act_bind (or_else (cleanup_dependency ob)
       (finish_observation_inner re io ob (dp_outcome response) pos)) (\<lambda>finished.
     act_bind (or_else (cleanup_dependency ob)
       (act_res (ok_or IncompleteCandidate finished))) (\<lambda>_.
     act_bind (act_do (sentinel_call (observation_finished ob))) (\<lambda>_.
       act_res (Inr (OutcomeResult (dp_outcome response))))))"

lemma finish_rest_ends:
  assumes "finish_rest re io ob pos response st = (r, st')" "sorted_state st"
  shows "touches ob st st' \<and> forgotten ob st'"
proof -
  obtain r1 st1 where inner: "finish_observation_inner re io ob (dp_outcome response) pos st = (r1, st1)"
    by fastforce
  note parts = finish_inner_parts [OF inner]
  have st1: "sorted_state st1" using parts(1) assms(2) by (simp add: touches_def)
  let ?clean = "cleanup_dependency ob st1" and ?fin = "sentinel_call (observation_finished ob) st1"
  have st': "st' = ?clean \<or> (\<exists>x. r1 = Inr x) \<and> st' = ?fin"
    using assms(1) inner
    by (auto simp: finish_rest_def or_else_def act_bind_def act_do_def act_res_def ok_or_def
        split: prod.splits sum.splits option.splits)
  then show ?thesis
  proof
    assume "st' = ?clean"
    then show ?thesis using parts(1) touches_cleanup cleanup_forgets [OF st1] by (auto intro: touches_trans)
  next
    assume fin: "(\<exists>x. r1 = Inr x) \<and> st' = ?fin"
    then have "bt_get (registered st1) ob = None" using parts(2) assms(2) by blast
    then have "forgotten ob st'"
      using fin st1
      by (simp add: forgotten_def observation_is_active_def observation_finished_traced sorted_state_def)
    then show ?thesis using fin parts(1) touches_finished by (auto intro: touches_trans)
  qed
qed

text \<open>
  C7: Finishing a dependency always ends it.  Whatever the response, and whether the call answers
  with an outcome or an error, a registered handle is gone afterwards from the registry and from
  the sentinel, and no other observation was touched; a handle that is not registered is answered
  with \<open>NotFound\<close> and nothing changes.
\<close>

theorem finish_dependency_ends:
  assumes "finish_dependency re io ob response st = (r, st')" "sorted_state st"
  shows "(if bt_contains (registered st) ob then forgotten ob st' else r = Inl NotFound \<and> st' = st)
    \<and> (\<forall>k. k \<noteq> ob \<longrightarrow> bt_get (registered st') k = bt_get (registered st) k
          \<and> bt_get (traced st') k = bt_get (traced st) k)"
proof (cases "bt_get (registered st) ob")
  case None
  then show ?thesis using assms by (simp add: finish_dependency_def bt_contains_def)
next
  case (Some entry)
  let ?opening = "or_else (cleanup_dependency ob)
      (act_res (bind_res (ok_or IncompleteCandidate (be_session entry)) session_position))"
  have run: "act_bind ?opening (\<lambda>pos. act_bind (finish_middle re io ob response) (finish_rest re io ob pos)) st
      = (r, st')"
    using assms(1) Some
    by (simp add: finish_dependency_def finish_rest_def [abs_def] finish_middle_def act_bind_assoc)
  note working = guarded_finish_middle [of ob re io response]
  have "touches ob st st' \<and> forgotten ob st'"
  proof (cases "bind_res (ok_or IncompleteCandidate (be_session entry)) session_position")
    case (Inl e)
    then have "st' = cleanup_dependency ob st" using run by (simp add: act_bind_def or_else_def act_res_def)
    then show ?thesis using touches_cleanup cleanup_forgets [OF assms(2)] by simp
  next
    case (Inr pos)
    then have session: "in_session ob st" using Some by (auto simp: in_session_def bind_res_eq_Inr)
    obtain r1 st1 where middle: "finish_middle re io ob response st = (r1, st1)" by fastforce
    have st1: "touches ob st st1"
      using working middle by (auto simp: guarded_def unguarded_def)
    show ?thesis
    proof (cases r1)
      case Inl: (Inl e)
      then have "st' = st1" using run Inr by (simp add: act_bind_run [where m = "finish_middle re io ob response", OF middle])
      then show ?thesis using working middle Inl st1 assms(2) session by (auto simp: guarded_def)
    next
      case Inr1: (Inr response')
      then have "finish_rest re io ob pos response' st1 = (r, st')"
        using run Inr by (simp add: act_bind_run [where m = "finish_middle re io ob response", OF middle])
      from finish_rest_ends [OF this] show ?thesis
        using st1 assms(2) by (auto simp: touches_def intro: touches_trans)
    qed
  qed
  then show ?thesis using Some assms(2) by (simp add: touches_def bt_contains_def)
qed

section \<open>Opening\<close>

lemma open_observation_parts:
  assumes "open_registry_observation io h cls parent st = (r, st1)" "sorted_state st"
  shows "case r of
      Inl e \<Rightarrow> registered st1 = registered st \<and> traced st1 = traced st
    | Inr res \<Rightarrow> \<exists>pos. res = ObservationResult (reg_next_handle (es_registry st)) pos
        \<and> registered st1 = bt_insert (reg_next_handle (es_registry st))
            \<lparr>be_operation = h, be_session = for_class cls\<rparr> (registered st)
        \<and> traced st1 = traced st \<and> sorted_state st1"
proof (cases "length (registered st) \<ge> MAX_REGISTRY_OBSERVATIONS")
  case True
  then show ?thesis using assms by (auto simp: open_registry_observation_def)
next
  case False
  obtain r0 st0 where alloc: "allocate_handle st = (r0, st0)" by fastforce
  show ?thesis
  proof (cases r0)
    case (Inl e)
    then show ?thesis
      using assms(1) alloc allocate_handle_Inl [of st e st0] False
      by (auto simp: open_registry_observation_def act_bind_def)
  next
    case (Inr ob)
    then have st0: "registered st0 = registered st" "traced st0 = traced st"
      "ob = reg_next_handle (es_registry st)" "tables_ok (handles st0)"
      using alloc assms(2)
      by (auto simp: allocate_handle_Inr handles_allocated tables_ok_def sorted_state_def)
        (auto simp: on_registry_def handles_sel)
    obtain r2 st2 where call: "with_operation h (operation_open_observation (ei_world io) ob cls parent) st0
        = (r2, st2)" by fastforce
    note same = with_operation_touches [OF call [unfolded operation_open_observation_def]]
    have "tables_ok (handles st1)"
      using tables_ok_refines [OF moves_open_observation [unfolded moves_def, rule_format,
            of st io h cls parent]] assms(1,2)
      by (simp add: sorted_state_def)
    then show ?thesis
      using assms(1,2) False alloc Inr call same st0
      by (auto simp: sorted_state_def open_registry_observation_def act_bind_def act_do_def act_res_def on_registry_def
          split: sum.splits)
  qed
qed

lemma observation_opened_traced:
  "k \<noteq> ob \<Longrightarrow> bt_get (ct_observations (observation_opened ob h cls c)) k = bt_get (ct_observations c) k"
  "bt_ok (ct_observations c) \<Longrightarrow> bt_ok (ct_observations (observation_opened ob h cls c))"
  by (simp_all add: observation_opened_def Let_def)

lemma prepare_dependency_result:
  assumes "prepare_dependency re io ob pos data st = (Inr result, st')"
  shows "\<exists>action. result = DependencyResult action ob"
proof -
  have "\<exists>action u. act_res (Inr (DependencyResult action ob)) u = (Inr result, st')"
    using assms unfolding prepare_dependency_def by (elim act_bind_InrE) blast
  then show ?thesis by (auto simp: act_res_def)
qed

lemma open_dependency_split:
  "open_dependency re io h parent request st =
     (case canonical_request (re_world re) request of
        Inl e \<Rightarrow> (Inl e, st)
      | Inr data \<Rightarrow> act_bind (open_registry_observation io h (qi_class request) parent) (\<lambda>opened.
          act_bind (act_res (ok_or SchemaInvalid (result_observation_handle opened))) (\<lambda>ob.
          act_bind (act_res (ok_or SchemaInvalid (result_session_position opened))) (\<lambda>pos.
          act_bind (act_do (sentinel_call (observation_opened ob h (qi_class request)))) (\<lambda>_.
            prepare_dependency re io ob pos data)))) st)"
  by (simp add: open_dependency_def act_bind_def [of "act_res (canonical_request (re_world re) request)"]
      act_res_def split: sum.split)

lemma open_dependency_cases:
  assumes "open_dependency re io h parent request st = (r, st')" "sorted_state st"
  obtains e where "r = Inl e" "registered st' = registered st" "traced st' = traced st"
  | data pos st1 st2 where "canonical_request (re_world re) request = Inr data"
      "registered st1 = bt_insert (reg_next_handle (es_registry st))
         \<lparr>be_operation = h, be_session = for_class (qi_class request)\<rparr> (registered st)"
      "traced st1 = traced st" "sorted_state st1"
      "st2 = sentinel_call (observation_opened (reg_next_handle (es_registry st)) h (qi_class request)) st1"
      "prepare_dependency re io (reg_next_handle (es_registry st)) pos data st2 = (r, st')"
proof (cases "canonical_request (re_world re) request")
  case (Inl e)
  then show ?thesis using assms(1) that(1) [of e] by (auto simp: open_dependency_split)
next
  case (Inr data)
  obtain r1 st1 where opened: "open_registry_observation io h (qi_class request) parent st = (r1, st1)"
    by fastforce
  note parts = open_observation_parts [OF opened assms(2)]
  note run = assms(1) [unfolded open_dependency_split Inr, simplified]
  show ?thesis
  proof (cases r1)
    case (Inl e)
    then show ?thesis
      using run that(1) [of e] parts
      by (auto simp: act_bind_run [where m = "open_registry_observation io h (qi_class request) parent", OF opened])
  next
    case Inr1: (Inr res)
    then obtain pos where res: "res = ObservationResult (reg_next_handle (es_registry st)) pos"
      "registered st1 = bt_insert (reg_next_handle (es_registry st))
         \<lparr>be_operation = h, be_session = for_class (qi_class request)\<rparr> (registered st)"
      "traced st1 = traced st" "sorted_state st1" using parts by auto
    have "prepare_dependency re io (reg_next_handle (es_registry st)) pos data (sentinel_call
        (observation_opened (reg_next_handle (es_registry st)) h (qi_class request)) st1) = (r, st')"
      using run Inr1 res(1)
      by (simp add: act_bind_run [where m = "open_registry_observation io h (qi_class request) parent", OF opened]
          act_bind_def [of "act_do _"] act_do_def)
    then show ?thesis by (rule that(2) [OF Inr res(2-4) refl])
  qed
qed


end
