(* ===== verification/Registry_Failing.thy ===== *)
theory Registry_Failing
  imports Registry_Dependency Engine_Safety
begin

text \<open>
  Failing an operation through the engine: the operation is taken out of the registry in any case,
  and either its job waits for the worker behind a sink, or everything it held is given back.
\<close>

lemma on_controller_contexts [simp]: "ps_contexts (on_controller f ps) = ps_contexts ps"
  by (simp add: on_controller_def)

lemma on_controller_resources [simp]: "ps_resources (on_controller f ps) = ps_resources ps"
  unfolding ps_resources_def by simp

lemma on_controller_id [simp]: "on_controller (\<lambda>c. c) ps = ps"
  by (simp add: on_controller_def)

text \<open>The operation of an entry was abandoned, before or after a call of the sentinel.\<close>

definition abandoned :: "operation_entry \<Rightarrow> 'r process_state \<Rightarrow> 'r process_state \<Rightarrow> bool" where
  "abandoned entry ps ps' \<longleftrightarrow>
     (\<exists>f g. ps' = on_controller f (operation_abandon (oe_operation entry, on_controller g ps)))"

lemma abandonedI:
  "abandoned entry ps (on_controller f (operation_abandon (oe_operation entry, ps)))"
  "abandoned entry ps (operation_abandon (oe_operation entry, on_controller g ps))"
  unfolding abandoned_def by (metis on_controller_id)+

lemma registry_parts [simp]:
  "es_process (on_registry f st) = es_process st" "es_tasks (on_registry f st) = es_tasks st"
  "es_worker (on_registry f st) = es_worker st" "es_registry (on_registry f st) = f (es_registry st)"
  "es_registry (on_process g st) = es_registry st" "es_tasks (on_process g st) = es_tasks st"
  "es_worker (on_process g st) = es_worker st" "es_process (on_process g st) = g (es_process st)"
  by (simp_all add: on_registry_def on_process_def)

lemma take_failed_parts:
  assumes "bt_get (reg_operations (es_registry st)) h = Some entry"
    and "take_failed h failure token st = (r, st1)"
  shows "reg_operations (es_registry st1) = bt_remove h (reg_operations (es_registry st))
    \<and> registered st1 = bt_retain (\<lambda>_ entry. be_operation entry \<noteq> h) (registered st)
    \<and> es_worker st1 = es_worker st
    \<and> (case r of
        Inl _ \<Rightarrow> reg_sinks (es_registry st1) = reg_sinks (es_registry st) \<and> es_tasks st1 = es_tasks st
          \<and> abandoned entry (es_process st) (es_process st1)
      | Inr (sink, task) \<Rightarrow> sink = reg_next_handle (es_registry st) \<and> task = length (es_tasks st)
          \<and> reg_sinks (es_registry st1) = bt_insert sink \<lparr>se_engine = oe_engine entry, se_task = task\<rparr>
              (reg_sinks (es_registry st))
          \<and> es_tasks st1 = es_tasks st @ [task_pending \<lparr>fj_failure = failure,
              fj_operation = oe_operation entry, fj_token = token\<rparr>]
          \<and> es_process st1 = on_controller (remove_operation h) (es_process st)
          \<and> project_token_new token = Inr token)"
proof (cases "length (reg_sinks (es_registry st)) \<ge> MAX_SINKS")
  case True
  show ?thesis
    using assms True
    by (auto simp: take_failed_def take_failure_operation_def act_bind_def act_do_def act_res_def
        take_operation_def end_entry_def sentinel_call_def remove_operation_observations_def abandonedI)
next
  case False
  define st2 where "st2 = sentinel_call (remove_operation h) (remove_operation_observations h
      (snd (take_operation h st)))"
  have parts2: "reg_operations (es_registry st2) = bt_remove h (reg_operations (es_registry st))"
    "registered st2 = bt_retain (\<lambda>_ entry. be_operation entry \<noteq> h) (registered st)"
    "es_worker st2 = es_worker st" "reg_sinks (es_registry st2) = reg_sinks (es_registry st)"
    "es_tasks st2 = es_tasks st" "reg_next_handle (es_registry st2) = reg_next_handle (es_registry st)"
    "es_process st2 = on_controller (remove_operation h) (es_process st)"
    by (simp_all add: st2_def take_operation_def sentinel_call_def remove_operation_observations_def)
  have run: "take_failed h failure token st = act_bind (validate_failure_token entry token)
      (\<lambda>(entry, token). prepare_failure entry failure token) st2"
    using False assms(1)
    by (simp add: take_failed_def take_failure_operation_def act_bind_def [of "take_operation h"]
        act_bind_def [of "act_res _"] act_res_def take_operation_def st2_def)
  have ended: "abandoned entry (es_process st) (es_process (end_entry operation_abandon entry st2))"
    by (simp only: end_entry_def registry_parts parts2(7) abandonedI)
  have parts: "es_registry (end_entry operation_abandon entry st2) = es_registry st2"
    "es_tasks (end_entry operation_abandon entry st2) = es_tasks st2"
    "es_worker (end_entry operation_abandon entry st2) = es_worker st2"
    by (simp_all add: end_entry_def)
  show ?thesis
  proof (cases "project_token_new token")
    case (Inl e)
    then have "r = Inl e" "st1 = end_entry operation_abandon entry st2"
      using assms(2) run
      by (simp_all add: validate_failure_token_def or_else_def act_bind_def act_res_def)
    then show ?thesis using ended parts parts2 by simp
  next
    case (Inr t)
    then have t: "t = token" by (auto simp: project_token_new_def split: if_splits)
    then have prep: "prepare_failure entry failure token st2 = (r, st1)"
      using assms(2) run Inr
      by (simp add: validate_failure_token_def or_else_def act_bind_def [of "or_else _ _"]
          act_bind_def [of "act_res _"] act_res_def)
    obtain r0 st0 where alloc: "allocate_handle st2 = (r0, st0)" by fastforce
    show ?thesis
    proof (cases r0)
      case (Inl e)
      then have "r = Inl e" "st1 = end_entry operation_abandon entry st2"
        using prep alloc allocate_handle_Inl [of st2 e st0]
        by (simp_all add: prepare_failure_def or_else_def act_bind_def)
      then show ?thesis using ended parts parts2 by simp
    next
      case Inr0: (Inr sink)
      then have sink: "sink = reg_next_handle (es_registry st)"
        "st0 = on_registry (\<lambda>rg. rg\<lparr>reg_next_handle := Suc sink\<rparr>) st2"
        using alloc parts2(6) by (simp_all add: allocate_handle_Inr handles_sel)
      have "prepare_failure entry failure token st2 = (Inr (sink, length (es_tasks st)),
          on_registry (\<lambda>rg. rg\<lparr>reg_sinks := bt_insert sink
              \<lparr>se_engine = oe_engine entry, se_task = length (es_tasks st)\<rparr> (reg_sinks rg)\<rparr>)
            (st0\<lparr>es_tasks := es_tasks st @ [task_pending \<lparr>fj_failure = failure,
              fj_operation = oe_operation entry, fj_token = token\<rparr>]\<rparr>))"
        using alloc Inr0 parts2(5) by (simp add: prepare_failure_def or_else_def act_bind_def Let_def sink(2))
      with prep have "r = Inr (sink, length (es_tasks st))"
        "st1 = on_registry (\<lambda>rg. rg\<lparr>reg_sinks := bt_insert sink
              \<lparr>se_engine = oe_engine entry, se_task = length (es_tasks st)\<rparr> (reg_sinks rg)\<rparr>)
            (st0\<lparr>es_tasks := es_tasks st @ [task_pending \<lparr>fj_failure = failure,
              fj_operation = oe_operation entry, fj_token = token\<rparr>]\<rparr>)"
        by simp_all
      then show ?thesis
        using sink parts2 Inr t by (simp add: on_registry_def)
    qed
  qed
qed

text \<open>
  C6: A failed operation is handed to the worker or ended.  After \<open>enqueue_failure\<close> the handle of the
  operation is gone with its observations.  When the call answers with a sink, the job of the
  operation, untouched, is pending behind it and waits in the channel of the worker; the token is
  one that can be sent.  When it answers with an error, at any of its checks or because the worker
  does not take the task, there is no new sink, and the operation was dropped: the process holds
  what it held before the operation began.
\<close>

theorem enqueue_failure_hands_over:
  assumes "enqueue_failure io h failure token st = (r, st')" "handles_ok (handles st)"
    and "bt_get (reg_operations (es_registry st)) h = Some entry"
    and "operation_inv op r0 (oe_operation entry, es_process st)"
  shows "\<not> bt_contains (reg_operations (es_registry st')) h
    \<and> (\<forall>ob entry. bt_get (registered st') ob = Some entry \<longrightarrow> be_operation entry \<noteq> h)
    \<and> (case r of
        Inl _ \<Rightarrow> ps_resources (es_process st') = r0
          \<and> (\<forall>k. bt_get (reg_sinks (es_registry st')) k = bt_get (reg_sinks (es_registry st)) k)
      | Inr result \<Rightarrow> \<exists>sink task w. result = SinkResult sink
          \<and> bt_get (reg_sinks (es_registry st')) sink = Some \<lparr>se_engine = oe_engine entry, se_task = task\<rparr>
          \<and> es_tasks st' ! task = Pending (Some \<lparr>fj_failure = failure,
              fj_operation = oe_operation entry, fj_token = token\<rparr>)
          \<and> es_worker st' = Some w \<and> task \<in> set (fw_channel w)
          \<and> operation_inv op r0 (oe_operation entry, es_process st')
          \<and> project_token_new token = Inr token)"
proof -
  let ?ops = "reg_operations (es_registry st)" and ?sinks = "reg_sinks (es_registry st)"
  have ok: "bt_ok ?ops" "bt_ok (registered st)" "bt_ok ?sinks"
    using assms(2) by (simp_all add: handles_ok_def tables_ok_def handles_sel)
  define st0 where "st0 = get_worker (ei_spawned io) st"
  obtain w where st0: "es_worker st0 = Some w" "es_registry st0 = es_registry st"
    "es_process st0 = es_process st" "es_tasks st0 = es_tasks st"
    by (cases "es_worker st") (auto simp: st0_def get_worker_def)
  obtain r1 st1 where taken: "take_failed h failure token st0 = (r1, st1)" by fastforce
  note parts = take_failed_parts [OF _ taken, of entry, unfolded st0, OF assms(3)]
  have run: "(case r1 of Inl e \<Rightarrow> (Inl e, st1) | Inr (sink, task) \<Rightarrow> send_failed sink task st1) = (r, st')"
    using assms(1) taken by (auto simp: enqueue_failure_def act_bind_def st0_def [symmetric] split: sum.splits)
  have gone: "\<not> bt_contains (reg_operations (es_registry st1)) h
      \<and> (\<forall>ob entry. bt_get (registered st1) ob = Some entry \<longrightarrow> be_operation entry \<noteq> h)"
    using parts ok by (simp add: bt_get_retain_Some)
  show ?thesis
  proof (cases r1)
    case (Inl e)
    then obtain f g where fg: "es_process st1
        = on_controller f (operation_abandon (oe_operation entry, on_controller g (es_process st)))"
      using parts by (auto simp: abandoned_def)
    have "operation_inv op r0 (oe_operation entry, on_controller g (es_process st))" using assms(4) by simp
    from operation_ends_settled(2) [OF this] have "ps_resources (es_process st1) = r0" by (simp add: fg)
    then show ?thesis using run gone parts Inl by auto
  next
    case (Inr pair)
    then obtain sink task where pair: "r1 = Inr (sink, task)" by (cases pair) auto
    have sink: "sink = reg_next_handle (es_registry st)" "task = length (es_tasks st)"
      "reg_sinks (es_registry st1) = bt_insert sink \<lparr>se_engine = oe_engine entry, se_task = task\<rparr> ?sinks"
      "es_tasks st1 ! task = Pending (Some \<lparr>fj_failure = failure,
              fj_operation = oe_operation entry, fj_token = token\<rparr>)"
      "es_process st1 = on_controller (remove_operation h) (es_process st)"
      "project_token_new token = Inr token" "es_worker st1 = Some w"
      using parts pair by (auto simp: task_pending_def)
    have inv: "operation_inv op r0 (oe_operation entry, es_process st1)" using assms(4) sink(5) by simp
    have "\<not> live (handles st) SinkHandle sink"
      using assms(2) unfolding handles_ok_def kinds_ok_def sink(1) handles_sel(2) [symmetric] by blast
    then have fresh: "bt_get ?sinks sink = None" by (simp add: handles_sel bt_contains_def)
    obtain sent w1 where sent: "worker_try_send task w = (sent, w1)" by fastforce
    show ?thesis
    proof (cases sent)
      case Inr': (Inr u)
      then have st': "st' = st1\<lparr>es_worker := Some w1\<rparr>" "r = Inr (SinkResult sink)"
        using run pair sent sink(7) by (auto simp: send_failed_def or_else_def act_bind_def act_res_def)
      have "task \<in> set (fw_channel w1)"
        using sent Inr' by (auto simp: worker_try_send_def send_bounded_def split: if_splits)
      then show ?thesis using st' gone sink inv by simp
    next
      case Inl': (Inl e)
      then have st': "st' = remove_sink_if_same sink task (cancel_task task (st1\<lparr>es_worker := Some w1\<rparr>))"
        "r = Inl e"
        using run pair sent sink(7)
        by (auto simp: send_failed_def or_else_def act_bind_def act_res_def reject_failure_enqueue_def)
      have cancelled: "es_registry (cancel_task task (st1\<lparr>es_worker := Some w1\<rparr>)) = es_registry st1"
        "es_process (cancel_task task (st1\<lparr>es_worker := Some w1\<rparr>))
           = operation_drop (oe_operation entry, es_process st1)"
        using sink(4) by (simp_all add: cancel_task_def)
      have "es_process st' = operation_drop (oe_operation entry, es_process st1)"
        "es_registry st' = (es_registry st1)\<lparr>reg_sinks := bt_remove sink (reg_sinks (es_registry st1))\<rparr>"
        using cancelled sink(3) by (simp_all add: st'(1) remove_sink_if_same_def)
      then show ?thesis
        using operation_ends_settled(3) [OF inv] gone sink(3) ok(3) fresh st'(2) by simp
    qed
  qed
qed

end
