(* ===== verification/Registry_Theorems.thy ===== *)
theory Registry_Theorems
  imports Registry_Failing
begin

text \<open>
  The properties of the engine's registry: its tables stay well-formed under every interleaving of
  calls and worker, a handle is never given out twice, and what its calls leave behind.
\<close>

section \<open>Tables and handles\<close>

definition new_engine_state :: "'r process_state \<Rightarrow> ('p, 'r, 's) engine_state" where
  "new_engine_state ps =
     \<lparr>es_registry = new_registry, es_process = ps, es_tasks = [], es_worker = None, es_held = None\<rparr>"

lemma new_handles_ok: "handles_ok (handles (new_engine_state ps))"
proof -
  have "\<not> live (handles (new_engine_state ps)) kind h" for kind h
    by (cases kind) (simp_all add: handles_def new_engine_state_def new_registry_def)
  then show ?thesis
    by (auto simp: handles_ok_def tables_ok_def tables_small_def kinds_ok_def owners_ok_def
        sinks_distinct_def limits)
      (simp_all add: handles_def new_engine_state_def new_registry_def bt_map_values_def limits)
qed

lemma reachable_handles_ok:
  assumes "(engine_section re)\<^sup>*\<^sup>* (new_engine_state ps) st"
  shows "handles_ok (handles st)"
  using sections_refine [OF assms] new_handles_ok handles_ok_steps
  by (auto simp: refines_def handles_ok_def)

text \<open>
  C9: The registry implements the abstract machine of its handles.  In every reachable state, each
  section of a call that holds the lock, and each step of the worker, whatever it answers, is a
  sequence of steps of \<open>handle_step\<close> on the tables of handles: a new handle is the next number, in
  a table below its limit, owned by something that is there; an operation goes with its
  observations, an engine with everything it owns.
\<close>

theorem registry_refines_handles:
  assumes "(engine_section re)\<^sup>*\<^sup>* (new_engine_state ps) st" "engine_section re st st'"
  shows "handle_step\<^sup>*\<^sup>* (handles st) (handles st')"
  using section_refines [OF assms(2)] reachable_handles_ok [OF assms(1)]
  by (simp add: refines_def handles_ok_def)

text \<open>
  C5: The tables of the registry are well-formed at every moment.  Whatever the calls, their errors
  and the worker interleave to, no table exceeds its limit; an observation belongs to an operation
  that is there, an operation and a sink to an engine that is there; the task of a sink exists and
  is no other sink's; every handle is smaller than the next one and names one kind of object.
\<close>

theorem registry_well_formed:
  assumes "(engine_section re)\<^sup>*\<^sup>* (new_engine_state ps) st"
  shows "length (reg_engines (es_registry st)) \<le> 64 \<and> length (reg_operations (es_registry st)) \<le> 512
    \<and> length (reg_observations (es_registry st)) \<le> 1024 \<and> length (reg_sinks (es_registry st)) \<le> 16
    \<and> (\<forall>ob entry. bt_get (reg_observations (es_registry st)) ob = Some entry \<longrightarrow>
         bt_contains (reg_operations (es_registry st)) (be_operation entry))
    \<and> (\<forall>h entry. bt_get (reg_operations (es_registry st)) h = Some entry \<longrightarrow>
         bt_contains (reg_engines (es_registry st)) (oe_engine entry))
    \<and> (\<forall>s entry. bt_get (reg_sinks (es_registry st)) s = Some entry \<longrightarrow>
         bt_contains (reg_engines (es_registry st)) (se_engine entry)
         \<and> se_task entry < length (es_tasks st)
         \<and> (\<forall>s' entry'. bt_get (reg_sinks (es_registry st)) s' = Some entry' \<longrightarrow>
              se_task entry' = se_task entry \<longrightarrow> s' = s))
    \<and> (\<forall>kind h. live (handles st) kind h \<longrightarrow> h < reg_next_handle (es_registry st)
         \<and> (\<forall>kind'. live (handles st) kind' h \<longrightarrow> kind' = kind))"
proof -
  note ok = reachable_handles_ok [OF assms, unfolded handles_ok_def]
  have small: "tables_small (handles st)" and owners: "owners_ok (handles st)"
    and kinds: "kinds_ok (handles st)" and distinct: "sinks_distinct (handles st)" using ok by auto
  have sinks: "bt_contains (reg_engines (es_registry st)) (se_engine entry)
      \<and> se_task entry < length (es_tasks st)
      \<and> (\<forall>s' entry'. bt_get (reg_sinks (es_registry st)) s' = Some entry' \<longrightarrow>
           se_task entry' = se_task entry \<longrightarrow> s' = s)"
    if "bt_get (reg_sinks (es_registry st)) s = Some entry" for s entry
  proof -
    have get: "bt_get (hs_sinks (handles st)) s = Some (se_engine entry, se_task entry)"
      using that by (simp add: handles_sel)
    then have "bt_contains (hs_engines (handles st)) (se_engine entry)" "se_task entry < hs_tasks (handles st)"
      using owners unfolding owners_ok_def by blast+
    moreover have "s' = s" if "bt_get (reg_sinks (es_registry st)) s' = Some entry'"
      "se_task entry' = se_task entry" for s' entry'
    proof -
      have "bt_get (hs_sinks (handles st)) s' = Some (se_engine entry', se_task entry)"
        using that by (simp add: handles_sel)
      then show ?thesis using distinct get unfolding sinks_distinct_def by blast
    qed
    ultimately show ?thesis by (simp add: handles_sel)
  qed
  have observations: "bt_contains (reg_operations (es_registry st)) (be_operation entry)"
    if "bt_get (reg_observations (es_registry st)) ob = Some entry" for ob entry
    using owners that by (fastforce simp: owners_ok_def handles_sel)
  have operations: "bt_contains (reg_engines (es_registry st)) (oe_engine entry)"
    if "bt_get (reg_operations (es_registry st)) h = Some entry" for h entry
    using owners that by (fastforce simp: owners_ok_def handles_sel)
  have "length (reg_engines (es_registry st)) \<le> 64" "length (reg_operations (es_registry st)) \<le> 512"
    "length (reg_observations (es_registry st)) \<le> 1024" "length (reg_sinks (es_registry st)) \<le> 16"
    using small by (simp_all add: tables_small_def handles_sel limits)
  moreover have "\<forall>kind h. live (handles st) kind h \<longrightarrow> h < reg_next_handle (es_registry st)
      \<and> (\<forall>kind'. live (handles st) kind' h \<longrightarrow> kind' = kind)"
    using kinds unfolding kinds_ok_def handles_sel by blast
  ultimately show ?thesis using sinks observations operations by blast
qed

text \<open>
  A handle is never given out twice.  From any reachable state on, a handle that was given out
  keeps naming the object it named, or nothing: it never names an object of another kind, and once
  it names nothing it never names anything again.
\<close>

theorem handles_never_reused:
  assumes "(engine_section re)\<^sup>*\<^sup>* (new_engine_state ps) st" "(engine_section re)\<^sup>*\<^sup>* st st'"
  shows "reg_next_handle (es_registry st) \<le> reg_next_handle (es_registry st')
    \<and> (\<forall>kind h. h < reg_next_handle (es_registry st) \<longrightarrow> live (handles st') kind h \<longrightarrow>
         live (handles st) kind h)"
proof -
  have ok: "handles_ok (handles st)" by (rule reachable_handles_ok [OF assms(1)])
  have "handle_step\<^sup>*\<^sup>* (handles st) (handles st')"
    using sections_refine [OF assms(2)] ok by (simp add: refines_def handles_ok_def)
  from never_reused_steps [OF this ok] show ?thesis
    by (auto simp: never_reused_def handles_sel not_le [symmetric])
qed

section \<open>The session of a dependency\<close>

text \<open>
  \<open>evolves ob R m\<close>: when \<open>m\<close> succeeds, the session of \<open>ob\<close> went through \<open>R\<close> and nothing else of
  its entry changed.
\<close>

definition evolves ::
  "nat \<Rightarrow> (dependency_session \<Rightarrow> dependency_session \<Rightarrow> bool) \<Rightarrow> (('p, 'r, 's) engine_state, 'a) act \<Rightarrow> bool" where
  "evolves ob R m \<longleftrightarrow> (\<forall>st x st' entry se. m st = (Inr x, st') \<longrightarrow>
     bt_get (registered st) ob = Some entry \<longrightarrow> be_session entry = Some se \<longrightarrow>
     (\<exists>se'. bt_get (registered st') ob = Some (entry\<lparr>be_session := Some se'\<rparr>) \<and> R se se'))"

lemma evolvesD:
  "evolves ob R m \<Longrightarrow> m st = (Inr x, st') \<Longrightarrow> bt_get (registered st) ob = Some entry \<Longrightarrow>
     be_session entry = Some se \<Longrightarrow>
     \<exists>se'. bt_get (registered st') ob = Some (entry\<lparr>be_session := Some se'\<rparr>) \<and> R se se'"
  unfolding evolves_def by blast

lemma evolves_bind:
  assumes "evolves ob R m" "\<And>x. evolves ob S (f x)"
  shows "evolves ob (R OO S) (act_bind m f)"
  unfolding evolves_def
proof (intro allI impI)
  fix st x st' entry se
  assume run: "act_bind m f st = (Inr x, st')" and entry: "bt_get (registered st) ob = Some entry"
    "be_session entry = Some se"
  from run obtain y st1 where y: "m st = (Inr y, st1)" "f y st1 = (Inr x, st')" by (rule act_bind_InrE)
  from evolvesD [OF assms(1) y(1) entry] obtain se1 where
    se1: "bt_get (registered st1) ob = Some (entry\<lparr>be_session := Some se1\<rparr>)" "R se se1" by blast
  from evolvesD [OF assms(2) y(2) se1(1)] obtain se2 where
    "bt_get (registered st') ob = Some (entry\<lparr>be_session := Some se2\<rparr>)" "S se1 se2" by auto
  then show "\<exists>se'. bt_get (registered st') ob = Some (entry\<lparr>be_session := Some se'\<rparr>) \<and> (R OO S) se se'"
    using se1(2) by blast
qed

lemma evolves_mono: "evolves ob R m \<Longrightarrow> (\<And>se se'. R se se' \<Longrightarrow> S se se') \<Longrightarrow> evolves ob S m"
  unfolding evolves_def by blast

lemma evolves_same:
  assumes "\<And>st x st'. m st = (Inr x, st') \<Longrightarrow> registered st' = registered st"
  shows "evolves ob (=) m"
  unfolding evolves_def using assms by (metis observation_entry.surjective observation_entry.update_convs(2) old.unit.exhaust)

lemma evolves_or_else: "evolves ob R m \<Longrightarrow> evolves ob R (or_else cleanup m)"
  unfolding evolves_def or_else_def by (auto split: prod.splits sum.splits)

lemma evolves_session_call:
  "evolves ob (\<lambda>se se'. \<exists>x. m se = (Inr x, se')) (session_call absent cleanup ob m)"
  unfolding evolves_def
proof (intro allI impI)
  fix st x entry se and st' :: "('a, 'b, 'c) engine_state"
  assume "session_call absent cleanup ob m st = (Inr x, st')"
    and entry: "bt_get (registered st) ob = Some entry" "be_session entry = Some se"
  then show "\<exists>se'. bt_get (registered st') ob = Some (entry\<lparr>be_session := Some se'\<rparr>)
      \<and> (\<exists>x. m se = (Inr x, se'))"
    by (cases rule: session_call_cases) (use entry in \<open>auto simp: Let_def\<close>)
qed

lemma evolves_res: "evolves ob (=) (act_res r)"
  by (rule evolves_same) (simp add: act_res_def)

lemma evolves_with_operation: "evolves ob (=) (with_operation h (coordinator_call action))"
  by (rule evolves_same) (use with_operation_touches in blast)

lemma evolves_write_bytes:
  "evolves ob (\<lambda>se se'. session_write (re_dependency re) stream chunk se = (Inr (), se'))
     (write_observation_bytes re io ob stream chunk)"
proof -
  let ?R = "\<lambda>se se'. \<exists>x. session_write (re_dependency re) stream chunk se = (Inr x, se')"
  have steps: "evolves ob ((=) OO ?R OO (=) OO (=) OO (=)) (act_bind (operation_for_observation ob) (\<lambda>h.
      act_bind (session_call (Inr ()) (invalidate_semantic_observation ob) ob
        (session_write (re_dependency re) stream chunk)) (\<lambda>_.
      act_bind (require_operation h) (\<lambda>_.
      act_bind (or_else (invalidate_semantic_observation ob)
        (with_operation h (operation_write (ei_world io) ob stream chunk))) (\<lambda>_.
        act_res (Inr EmptyResult))))))"
    unfolding operation_write_def
    by (intro evolves_bind evolves_or_else evolves_session_call evolves_res evolves_with_operation)
      (rule evolves_same, simp add: operation_for_observation_def require_operation_def)+
  show ?thesis
    unfolding evolves_def
  proof (intro allI impI)
    fix st x entry se and st' :: "('a, 'b, 'c) engine_state"
    assume run: "write_observation_bytes re io ob stream chunk st = (Inr x, st')"
      and entry: "bt_get (registered st) ob = Some entry" "be_session entry = Some se"
    from evolvesD [OF steps _ entry, of x st'] run
    show "\<exists>se'. bt_get (registered st') ob = Some (entry\<lparr>be_session := Some se'\<rparr>)
        \<and> session_write (re_dependency re) stream chunk se = (Inr (), se')"
      by (auto simp: write_observation_bytes_def split: if_splits)
  qed
qed

lemma evolves_write_records:
  "evolves ob (\<lambda>se se'. session_writes (re_dependency re) stream records se = (Inr (), se'))
     (write_records re io ob stream records)"
proof (induction records)
  case Nil
  show ?case by (auto intro: evolves_mono [OF evolves_res])
next
  case (Cons chunk records)
  show ?case
    using evolves_bind [OF evolves_write_bytes [of ob re stream chunk io] Cons]
    by (auto elim!: evolves_mono)
qed

lemma evolves_write_record:
  "evolves ob (\<lambda>se se'. session_writes (re_dependency re) stream
       (slice_chunks MAX_OBSERVATION_CHUNK_BYTES data) se = (Inr (), se'))
     (write_dependency_record re io ob stream data)"
  unfolding write_dependency_record_def by (rule evolves_write_records)

lemma evolves_dispatch:
  "evolves ob (\<lambda>se se'. dependency_dispatch (re_world re) (re_dependency re) se = (Inr (), se'))
     (dispatch_registry_observation re io ob)"
proof -
  let ?R = "\<lambda>se se'. \<exists>x. dependency_dispatch (re_world re) (re_dependency re) se = (Inr x, se')"
  have "evolves ob ((=) OO ?R OO (=) OO (=) OO (=)) (dispatch_registry_observation re io ob)"
    unfolding dispatch_registry_observation_def operation_dispatch_def
    by (intro evolves_bind evolves_or_else evolves_session_call evolves_res evolves_with_operation)
      (rule evolves_same, simp add: operation_for_observation_def require_operation_def)+
  then show ?thesis by (auto elim!: evolves_mono)
qed

definition session_opened :: "('r, 'p) registry_env \<Rightarrow> nat \<Rightarrow> bytes \<Rightarrow> dependency_session \<Rightarrow> dependency_session \<Rightarrow> bool" where
  "session_opened re pos data se se4 \<longleftrightarrow>
     (\<exists>se1 se2 se3 action. bind_session_position pos se = (Inr (), se1)
        \<and> session_writes (re_dependency re) RequestStream
            (slice_chunks MAX_OBSERVATION_CHUNK_BYTES data) se1 = (Inr (), se2)
        \<and> dependency_dispatch (re_world re) (re_dependency re) se2 = (Inr (), se3)
        \<and> bind_action action se3 = (Inr (), se4))"

lemma evolves_prepare: "evolves ob (session_opened re pos data) (prepare_dependency re io ob pos data)"
proof -
  let ?pos = "\<lambda>se se'. \<exists>x. bind_session_position pos se = (Inr x, se')"
  let ?act = "\<lambda>se se'. \<exists>action x. bind_action action se = (Inr x, se')"
  let ?wrote = "\<lambda>se se'. session_writes (re_dependency re) RequestStream
       (slice_chunks MAX_OBSERVATION_CHUNK_BYTES data) se = (Inr (), se')"
  let ?dispatch = "\<lambda>se se'. dependency_dispatch (re_world re) (re_dependency re) se = (Inr (), se')"
  have act: "evolves ob ?act (session_call absent cleanup ob (bind_action action))" for absent cleanup action
    by (rule evolves_mono [OF evolves_session_call]) blast
  have "evolves ob (?pos OO ?wrote OO ?dispatch OO (=) OO (=) OO ?act OO (=))
      (prepare_dependency re io ob pos data)"
    unfolding prepare_dependency_def
    by (intro evolves_bind evolves_or_else evolves_session_call [of ob "bind_session_position pos"]
        evolves_write_record evolves_dispatch act evolves_res)
      (rule evolves_same, simp add: act_do_def sentinel_dispatched_def)
  then show ?thesis
    by (rule evolves_mono) (unfold relcompp_apply session_opened_def, (erule exE conjE)+, metis old.unit.exhaust)
qed

lemma request_writes_ok:
  "session_writes dc RequestStream records se = (Inr (), se') \<Longrightarrow>
     se' = se\<lparr>ds_request := ds_request se @ concat records\<rparr>"
proof (induction records arbitrary: se)
  case (Cons chunk records)
  then obtain se1 where se1: "session_write dc RequestStream chunk se = (Inr (), se1)"
    "session_writes dc RequestStream records se1 = (Inr (), se')"
    by (auto split: prod.splits sum.splits)
  have "se1 = se\<lparr>ds_request := ds_request se @ chunk\<rparr>"
    using se1(1) by (auto simp: session_write_def split: option.splits if_splits bool.splits)
  with Cons.IH [OF se1(2)] show ?case by simp
qed simp

text \<open>
  C10: What an opened dependency dispatches is the request.  When the core gives back what it encoded,
  the session behind the new handle belongs to the operation, has the position and the action of its
  dispatch, no byte of a response, and as its validated request exactly the request of the call,
  written in chunks of the size the observation takes.
\<close>

theorem opened_dependency_request:
  assumes "open_dependency re io h parent request st = (Inr result, st')" "sorted_state st"
    and "for_class (qi_class request) \<noteq> None"
    and "codec_faithful (dependency_request_codec (re_world re)) (into_request request)"
  shows "\<exists>se. bt_get (registered st') (reg_next_handle (es_registry st))
      = Some \<lparr>be_operation = h, be_session = Some se\<rparr>
    \<and> ds_validated_request se = Some (into_request request) \<and> ds_class se = qi_class request
    \<and> codec_bytes (dependency_request_codec (re_world re)) (into_request request) = Inr (ds_request se)
    \<and> ds_response se = [] \<and> ds_validated_response se = None
    \<and> ds_action se \<noteq> None \<and> ds_session_position se \<noteq> None"
proof -
  let ?ob = "reg_next_handle (es_registry st)"
  obtain se0 where se0: "for_class (qi_class request) = Some se0" "ds_request se0 = []"
    "ds_response se0 = []" "ds_validated_response se0 = None" "ds_class se0 = qi_class request"
    using assms(3) by (auto simp: for_class_def split: if_splits)
  from assms(1,2) show ?thesis
  proof (cases rule: open_dependency_cases)
    case (2 data pos st1 st2)
    have "bt_get (registered st2) ?ob = Some \<lparr>be_operation = h, be_session = Some se0\<rparr>"
      using 2(2) se0(1) by (simp add: 2(5))
    from evolvesD [OF evolves_prepare 2(6) this] obtain se where
      se: "bt_get (registered st') ?ob = Some \<lparr>be_operation = h, be_session = Some se\<rparr>"
        "session_opened re pos data se0 se" by auto
    from se(2) obtain se1 se2 se3 action where steps: "bind_session_position pos se0 = (Inr (), se1)"
      "session_writes (re_dependency re) RequestStream
         (slice_chunks MAX_OBSERVATION_CHUNK_BYTES data) se1 = (Inr (), se2)"
      "dependency_dispatch (re_world re) (re_dependency re) se2 = (Inr (), se3)"
      "bind_action action se3 = (Inr (), se)" unfolding session_opened_def by blast
    have data: "codec_bytes (dependency_request_codec (re_world re)) (into_request request) = Inr data"
      using 2(1) by (auto simp: canonical_request_def Let_def map_err_def bind_res_eq_Inr split: sum.splits)
    have se1: "se1 = se0\<lparr>ds_session_position := Some pos\<rparr>"
      using steps(1) by (auto simp: bind_session_position_def split: if_splits)
    have "concat (slice_chunks MAX_OBSERVATION_CHUNK_BYTES data) = data"
      by (rule chunks_concat) (simp add: limits)
    then have se2: "se2 = se1\<lparr>ds_request := data\<rparr>"
      using request_writes_ok [OF steps(2)] se0(2) by (simp add: se1)
    obtain x where x: "parse_canonical (re_dependency re) (dependency_request_codec (re_world re)) data = Inr x"
      "se3 = se2\<lparr>ds_validated_request := Some x\<rparr>"
      using steps(3) by (auto simp: dependency_dispatch_def se2 split: if_splits sum.splits)
    have "codec_parse (dependency_request_codec (re_world re)) data = Inr (into_request request)"
      using assms(4) data by (auto simp: codec_faithful_def)
    then have "x = into_request request"
      using x(1) by (auto simp: parse_canonical_def map_err_def bind_res_eq_Inr split: if_splits sum.splits)
    moreover obtain a where "se = se3\<lparr>ds_action := Some a\<rparr>"
      using steps(4) by (auto simp: bind_action_def split: option.splits if_splits)
    ultimately show ?thesis using se(1) data se0 by (simp add: x(2) se2 se1)
  qed simp
qed

section \<open>The boundary\<close>

lemma length_FALLBACK: "length FALLBACK \<le> MAX_ERROR_RESPONSE_BYTES"
  by (simp add: FALLBACK_def ascii_def limits)

lemma error_response_small:
  "length (serialize_response js (error_response e)) \<le> MAX_ERROR_RESPONSE_BYTES"
  using length_FALLBACK by (auto simp: serialize_response_def error_response_def Let_def)

text \<open>
  C11: Every error is delivered.  On a valid boundary, bytes that are no call change nothing, and a
  call of another format changes nothing but the scope of the sentinel around it; and whatever error
  the call ends with, it is answered: the result code is the length of the bytes written, at most
  256, which are the printed error or the fixed answer that stands for it.
\<close>

theorem errors_are_delivered:
  assumes "input \<noteq> []" "length input \<le> MAX_CALL_BYTES" "MIN_RESPONSE_CAPACITY \<le> capacity"
    and "case js_parse_call js input of
        None \<Rightarrow> e = SchemaInvalid \<and> st' = st
      | Some call \<Rightarrow> \<exists>guard ct st1.
          engine_call_scope (ps_thread (es_process st)) (ps_controller (es_process st)) = (guard, ct)
          \<and> (if call_format call \<noteq> CALL_FORMAT
             then e = SchemaInvalid \<and> st1 = on_process (\<lambda>ps. ps\<lparr>ps_controller := ct\<rparr>) st
             else dispatch_call re io wt call (on_process (\<lambda>ps. ps\<lparr>ps_controller := ct\<rparr>) st)
               = (Some (Inl e), st1))
          \<and> st' = sentinel_call (scope_drop guard) st1"
  shows "\<exists>out. reproit_sdk_engine_call js re io wt None (Some input) (Some capacity) st
      = (Some (int (length out), out), st')
    \<and> length out \<le> 256 \<and> (out = FALLBACK \<or> js_print_response js (error_response e) = Some out)"
proof -
  let ?out = "serialize_response js (error_response e)"
  have small: "length ?out \<le> 256" using error_response_small by (simp add: limits)
  have run: "execute js re io wt input st = (Some ?out, st')"
    using assms(4) by (auto simp: execute_def dispatch_call_def split: option.splits if_splits)
  have "reproit_sdk_engine_call js re io wt None (Some input) (Some capacity) st
      = (Some (int (length ?out), ?out), st')"
    using assms(1-3) small run by (simp add: reproit_sdk_engine_call_def limits)
  moreover have "?out = FALLBACK \<or> js_print_response js (error_response e) = Some ?out"
    by (auto simp: serialize_response_def Let_def split: option.splits)
  ultimately show ?thesis using small by blast
qed

text \<open>
  A chunk is taken when it fits and refused when it does not.  The encoding of some bytes, as
  long as base64 is at most four characters for three bytes and decodes to what was encoded, is
  decoded to exactly those bytes when there are some and they fit the maximum, and refused with
  \<open>RuntimeQuota\<close> otherwise, whichever of the two checks finds it.
\<close>

theorem chunk_decoded:
  assumes "base64_bounded c" "decode_base64url_bytes (re_fuzz re) (encode_base64url c x) = Inr x"
    and "x \<noteq> [] \<longrightarrow> encode_base64url c x \<noteq> []" "2 * maximum + 4 \<le> U64_MAX"
  shows "decode_chunk re maximum (encode_base64url c x)
    = (if x = [] \<or> length x > maximum then Inl RuntimeQuota else Inr x)"
proof -
  let ?n = "(maximum + 2) div 3"
  have "?n * 4 \<le> U64_MAX" using assms(4) by linarith
  then have "Option.bind (checked_add maximum 2) (\<lambda>n. checked_mul (n div 3) 4) = Some (?n * 4)"
    using assms(4) by (simp add: checked_add_def checked_mul_def)
  moreover have "length (encode_base64url c x) \<le> ?n * 4" if "length x \<le> maximum"
  proof -
    have "length (encode_base64url c x) \<le> 4 * ((length x + 2) div 3)"
      using assms(1) by (simp add: base64_bounded_def)
    also have "\<dots> \<le> 4 * ?n" by (intro mult_le_mono div_le_mono add_le_mono that) simp_all
    finally show ?thesis by simp
  qed
  ultimately show ?thesis using assms(2,3) by (auto simp: decode_chunk_def not_le)
qed

end
