(* ===== verification/Registry_Witnesses.thy ===== *)
theory Registry_Witnesses
  imports Registry_Theorems Operation_Witnesses Engine_Witnesses
begin

text \<open>
  The registry on concrete calls: an engine is opened with an adapter for every class, an operation
  begun, a dependency opened, answered and finished, and the operation failed.
\<close>

definition demo_registry_env :: "(bytes, unit) registry_env" where
  "demo_registry_env = \<lparr>re_world = op_env, re_dependency = demo_dependency_core,
     re_fuzz = demo_fuzz_core, re_engine = demo_engine_env, re_closure = demo_closure_core,
     re_project = (\<lambda>_ _ _ _. Inr ()), re_freeze = (\<lambda>m _. Inr m), re_decode_key = (\<lambda>_. Inr []),
     re_matches = (\<lambda>_ _. Inr ()), re_contract_parses = True\<rparr>"

definition demo_engine_io :: engine_io where
  "demo_engine_io = \<lparr>ei_world = op_io 3, ei_freeze = demo_freeze_io, ei_start = demo_start_io,
     ei_installed = Some demo_runtime, ei_spawned = True\<rparr>"

definition demo_configuration :: engine_configuration where
  "demo_configuration = \<lparr>cf_build_repository_id = ''r'',
     cf_adapters = map (\<lambda>cls. \<lparr>oa_id = ''a'', oa_version = ''1'', oa_class = cls,
       oa_implementation = Digest 2\<rparr>) ALL_CLASSES,
     cf_project_toml = ''p'', cf_sdk = 0, cf_source_revision = ''s'', cf_subject_manifest = demo_subject,
     cf_subject_objects = []\<rparr>"

definition demo_request :: dependency_request_input where
  "demo_request = \<lparr>qi_encoding = [], qi_metadata = [1, 2], qi_method = None, qi_class = Database,
     qi_operation = 0, qi_payload = [], qi_protocol = [], qi_target = []\<rparr>"

definition state0 :: "(unit, bytes, unit) engine_state" where
  "state0 = new_engine_state demo_process"
definition state1 :: "(unit, bytes, unit) engine_state" where
  "state1 = snd (dispatch_immediate demo_registry_env demo_engine_io
     (EngineOpen demo_configuration CALL_FORMAT) state0)"
definition state2 :: "(unit, bytes, unit) engine_state" where
  "state2 = snd (dispatch_immediate demo_registry_env demo_engine_io
     (OperationBegin demo_begin 1 CALL_FORMAT None) state1)"
definition opened3 :: "engine_result res \<times> (unit, bytes, unit) engine_state" where
  "opened3 = open_dependency demo_registry_env demo_engine_io 2 None demo_request state2"

lemma demo_operation_begun:
  "map_option oe_engine (bt_get (reg_operations (es_registry state2)) 2) = Some 1"
  unfolding state2_def state1_def state0_def by code_simp

lemma demo_dependency_opened: "fst opened3 = Inr (DependencyResult ''capture'' 3)"
  unfolding opened3_def state2_def state1_def state0_def by code_simp

definition state3 :: "(unit, bytes, unit) engine_state" where
  "state3 = snd (dispatch_immediate demo_registry_env demo_engine_io
     (DependencyOpen None CALL_FORMAT 2 demo_request) state2)"

lemma state3_opened: "state3 = snd opened3"
  by (simp add: state3_def opened3_def dispatch_immediate_def dispatch_operation_def)

lemma demo_reached:
  "(engine_section demo_registry_env)\<^sup>*\<^sup>* (new_engine_state demo_process) state1"
  "engine_section demo_registry_env state1 state2"
  "(engine_section demo_registry_env)\<^sup>*\<^sup>* (new_engine_state demo_process) state2"
  "engine_section demo_registry_env state2 state3"
  "(engine_section demo_registry_env)\<^sup>*\<^sup>* (new_engine_state demo_process) state3"
proof -
  have s1: "engine_section demo_registry_env (new_engine_state demo_process) state1"
    unfolding state1_def state0_def by (rule section_immediate)
  show s2: "engine_section demo_registry_env state1 state2"
    unfolding state2_def by (rule section_immediate)
  show s3: "engine_section demo_registry_env state2 state3"
    unfolding state3_def by (rule section_immediate)
  show "(engine_section demo_registry_env)\<^sup>*\<^sup>* (new_engine_state demo_process) state1"
    using s1 by (rule r_into_rtranclp)
  then show "(engine_section demo_registry_env)\<^sup>*\<^sup>* (new_engine_state demo_process) state2"
    using s2 by (rule rtranclp.rtrancl_into_rtrancl)
  then show "(engine_section demo_registry_env)\<^sup>*\<^sup>* (new_engine_state demo_process) state3"
    using s3 by (rule rtranclp.rtrancl_into_rtrancl)
qed

lemma demo_tables:
  "bt_ok (traced state2)" "bt_ok (traced state3)" "reg_next_handle (es_registry state2) = 3"
  "\<not> bt_contains (traced state2) 3" "bt_contains (registered state3) 3"
  "bt_contains (traced state3) 3"
  unfolding state3_opened opened3_def state2_def state1_def state0_def by code_simp+

lemma demo_sorted: "sorted_state state2" "sorted_state state3"
  using reachable_handles_ok [OF demo_reached(3)] reachable_handles_ok [OF demo_reached(5)] demo_tables(1,2)
  by (simp_all add: sorted_state_def handles_ok_def)

theorem registry_refines_handles_witness:
  "handle_step\<^sup>*\<^sup>* (handles state1) (handles state2)
    \<and> bt_get (hs_operations (handles state2)) 2 = Some 1"
  using registry_refines_handles [OF demo_reached(1,2)] demo_operation_begun by (simp add: handles_sel)

theorem registry_well_formed_witness:
  "\<exists>entry. bt_get (registered state3) 3 = Some entry
    \<and> bt_contains (reg_operations (es_registry state3)) (be_operation entry)"
proof -
  obtain entry where "bt_get (registered state3) 3 = Some entry"
    using demo_tables(5) by (auto simp: bt_contains_def)
  with registry_well_formed [OF demo_reached(5)] show ?thesis by blast
qed

theorem handles_never_reused_witness:
  "\<forall>kind. {h. h < 3 \<and> live (handles state3) kind h} \<subseteq> {h. live (handles state2) kind h}"
  using handles_never_reused [OF demo_reached(3) r_into_rtranclp [of "engine_section demo_registry_env",
        OF demo_reached(4)]] demo_tables(3)
  by auto

theorem finish_dependency_ends_witness:
  "fst (finish_dependency demo_registry_env demo_engine_io 3 (Some demo_response_input) state3)
      = Inr (OutcomeResult OutcomeResponse)
    \<and> forgotten 3 (snd (finish_dependency demo_registry_env demo_engine_io 3 (Some demo_response_input) state3))"
proof -
  obtain r st' where run: "finish_dependency demo_registry_env demo_engine_io 3 (Some demo_response_input)
      state3 = (r, st')" by fastforce
  have "fst (finish_dependency demo_registry_env demo_engine_io 3 (Some demo_response_input) state3)
      = Inr (OutcomeResult OutcomeResponse)"
    unfolding state3_opened opened3_def state2_def state1_def state0_def by code_simp
  then show ?thesis
    using finish_dependency_ends [OF run demo_sorted(2)] demo_tables(5) run by simp
qed


theorem opened_dependency_request_witness:
  "\<exists>se. bt_get (registered state3) 3 = Some \<lparr>be_operation = 2, be_session = Some se\<rparr>
    \<and> ds_validated_request se = Some (into_request demo_request)"
proof -
  have run: "open_dependency demo_registry_env demo_engine_io 2 None demo_request state2
      = (Inr (DependencyResult ''capture'' 3), state3)"
    using demo_dependency_opened by (simp add: state3_opened opened3_def prod_eq_iff)
  have cls: "for_class (qi_class demo_request) \<noteq> None" by (simp add: demo_request_def for_class_def)
  have "codec_faithful (dependency_request_codec (re_world demo_registry_env)) (into_request demo_request)"
    by (simp add: codec_faithful_def demo_registry_env_def op_env_def demo_env_def demo_codec_def
        into_request_def demo_request_def)
  from opened_dependency_request [OF run demo_sorted(1) cls this] demo_tables(3)
  show ?thesis by auto
qed

theorem errors_are_delivered_witness:
  "fst (reproit_sdk_engine_call \<lparr>js_parse_call = (\<lambda>_. None), js_print_response = (\<lambda>_. None)\<rparr>
      demo_registry_env demo_engine_io
      \<lparr>wt_idle = (\<lambda>_ _. True), wt_wakes = [], wt_others = (\<lambda>st. st)\<rparr> None (Some [0]) (Some 16384) state1)
    = Some (int (length FALLBACK), FALLBACK)"
proof -
  let ?js = "\<lparr>js_parse_call = (\<lambda>_. None), js_print_response = (\<lambda>_. None)\<rparr>"
  let ?wt = "\<lparr>wt_idle = (\<lambda>_ _. True), wt_wakes = [], wt_others = (\<lambda>st. st)\<rparr>"
  from errors_are_delivered [where input = "[0]" and capacity = 16384 and js = ?js and e = SchemaInvalid
      and st = state1 and st' = state1 and re = demo_registry_env and io = demo_engine_io and wt = ?wt]
  show ?thesis by (auto simp: limits)
qed

theorem chunk_decoded_witness:
  "decode_chunk demo_registry_env 4 (encode_base64url demo_core [65, 65]) = Inr [65, 65]
    \<and> decode_chunk demo_registry_env 1 (encode_base64url demo_core [65, 65]) = Inl RuntimeQuota"
proof -
  have bounded: "base64_bounded demo_core" by (rule demo_core_base64)
  have decode: "decode_base64url_bytes (re_fuzz demo_registry_env) (encode_base64url demo_core [65, 65])
      = Inr [65, 65]" and some: "[65 :: byte, 65] \<noteq> [] \<longrightarrow> encode_base64url demo_core [65, 65] \<noteq> []"
    by (simp_all add: demo_registry_env_def demo_fuzz_core_def demo_core_def)
  from chunk_decoded [OF bounded decode some, of 4] chunk_decoded [OF bounded decode some, of 1]
  show ?thesis by (simp add: limits)
qed

text \<open>An operation that was begun satisfies the invariant of operations, charged to the process.\<close>

lemma begin_operation_inv:
  assumes "begin_operation re io e p None st = (Inr result, st')" "begin_campaign_context p = None"
    and "ledger_ok (ps_resources (es_process st))" "bt_get (reg_engines (es_registry st)) e \<noteq> None"
  shows "\<exists>mo. bt_get (reg_operations (es_registry st')) (reg_next_handle (es_registry st))
      = Some \<lparr>oe_engine = e, oe_operation = mo\<rparr>
    \<and> operation_inv (mo_operation_id mo) (ps_resources (es_process st)) (mo, es_process st')"
proof -
  obtain en where en: "bt_get (reg_engines (es_registry st)) e = Some en" using assms(4) by blast
  obtain r ps where start: "start_operation (re_world re) (re_engine re) (ei_start io) en p (es_process st)
      = (r, ps)" by fastforce
  obtain mo where mo: "r = Inr mo"
    "insert_operation e mo (st\<lparr>es_process := ps\<rparr>) = (Inr result, st')"
    using assms(1,2) en start
    by (auto simp: begin_operation_def act_bind_def act_res_def validate_fuzz_context_input_def
        process_call_def start_scoped_def split: if_splits sum.splits)
  have inv: "operation_inv (mo_operation_id mo) (ps_resources (es_process st)) (mo, ps)"
    using start_operation_inv [OF assms(3) start] mo(1) by simp
  obtain r1 st1 where alloc: "allocate_handle (st\<lparr>es_process := ps\<rparr>) = (r1, st1)" by fastforce
  with mo(2) obtain h where h: "r1 = Inr h" by (cases r1) (auto simp: insert_operation_def)
  then have st1: "h = reg_next_handle (es_registry st)" "st1 = on_registry (\<lambda>rg. rg\<lparr>reg_next_handle := Suc h\<rparr>)
      (st\<lparr>es_process := ps\<rparr>)"
    using alloc by (auto simp: allocate_handle_Inr handles_sel)
  have "st' = sentinel_call (operation_started h) (on_registry (\<lambda>rg. rg\<lparr>reg_operations :=
      bt_insert h \<lparr>oe_engine = e, oe_operation = mo\<rparr> (reg_operations rg)\<rparr>) st1)"
    using mo(2) alloc h by (simp add: insert_operation_def)
  then show ?thesis using inv st1 by (intro exI [of _ mo]) (simp add: sentinel_call_def)
qed

theorem enqueue_failure_hands_over_witness:
  "(\<exists>sink. fst (enqueue_failure demo_engine_io 2 [] ''token'' state2) = Inr (SinkResult sink))
    \<and> \<not> is_ok (fst (enqueue_failure demo_engine_io 2 [] [] state2))
    \<and> ps_resources (es_process (snd (enqueue_failure demo_engine_io 2 [] [] state2)))
        = ps_resources (es_process state1)"
proof -
  have facts: "fst (enqueue_failure demo_engine_io 2 [] ''token'' state2) = Inr (SinkResult 3)"
    "reg_next_handle (es_registry state1) = 2"
    "is_ok (fst (begin_operation demo_registry_env demo_engine_io 1 demo_begin None state1))"
    "begin_campaign_context demo_begin = None"
    "bt_contains (reg_engines (es_registry state1)) 1"
    unfolding state2_def state1_def state0_def by code_simp+
  have resources: "ps_resources (es_process state1) = new_resources"
    unfolding state1_def state0_def by code_simp
  obtain result where run: "begin_operation demo_registry_env demo_engine_io 1 demo_begin None state1
      = (Inr result, state2)"
    using facts(3) by (cases "begin_operation demo_registry_env demo_engine_io 1 demo_begin None state1";
        cases "fst (begin_operation demo_registry_env demo_engine_io 1 demo_begin None state1)")
      (auto simp: state2_def dispatch_immediate_def dispatch_operation_def)
  have "ledger_ok (ps_resources (es_process state1))" by (simp add: resources ledger_ok_new)
  from begin_operation_inv [OF run facts(4) this] facts(2,5) obtain mo where
    mo: "bt_get (reg_operations (es_registry state2)) 2 = Some \<lparr>oe_engine = 1, oe_operation = mo\<rparr>"
      "operation_inv (mo_operation_id mo) (ps_resources (es_process state1)) (mo, es_process state2)"
    by (auto simp: bt_contains_def)
  obtain r st' where fail: "enqueue_failure demo_engine_io 2 [] [] state2 = (r, st')" by fastforce
  from enqueue_failure_hands_over [OF fail reachable_handles_ok [OF demo_reached(3)] mo(1)] mo(2)
  have "(case r of Inl _ \<Rightarrow> ps_resources (es_process st') = ps_resources (es_process state1)
      | Inr _ \<Rightarrow> project_token_new [] = Inr [])"
    by (cases r) auto
  then show ?thesis using facts(1) fail by (auto simp: project_token_new_def split: sum.splits)
qed

end
