(* ===== verification/Managed_Seal.thy ===== *)
theory Managed_Seal
  imports Managed_Closure
begin

text \<open>
  Sealing a candidate (\<^verbatim>\<open>crates/reproit-sdk-rust/src/managed.rs\<close>, \<open>seal\<close> and what it calls): the
  objects of a prepared candidate are checked against their descriptors, cut into chunks of at most
  eight mebibytes, encrypted under a key of their own and written to a private directory under the
  digest of the ciphertext.  The ciphers, the key derivation, the registry of nonces and the
  validations of the core crate are fields of \<open>seal_env\<close>; the private directory is a map from
  digests to contents, as in \<open>Managed_Closure\<close>.
\<close>

section \<open>Data\<close>

text \<open>
  The identities, contexts and requests of the core and API crates, with the fields this code fills
  in or reads.  Format tags with a single value are left out; \<open>rest\<close> is what the code only carries.
\<close>

record managed_identity =
  mi_candidate_digest :: digest
  mi_capture_id :: capture_id
  mi_deployment_digest :: digest
  mi_objects :: "logical_object list"
  mi_organization_id :: nat
  mi_project_id :: nat
  mi_required_capabilities :: "string list"
  mi_service_id :: nat
  mi_subject_digest :: digest
  mi_total_plaintext_bytes :: nat

record object_key_context =
  ctx_capture_batch_format :: string
  ctx_capture_id :: capture_id
  ctx_object_id :: nat
  ctx_organization_id :: nat
  ctx_processing_mode :: processing_mode
  ctx_project_id :: nat
  ctx_role :: object_role
  ctx_service_id :: nat

record chunk_context =
  ck_chunk_count :: nat
  ck_chunk_index :: nat
  ck_object_context_digest :: digest
  ck_plain_size :: nat

record encrypted_chunk =
  ec_cipher_digest :: digest
  ec_cipher_size :: nat
  ec_index :: nat
  ec_nonce :: string

record encrypted_object =
  eo_chunks :: "encrypted_chunk list"
  eo_descriptor :: logical_object

record manifest_object =
  mo_cipher_digest :: digest
  mo_cipher_size :: nat
  mo_nonce :: string
  mo_object_id :: nat

record candidate_manifest =
  cm_candidate_identity :: managed_identity
  cm_candidate_identity_digest :: digest
  cm_candidate_key_reference :: string

record ciphertext_identity =
  ci_candidate_identity_digest :: digest
  ci_candidate_key_reference :: string
  ci_capture_id :: capture_id
  ci_manifest_object :: manifest_object
  ci_objects :: "encrypted_object list"
  ci_organization_id :: nat
  ci_project_id :: nat
  ci_required_capabilities :: "string list"
  ci_service_id :: nat
  ci_total_ciphertext_bytes :: nat

record capture_grant =
  cg_candidate_key_reference :: string
  cg_capture_id :: capture_id
  cg_rest :: bytes

record upload_request =
  ur_capture_grant :: capture_grant
  ur_ciphertext_identity :: ciphertext_identity
  ur_encrypted_candidate_digest :: digest

record encryption_response =
  rs_candidate_key :: bytes
  rs_capture_grant :: capture_grant

record grant_expectation =
  ge_candidate_identity_digest :: digest
  ge_candidate_key_reference :: string
  ge_capture_id :: capture_id
  ge_organization_id :: nat
  ge_project_id :: nat
  ge_service_id :: nat
  ge_signer_key_id :: string

record grant_request =
  gr_candidate_identity_digest :: digest
  gr_capture_id :: capture_id
  gr_deployment_digest :: digest
  gr_organization_id :: nat
  gr_project_id :: nat
  gr_service_id :: nat
  gr_signature :: string
  gr_signer_key_id :: string

section \<open>What the model is given\<close>

text \<open>\<open>'n\<close> is the core crate's registry of nonces.\<close>

record ('r, 'n) seal_env =
  se_world :: "'r world_env"
  se_objects :: closure_core
  derive_object_key :: "bytes \<Rightarrow> capture_id \<Rightarrow> object_key_context \<Rightarrow> bytes res"
  derive_chunk_key :: "bytes \<Rightarrow> chunk_context \<Rightarrow> bytes res"
  encrypt_chunk :: "bytes \<Rightarrow> bytes \<Rightarrow> bytes \<Rightarrow> chunk_context \<Rightarrow> bytes res"
  no_nonces :: 'n
  register_nonce :: "bytes \<Rightarrow> 'n \<Rightarrow> unit res \<times> 'n"
  sign_bytes :: "bytes \<Rightarrow> bytes \<Rightarrow> string"
  digest_context :: "object_key_context \<Rightarrow> digest res"
  digest_identity :: "managed_identity \<Rightarrow> digest res"
  digest_ciphertext :: "ciphertext_identity \<Rightarrow> digest res"
  canonical_manifest :: "candidate_manifest \<Rightarrow> bytes res"
  canonical_grant_request :: "grant_request \<Rightarrow> bytes res"
  validate_response :: "encryption_response \<Rightarrow> unit res"
  validate_identity :: "managed_identity \<Rightarrow> unit res"
  validate_manifest :: "candidate_manifest \<Rightarrow> unit res"
  validate_ciphertext :: "ciphertext_identity \<Rightarrow> unit res"
  validate_upload_request :: "upload_request \<Rightarrow> unit res"
  validate_grant_request :: "grant_request \<Rightarrow> unit res"
  verify_capture_grant ::
    "capture_grant \<Rightarrow> grant_expectation \<Rightarrow> nat \<Rightarrow> bytes \<Rightarrow> unit res"

text \<open>
  The system during one call: \<open>si_files\<close> answers the check of the closure, \<open>si_stream\<close> what an opened
  file delivers (its bytes, and whether an error rather than the end follows them), the other fields
  the directory, the random numbers in the order they are drawn, the writes, and the fresh
  identifier.
\<close>

record 'p seal_io =
  si_files :: "'p files"
  si_stream :: "'p \<Rightarrow> (bytes \<times> bool) option"
  si_directory :: bool
  si_nonce :: "nat \<Rightarrow> bytes option"
  si_write :: "digest \<Rightarrow> bool"
  si_object_id :: "nat res"

text \<open>What the sealing changes: the table and the private directory, the registry, and how many
  random numbers were drawn.\<close>

record 'n seal_state =
  ss_ciphertext :: "(digest, digest) btree"
  ss_store :: frozen_spool
  ss_nonces :: 'n
  ss_drawn :: nat

section \<open>The check of the closure\<close>

text \<open>The size and digest an object really has.\<close>

definition actual_object ::
  "('r, 'n) seal_env \<Rightarrow> 'p files \<Rightarrow> 'p object_source \<Rightarrow> (nat \<times> digest) res" where
  "actual_object cy fl source =
     (case source of
        SourceBytes data \<Rightarrow> Inr (length data, sha256 (se_world cy) data)
      | SourceFile path \<Rightarrow> hash_file (se_world cy) fl path)"

fun verify_objects ::
  "('r, 'n) seal_env \<Rightarrow> 'p files \<Rightarrow> nat list \<Rightarrow> 'p prepared_object list \<Rightarrow> unit res" where
  "verify_objects cy fl seen [] = Inr ()"
| "verify_objects cy fl seen (ob # rest) =
     bind_res (validate_object (se_objects cy) (po_descriptor ob)) (\<lambda>_.
       if lo_object_id (po_descriptor ob) \<in> set seen then Inl IncompleteCandidate
       else bind_res (actual_object cy fl (po_source ob)) (\<lambda>actual.
         if actual \<noteq> (lo_plain_size (po_descriptor ob), lo_plain_digest (po_descriptor ob))
         then Inl IncompleteCandidate
         else verify_objects cy fl (lo_object_id (po_descriptor ob) # seen) rest))"

definition verify_local_closure ::
  "('r, 'n) seal_env \<Rightarrow> 'p files \<Rightarrow> 'p prepared_object list \<Rightarrow> unit res" where
  "verify_local_closure cy fl objects =
     (if length objects < 5 \<or> length objects > MAX_ARTIFACTS then Inl IncompleteCandidate
      else verify_objects cy fl [] objects)"

section \<open>Encryption\<close>

definition object_context :: "managed_identity \<Rightarrow> nat \<Rightarrow> object_role \<Rightarrow> object_key_context" where
  "object_context identity object_id role =
     \<lparr>ctx_capture_batch_format = ''reproit.capture-batch.v1'',
      ctx_capture_id = mi_capture_id identity, ctx_object_id = object_id,
      ctx_organization_id = mi_organization_id identity, ctx_processing_mode = Managed,
      ctx_project_id = mi_project_id identity, ctx_role = role,
      ctx_service_id = mi_service_id identity\<rparr>"

definition random_nonce ::
  "('r, 'n) seal_env \<Rightarrow> 'p seal_io \<Rightarrow> ('n seal_state, bytes) act" where
  "random_nonce cy io s =
     (let s' = s\<lparr>ss_drawn := Suc (ss_drawn s)\<rparr>
      in case si_nonce io (ss_drawn s) of
          None \<Rightarrow> (Inl ServiceUnavailable, s')
        | Some nonce \<Rightarrow>
            case register_nonce cy nonce (ss_nonces s') of
              (Inl e, nonces) \<Rightarrow> (Inl e, s'\<lparr>ss_nonces := nonces\<rparr>)
            | (Inr _, nonces) \<Rightarrow> (Inr nonce, s'\<lparr>ss_nonces := nonces\<rparr>))"

text \<open>
  The path is the digest itself, so an entry already in the table has the same path; the comparison
  is kept.
\<close>

definition store_ciphertext ::
  "('r, 'n) seal_env \<Rightarrow> 'p seal_io \<Rightarrow> nat \<Rightarrow> bytes \<Rightarrow> bytes
     \<Rightarrow> ('n seal_state, encrypted_chunk) act" where
  "store_ciphertext cy io index nonce stored s =
     (let digest = sha256 (se_world cy) stored; path = digest
      in if ss_store s path = None \<and> \<not> si_write io path then (Inl ServiceUnavailable, s)
         else
           let existing = bt_get (ss_ciphertext s) digest;
               s' = s\<lparr>ss_store := (if ss_store s path = None then (ss_store s)(path \<mapsto> stored)
                                  else ss_store s),
                      ss_ciphertext := bt_insert digest path (ss_ciphertext s)\<rparr>
           in if existing \<noteq> None \<and> existing \<noteq> Some path then (Inl ObjectDigestMismatch, s')
              else (Inr \<lparr>ec_cipher_digest = digest, ec_cipher_size = length stored,
                         ec_index = index,
                         ec_nonce = encode_base64url (we_core (se_world cy)) nonce\<rparr>, s'))"

text \<open>\<open>read_exact\<close> on the bytes still to come.\<close>

definition read_exact :: "nat \<Rightarrow> bytes \<times> bool \<Rightarrow> (bytes \<times> bytes \<times> bool) res" where
  "read_exact n reader =
     (if n \<le> length (fst reader)
      then Inr (take n (fst reader), drop n (fst reader), snd reader)
      else Inl IncompleteCandidate)"

text \<open>One turn of the loop after the chunk has been read.\<close>

definition seal_chunk ::
  "('r, 'n) seal_env \<Rightarrow> 'p seal_io \<Rightarrow> bytes \<Rightarrow> chunk_context \<Rightarrow> bytes
     \<Rightarrow> ('n seal_state, encrypted_chunk) act" where
  "seal_chunk cy io object_key context plaintext =
     act_bind (act_res (derive_chunk_key cy object_key context)) (\<lambda>chunk_key.
     act_bind (random_nonce cy io) (\<lambda>nonce.
     act_bind (act_res (encrypt_chunk cy chunk_key nonce plaintext context)) (\<lambda>stored.
       store_ciphertext cy io (ck_chunk_index context) nonce stored)))"

text \<open>The loop over the chunks, with the number of turns left; it returns what it still knows.\<close>

fun encrypt_chunks ::
  "('r, 'n) seal_env \<Rightarrow> 'p seal_io \<Rightarrow> nat \<Rightarrow> digest \<Rightarrow> bytes \<Rightarrow> nat \<Rightarrow> nat \<Rightarrow> nat \<Rightarrow> bytes
     \<Rightarrow> bytes \<times> bool
     \<Rightarrow> ('n seal_state, encrypted_chunk list \<times> nat \<times> bytes \<times> bytes \<times> bool) act" where
  "encrypt_chunks cy io count digest key 0 index remaining hashed reader =
     act_res (Inr ([], remaining, hashed, reader))"
| "encrypt_chunks cy io count digest key (Suc left) index remaining hashed reader =
     (let plain_size = min remaining MAX_CHUNK_BYTES
      in act_bind (act_res (read_exact plain_size reader)) (\<lambda>(plaintext, reader').
         act_bind (seal_chunk cy io key
             \<lparr>ck_chunk_count = count, ck_chunk_index = index,
              ck_object_context_digest = digest, ck_plain_size = plain_size\<rparr> plaintext) (\<lambda>chunk.
         act_bind (encrypt_chunks cy io count digest key left (Suc index)
             (saturating_sub remaining plain_size) (hashed @ plaintext) reader')
           (\<lambda>(chunks, out). act_res (Inr (chunk # chunks, out))))))"

text \<open>\<open>div_ceil\<close>\<close>

definition div_ceil :: "nat \<Rightarrow> nat \<Rightarrow> nat" where
  "div_ceil a b = (a + b - 1) div b"

definition open_source :: "'p seal_io \<Rightarrow> 'p object_source \<Rightarrow> (bytes \<times> bool) res" where
  "open_source io source =
     (case source of
        SourceBytes data \<Rightarrow> Inr (data, False)
      | SourceFile path \<Rightarrow> ok_or IncompleteCandidate (si_stream io path))"

definition encrypt_object ::
  "('r, 'n) seal_env \<Rightarrow> 'p seal_io \<Rightarrow> bytes \<Rightarrow> managed_identity \<Rightarrow> 'p prepared_object
     \<Rightarrow> ('n seal_state, encrypted_object) act" where
  "encrypt_object cy io key identity ob =
     (let descriptor = po_descriptor ob;
          chunk_count = div_ceil (max (lo_plain_size descriptor) 1) MAX_CHUNK_BYTES
      in if chunk_count > 32767 then act_res (Inl IncompleteCandidate)
         else
           let context = object_context identity (lo_object_id descriptor) (lo_role descriptor)
           in act_bind (act_res (digest_context cy context)) (\<lambda>context_digest.
              act_bind (act_res (derive_object_key cy key (mi_capture_id identity) context))
                (\<lambda>object_key.
              act_bind (act_res (open_source io (po_source ob))) (\<lambda>reader.
              act_bind (encrypt_chunks cy io chunk_count context_digest object_key chunk_count 0
                  (lo_plain_size descriptor) [] reader)
                (\<lambda>(chunks, remaining, hashed, trailing, broken).
                  if remaining \<noteq> 0 \<or> broken \<or> trailing \<noteq> []
                     \<or> sha256 (se_world cy) hashed \<noteq> lo_plain_digest descriptor
                  then act_res (Inl IncompleteCandidate)
                  else act_res (Inr \<lparr>eo_chunks = chunks, eo_descriptor = descriptor\<rparr>))))))"

fun encrypt_objects ::
  "('r, 'n) seal_env \<Rightarrow> 'p seal_io \<Rightarrow> bytes \<Rightarrow> managed_identity \<Rightarrow> 'p prepared_object list
     \<Rightarrow> ('n seal_state, encrypted_object list) act" where
  "encrypt_objects cy io key identity [] = act_res (Inr [])"
| "encrypt_objects cy io key identity (ob # rest) =
     act_bind (encrypt_object cy io key identity ob) (\<lambda>encrypted.
     act_bind (encrypt_objects cy io key identity rest) (\<lambda>encrypteds.
       act_res (Inr (encrypted # encrypteds))))"

definition encrypt_manifest ::
  "('r, 'n) seal_env \<Rightarrow> 'p seal_io \<Rightarrow> bytes \<Rightarrow> managed_identity \<Rightarrow> nat \<Rightarrow> bytes
     \<Rightarrow> ('n seal_state, manifest_object) act" where
  "encrypt_manifest cy io key identity object_id plaintext =
     (if length plaintext > MAX_CHUNK_BYTES then act_res (Inl IncompleteCandidate)
      else
        let context = object_context identity object_id CaptureBatchManifestRole
        in act_bind (act_res (digest_context cy context)) (\<lambda>context_digest.
           let chunk_context = \<lparr>ck_chunk_count = 1, ck_chunk_index = 0,
                 ck_object_context_digest = context_digest, ck_plain_size = length plaintext\<rparr>
           in act_bind (act_res (derive_object_key cy key (mi_capture_id identity) context))
                (\<lambda>object_key.
              act_bind (seal_chunk cy io object_key chunk_context plaintext) (\<lambda>chunk.
                act_res (Inr \<lparr>mo_cipher_digest = ec_cipher_digest chunk,
                              mo_cipher_size = ec_cipher_size chunk,
                              mo_nonce = ec_nonce chunk, mo_object_id = object_id\<rparr>)))))"

section \<open>Sealing\<close>

record 'p prepared_candidate =
  pc_identity :: managed_identity
  pc_objects :: "'p prepared_object list"
  pc_capture_reservation :: nat

record sealed_candidate =
  sc_request :: upload_request
  sc_candidate_key :: bytes
  sc_ciphertext :: "(digest, digest) btree"
  sc_deployment_digest :: digest
  sc_spool :: frozen_spool

text \<open>The \<open>try_fold\<close> over the sizes of the chunks.\<close>

fun add_cipher_sizes :: "nat \<Rightarrow> encrypted_chunk list \<Rightarrow> nat res" where
  "add_cipher_sizes acc [] = Inr acc"
| "add_cipher_sizes acc (c # cs) =
     bind_res (ok_or SchemaInvalid (checked_add acc (ec_cipher_size c))) (\<lambda>acc'.
       add_cipher_sizes acc' cs)"

definition seal_expectation ::
  "managed_identity \<Rightarrow> digest \<Rightarrow> string \<Rightarrow> string \<Rightarrow> grant_expectation" where
  "seal_expectation identity identity_digest key_reference signer_id =
     \<lparr>ge_candidate_identity_digest = identity_digest,
      ge_candidate_key_reference = key_reference,
      ge_capture_id = mi_capture_id identity,
      ge_organization_id = mi_organization_id identity,
      ge_project_id = mi_project_id identity,
      ge_service_id = mi_service_id identity,
      ge_signer_key_id = signer_id\<rparr>"

text \<open>The objects and the manifest, encrypted into the private directory.\<close>

definition encrypt_closure ::
  "('r, 'n) seal_env \<Rightarrow> 'p seal_io \<Rightarrow> bytes \<Rightarrow> managed_identity \<Rightarrow> digest \<Rightarrow> string
     \<Rightarrow> 'p prepared_object list \<Rightarrow> ('n seal_state, encrypted_object list \<times> manifest_object) act"
  where
  "encrypt_closure cy io key identity identity_digest key_reference objects =
     act_bind (encrypt_objects cy io key identity objects) (\<lambda>encrypted.
     let manifest = \<lparr>cm_candidate_identity = identity,
                     cm_candidate_identity_digest = identity_digest,
                     cm_candidate_key_reference = key_reference\<rparr>
     in act_bind (act_res (validate_manifest cy manifest)) (\<lambda>_.
        act_bind (act_res (si_object_id io)) (\<lambda>manifest_object_id.
        act_bind (act_res (canonical_manifest cy manifest)) (\<lambda>manifest_bytes.
        act_bind (encrypt_manifest cy io key identity manifest_object_id manifest_bytes)
          (\<lambda>manifest_object. act_res (Inr (encrypted, manifest_object)))))))"

definition empty_seal :: "('r, 'n) seal_env \<Rightarrow> 'n seal_state" where
  "empty_seal cy = \<lparr>ss_ciphertext = [], ss_store = (\<lambda>_. None), ss_nonces = no_nonces cy,
                     ss_drawn = 0\<rparr>"

text \<open>What is announced of the ciphertexts.\<close>

definition announce ::
  "('r, 'n) seal_env \<Rightarrow> managed_identity \<Rightarrow> digest \<Rightarrow> encryption_response
     \<Rightarrow> encrypted_object list \<Rightarrow> manifest_object \<Rightarrow> upload_request res" where
  "announce cy identity identity_digest response encrypted manifest_object =
     bind_res (add_cipher_sizes (mo_cipher_size manifest_object)
         (concat (map eo_chunks encrypted))) (\<lambda>cipher_bytes.
     let ciphertext = \<lparr>ci_candidate_identity_digest = identity_digest,
           ci_candidate_key_reference = cg_candidate_key_reference (rs_capture_grant response),
           ci_capture_id = mi_capture_id identity, ci_manifest_object = manifest_object,
           ci_objects = encrypted, ci_organization_id = mi_organization_id identity,
           ci_project_id = mi_project_id identity,
           ci_required_capabilities = mi_required_capabilities identity,
           ci_service_id = mi_service_id identity, ci_total_ciphertext_bytes = cipher_bytes\<rparr>
     in bind_res (validate_ciphertext cy ciphertext) (\<lambda>_.
        bind_res (digest_ciphertext cy ciphertext) (\<lambda>encrypted_digest.
        let request = \<lparr>ur_capture_grant = rs_capture_grant response,
                       ur_ciphertext_identity = ciphertext,
                       ur_encrypted_candidate_digest = encrypted_digest\<rparr>
        in bind_res (validate_upload_request cy request) (\<lambda>_. Inr request))))"

definition seal_checked ::
  "('r, 'n) seal_env \<Rightarrow> 'p seal_io \<Rightarrow> encryption_response \<Rightarrow> nat \<Rightarrow> string \<Rightarrow> bytes
     \<Rightarrow> 'p prepared_candidate \<Rightarrow> sealed_candidate res" where
  "seal_checked cy io response now signer_id public_key prepared =
     (let identity = pc_identity prepared;
          key_reference = cg_candidate_key_reference (rs_capture_grant response)
      in bind_res (validate_response cy response) (\<lambda>_.
         bind_res (digest_identity cy identity) (\<lambda>identity_digest.
         bind_res (verify_capture_grant cy (rs_capture_grant response)
             (seal_expectation identity identity_digest key_reference signer_id) now public_key)
           (\<lambda>_.
         bind_res (verify_local_closure cy (si_files io) (pc_objects prepared)) (\<lambda>_.
           if \<not> si_directory io then Inl ServiceUnavailable
           else
             case encrypt_closure cy io (rs_candidate_key response) identity identity_digest
                    key_reference (pc_objects prepared) (empty_seal cy) of
               (Inl e, _) \<Rightarrow> Inl e
             | (Inr (encrypted, manifest_object), s) \<Rightarrow>
                 bind_res (announce cy identity identity_digest response encrypted manifest_object)
                   (\<lambda>request.
                     Inr \<lparr>sc_request = request, sc_candidate_key = rs_candidate_key response,
                          sc_ciphertext = ss_ciphertext s,
                          sc_deployment_digest = mi_deployment_digest identity,
                          sc_spool = ss_store s\<rparr>))))))"

text \<open>\<open>seal\<close> owns the prepared candidate: its reservation ends with the call.\<close>

definition seal ::
  "('r, 'n) seal_env \<Rightarrow> 'p seal_io \<Rightarrow> encryption_response \<Rightarrow> nat \<Rightarrow> string \<Rightarrow> bytes
     \<Rightarrow> 'p prepared_candidate \<Rightarrow> process_resources \<Rightarrow> sealed_candidate res \<times> process_resources" where
  "seal cy io response now signer_id public_key prepared r =
     (seal_checked cy io response now signer_id public_key prepared,
      reservation_drop (pc_capture_reservation prepared) r)"

section \<open>Grants\<close>

definition signed_grant_request ::
  "('r, 'n) seal_env \<Rightarrow> digest \<Rightarrow> capture_id \<Rightarrow> digest \<Rightarrow> nat \<Rightarrow> nat \<Rightarrow> nat \<Rightarrow> string \<Rightarrow> bytes
     \<Rightarrow> grant_request res" where
  "signed_grant_request cy identity_digest capture deployment_digest organization project service
       signer_id signing_key =
     (let request = \<lparr>gr_candidate_identity_digest = identity_digest, gr_capture_id = capture,
            gr_deployment_digest = deployment_digest, gr_organization_id = organization,
            gr_project_id = project, gr_service_id = service, gr_signature = [],
            gr_signer_key_id = signer_id\<rparr>
      in bind_res (canonical_grant_request cy request) (\<lambda>data.
         let signed = request\<lparr>gr_signature := sign_bytes cy data signing_key\<rparr>
         in bind_res (validate_grant_request cy signed) (\<lambda>_. Inr signed)))"

text \<open>The request \<open>request_encryption_grant\<close> sends for a prepared candidate.\<close>

definition encryption_grant_request ::
  "('r, 'n) seal_env \<Rightarrow> 'p files \<Rightarrow> string \<Rightarrow> bytes \<Rightarrow> 'p prepared_candidate
     \<Rightarrow> grant_request res" where
  "encryption_grant_request cy fl signer_id signing_key prepared =
     (let identity = pc_identity prepared
      in bind_res (validate_identity cy identity) (\<lambda>_.
         bind_res (verify_local_closure cy fl (pc_objects prepared)) (\<lambda>_.
         bind_res (digest_identity cy identity) (\<lambda>identity_digest.
           signed_grant_request cy identity_digest (mi_capture_id identity)
             (mi_deployment_digest identity) (mi_organization_id identity)
             (mi_project_id identity) (mi_service_id identity) signer_id signing_key))))"

text \<open>The request \<open>request_capture_grant_renewal\<close> sends for a sealed one.\<close>

definition renewal_request ::
  "('r, 'n) seal_env \<Rightarrow> string \<Rightarrow> bytes \<Rightarrow> sealed_candidate \<Rightarrow> grant_request res" where
  "renewal_request cy signer_id signing_key sealed =
     (let identity = ur_ciphertext_identity (sc_request sealed)
      in signed_grant_request cy (ci_candidate_identity_digest identity) (ci_capture_id identity)
           (sc_deployment_digest sealed) (ci_organization_id identity) (ci_project_id identity)
           (ci_service_id identity) signer_id signing_key)"

text \<open>\<open>apply_renewed_capture_grant\<close>: the last validation comes after the assignment.\<close>

definition apply_renewed_capture_grant ::
  "('r, 'n) seal_env \<Rightarrow> encryption_response \<Rightarrow> nat \<Rightarrow> string \<Rightarrow> bytes \<Rightarrow> (sealed_candidate, unit) act"
  where
  "apply_renewed_capture_grant cy response now signer_id public_key sealed =
     (let identity = ur_ciphertext_identity (sc_request sealed);
          grant = rs_capture_grant response
      in case bind_res (validate_response cy response) (\<lambda>_.
                if rs_candidate_key response \<noteq> sc_candidate_key sealed
                   \<or> cg_candidate_key_reference grant \<noteq> ci_candidate_key_reference identity
                then Inl CaptureIdConflict
                else verify_capture_grant cy grant
                  \<lparr>ge_candidate_identity_digest = ci_candidate_identity_digest identity,
                   ge_candidate_key_reference = ci_candidate_key_reference identity,
                   ge_capture_id = ci_capture_id identity,
                   ge_organization_id = ci_organization_id identity,
                   ge_project_id = ci_project_id identity,
                   ge_service_id = ci_service_id identity, ge_signer_key_id = signer_id\<rparr>
                  now public_key) of
          Inl e \<Rightarrow> (Inl e, sealed)
        | Inr _ \<Rightarrow>
            let sealed' = sealed\<lparr>sc_request := (sc_request sealed)\<lparr>ur_capture_grant := grant\<rparr>\<rparr>
            in (validate_upload_request cy (sc_request sealed'), sealed'))"

end
