(* ===== verification/Seal_Theorems.thy ===== *)
theory Seal_Theorems
  imports Managed_Seal World_Safety
begin

text \<open>
  What sealing promises: whoever holds the candidate's key and fetches the ciphertexts by their
  digests gets back every object the candidate announced, no nonce is used twice, and the private
  directory holds exactly the ciphertexts the request declares.
\<close>

section \<open>The receiver\<close>

text \<open>
  The other side of the cipher, as the core crate documents it: \<open>rx_decrypt\<close> inverts
  \<open>encrypt_chunk\<close> for the same key, nonce and context, \<open>rx_nonce\<close> the text form of a nonce.
\<close>

record receiver =
  rx_decrypt :: "bytes \<Rightarrow> bytes \<Rightarrow> bytes \<Rightarrow> chunk_context \<Rightarrow> bytes res"
  rx_nonce :: "string \<Rightarrow> bytes res"

definition receives :: "receiver \<Rightarrow> ('r, 'n) seal_env \<Rightarrow> bool" where
  "receives rx cy \<longleftrightarrow>
     (\<forall>k n p c ct. encrypt_chunk cy k n p c = Inr ct \<longrightarrow> rx_decrypt rx k n ct c = Inr p)
     \<and> (\<forall>n. rx_nonce rx (encode_base64url (we_core (se_world cy)) n) = Inr n)"

definition open_chunk ::
  "('r, 'n) seal_env \<Rightarrow> receiver \<Rightarrow> nat \<Rightarrow> digest \<Rightarrow> bytes \<Rightarrow> nat \<Rightarrow> encrypted_chunk \<Rightarrow> bytes
     \<Rightarrow> bytes res" where
  "open_chunk cy rx count digest key plain_size c ct =
     (let ckx = \<lparr>ck_chunk_count = count, ck_chunk_index = ec_index c,
            ck_object_context_digest = digest, ck_plain_size = plain_size\<rparr>
      in bind_res (derive_chunk_key cy key ckx) (\<lambda>chunk_key.
         bind_res (rx_nonce rx (ec_nonce c)) (\<lambda>nonce. rx_decrypt rx chunk_key nonce ct ckx)))"

fun open_chunks ::
  "('r, 'n) seal_env \<Rightarrow> receiver \<Rightarrow> nat \<Rightarrow> digest \<Rightarrow> bytes \<Rightarrow> nat \<Rightarrow> encrypted_chunk list
     \<Rightarrow> bytes list \<Rightarrow> bytes res" where
  "open_chunks cy rx count digest key remaining (c # cs) (ct # cts) =
     bind_res (open_chunk cy rx count digest key (min remaining MAX_CHUNK_BYTES) c ct) (\<lambda>data.
     bind_res (open_chunks cy rx count digest key (remaining - MAX_CHUNK_BYTES) cs cts) (\<lambda>rest.
       Inr (data @ rest)))"
| "open_chunks cy rx count digest key remaining _ _ = Inr []"

definition open_object ::
  "('r, 'n) seal_env \<Rightarrow> receiver \<Rightarrow> bytes \<Rightarrow> managed_identity \<Rightarrow> encrypted_object \<Rightarrow> bytes list
     \<Rightarrow> bytes res" where
  "open_object cy rx key identity eo cts =
     (let descriptor = eo_descriptor eo;
          ckx = object_context identity (lo_object_id descriptor) (lo_role descriptor)
      in bind_res (digest_context cy ckx) (\<lambda>digest.
         bind_res (derive_object_key cy key (mi_capture_id identity) ckx) (\<lambda>object_key.
           open_chunks cy rx (length (eo_chunks eo)) digest object_key (lo_plain_size descriptor)
             (eo_chunks eo) cts)))"

text \<open>The texts are those the chunks announce: by digest and size, in the order of their indices.\<close>

definition announced :: "('r, 'n) seal_env \<Rightarrow> encrypted_object \<Rightarrow> bytes list \<Rightarrow> bool" where
  "announced cy eo cts \<longleftrightarrow>
     map ec_cipher_digest (eo_chunks eo) = map (sha256 (se_world cy)) cts
     \<and> map ec_cipher_size (eo_chunks eo) = map length cts
     \<and> map ec_index (eo_chunks eo) = [0 ..< length (eo_chunks eo)]"

section \<open>What one step stores\<close>

text \<open>The directory holds, under every digest of the table, a file of that digest.\<close>

definition store_ok :: "('r, 'n) seal_env \<Rightarrow> 'n seal_state \<Rightarrow> bool" where
  "store_ok cy s \<longleftrightarrow>
     (\<forall>d x. ss_store s d = Some x \<longrightarrow> sha256 (se_world cy) x = d)
     \<and> (\<forall>d. bt_get (ss_ciphertext s) d = (if ss_store s d = None then None else Some d))"

text \<open>The registry accepts the nonces one after the other.\<close>

fun registered :: "('r, 'n) seal_env \<Rightarrow> 'n \<Rightarrow> bytes list \<Rightarrow> 'n \<Rightarrow> bool" where
  "registered cy reg [] reg' = (reg' = reg)"
| "registered cy reg (n # ns) reg' =
     (\<exists>reg1. register_nonce cy n reg = (Inr (), reg1) \<and> registered cy reg1 ns reg')"

lemma registered_append:
  "registered cy reg ns reg1 \<Longrightarrow> registered cy reg1 ns' reg2 \<Longrightarrow> registered cy reg (ns @ ns') reg2"
  by (induction ns arbitrary: reg) auto

text \<open>From \<open>s\<close> to \<open>s'\<close> exactly the announced ciphertexts are added.\<close>

definition stores ::
  "('r, 'n) seal_env \<Rightarrow> 'n seal_state \<Rightarrow> 'n seal_state \<Rightarrow> (digest \<times> string) list \<Rightarrow> bool" where
  "stores cy s s' cs \<longleftrightarrow>
     (store_ok cy s \<longrightarrow> store_ok cy s')
     \<and> dom (ss_store s') = dom (ss_store s) \<union> fst ` set cs
     \<and> (\<exists>ns. map snd cs = map (encode_base64url (we_core (se_world cy))) ns
          \<and> registered cy (ss_nonces s) ns (ss_nonces s'))"

definition chunk_mark :: "encrypted_chunk \<Rightarrow> digest \<times> string" where
  "chunk_mark c = (ec_cipher_digest c, ec_nonce c)"

lemma stores_none: "stores cy s s []"
  by (auto simp: stores_def intro: exI [where x = "[]"])

lemma stores_append:
  assumes "stores cy s s1 cs" "stores cy s1 s2 cs'"
  shows "stores cy s s2 (cs @ cs')"
proof -
  obtain ns ns' where ns: "map snd cs = map (encode_base64url (we_core (se_world cy))) ns"
    "registered cy (ss_nonces s) ns (ss_nonces s1)"
    "map snd cs' = map (encode_base64url (we_core (se_world cy))) ns'"
    "registered cy (ss_nonces s1) ns' (ss_nonces s2)"
    using assms by (auto simp: stores_def)
  then have "map snd (cs @ cs') = map (encode_base64url (we_core (se_world cy))) (ns @ ns')"
    "registered cy (ss_nonces s) (ns @ ns') (ss_nonces s2)"
    by (simp_all add: registered_append)
  then show ?thesis using assms unfolding stores_def by (metis Un_assoc image_Un set_append)
qed

lemma random_nonce_run:
  assumes "random_nonce cy io s = (Inr nonce, s')"
  shows "register_nonce cy nonce (ss_nonces s) = (Inr (), ss_nonces s')"
    and "ss_store s' = ss_store s" "ss_ciphertext s' = ss_ciphertext s"
  using assms by (auto simp: random_nonce_def Let_def split: option.splits prod.splits sum.splits)

lemma store_ciphertext_run:
  assumes run: "store_ciphertext cy io index nonce ct s = (Inr c, s')"
  shows "c = \<lparr>ec_cipher_digest = sha256 (se_world cy) ct, ec_cipher_size = length ct,
              ec_index = index, ec_nonce = encode_base64url (we_core (se_world cy)) nonce\<rparr>"
    and "ss_nonces s' = ss_nonces s"
    and "dom (ss_store s') = insert (sha256 (se_world cy) ct) (dom (ss_store s))"
    and "store_ok cy s \<Longrightarrow> store_ok cy s'"
proof -
  let ?d = "sha256 (se_world cy) ct"
  let ?s = "s\<lparr>ss_store := (if ss_store s ?d = None then (ss_store s)(?d \<mapsto> ct) else ss_store s),
              ss_ciphertext := bt_insert ?d ?d (ss_ciphertext s)\<rparr>"
  have s': "s' = ?s" and c: "c = \<lparr>ec_cipher_digest = ?d, ec_cipher_size = length ct,
              ec_index = index, ec_nonce = encode_base64url (we_core (se_world cy)) nonce\<rparr>"
    using run by (cases "ss_store s ?d = None"; auto simp: store_ciphertext_def Let_def split: if_split_asm)+
  show "c = \<lparr>ec_cipher_digest = ?d, ec_cipher_size = length ct,
              ec_index = index, ec_nonce = encode_base64url (we_core (se_world cy)) nonce\<rparr>" by (rule c)
  show "ss_nonces s' = ss_nonces s" by (simp add: s')
  show "dom (ss_store s') = insert ?d (dom (ss_store s))" by (auto simp: s')
  show "store_ok cy s'" if "store_ok cy s"
    using that unfolding store_ok_def s' by auto
qed

lemma seal_chunk_run:
  assumes "seal_chunk cy io key ckx p s = (Inr c, s')"
  obtains chunk_key nonce ct where
    "derive_chunk_key cy key ckx = Inr chunk_key"
    "encrypt_chunk cy chunk_key nonce p ckx = Inr ct"
    "c = \<lparr>ec_cipher_digest = sha256 (se_world cy) ct, ec_cipher_size = length ct,
          ec_index = ck_chunk_index ckx,
          ec_nonce = encode_base64url (we_core (se_world cy)) nonce\<rparr>"
    "stores cy s s' [chunk_mark c]"
proof -
  obtain chunk_key nonce ct s1 where
    key: "derive_chunk_key cy key ckx = Inr chunk_key" and
    nonce: "random_nonce cy io s = (Inr nonce, s1)" and
    ct: "encrypt_chunk cy chunk_key nonce p ckx = Inr ct" and
    stored: "store_ciphertext cy io (ck_chunk_index ckx) nonce ct s1 = (Inr c, s')"
    using assms unfolding seal_chunk_def by (auto elim!: act_bind_InrE simp: act_res_def)
  note a = random_nonce_run [OF nonce]
  note b = store_ciphertext_run [OF stored]
  have keep: "store_ok cy s \<Longrightarrow> store_ok cy s1" using a(2,3) by (simp add: store_ok_def)
  have "registered cy (ss_nonces s) [nonce] (ss_nonces s')" using a(1) b(2) by simp
  then have "stores cy s s' [chunk_mark c]"
    unfolding stores_def chunk_mark_def using b(1,3,4) a(2) keep
    by (intro conjI impI exI [where x = "[nonce]"]) (auto simp: b(1))
  with key ct b(1) show thesis by (rule that)
qed

section \<open>An object\<close>

lemma open_sealed_chunk:
  assumes rx: "receives rx cy"
    and run: "seal_chunk cy io key \<lparr>ck_chunk_count = count, ck_chunk_index = index,
        ck_object_context_digest = digest, ck_plain_size = n\<rparr> p s = (Inr c, s')"
  obtains ct where "open_chunk cy rx count digest key n c ct = Inr p"
    "ec_cipher_digest c = sha256 (se_world cy) ct" "ec_cipher_size c = length ct"
    "ec_index c = index" "stores cy s s' [chunk_mark c]"
proof -
  let ?ckx = "\<lparr>ck_chunk_count = count, ck_chunk_index = index,
        ck_object_context_digest = digest, ck_plain_size = n\<rparr>"
  obtain chunk_key nonce ct where key: "derive_chunk_key cy key ?ckx = Inr chunk_key" and
    ct: "encrypt_chunk cy chunk_key nonce p ?ckx = Inr ct" and
    c: "c = \<lparr>ec_cipher_digest = sha256 (se_world cy) ct, ec_cipher_size = length ct,
          ec_index = ck_chunk_index ?ckx,
          ec_nonce = encode_base64url (we_core (se_world cy)) nonce\<rparr>" and
    stores: "stores cy s s' [chunk_mark c]"
    by (rule seal_chunk_run [OF run])
  have "open_chunk cy rx count digest key n c ct = Inr p"
    using rx key ct c by (simp add: open_chunk_def Let_def receives_def)
  then show thesis using c stores by (intro that [of ct]) simp_all
qed

lemma encrypt_chunks_run:
  assumes rx: "receives rx cy"
    and "encrypt_chunks cy io count digest key left index remaining hashed (data, broken) s
      = (Inr (chunks, remaining', hashed', data', broken'), s')"
  shows "\<exists>p cts. hashed' = hashed @ p \<and> data = p @ data' \<and> length p + remaining' = remaining
    \<and> broken' = broken
    \<and> map ec_cipher_digest chunks = map (sha256 (se_world cy)) cts
    \<and> map ec_cipher_size chunks = map length cts
    \<and> map ec_index chunks = [index ..< index + left]
    \<and> stores cy s s' (map chunk_mark chunks)
    \<and> open_chunks cy rx count digest key remaining chunks cts = Inr p"
  using assms(2)
proof (induction left arbitrary: index remaining hashed data s chunks)
  case 0
  then show ?case by (auto simp: act_res_def stores_none intro!: exI [where x = "[]"])
next
  case (Suc left)
  let ?n = "min remaining MAX_CHUNK_BYTES"
  obtain c s1 chunks1 where
    fits: "?n \<le> length data" and
    chunk: "seal_chunk cy io key \<lparr>ck_chunk_count = count, ck_chunk_index = index,
        ck_object_context_digest = digest, ck_plain_size = ?n\<rparr> (take ?n data) s = (Inr c, s1)" and
    rest: "encrypt_chunks cy io count digest key left (Suc index) (remaining - ?n)
        (hashed @ take ?n data) (drop ?n data, broken) s1
        = (Inr (chunks1, remaining', hashed', data', broken'), s')" and
    chunks: "chunks = c # chunks1"
    using Suc.prems
    by (auto simp: Let_def act_res_def read_exact_def elim!: act_bind_InrE split: if_splits prod.splits)
  obtain ct where ct: "open_chunk cy rx count digest key ?n c ct = Inr (take ?n data)"
    "ec_cipher_digest c = sha256 (se_world cy) ct" "ec_cipher_size c = length ct"
    "ec_index c = index" "stores cy s s1 [chunk_mark c]"
    by (rule open_sealed_chunk [OF rx chunk])
  obtain p cts where IH: "hashed' = (hashed @ take ?n data) @ p" "drop ?n data = p @ data'"
    "length p + remaining' = remaining - ?n" "broken' = broken"
    "map ec_cipher_digest chunks1 = map (sha256 (se_world cy)) cts"
    "map ec_cipher_size chunks1 = map length cts"
    "map ec_index chunks1 = [Suc index ..< Suc index + left]"
    "stores cy s1 s' (map chunk_mark chunks1)"
    "open_chunks cy rx count digest key (remaining - ?n) chunks1 cts = Inr p"
    using Suc.IH [OF rest] by blast
  have minus: "remaining - ?n = remaining - MAX_CHUNK_BYTES" by simp
  have data: "data = (take ?n data @ p) @ data'"
    using IH(2) by (metis append_assoc append_take_drop_id)
  have size: "length (take ?n data @ p) + remaining' = remaining"
    using IH(3) fits by simp
  have mark: "stores cy s s' (map chunk_mark chunks)"
    using stores_append [OF ct(5) IH(8)] by (simp add: chunks)
  have opened: "open_chunks cy rx count digest key remaining chunks (ct # cts) = Inr (take ?n data @ p)"
    using ct(1) IH(9) minus by (simp add: chunks)
  show ?case
    using data size mark opened IH(1,4-7) ct(2-4)
    by (intro exI [where x = "take ?n data @ p"] exI [where x = "ct # cts"])
      (simp add: chunks upt_conv_Cons)
qed

text \<open>The bytes an object stands for.\<close>

definition object_bytes :: "'p seal_io \<Rightarrow> 'p prepared_object \<Rightarrow> bytes option" where
  "object_bytes io ob =
     (case open_source io (po_source ob) of Inl _ \<Rightarrow> None | Inr (data, _) \<Rightarrow> Some data)"

text \<open>Key and identity open the encrypted object, whose texts are all stored, to those bytes.\<close>

definition opens_to ::
  "('r, 'n) seal_env \<Rightarrow> receiver \<Rightarrow> bytes \<Rightarrow> managed_identity \<Rightarrow> frozen_spool \<Rightarrow> encrypted_object
     \<Rightarrow> logical_object \<Rightarrow> bytes \<Rightarrow> bool" where
  "opens_to cy rx key identity store eo descriptor data \<longleftrightarrow>
     eo_descriptor eo = descriptor
     \<and> length data = lo_plain_size descriptor
     \<and> sha256 (se_world cy) data = lo_plain_digest descriptor
     \<and> (\<exists>cts. announced cy eo cts \<and> open_object cy rx key identity eo cts = Inr data)
     \<and> ec_cipher_digest ` set (eo_chunks eo) \<subseteq> dom store"

lemma encrypt_object_run:
  assumes rx: "receives rx cy"
    and run: "encrypt_object cy io key identity ob s = (Inr eo, s')"
  obtains data where "object_bytes io ob = Some data"
    "opens_to cy rx key identity (ss_store s') eo (po_descriptor ob) data"
    "stores cy s s' (map chunk_mark (eo_chunks eo))"
proof -
  let ?d = "po_descriptor ob"
  let ?count = "div_ceil (max (lo_plain_size ?d) 1) MAX_CHUNK_BYTES"
  let ?ckx = "object_context identity (lo_object_id ?d) (lo_role ?d)"
  obtain digest object_key data broken chunks hashed where
    digest: "digest_context cy ?ckx = Inr digest" and
    key: "derive_object_key cy key (mi_capture_id identity) ?ckx = Inr object_key" and
    reader: "open_source io (po_source ob) = Inr (data, broken)" and
    loop: "encrypt_chunks cy io ?count digest object_key ?count 0 (lo_plain_size ?d) [] (data, broken) s
      = (Inr (chunks, 0, hashed, [], False), s')" and
    sha: "sha256 (se_world cy) hashed = lo_plain_digest ?d" and
    eo: "eo = \<lparr>eo_chunks = chunks, eo_descriptor = ?d\<rparr>"
    using run unfolding encrypt_object_def
    by (auto simp: Let_def act_res_def elim!: act_bind_InrE split: if_splits prod.splits)
  obtain p cts where opened: "hashed = p" "data = p" "length p = lo_plain_size ?d"
    "map ec_cipher_digest chunks = map (sha256 (se_world cy)) cts"
    "map ec_cipher_size chunks = map length cts" "map ec_index chunks = [0 ..< ?count]"
    "stores cy s s' (map chunk_mark chunks)"
    "open_chunks cy rx ?count digest object_key (lo_plain_size ?d) chunks cts = Inr p"
    using encrypt_chunks_run [OF rx loop] by auto
  have count: "length chunks = ?count"
    using arg_cong [OF opened(6), of length] by simp
  have texts: "announced cy eo cts \<and> open_object cy rx key identity eo cts = Inr data"
    using opened count digest key by (simp add: announced_def open_object_def eo Let_def)
  have held: "ec_cipher_digest ` set (eo_chunks eo) \<subseteq> dom (ss_store s')"
    using opened(7) by (auto simp: stores_def chunk_mark_def eo image_image)
  show thesis
  proof (rule that)
    show "object_bytes io ob = Some data" by (simp add: object_bytes_def reader)
    show "opens_to cy rx key identity (ss_store s') eo ?d data"
      unfolding opens_to_def using texts held opened(1-3) sha by (auto simp: eo)
    show "stores cy s s' (map chunk_mark (eo_chunks eo))" using opened(7) by (simp add: eo)
  qed
qed

section \<open>The whole candidate\<close>

lemma opens_to_mono:
  "opens_to cy rx key identity store eo d data \<Longrightarrow> dom store \<subseteq> dom store'
     \<Longrightarrow> opens_to cy rx key identity store' eo d data"
  unfolding opens_to_def by blast

definition marks :: "encrypted_object list \<Rightarrow> (digest \<times> string) list" where
  "marks eos = map chunk_mark (concat (map eo_chunks eos))"

lemma stores_dom: "stores cy s s' cs \<Longrightarrow> dom (ss_store s) \<subseteq> dom (ss_store s')"
  by (auto simp: stores_def)

lemma encrypt_objects_run:
  assumes rx: "receives rx cy"
    and "encrypt_objects cy io key identity objects s = (Inr eos, s')"
  shows "stores cy s s' (marks eos)
    \<and> list_all2 (\<lambda>ob eo. \<exists>data. object_bytes io ob = Some data
        \<and> opens_to cy rx key identity (ss_store s') eo (po_descriptor ob) data) objects eos"
  using assms(2)
proof (induction objects arbitrary: s eos)
  case Nil
  then show ?case by (auto simp: act_res_def marks_def stores_none)
next
  case (Cons ob objects)
  obtain eo s1 eos1 where ob: "encrypt_object cy io key identity ob s = (Inr eo, s1)" and
    rest: "encrypt_objects cy io key identity objects s1 = (Inr eos1, s')" and
    eos: "eos = eo # eos1"
    using Cons.prems by (auto simp: act_res_def elim!: act_bind_InrE)
  obtain data where data: "object_bytes io ob = Some data"
    "opens_to cy rx key identity (ss_store s1) eo (po_descriptor ob) data"
    "stores cy s s1 (map chunk_mark (eo_chunks eo))"
    by (rule encrypt_object_run [OF rx ob])
  note IH = Cons.IH [OF rest]
  have "opens_to cy rx key identity (ss_store s') eo (po_descriptor ob) data"
    using data(2) stores_dom IH by (blast intro: opens_to_mono)
  moreover have "stores cy s s' (marks eos)"
    using stores_append [OF data(3)] IH by (auto simp: marks_def eos)
  ultimately show ?case using data(1) IH by (auto simp: eos)
qed

text \<open>The manifest, one chunk of its own.\<close>

definition manifest_chunk :: "manifest_object \<Rightarrow> encrypted_chunk" where
  "manifest_chunk mo = \<lparr>ec_cipher_digest = mo_cipher_digest mo, ec_cipher_size = mo_cipher_size mo,
                        ec_index = 0, ec_nonce = mo_nonce mo\<rparr>"

definition manifest_opens_to ::
  "('r, 'n) seal_env \<Rightarrow> receiver \<Rightarrow> bytes \<Rightarrow> managed_identity \<Rightarrow> manifest_object \<Rightarrow> bytes \<Rightarrow> bool"
  where
  "manifest_opens_to cy rx key identity mo data \<longleftrightarrow>
     (\<exists>digest object_key ct.
        digest_context cy (object_context identity (mo_object_id mo) CaptureBatchManifestRole)
          = Inr digest
        \<and> derive_object_key cy key (mi_capture_id identity)
            (object_context identity (mo_object_id mo) CaptureBatchManifestRole) = Inr object_key
        \<and> mo_cipher_digest mo = sha256 (se_world cy) ct \<and> mo_cipher_size mo = length ct
        \<and> open_chunk cy rx 1 digest object_key (length data) (manifest_chunk mo) ct = Inr data)"

lemma encrypt_manifest_run:
  assumes rx: "receives rx cy"
    and run: "encrypt_manifest cy io key identity object_id data s = (Inr mo, s')"
  shows "manifest_opens_to cy rx key identity mo data"
    and "stores cy s s' [chunk_mark (manifest_chunk mo)]"
proof -
  let ?ckx = "object_context identity object_id CaptureBatchManifestRole"
  obtain digest object_key c where
    digest: "digest_context cy ?ckx = Inr digest" and
    key: "derive_object_key cy key (mi_capture_id identity) ?ckx = Inr object_key" and
    chunk: "seal_chunk cy io object_key \<lparr>ck_chunk_count = 1, ck_chunk_index = 0,
        ck_object_context_digest = digest, ck_plain_size = length data\<rparr> data s = (Inr c, s')" and
    mo: "mo = \<lparr>mo_cipher_digest = ec_cipher_digest c, mo_cipher_size = ec_cipher_size c,
               mo_nonce = ec_nonce c, mo_object_id = object_id\<rparr>"
    using run unfolding encrypt_manifest_def
    by (auto simp: Let_def act_res_def elim!: act_bind_InrE split: if_splits)
  obtain ct where ct: "open_chunk cy rx 1 digest object_key (length data) c ct = Inr data"
    "ec_cipher_digest c = sha256 (se_world cy) ct" "ec_cipher_size c = length ct"
    "ec_index c = 0" "stores cy s s' [chunk_mark c]"
    by (rule open_sealed_chunk [OF rx chunk])
  have c: "manifest_chunk mo = c" using ct(4) by (simp add: manifest_chunk_def mo)
  show "manifest_opens_to cy rx key identity mo data"
    unfolding manifest_opens_to_def using digest key ct(1-3) by (auto simp: c) (auto simp: mo)
  show "stores cy s s' [chunk_mark (manifest_chunk mo)]" using ct(5) by (simp add: c)
qed

lemma add_cipher_sizes_sum:
  "add_cipher_sizes acc cs = Inr n \<Longrightarrow> n = acc + sum_list (map ec_cipher_size cs)"
  by (induction cs arbitrary: acc) (fastforce simp: bind_res_eq_Inr)+

text \<open>The steps of a sealing that succeeds.\<close>

lemma seal_run:
  assumes "seal cy io response now signer_id public_key prepared r = (Inr sealed, r')"
  obtains identity_digest encrypted manifest_object s where
    "digest_identity cy (pc_identity prepared) = Inr identity_digest"
    "verify_local_closure cy (si_files io) (pc_objects prepared) = Inr ()"
    "encrypt_closure cy io (rs_candidate_key response) (pc_identity prepared) identity_digest
       (cg_candidate_key_reference (rs_capture_grant response)) (pc_objects prepared) (empty_seal cy)
       = (Inr (encrypted, manifest_object), s)"
    "announce cy (pc_identity prepared) identity_digest response encrypted manifest_object
       = Inr (sc_request sealed)"
    "sc_ciphertext sealed = ss_ciphertext s" "sc_spool sealed = ss_store s"
    "sc_candidate_key sealed = rs_candidate_key response"
    "sc_deployment_digest sealed = mi_deployment_digest (pc_identity prepared)"
  using assms unfolding seal_def seal_checked_def Let_def
  by (auto simp: bind_res_eq_Inr split: if_splits prod.splits sum.splits)

lemma announce_run:
  assumes "announce cy identity identity_digest response encrypted manifest_object = Inr request"
  shows "ci_objects (ur_ciphertext_identity request) = encrypted"
    and "ci_manifest_object (ur_ciphertext_identity request) = manifest_object"
    and "ci_candidate_identity_digest (ur_ciphertext_identity request) = identity_digest"
    and "ci_capture_id (ur_ciphertext_identity request) = mi_capture_id identity"
    and "ci_total_ciphertext_bytes (ur_ciphertext_identity request)
      = mo_cipher_size manifest_object
        + sum_list (map ec_cipher_size (concat (map eo_chunks encrypted)))"
    and "digest_ciphertext cy (ur_ciphertext_identity request)
      = Inr (ur_encrypted_candidate_digest request)"
    and "ur_capture_grant request = rs_capture_grant response"
  using assms unfolding announce_def Let_def
  by (auto simp: bind_res_eq_Inr dest!: add_cipher_sizes_sum)

lemma verify_objects_ids:
  "verify_objects cy fl seen obs = Inr () \<Longrightarrow>
     distinct (map (\<lambda>ob. lo_object_id (po_descriptor ob)) obs)
     \<and> (\<forall>ob \<in> set obs. lo_object_id (po_descriptor ob) \<notin> set seen)"
proof (induction obs arbitrary: seen)
  case (Cons ob obs)
  have "lo_object_id (po_descriptor ob) \<notin> set seen"
    "verify_objects cy fl (lo_object_id (po_descriptor ob) # seen) obs = Inr ()"
    using Cons.prems by (auto simp: bind_res_eq_Inr split: if_splits)
  with Cons.IH [OF this(2)] show ?case by auto
qed simp

lemma verified_closure:
  assumes "verify_local_closure cy fl obs = Inr ()"
  shows "5 \<le> length obs" "length obs \<le> 32767"
    and "distinct (map (\<lambda>ob. lo_object_id (po_descriptor ob)) obs)"
  using assms verify_objects_ids [of cy fl "[]" obs]
  by (auto simp: verify_local_closure_def limits split: if_splits)

text \<open>What the closure's encryption leaves behind.\<close>

lemma empty_seal_ok: "store_ok cy (empty_seal cy)"
  by (simp add: store_ok_def empty_seal_def)

lemma encrypt_closure_run:
  assumes rx: "receives rx cy"
    and run: "encrypt_closure cy io key identity identity_digest key_reference objects (empty_seal cy)
      = (Inr (encrypted, mo), s)"
  obtains manifest_bytes where
    "list_all2 (\<lambda>ob eo. \<exists>data. object_bytes io ob = Some data
        \<and> opens_to cy rx key identity (ss_store s) eo (po_descriptor ob) data) objects encrypted"
    "canonical_manifest cy \<lparr>cm_candidate_identity = identity,
        cm_candidate_identity_digest = identity_digest,
        cm_candidate_key_reference = key_reference\<rparr> = Inr manifest_bytes"
    "manifest_opens_to cy rx key identity mo manifest_bytes"
    "store_ok cy s"
    "stores cy (empty_seal cy) s (marks encrypted @ [chunk_mark (manifest_chunk mo)])"
proof -
  let ?manifest = "\<lparr>cm_candidate_identity = identity,
        cm_candidate_identity_digest = identity_digest,
        cm_candidate_key_reference = key_reference\<rparr>"
  obtain s1 object_id data where
    objects: "encrypt_objects cy io key identity objects (empty_seal cy) = (Inr encrypted, s1)" and
    data: "canonical_manifest cy ?manifest = Inr data" and
    manifest: "encrypt_manifest cy io key identity object_id data s1 = (Inr mo, s)"
    using run unfolding encrypt_closure_def
    by (auto simp: Let_def act_res_def elim!: act_bind_InrE split: prod.splits)
  note a = encrypt_objects_run [OF rx objects]
  note b = encrypt_manifest_run [OF rx manifest]
  have both: "stores cy (empty_seal cy) s (marks encrypted @ [chunk_mark (manifest_chunk mo)])"
    using a b(2) by (blast intro: stores_append)
  have ok: "store_ok cy s" using both empty_seal_ok by (auto simp: stores_def)
  have "list_all2 (\<lambda>ob eo. \<exists>data. object_bytes io ob = Some data
        \<and> opens_to cy rx key identity (ss_store s) eo (po_descriptor ob) data) objects encrypted"
    using a stores_dom [OF b(2)]
    by (auto elim!: list_all2_mono intro: opens_to_mono)
  then show thesis using data b(1) ok both by (rule that)
qed

lemma sealed_key:
  "seal cy io response now signer_id public_key prepared r = (Inr sealed, r')
     \<Longrightarrow> sc_candidate_key sealed = rs_candidate_key response"
  unfolding seal_def seal_checked_def Let_def
  by (auto simp: bind_res_eq_Inr split: if_splits prod.splits sum.splits)

lemma seal_opens:
  assumes rx: "receives rx cy"
    and run: "seal cy io response now signer_id public_key prepared r = (Inr sealed, r')"
  shows "list_all2 (\<lambda>ob eo. \<exists>data. object_bytes io ob = Some data
        \<and> opens_to cy rx (rs_candidate_key response) (pc_identity prepared) (sc_spool sealed) eo
            (po_descriptor ob) data)
      (pc_objects prepared) (ci_objects (ur_ciphertext_identity (sc_request sealed)))
    \<and> (\<exists>identity_digest manifest_bytes.
        digest_identity cy (pc_identity prepared) = Inr identity_digest
        \<and> canonical_manifest cy \<lparr>cm_candidate_identity = pc_identity prepared,
            cm_candidate_identity_digest = identity_digest,
            cm_candidate_key_reference = cg_candidate_key_reference (rs_capture_grant response)\<rparr>
            = Inr manifest_bytes
        \<and> manifest_opens_to cy rx (rs_candidate_key response) (pc_identity prepared)
            (ci_manifest_object (ur_ciphertext_identity (sc_request sealed))) manifest_bytes)"
proof -
  obtain identity_digest encrypted mo s where
    identity: "digest_identity cy (pc_identity prepared) = Inr identity_digest" and
    closure: "encrypt_closure cy io (rs_candidate_key response) (pc_identity prepared) identity_digest
       (cg_candidate_key_reference (rs_capture_grant response)) (pc_objects prepared) (empty_seal cy)
       = (Inr (encrypted, mo), s)" and
    told: "announce cy (pc_identity prepared) identity_digest response encrypted mo
       = Inr (sc_request sealed)" and spool: "sc_spool sealed = ss_store s"
    by (rule seal_run [OF run])
  note told = announce_run [OF told]
  obtain manifest_bytes where
    "list_all2 (\<lambda>ob eo. \<exists>data. object_bytes io ob = Some data
        \<and> opens_to cy rx (rs_candidate_key response) (pc_identity prepared) (ss_store s) eo
            (po_descriptor ob) data) (pc_objects prepared) encrypted"
    "canonical_manifest cy \<lparr>cm_candidate_identity = pc_identity prepared,
        cm_candidate_identity_digest = identity_digest,
        cm_candidate_key_reference = cg_candidate_key_reference (rs_capture_grant response)\<rparr>
        = Inr manifest_bytes"
    "manifest_opens_to cy rx (rs_candidate_key response) (pc_identity prepared) mo manifest_bytes"
    by (rule encrypt_closure_run [OF rx closure])
  then show ?thesis using identity told(1,2) spool by auto
qed

section \<open>Properties\<close>

text \<open>
  C15: Sealing loses nothing.  When \<open>seal\<close> succeeds, the request announces one encrypted object for
  each object of the prepared candidate, in the same order and with its descriptor; whoever holds
  the key of the response and texts with the announced digests and sizes opens it to exactly the
  bytes the object's source delivered, whose length and digest are those of the descriptor, and a
  text of every announced digest is in the private directory.  The manifest opens to the canonical
  bytes of the identity, its digest and the reference of the key.  The cipher is assumed to be
  undone by its inverse, and the text form of a nonce to be readable.
\<close>

theorem sealed_candidate_opens:
  assumes rx: "receives rx cy"
    and run: "seal cy io response now signer_id public_key prepared r = (Inr sealed, r')"
  shows "list_all2 (\<lambda>ob eo. \<exists>data. object_bytes io ob = Some data
        \<and> opens_to cy rx (rs_candidate_key response) (pc_identity prepared) (sc_spool sealed) eo
            (po_descriptor ob) data)
      (pc_objects prepared) (ci_objects (ur_ciphertext_identity (sc_request sealed)))
    \<and> (\<exists>identity_digest manifest_bytes.
        digest_identity cy (pc_identity prepared) = Inr identity_digest
        \<and> canonical_manifest cy \<lparr>cm_candidate_identity = pc_identity prepared,
            cm_candidate_identity_digest = identity_digest,
            cm_candidate_key_reference = cg_candidate_key_reference (rs_capture_grant response)\<rparr>
            = Inr manifest_bytes
        \<and> manifest_opens_to cy rx (rs_candidate_key response) (pc_identity prepared)
            (ci_manifest_object (ur_ciphertext_identity (sc_request sealed))) manifest_bytes)"
  by (rule seal_opens [OF assms])

text \<open>The digests a request declares: the manifest's and those of the chunks.\<close>

definition declared_chunks :: "ciphertext_identity \<Rightarrow> encrypted_chunk list" where
  "declared_chunks identity =
     concat (map eo_chunks (ci_objects identity)) @ [manifest_chunk (ci_manifest_object identity)]"

text \<open>
  C20: The sealed candidate holds what it declares and nothing else.  When \<open>seal\<close> succeeds, the table
  the upload consults has exactly the digests the request declares, each with its own path; the
  private directory has a file under exactly these names, and the digest of every file is its name.
  The announced total is the sum of the declared sizes, and the digest of the request is that of its
  ciphertext identity.
\<close>

theorem sealed_store_exact:
  assumes rx: "receives rx cy"
    and run: "seal cy io response now signer_id public_key prepared r = (Inr sealed, r')"
  shows "dom (sc_spool sealed)
        = ec_cipher_digest ` set (declared_chunks (ur_ciphertext_identity (sc_request sealed)))
    \<and> bt_get (sc_ciphertext sealed)
        = (\<lambda>d. if d \<in> dom (sc_spool sealed) then Some d else None)
    \<and> (\<forall>d \<in> dom (sc_spool sealed). sha256 (se_world cy) (the (sc_spool sealed d)) = d)
    \<and> ci_total_ciphertext_bytes (ur_ciphertext_identity (sc_request sealed))
        = sum_list (map ec_cipher_size
            (declared_chunks (ur_ciphertext_identity (sc_request sealed))))
    \<and> digest_ciphertext cy (ur_ciphertext_identity (sc_request sealed))
        = Inr (ur_encrypted_candidate_digest (sc_request sealed))"
proof -
  obtain identity_digest encrypted mo s where
    closure: "encrypt_closure cy io (rs_candidate_key response) (pc_identity prepared) identity_digest
       (cg_candidate_key_reference (rs_capture_grant response)) (pc_objects prepared) (empty_seal cy)
       = (Inr (encrypted, mo), s)" and
    told: "announce cy (pc_identity prepared) identity_digest response encrypted mo
       = Inr (sc_request sealed)" and
    kept: "sc_ciphertext sealed = ss_ciphertext s" "sc_spool sealed = ss_store s"
    by (rule seal_run [OF run])
  note told = announce_run [OF told]
  have ok: "store_ok cy s"
    and stores: "stores cy (empty_seal cy) s (marks encrypted @ [chunk_mark (manifest_chunk mo)])"
    by (rule encrypt_closure_run [OF rx closure], assumption)+
  have "dom (ss_store s) = ec_cipher_digest ` set (declared_chunks (ur_ciphertext_identity (sc_request sealed)))"
    using stores
    by (auto simp: stores_def empty_seal_def marks_def chunk_mark_def declared_chunks_def told image_image
        image_UN)
  moreover have "bt_get (ss_ciphertext s) = (\<lambda>d. if d \<in> dom (ss_store s) then Some d else None)"
    using ok by (auto simp: store_ok_def fun_eq_iff)
  moreover have "\<forall>d \<in> dom (ss_store s). sha256 (se_world cy) (the (ss_store s d)) = d"
    using ok by (auto simp: store_ok_def)
  moreover have "ci_total_ciphertext_bytes (ur_ciphertext_identity (sc_request sealed))
      = sum_list (map ec_cipher_size (declared_chunks (ur_ciphertext_identity (sc_request sealed))))"
    using told by (simp add: declared_chunks_def manifest_chunk_def)
  ultimately show ?thesis using told(6) by (simp add: kept fun_eq_iff option.map_id)
qed

text \<open>The registry of the core crate refuses a nonce it has seen.\<close>

definition refuses_repeats :: "('r, 'n) seal_env \<Rightarrow> ('n \<Rightarrow> bytes set) \<Rightarrow> bool" where
  "refuses_repeats cy known \<longleftrightarrow>
     known (no_nonces cy) = {}
     \<and> (\<forall>n reg reg'. register_nonce cy n reg = (Inr (), reg')
          \<longrightarrow> n \<notin> known reg \<and> known reg' = insert n (known reg))"

lemma registered_fresh:
  assumes "refuses_repeats cy known"
  shows "registered cy reg ns reg' \<Longrightarrow> distinct ns \<and> set ns \<inter> known reg = {}"
proof (induction ns arbitrary: reg)
  case (Cons n ns)
  then obtain reg1 where "register_nonce cy n reg = (Inr (), reg1)" "registered cy reg1 ns reg'"
    by auto
  moreover have "n \<notin> known reg \<and> known reg1 = insert n (known reg)"
    using assms calculation(1) by (simp add: refuses_repeats_def)
  ultimately show ?case using Cons.IH by fastforce
qed simp

text \<open>
  C21: No nonce is used twice.  In a sealed candidate the nonces of all chunks, the manifest's
  included, are pairwise distinct, provided the registry of the core crate refuses a nonce it has
  accepted before.
\<close>

theorem nonces_never_repeat:
  assumes rx: "receives rx cy" and registry: "refuses_repeats cy known"
    and run: "seal cy io response now signer_id public_key prepared r = (Inr sealed, r')"
  shows "distinct (map ec_nonce (declared_chunks (ur_ciphertext_identity (sc_request sealed))))"
proof -
  obtain identity_digest encrypted mo s where
    closure: "encrypt_closure cy io (rs_candidate_key response) (pc_identity prepared) identity_digest
       (cg_candidate_key_reference (rs_capture_grant response)) (pc_objects prepared) (empty_seal cy)
       = (Inr (encrypted, mo), s)" and
    told: "announce cy (pc_identity prepared) identity_digest response encrypted mo
       = Inr (sc_request sealed)"
    by (rule seal_run [OF run])
  note told = announce_run [OF told]
  let ?enc = "encode_base64url (we_core (se_world cy))"
  have "stores cy (empty_seal cy) s (marks encrypted @ [chunk_mark (manifest_chunk mo)])"
    by (rule encrypt_closure_run [OF rx closure])
  then obtain ns where ns: "map snd (marks encrypted @ [chunk_mark (manifest_chunk mo)]) = map ?enc ns"
    "registered cy (no_nonces cy) ns (ss_nonces s)"
    by (auto simp: stores_def empty_seal_def)
  have "inj_on ?enc (set ns)"
    by (rule inj_on_inverseI [where g = "\<lambda>t. projr (rx_nonce rx t)"])
      (use rx in \<open>simp add: receives_def\<close>)
  then have "distinct (map ?enc ns)"
    using registered_fresh [OF registry ns(2)] by (simp add: distinct_map)
  moreover have "map ec_nonce (declared_chunks (ur_ciphertext_identity (sc_request sealed)))
      = map snd (marks encrypted @ [chunk_mark (manifest_chunk mo)])"
    by (simp add: declared_chunks_def told marks_def chunk_mark_def comp_def)
  ultimately show ?thesis by (simp only: ns(1))
qed

end
