(* ===== verification/Managed_Upload.thy ===== *)
theory Managed_Upload
  imports Managed_Seal
begin

text \<open>
  The upload of a sealed candidate (\<^verbatim>\<open>crates/reproit-sdk-rust/src/managed.rs\<close>, \<open>upload\<close>,
  \<open>upload_before\<close> and what they call).  The ingress service, the clock, the files and the scheduler of
  the threads are a state \<open>'s\<close> of the outside world, which every call may change; the exchange keeps
  it together with the log of the clock readings, the requests and their answers.  The two uploads
  differ in their deadline alone: \<open>None\<close> stands for the one without, which never reads the clock.
  Durations and instants are whole numbers of nanoseconds.
\<close>

section \<open>Limits\<close>

definition NANOS :: nat where [limits]: "NANOS = 1000000000"
definition GRANT_TIMEOUT :: nat where [limits]: "GRANT_TIMEOUT = 5 * NANOS"
definition COMMIT_TIMEOUT_FLOOR :: nat where [limits]: "COMMIT_TIMEOUT_FLOOR = 5 * NANOS"
definition COMMIT_VERIFICATION_BYTES_PER_SECOND :: nat where
  [limits]: "COMMIT_VERIFICATION_BYTES_PER_SECOND = 4194304"
definition COMMIT_TIMEOUT_CAP :: nat where [limits]: "COMMIT_TIMEOUT_CAP = 180 * NANOS"
definition MAX_CONCURRENT_OBJECT_UPLOADS :: nat where
  [limits]: "MAX_CONCURRENT_OBJECT_UPLOADS = 8"

text \<open>\<open>Duration::MAX\<close>, and the last instant \<open>checked_add\<close> reaches.\<close>

definition DURATION_MAX :: nat where
  [limits]: "DURATION_MAX = U64_MAX * NANOS + 999999999"
definition INSTANT_MAX :: nat where
  [limits]: "INSTANT_MAX = 9223372036854775807 * NANOS + 999999999"

definition commit_timeout :: "nat \<Rightarrow> nat" where
  "commit_timeout total_ciphertext_bytes =
     (let verification_seconds =
        div_ceil total_ciphertext_bytes COMMIT_VERIFICATION_BYTES_PER_SECOND
      in min COMMIT_TIMEOUT_CAP (COMMIT_TIMEOUT_FLOOR + verification_seconds * NANOS))"

definition deadline_from_queued_at :: "nat \<Rightarrow> nat" where
  "deadline_from_queued_at queued_at =
     (let deadline = queued_at + CANDIDATE_DELIVERY_LIFETIME_MS * 1000000
      in if deadline \<le> INSTANT_MAX then deadline else queued_at)"

section \<open>What the service answers\<close>

text \<open>The types of the API crate, with the fields the upload reads.\<close>

datatype ingress_state = StateOpen | StateUploading | StateCommitted | StateOther nat
datatype durability = CloudProtected | OtherDurability nat

record missing_entry =
  ms_cipher_digest :: digest
  ms_upload_url :: string

record missing_page =
  mp_missing_objects :: "missing_entry list"
  mp_next_missing_cursor :: "string option"

record upload_start =
  us_state :: ingress_state
  us_upload_id :: nat
  us_upload_token :: string
  us_missing_objects :: "missing_entry list"
  us_next_missing_cursor :: "string option"
  us_object_attempts :: nat

record upload_commit =
  uc_capture_id :: capture_id
  uc_candidate_identity_digest :: digest
  uc_candidate_key_reference :: string
  uc_encrypted_candidate_digest :: digest
  uc_state :: durability

text \<open>The answer to one object: an error carries the flag that allows another attempt.\<close>

type_synonym object_answer = "(error_code \<times> bool) + unit"

text \<open>
  The outside world: the requests of the trait \<open>ManagedCandidateIngressDelivery\<close>, each with the
  timeout it is given, \<open>Instant::now\<close>, \<open>fs::read\<close> of a ciphertext file, and the number the scheduler
  picks the next thread by.
\<close>

record 's ingress =
  in_start :: "upload_request \<Rightarrow> nat \<Rightarrow> 's \<Rightarrow> upload_start res \<times> 's"
  in_missing :: "nat \<Rightarrow> string \<Rightarrow> string option \<Rightarrow> nat \<Rightarrow> 's \<Rightarrow> missing_page res \<times> 's"
  in_upload_object :: "string \<Rightarrow> digest \<Rightarrow> bytes \<Rightarrow> nat \<Rightarrow> 's \<Rightarrow> object_answer \<times> 's"
  in_commit :: "nat \<Rightarrow> string \<Rightarrow> nat \<Rightarrow> 's \<Rightarrow> upload_commit res \<times> 's"
  in_cancel :: "nat \<Rightarrow> string \<Rightarrow> nat \<Rightarrow> 's \<Rightarrow> unit res \<times> 's"
  in_now :: "'s \<Rightarrow> nat \<times> 's"
  in_read :: "digest \<Rightarrow> 's \<Rightarrow> bytes option \<times> 's"
  in_schedule :: "'s \<Rightarrow> nat \<times> 's"
  in_digest :: "bytes \<Rightarrow> digest"

datatype delivery_event =
    ClockRead nat
  | Started nat "upload_start res"
  | Listed "string option" nat "missing_page res"
  | Uploaded string digest bytes nat object_answer
  | Committed nat "upload_commit res"
  | Cancelled nat "unit res"
  | Granted nat "encryption_response res"

record 's exchange =
  ex_world :: 's
  ex_log :: "delivery_event list"

text \<open>One call: the world answers, and the answer goes into the log.\<close>

definition calling ::
  "('s \<Rightarrow> 'a \<times> 's) \<Rightarrow> ('a \<Rightarrow> delivery_event) \<Rightarrow> 's exchange \<Rightarrow> 'a \<times> 's exchange" where
  "calling ask event s =
     (case ask (ex_world s) of
        (a, w) \<Rightarrow> (a, s\<lparr>ex_world := w, ex_log := ex_log s @ [event a]\<rparr>))"

text \<open>\<open>ManagedDeliveryDeadline::timeout\<close>: what is left of the deadline, at most the maximum.\<close>

definition deadline_timeout ::
  "'s ingress \<Rightarrow> nat option \<Rightarrow> nat \<Rightarrow> ('s exchange, nat) act" where
  "deadline_timeout ig deadline maximum s =
     (case deadline of
        None \<Rightarrow> (Inr maximum, s)
      | Some d \<Rightarrow>
          case calling (in_now ig) ClockRead s of
            (now, s') \<Rightarrow>
              let remaining = d - now
              in if remaining = 0 then (Inl ServiceUnavailable, s')
                 else (Inr (min maximum remaining), s'))"

definition deadline_check :: "'s ingress \<Rightarrow> nat option \<Rightarrow> ('s exchange, nat) act" where
  "deadline_check ig deadline = deadline_timeout ig deadline DURATION_MAX"

section \<open>One object\<close>

text \<open>
  A thread of a batch between two of its calls: before it reads the file, before an attempt (with
  the attempts left and the last error), and after it has returned.
\<close>

datatype upload_thread =
    Reading missing_entry digest
  | Attempting missing_entry bytes nat "error_code option"
  | Returned "unit res"

fun thread_left :: "upload_thread \<Rightarrow> nat" where
  "thread_left (Reading m path) = 7"
| "thread_left (Attempting m data left prev) = Suc left"
| "thread_left (Returned r) = 0"

text \<open>\<open>upload_missing_object\<close> up to the loop of \<open>upload_with_bound\<close>.\<close>

definition read_object ::
  "'s ingress \<Rightarrow> nat \<Rightarrow> missing_entry \<Rightarrow> digest \<Rightarrow> 's exchange \<Rightarrow> upload_thread \<times> 's exchange" where
  "read_object ig attempts m path s =
     (case in_read ig path (ex_world s) of
        (contents, w) \<Rightarrow>
          (case contents of
             None \<Rightarrow> Returned (Inl ServiceUnavailable)
           | Some data \<Rightarrow>
               if in_digest ig data \<noteq> ms_cipher_digest m then Returned (Inl ObjectDigestMismatch)
               else if attempts = 0 \<or> attempts > 5 then Returned (Inl ServiceUnavailable)
               else Attempting m data attempts None,
           s\<lparr>ex_world := w\<rparr>))"

text \<open>One turn of the loop, or its end.\<close>

fun attempt_upload ::
  "'s ingress \<Rightarrow> nat option \<Rightarrow> missing_entry \<Rightarrow> bytes \<Rightarrow> nat \<Rightarrow> error_code option \<Rightarrow> 's exchange
     \<Rightarrow> upload_thread \<times> 's exchange" where
  "attempt_upload ig deadline m data 0 prev s =
     (Returned (Inl (case prev of None \<Rightarrow> ServiceUnavailable | Some e \<Rightarrow> e)), s)"
| "attempt_upload ig deadline m data (Suc left) prev s =
     (case deadline_timeout ig deadline GRANT_TIMEOUT s of
        (Inl e, s1) \<Rightarrow> (Returned (Inl e), s1)
      | (Inr timeout, s1) \<Rightarrow>
          case calling (in_upload_object ig (ms_upload_url m) (ms_cipher_digest m) data timeout)
                 (Uploaded (ms_upload_url m) (ms_cipher_digest m) data timeout) s1 of
            (Inr _, s2) \<Rightarrow> (Returned (Inr ()), s2)
          | (Inl (e, retryable), s2) \<Rightarrow>
              if retryable then (Attempting m data left (Some e), s2) else (Returned (Inl e), s2))"

fun thread_step ::
  "'s ingress \<Rightarrow> nat option \<Rightarrow> nat \<Rightarrow> upload_thread \<Rightarrow> 's exchange \<Rightarrow> upload_thread \<times> 's exchange"
  where
  "thread_step ig deadline attempts (Reading m path) s = read_object ig attempts m path s"
| "thread_step ig deadline attempts (Attempting m data left prev) s =
     attempt_upload ig deadline m data left prev s"
| "thread_step ig deadline attempts (Returned r) s = (Returned r, s)"

lemma thread_step_less:
  assumes "thread_left th \<noteq> 0"
  shows "thread_left (fst (thread_step ig deadline attempts th s)) < thread_left th"
proof (cases th)
  case (Attempting m data left prev)
  then show ?thesis
    by (cases left) (auto split: prod.splits sum.splits)
qed (use assms in \<open>auto simp: read_object_def split: prod.splits option.splits\<close>)

section \<open>A batch\<close>

text \<open>
  The threads of a batch, in any order: the scheduler picks one of those that have not returned.
  The scope ends when all have, whatever the result of the first.
\<close>

definition running :: "upload_thread list \<Rightarrow> nat list" where
  "running ths = filter (\<lambda>i. thread_left (ths ! i) \<noteq> 0) [0 ..< length ths]"

definition pick :: "'s ingress \<Rightarrow> upload_thread list \<Rightarrow> 's exchange \<Rightarrow> nat \<times> 's exchange" where
  "pick ig ths s =
     (case in_schedule ig (ex_world s) of
        (k, w) \<Rightarrow> (running ths ! (k mod length (running ths)), s\<lparr>ex_world := w\<rparr>))"

lemma picked:
  assumes "running ths \<noteq> []" "pick ig ths s = (i, s')"
  shows "i < length ths" "thread_left (ths ! i) \<noteq> 0" "ex_log s' = ex_log s"
proof -
  obtain k w where "in_schedule ig (ex_world s) = (k, w)" by fastforce
  then have i: "i = running ths ! (k mod length (running ths))" "s' = s\<lparr>ex_world := w\<rparr>"
    using assms(2) by (simp_all add: pick_def)
  have "i \<in> set (running ths)" using assms(1) i(1) by simp
  then show "i < length ths" "thread_left (ths ! i) \<noteq> 0" by (simp_all add: running_def)
  show "ex_log s' = ex_log s" by (simp add: i(2))
qed

lemma left_update:
  assumes "i < length ths" "n < thread_left (ths ! i)" "thread_left th = n"
  shows "sum_list (map thread_left (ths[i := th])) < sum_list (map thread_left ths)"
  using assms
proof (induction ths arbitrary: i)
  case (Cons t ths)
  then show ?case by (cases i) simp_all
qed simp

lemma round_less:
  assumes "running ths \<noteq> []" "pick ig ths s = (i, s1)"
    and "thread_step ig deadline attempts (ths ! i) s1 = (th, s2)"
  shows "sum_list (map thread_left (ths[i := th])) < sum_list (map thread_left ths)"
  using left_update [OF picked(1) [OF assms(1,2)]] thread_step_less [OF picked(2) [OF assms(1,2)]]
    assms(3) by (metis fst_conv)

function run_threads ::
  "'s ingress \<Rightarrow> nat option \<Rightarrow> nat \<Rightarrow> upload_thread list \<Rightarrow> 's exchange
     \<Rightarrow> upload_thread list \<times> 's exchange" where
  "run_threads ig deadline attempts ths s =
     (if running ths = [] then (ths, s)
      else case pick ig ths s of
        (i, s1) \<Rightarrow>
          case thread_step ig deadline attempts (ths ! i) s1 of
            (th, s2) \<Rightarrow> run_threads ig deadline attempts (ths[i := th]) s2)"
  by pat_completeness auto
termination
  by (relation "measure (\<lambda>(ig, deadline, attempts, ths, s). sum_list (map thread_left ths))")
    (simp, simp only: in_measure prod.case, rule round_less [OF _ sym sym], assumption+)

declare run_threads.simps [simp del]

text \<open>The handles are joined in order, the first error returned.\<close>

fun join_threads :: "upload_thread list \<Rightarrow> unit res" where
  "join_threads [] = Inr ()"
| "join_threads (Returned (Inr _) # ths) = join_threads ths"
| "join_threads (Returned (Inl e) # ths) = Inl e"
| "join_threads (_ # ths) = Inl ServiceUnavailable"

definition upload_batch ::
  "'s ingress \<Rightarrow> nat option \<Rightarrow> nat \<Rightarrow> (digest, digest) btree \<Rightarrow> missing_entry list
     \<Rightarrow> ('s exchange, unit) act" where
  "upload_batch ig deadline attempts table batch s =
     (case run_threads ig deadline attempts
             (map (\<lambda>m. Reading m (the (bt_get table (ms_cipher_digest m)))) batch) s of
        (ths, s') \<Rightarrow> (join_threads ths, s'))"

fun upload_batches ::
  "'s ingress \<Rightarrow> nat option \<Rightarrow> nat \<Rightarrow> (digest, digest) btree \<Rightarrow> missing_entry list list
     \<Rightarrow> ('s exchange, unit) act" where
  "upload_batches ig deadline attempts table [] = act_res (Inr ())"
| "upload_batches ig deadline attempts table (batch # batches) =
     act_bind (upload_batch ig deadline attempts table batch) (\<lambda>_.
       upload_batches ig deadline attempts table batches)"

section \<open>The pages\<close>

text \<open>The digests of a page must be new and known; the digests seen so far are returned.\<close>

fun check_page :: "(digest, digest) btree \<Rightarrow> digest list \<Rightarrow> missing_entry list \<Rightarrow> digest list res" where
  "check_page table seen [] = Inr seen"
| "check_page table seen (m # ms) =
     (if ms_cipher_digest m \<in> set seen \<or> \<not> bt_contains table (ms_cipher_digest m)
      then Inl ServiceUnavailable
      else check_page table (ms_cipher_digest m # seen) ms)"

fun upload_pages ::
  "'s ingress \<Rightarrow> nat option \<Rightarrow> upload_start \<Rightarrow> (digest, digest) btree \<Rightarrow> nat \<Rightarrow> missing_page
     \<Rightarrow> digest list \<Rightarrow> ('s exchange, unit) act" where
  "upload_pages ig deadline start table 0 page seen = act_res (Inl ServiceUnavailable)"
| "upload_pages ig deadline start table (Suc left) page seen =
     act_bind (deadline_check ig deadline) (\<lambda>_.
       if length (mp_missing_objects page) > 100 then act_res (Inl ServiceUnavailable)
       else
         act_bind (act_res (check_page table seen (mp_missing_objects page))) (\<lambda>seen'.
         act_bind (upload_batches ig deadline (us_object_attempts start) table
             (slice_chunks MAX_CONCURRENT_OBJECT_UPLOADS (mp_missing_objects page))) (\<lambda>_.
           case mp_next_missing_cursor page of
             None \<Rightarrow> act_res (Inr ())
           | Some cursor \<Rightarrow>
               act_bind (deadline_timeout ig deadline GRANT_TIMEOUT) (\<lambda>timeout.
               act_bind (calling (in_missing ig (us_upload_id start) (us_upload_token start)
                     (Some cursor) timeout) (Listed (Some cursor) timeout)) (\<lambda>page'.
                 upload_pages ig deadline start table left page' seen')))))"

definition upload_missing_within ::
  "'s ingress \<Rightarrow> nat option \<Rightarrow> sealed_candidate \<Rightarrow> upload_start \<Rightarrow> ('s exchange, unit) act" where
  "upload_missing_within ig deadline sealed start =
     upload_pages ig deadline start (sc_ciphertext sealed)
       (saturating_add (div_ceil (length (sc_ciphertext sealed)) 100) 1)
       \<lparr>mp_missing_objects = us_missing_objects start,
        mp_next_missing_cursor = us_next_missing_cursor start\<rparr> []"

section \<open>The upload\<close>

definition cancel_upload ::
  "'s ingress \<Rightarrow> nat option \<Rightarrow> upload_start \<Rightarrow> 's exchange \<Rightarrow> 's exchange" where
  "cancel_upload ig deadline start s =
     (case deadline_timeout ig deadline GRANT_TIMEOUT s of
        (Inl _, s') \<Rightarrow> s'
      | (Inr timeout, s') \<Rightarrow>
          snd (calling (in_cancel ig (us_upload_id start) (us_upload_token start) timeout)
                 (Cancelled timeout) s'))"

definition send_commit ::
  "'s ingress \<Rightarrow> upload_start \<Rightarrow> nat \<Rightarrow> ('s exchange, upload_commit) act" where
  "send_commit ig start timeout =
     calling (in_commit ig (us_upload_id start) (us_upload_token start) timeout) (Committed timeout)"

definition commit_matches :: "upload_request \<Rightarrow> upload_commit \<Rightarrow> bool" where
  "commit_matches request commit \<longleftrightarrow>
     uc_capture_id commit = cg_capture_id (ur_capture_grant request)
     \<and> uc_candidate_identity_digest commit
         = ci_candidate_identity_digest (ur_ciphertext_identity request)
     \<and> uc_candidate_key_reference commit
         = ci_candidate_key_reference (ur_ciphertext_identity request)
     \<and> uc_encrypted_candidate_digest commit = ur_encrypted_candidate_digest request
     \<and> uc_state commit = CloudProtected"

text \<open>The commit of an upload whose objects are all there.\<close>

definition commit_upload ::
  "'s ingress \<Rightarrow> nat option \<Rightarrow> sealed_candidate \<Rightarrow> upload_start \<Rightarrow> nat
     \<Rightarrow> ('s exchange, upload_commit) act" where
  "commit_upload ig deadline sealed start wait =
     act_bind (deadline_timeout ig deadline wait) (\<lambda>timeout s.
       case send_commit ig start timeout s of
         (Inl e, s1) \<Rightarrow> (Inl e, cancel_upload ig deadline start s1)
       | (Inr commit, s1) \<Rightarrow>
           act_bind (deadline_check ig deadline) (\<lambda>_.
             act_res (if commit_matches (sc_request sealed) commit then Inr commit
                      else Inl ServiceUnavailable)) s1)"

definition upload_within ::
  "'s ingress \<Rightarrow> nat option \<Rightarrow> sealed_candidate \<Rightarrow> ('s exchange, upload_commit) act" where
  "upload_within ig deadline sealed =
     (let wait = commit_timeout
        (ci_total_ciphertext_bytes (ur_ciphertext_identity (sc_request sealed)))
      in act_bind (deadline_timeout ig deadline GRANT_TIMEOUT) (\<lambda>timeout.
         act_bind (calling (in_start ig (sc_request sealed) timeout) (Started timeout)) (\<lambda>start.
           if us_state start = StateCommitted
           then act_bind (deadline_timeout ig deadline wait) (send_commit ig start)
           else if us_state start \<notin> {StateOpen, StateUploading}
           then act_res (Inl ServiceUnavailable)
           else (\<lambda>s. case upload_missing_within ig deadline sealed start s of
               (Inl e, s1) \<Rightarrow> (Inl e, cancel_upload ig deadline start s1)
             | (Inr _, s1) \<Rightarrow> commit_upload ig deadline sealed start wait s1))))"

definition upload_missing ::
  "'s ingress \<Rightarrow> sealed_candidate \<Rightarrow> upload_start \<Rightarrow> ('s exchange, unit) act" where
  "upload_missing ig = upload_missing_within ig None"

definition upload ::
  "'s ingress \<Rightarrow> sealed_candidate \<Rightarrow> ('s exchange, upload_commit) act" where
  "upload ig = upload_within ig None"

definition upload_before ::
  "'s ingress \<Rightarrow> nat \<Rightarrow> sealed_candidate \<Rightarrow> ('s exchange, upload_commit) act" where
  "upload_before ig deadline = upload_within ig (Some deadline)"

end
