(* ===== verification/Upload_Theorems.thy ===== *)
theory Upload_Theorems
  imports Managed_Upload World_Safety
begin

text \<open>
  What an upload did, read off its log, for every behaviour of the service, the clock, the files and
  the scheduler.  \<open>emits\<close> relates the result of a step to the events it appends; the events of the
  threads of a batch may be interleaved in any way.
\<close>

section \<open>Events\<close>

fun timeout_of :: "delivery_event \<Rightarrow> nat option" where
  "timeout_of (ClockRead now) = None"
| "timeout_of (Started t r) = Some t"
| "timeout_of (Listed c t r) = Some t"
| "timeout_of (Uploaded u d b t r) = Some t"
| "timeout_of (Committed t r) = Some t"
| "timeout_of (Cancelled t r) = Some t"
| "timeout_of (Granted t r) = Some t"

text \<open>The longest wait for an answer; \<open>wait\<close> is that for a commit.\<close>

fun longest :: "nat \<Rightarrow> delivery_event \<Rightarrow> nat" where
  "longest wait (Committed t r) = wait"
| "longest wait e = GRANT_TIMEOUT"

text \<open>
  The events of an exchange in time: without a deadline every request has its longest timeout; with
  one, every request directly follows a reading of the clock, which has not reached the deadline,
  and waits no longer than what is left.
\<close>

inductive paced :: "nat option \<Rightarrow> nat \<Rightarrow> delivery_event list \<Rightarrow> bool" for deadline wait where
  paced_nil: "paced deadline wait []"
| paced_check: "paced deadline wait es \<Longrightarrow> deadline = Some d
    \<Longrightarrow> paced deadline wait (es @ [ClockRead now])"
| paced_request: "paced deadline wait es \<Longrightarrow> deadline = Some d \<Longrightarrow> now < d
    \<Longrightarrow> timeout_of e = Some (min (longest wait e) (d - now))
    \<Longrightarrow> paced deadline wait (es @ [ClockRead now, e])"
| paced_plain: "paced deadline wait es \<Longrightarrow> deadline = None
    \<Longrightarrow> timeout_of e = Some (longest wait e) \<Longrightarrow> paced deadline wait (es @ [e])"

lemma paced_append:
  "paced deadline wait es' \<Longrightarrow> paced deadline wait es \<Longrightarrow> paced deadline wait (es @ es')"
proof (induction rule: paced.induct)
  case paced_nil
  then show ?case by simp
next
  case (paced_check es' d now)
  from paced.paced_check [OF paced_check.IH [OF paced_check.prems] paced_check.hyps(2)]
  show ?case by simp
next
  case (paced_request es' d now e)
  from paced.paced_request [OF paced_request.IH [OF paced_request.prems] paced_request.hyps(2-4)]
  show ?case by simp
next
  case (paced_plain es' e)
  from paced.paced_plain [OF paced_plain.IH [OF paced_plain.prems] paced_plain.hyps(2,3)]
  show ?case by simp
qed

lemma act_bind_result:
  "act_bind (act_res (Inl e)) f = act_res (Inl e)" "act_bind (act_res (Inr x)) f = f x"
  by (simp_all add: act_bind_def act_res_def fun_eq_iff)

definition emits :: "('s exchange \<Rightarrow> 'a \<times> 's exchange) \<Rightarrow> ('a \<Rightarrow> delivery_event list \<Rightarrow> bool) \<Rightarrow> bool"
  where
  "emits m Q \<longleftrightarrow> (\<forall>s. \<exists>es. ex_log (snd (m s)) = ex_log s @ es \<and> Q (fst (m s)) es)"

named_theorems emit_intros \<open>what a step appends to the log\<close>

lemma emitsE:
  assumes "emits m Q" "m s = (r, s')"
  obtains es where "ex_log s' = ex_log s @ es" "Q r es"
  using assms by (auto simp: emits_def dest!: spec [where x = s])

lemma emitsI:
  assumes "\<And>s r s'. m s = (r, s') \<Longrightarrow> \<exists>es. ex_log s' = ex_log s @ es \<and> Q r es"
  shows "emits m Q"
  unfolding emits_def using assms by (metis prod.collapse)

lemma emits_mono: "emits m Q \<Longrightarrow> (\<And>r es. Q r es \<Longrightarrow> Q' r es) \<Longrightarrow> emits m Q'"
  unfolding emits_def by blast

lemma emits_bind:
  assumes "emits m Q" "\<And>x. emits (f x) (Q' x)"
  shows "emits (act_bind m f) (\<lambda>r es. (\<exists>e. r = Inl e \<and> Q (Inl e) es)
    \<or> (\<exists>x es1 es2. es = es1 @ es2 \<and> Q (Inr x) es1 \<and> Q' x r es2))"
proof (rule emitsI)
  fix s r s' assume run: "act_bind m f s = (r, s')"
  obtain r1 s1 where m: "m s = (r1, s1)" by fastforce
  obtain es1 where es1: "ex_log s1 = ex_log s @ es1" "Q r1 es1" by (rule emitsE [OF assms(1) m])
  show "\<exists>es. ex_log s' = ex_log s @ es \<and> ((\<exists>e. r = Inl e \<and> Q (Inl e) es)
      \<or> (\<exists>x es1 es2. es = es1 @ es2 \<and> Q (Inr x) es1 \<and> Q' x r es2))"
  proof (cases r1)
    case (Inl e)
    then show ?thesis using run m es1 by (auto simp: act_bind_def)
  next
    case (Inr x)
    then have "f x s1 = (r, s')" using run m by (simp add: act_bind_def)
    from emitsE [OF assms(2) this] obtain es2 where "ex_log s' = ex_log s1 @ es2" "Q' x r es2" by auto
    then show ?thesis using es1 Inr by (intro exI [where x = "es1 @ es2"]) auto
  qed
qed

lemma emits_res: "emits (act_res r) (\<lambda>r' es. r' = r \<and> es = [])"
  by (auto simp: emits_def act_res_def)

lemma emits_calling: "emits (calling ask event) (\<lambda>a es. es = [event a])"
  by (rule emitsI) (auto simp: calling_def split: prod.splits)

definition timed :: "nat option \<Rightarrow> nat \<Rightarrow> nat res \<Rightarrow> delivery_event list \<Rightarrow> bool" where
  "timed deadline maximum r es \<longleftrightarrow>
     (case deadline of
        None \<Rightarrow> r = Inr maximum \<and> es = []
      | Some d \<Rightarrow> \<exists>now. es = [ClockRead now]
          \<and> r = (if d \<le> now then Inl ServiceUnavailable else Inr (min maximum (d - now))))"

lemma emits_timeout: "emits (deadline_timeout ig deadline maximum) (timed deadline maximum)"
  by (rule emitsI)
    (auto simp: deadline_timeout_def timed_def calling_def Let_def split: option.splits prod.splits if_splits)

lemma timed_paced: "timed deadline maximum r es \<Longrightarrow> paced deadline wait es"
  using paced_check [OF paced_nil] by (auto simp: timed_def paced_nil split: option.splits)

lemma timed_request:
  assumes "timed deadline (longest wait e) (Inr t) es" "timeout_of e = Some t"
  shows "paced deadline wait (es @ [e])"
proof (cases deadline)
  case None
  then show ?thesis using assms paced_plain [OF paced_nil, of deadline e wait] by (simp add: timed_def)
next
  case (Some d)
  then obtain now where "es = [ClockRead now]" "now < d" "t = min (longest wait e) (d - now)"
    using assms(1) by (auto simp: timed_def split: if_splits)
  then show ?thesis using paced_request [OF paced_nil Some, of now e wait] assms(2) by simp
qed

section \<open>The objects of a batch\<close>

fun is_upload_of :: "digest \<Rightarrow> delivery_event \<Rightarrow> bool" where
  "is_upload_of d (Uploaded u d' b t r) = (d' = d)"
| "is_upload_of d _ = False"

definition uploads_of :: "digest \<Rightarrow> delivery_event list \<Rightarrow> nat" where
  "uploads_of d es = length (filter (is_upload_of d) es)"

lemma uploads_of_simps [simp]:
  "uploads_of d [] = 0"
  "uploads_of d (es @ es') = uploads_of d es + uploads_of d es'"
  "uploads_of d (e # es) = (if is_upload_of d e then Suc (uploads_of d es) else uploads_of d es)"
  by (simp_all add: uploads_of_def)

text \<open>The service has taken the object, with bytes of its digest.\<close>

definition delivered :: "'s ingress \<Rightarrow> missing_entry \<Rightarrow> delivery_event list \<Rightarrow> bool" where
  "delivered ig m es \<longleftrightarrow>
     (\<exists>data t. Uploaded (ms_upload_url m) (ms_cipher_digest m) data t (Inr ()) \<in> set es
        \<and> in_digest ig data = ms_cipher_digest m)"

lemma delivered_append [simp]:
  "delivered ig m (es @ es') \<longleftrightarrow> delivered ig m es \<or> delivered ig m es'"
  unfolding delivered_def by auto

lemma delivered_other [simp]:
  "delivered ig m (Listed c t r # es) \<longleftrightarrow> delivered ig m es"
  "delivered ig m (Started t' r' # es) \<longleftrightarrow> delivered ig m es"
  "delivered ig m (ClockRead n # es) \<longleftrightarrow> delivered ig m es"
  unfolding delivered_def by auto

text \<open>Nothing but the objects of \<open>ms\<close> is sent, each to its place and with bytes of its digest.\<close>

definition sends_only :: "'s ingress \<Rightarrow> missing_entry list \<Rightarrow> delivery_event list \<Rightarrow> bool" where
  "sends_only ig ms es \<longleftrightarrow>
     (\<forall>e \<in> set es. case e of
        ClockRead _ \<Rightarrow> True
      | Uploaded u d b t r \<Rightarrow> \<exists>m \<in> set ms. u = ms_upload_url m \<and> d = ms_cipher_digest m \<and> in_digest ig b = d
      | _ \<Rightarrow> False)"

lemma sends_only_simps [simp]:
  "sends_only ig ms []"
  "sends_only ig ms (es @ es') \<longleftrightarrow> sends_only ig ms es \<and> sends_only ig ms es'"
  unfolding sends_only_def by auto

lemma sends_only_mono: "sends_only ig ms es \<Longrightarrow> set ms \<subseteq> set ms' \<Longrightarrow> sends_only ig ms' es"
  unfolding sends_only_def by (fastforce split: delivery_event.splits)

lemma sends_only_none:
  assumes "sends_only ig ms es" "d \<notin> ms_cipher_digest ` set ms"
  shows "uploads_of d es = 0"
proof -
  have "\<not> is_upload_of d e" if "e \<in> set es" for e
    using bspec [OF assms(1) [unfolded sends_only_def] that] assms(2) by (cases e) auto
  then show ?thesis by (simp add: uploads_of_def filter_empty_conv)
qed

text \<open>What is known of the thread of \<open>m\<close> after the events \<open>es\<close> of its batch.\<close>

fun thread_ok ::
  "'s ingress \<Rightarrow> nat \<Rightarrow> missing_entry \<Rightarrow> upload_thread \<Rightarrow> delivery_event list \<Rightarrow> bool" where
  "thread_ok ig attempts m (Reading m' path) es \<longleftrightarrow>
     m' = m \<and> uploads_of (ms_cipher_digest m) es = 0"
| "thread_ok ig attempts m (Attempting m' data left prev) es \<longleftrightarrow>
     m' = m \<and> in_digest ig data = ms_cipher_digest m \<and> attempts \<le> 5
     \<and> uploads_of (ms_cipher_digest m) es + left = attempts"
| "thread_ok ig attempts m (Returned r) es \<longleftrightarrow>
     uploads_of (ms_cipher_digest m) es \<le> 5 \<and> (r = Inr () \<longrightarrow> delivered ig m es)"

lemma thread_ok_other:
  "thread_ok ig attempts m th es \<Longrightarrow> uploads_of (ms_cipher_digest m) es' = 0
     \<Longrightarrow> thread_ok ig attempts m th (es @ es')"
  by (cases th) auto

lemma thread_step_ok:
  assumes ok: "thread_ok ig attempts m th es"
    and step: "thread_step ig deadline attempts th s = (th', s')"
  shows "\<exists>es'. ex_log s' = ex_log s @ es' \<and> thread_ok ig attempts m th' (es @ es')
    \<and> sends_only ig [m] es' \<and> paced deadline wait es'"
proof (cases th)
  case (Reading m' path)
  then show ?thesis using ok step
    by (intro exI [where x = "[]"])
      (auto simp: read_object_def paced_nil split: prod.splits option.splits if_splits)
next
  case (Returned r)
  then show ?thesis using ok step by (intro exI [where x = "[]"]) (auto simp: paced_nil)
next
  case (Attempting m' data left prev)
  show ?thesis
  proof (cases left)
    case 0
    then show ?thesis using Attempting ok step by (intro exI [where x = "[]"]) (auto simp: paced_nil)
  next
    case (Suc n)
    obtain r s1 where timeout: "deadline_timeout ig deadline GRANT_TIMEOUT s = (r, s1)" by fastforce
    obtain es1 where es1: "ex_log s1 = ex_log s @ es1" "timed deadline GRANT_TIMEOUT r es1"
      by (rule emitsE [OF emits_timeout timeout])
    have quiet: "uploads_of d es1 = 0" "sends_only ig [m] es1" for d
      using es1(2) by (auto simp: timed_def sends_only_def split: option.splits)
    show ?thesis
    proof (cases r)
      case (Inl e)
      then show ?thesis using Attempting Suc ok step es1 quiet timeout timed_paced [OF es1(2)]
        by (intro exI [where x = es1]) auto
    next
      case (Inr t)
      let ?m = "Uploaded (ms_upload_url m) (ms_cipher_digest m) data t"
      obtain answer s2 where sent: "calling (in_upload_object ig (ms_upload_url m) (ms_cipher_digest m) data t)
          ?m s1 = (answer, s2)" by fastforce
      have log: "ex_log s2 = ex_log s @ es1 @ [?m answer]"
        using emitsE [OF emits_calling sent] es1(1) by (metis append_assoc)
      have parts: "m' = m" "in_digest ig data = ms_cipher_digest m"
        "uploads_of (ms_cipher_digest m) es + Suc n = attempts" "attempts \<le> 5"
        using ok Attempting Suc by simp_all
      have "s' = s2" and th': "th' = (case answer of Inr _ \<Rightarrow> Returned (Inr ())
          | Inl (e, retryable) \<Rightarrow> if retryable then Attempting m data n (Some e) else Returned (Inl e))"
        using step Attempting Suc timeout Inr sent parts(1) by (auto split: sum.splits prod.splits if_splits)
      moreover have "thread_ok ig attempts m th' (es @ es1 @ [?m answer])"
        unfolding th' using parts quiet(1) by (auto simp: delivered_def split: sum.splits prod.splits)
      moreover have "paced deadline wait (es1 @ [?m answer])"
        by (rule timed_request [where t = t]) (use es1(2) Inr in simp_all)
      moreover have "sends_only ig [m] (es1 @ [?m answer])"
        using quiet(2) parts(2) by (simp add: sends_only_def)
      ultimately show ?thesis using log by (intro exI [where x = "es1 @ [?m answer]"]) simp
    qed
  qed
qed

text \<open>A whole batch: every thread in its place, and nothing else in the log.\<close>

definition batch_ok ::
  "'s ingress \<Rightarrow> nat option \<Rightarrow> nat \<Rightarrow> nat \<Rightarrow> missing_entry list \<Rightarrow> upload_thread list
     \<Rightarrow> delivery_event list \<Rightarrow> bool" where
  "batch_ok ig deadline wait attempts ms ths es \<longleftrightarrow>
     list_all2 (\<lambda>m th. thread_ok ig attempts m th es) ms ths
     \<and> sends_only ig ms es \<and> paced deadline wait es"

lemma batch_ok_step:
  assumes distinct: "distinct (map ms_cipher_digest ms)"
    and ok: "batch_ok ig deadline wait attempts ms ths es"
    and i: "i < length ths"
    and step: "thread_step ig deadline attempts (ths ! i) s = (th, s')"
  shows "\<exists>es'. ex_log s' = ex_log s @ es' \<and> batch_ok ig deadline wait attempts ms (ths[i := th]) (es @ es')"
proof -
  have all: "list_all2 (\<lambda>m th. thread_ok ig attempts m th es) ms ths"
    and i': "i < length ms" using ok i by (auto simp: batch_ok_def dest: list_all2_lengthD)
  obtain es' where es': "ex_log s' = ex_log s @ es'" "thread_ok ig attempts (ms ! i) th (es @ es')"
    "sends_only ig [ms ! i] es'" "paced deadline wait es'"
    using thread_step_ok [OF list_all2_nthD [OF all i'] step] by blast
  have others: "uploads_of (ms_cipher_digest (ms ! j)) es' = 0" if "j < length ms" "j \<noteq> i" for j
    by (rule sends_only_none [OF es'(3)])
      (use distinct i' that nth_eq_iff_index_eq [OF distinct, of j i] in simp)
  have "thread_ok ig attempts (ms ! j) (ths[i := th] ! j) (es @ es')" if j: "j < length ms" for j
  proof (cases "j = i")
    case True
    then show ?thesis using es'(2) i by simp
  next
    case False
    then show ?thesis using thread_ok_other [OF list_all2_nthD [OF all j] others [OF j]] by simp
  qed
  then have "list_all2 (\<lambda>m th. thread_ok ig attempts m th (es @ es')) ms (ths[i := th])"
    using list_all2_lengthD [OF all] by (simp add: list_all2_conv_all_nth)
  moreover have "sends_only ig ms es'"
    using es'(3) i' by (auto intro: sends_only_mono)
  ultimately show ?thesis using es'(1,4) ok by (auto simp: batch_ok_def paced_append)
qed

lemma run_threads_ok:
  assumes "distinct (map ms_cipher_digest ms)"
    and "batch_ok ig deadline wait attempts ms ths es"
    and "run_threads ig deadline attempts ths s = (ths', s')"
  shows "\<exists>es'. ex_log s' = ex_log s @ es' \<and> batch_ok ig deadline wait attempts ms ths' (es @ es')
    \<and> running ths' = []"
  using assms(2,3)
proof (induction ig deadline attempts ths s arbitrary: es rule: run_threads.induct)
  case (1 ig deadline attempts ths s)
  show ?case
  proof (cases "running ths = []")
    case True
    then show ?thesis using "1.prems" by (simp add: run_threads.simps [of _ _ _ ths])
  next
    case False
    obtain i s1 where p: "pick ig ths s = (i, s1)" by fastforce
    obtain th s2 where step: "thread_step ig deadline attempts (ths ! i) s1 = (th, s2)" by fastforce
    note picked = picked [OF False p]
    obtain es1 where es1: "ex_log s2 = ex_log s1 @ es1"
      "batch_ok ig deadline wait attempts ms (ths[i := th]) (es @ es1)"
      using batch_ok_step [OF assms(1) "1.prems"(1) picked(1) step] by blast
    have rest: "run_threads ig deadline attempts (ths[i := th]) s2 = (ths', s')"
      using "1.prems"(2) False p step by (simp add: run_threads.simps [of _ _ _ ths])
    obtain es2 where "ex_log s' = ex_log s2 @ es2"
      "batch_ok ig deadline wait attempts ms ths' ((es @ es1) @ es2)" "running ths' = []"
      using "1.IH" [OF False p [symmetric] step [symmetric] es1(2) rest] by blast
    then show ?thesis using es1(1) picked(3)
      by (intro exI [where x = "es1 @ es2"]) simp
  qed
qed

lemma not_running: "running ths = [] \<Longrightarrow> th \<in> set ths \<Longrightarrow> \<exists>r. th = Returned r"
  by (cases th) (force simp: running_def filter_empty_conv in_set_conv_nth)+

lemma joined_ok: "join_threads ths = Inr () \<Longrightarrow> th \<in> set ths \<Longrightarrow> th = Returned (Inr ())"
  by (induction ths rule: join_threads.induct) auto

text \<open>What some batches did: \<open>r\<close> is their result, \<open>es\<close> their events.\<close>

definition objects_sent ::
  "'s ingress \<Rightarrow> nat option \<Rightarrow> nat \<Rightarrow> missing_entry list \<Rightarrow> unit res \<Rightarrow> delivery_event list \<Rightarrow> bool"
  where
  "objects_sent ig deadline wait ms r es \<longleftrightarrow>
     sends_only ig ms es \<and> paced deadline wait es
     \<and> (\<forall>m \<in> set ms. uploads_of (ms_cipher_digest m) es \<le> 5)
     \<and> (r = Inr () \<longrightarrow> (\<forall>m \<in> set ms. delivered ig m es))"

lemma upload_batch_sent:
  assumes distinct: "distinct (map ms_cipher_digest ms)"
  shows "emits (upload_batch ig deadline attempts table ms) (objects_sent ig deadline wait ms)"
proof (rule emitsI)
  fix s r s' assume run: "upload_batch ig deadline attempts table ms s = (r, s')"
  let ?ths = "map (\<lambda>m. Reading m (the (bt_get table (ms_cipher_digest m)))) ms"
  obtain ths where ths: "run_threads ig deadline attempts ?ths s = (ths, s')" "r = join_threads ths"
    using run by (auto simp: upload_batch_def split: prod.splits)
  have "batch_ok ig deadline wait attempts ms ?ths []"
    by (auto simp: batch_ok_def list_all2_conv_all_nth paced_nil)
  from run_threads_ok [OF distinct this ths(1)] obtain es where
    es: "ex_log s' = ex_log s @ es" "batch_ok ig deadline wait attempts ms ths es" "running ths = []"
    by auto
  have all: "list_all2 (\<lambda>m th. thread_ok ig attempts m th es) ms ths"
    using es(2) by (simp add: batch_ok_def)
  have facts: "uploads_of (ms_cipher_digest m) es \<le> 5
      \<and> (r = Inr () \<longrightarrow> delivered ig m es)" if m: "m \<in> set ms" for m
  proof -
    obtain th where th: "th \<in> set ths" "thread_ok ig attempts m th es"
      using all m by (metis in_set_conv_nth list_all2_conv_all_nth)
    obtain r' where "th = Returned r'" using not_running [OF es(3) th(1)] by blast
    then show ?thesis using th joined_ok [of ths th] ths(2) by auto
  qed
  then show "\<exists>es. ex_log s' = ex_log s @ es \<and> objects_sent ig deadline wait ms r es"
    using es(1,2) by (intro exI [where x = es]) (simp add: objects_sent_def batch_ok_def)
qed

lemma objects_sent_append:
  assumes distinct: "distinct (map ms_cipher_digest (ms @ ms'))"
    and a: "objects_sent ig deadline wait ms (Inr ()) es"
    and b: "objects_sent ig deadline wait ms' r es'"
  shows "objects_sent ig deadline wait (ms @ ms') r (es @ es')"
proof -
  have apart: "uploads_of (ms_cipher_digest m) es' = 0" if "m \<in> set ms" for m
    by (rule sends_only_none) (use b that distinct in \<open>auto simp: objects_sent_def\<close>)
  have apart': "uploads_of (ms_cipher_digest m) es = 0" if "m \<in> set ms'" for m
    by (rule sends_only_none) (use a that distinct in \<open>auto simp: objects_sent_def\<close>)
  have "sends_only ig (ms @ ms') es" "sends_only ig (ms @ ms') es'"
    using a b by (auto simp: objects_sent_def intro: sends_only_mono)
  then show ?thesis using a b apart apart' by (auto simp: objects_sent_def paced_append)
qed

lemma objects_sent_none: "objects_sent ig deadline wait [] r []"
  by (simp add: objects_sent_def paced_nil)

lemma objects_sent_failed:
  assumes "objects_sent ig deadline wait ms (Inl e) es" "distinct (map ms_cipher_digest (ms @ ms'))"
  shows "objects_sent ig deadline wait (ms @ ms') (Inl e) es"
proof -
  have "uploads_of (ms_cipher_digest m) es = 0" if "m \<in> set ms'" for m
    by (rule sends_only_none) (use assms that in \<open>auto simp: objects_sent_def\<close>)
  then show ?thesis using assms(1) by (auto simp: objects_sent_def intro: sends_only_mono)
qed

lemma upload_batches_sent:
  assumes "distinct (map ms_cipher_digest (concat batches))"
  shows "emits (upload_batches ig deadline attempts table batches)
    (objects_sent ig deadline wait (concat batches))"
  using assms
proof (induction batches)
  case Nil
  show ?case
    unfolding upload_batches.simps by (rule emits_mono [OF emits_res]) (simp add: objects_sent_none)
next
  case (Cons batch batches)
  have parts: "distinct (map ms_cipher_digest batch)" "distinct (map ms_cipher_digest (concat batches))"
    "distinct (map ms_cipher_digest (batch @ concat batches))"
    using Cons.prems by simp_all
  show ?case
    unfolding upload_batches.simps concat.simps
    by (rule emits_mono [OF emits_bind [OF upload_batch_sent [OF parts(1)] Cons.IH [OF parts(2)]]])
      (auto intro: objects_sent_failed objects_sent_append parts(3))
qed

section \<open>The pages\<close>

lemma check_page_ok:
  "check_page table seen ms = Inr seen' \<Longrightarrow>
     set seen' = ms_cipher_digest ` set ms \<union> set seen
     \<and> distinct (map ms_cipher_digest ms) \<and> ms_cipher_digest ` set ms \<inter> set seen = {}
     \<and> (\<forall>m \<in> set ms. bt_contains table (ms_cipher_digest m))"
proof (induction ms arbitrary: seen)
  case (Cons m ms)
  then have "check_page table (ms_cipher_digest m # seen) ms = Inr seen'"
    "ms_cipher_digest m \<notin> set seen" "bt_contains table (ms_cipher_digest m)"
    by (auto split: if_splits)
  with Cons.IH [OF this(1)] show ?case by auto
qed simp

text \<open>The objects named by the pages the service listed.\<close>

fun listed :: "delivery_event list \<Rightarrow> missing_entry list" where
  "listed (Listed c t (Inr page) # es) = mp_missing_objects page @ listed es"
| "listed (e # es) = listed es"
| "listed [] = []"

fun is_listing :: "delivery_event \<Rightarrow> bool" where
  "is_listing (Listed c t r) = True"
| "is_listing _ = False"

lemma listed_append [simp]: "listed (es @ es') = listed es @ listed es'"
  by (induction es rule: listed.induct) auto

text \<open>Readings of the clock and refused listings.\<close>

definition quiet :: "delivery_event list \<Rightarrow> bool" where
  "quiet es \<longleftrightarrow>
     (\<forall>e \<in> set es. case e of ClockRead _ \<Rightarrow> True | Listed _ _ (Inl _) \<Rightarrow> True | _ \<Rightarrow> False)"

lemma quiet_none:
  "quiet es \<Longrightarrow> uploads_of d es = 0 \<and> listed es = []"
proof (induction es)
  case (Cons e es)
  then show ?case by (cases e) (auto simp: quiet_def split: sum.splits)
qed simp

lemma timed_quiet: "timed deadline maximum r es \<Longrightarrow> quiet es \<and> filter is_listing es = []"
  by (auto simp: timed_def quiet_def split: option.splits)

lemma sent_not_listed: "sends_only ig ms es \<Longrightarrow> listed es = [] \<and> filter is_listing es = []"
proof (induction es)
  case (Cons e es)
  then show ?case by (cases e) (auto simp: sends_only_def)
qed simp

text \<open>
  Only objects of \<open>all\<close> are sent, all known to the candidate; besides there are readings of the clock
  and listings.
\<close>

definition uploads_ok ::
  "'s ingress \<Rightarrow> (digest, digest) btree \<Rightarrow> missing_entry list \<Rightarrow> delivery_event list \<Rightarrow> bool" where
  "uploads_ok ig table all es \<longleftrightarrow>
     (\<forall>e \<in> set es. case e of
        ClockRead _ \<Rightarrow> True
      | Listed _ _ _ \<Rightarrow> True
      | Uploaded u d b t r \<Rightarrow> bt_contains table d \<and> in_digest ig b = d
          \<and> (\<exists>m \<in> set all. u = ms_upload_url m \<and> d = ms_cipher_digest m)
      | _ \<Rightarrow> False)"

lemma uploads_ok_append [simp]:
  "uploads_ok ig table all (es @ es') \<longleftrightarrow> uploads_ok ig table all es \<and> uploads_ok ig table all es'"
  unfolding uploads_ok_def by auto

lemma uploads_ok_mono: "uploads_ok ig table all es \<Longrightarrow> set all \<subseteq> set all' \<Longrightarrow> uploads_ok ig table all' es"
  unfolding uploads_ok_def by (fastforce split: delivery_event.splits)

lemma uploads_ok_quiet: "quiet es \<Longrightarrow> uploads_ok ig table all es"
  unfolding uploads_ok_def quiet_def by (fastforce split: delivery_event.splits)

lemma uploads_ok_sent:
  "sends_only ig ms es \<Longrightarrow> \<forall>m \<in> set ms. bt_contains table (ms_cipher_digest m)
     \<Longrightarrow> uploads_ok ig table ms es"
  unfolding uploads_ok_def sends_only_def by (fastforce split: delivery_event.splits)

definition pages_sent ::
  "'s ingress \<Rightarrow> nat option \<Rightarrow> nat \<Rightarrow> (digest, digest) btree \<Rightarrow> nat \<Rightarrow> missing_entry list \<Rightarrow> digest list
     \<Rightarrow> unit res \<Rightarrow> delivery_event list \<Rightarrow> bool" where
  "pages_sent ig deadline wait table left ms seen r es \<longleftrightarrow>
     paced deadline wait es \<and> uploads_ok ig table (ms @ listed es) es
     \<and> (\<forall>d. uploads_of d es \<le> 5) \<and> (\<forall>d \<in> set seen. uploads_of d es = 0)
     \<and> length (filter is_listing es) \<le> left
     \<and> (r = Inr () \<longrightarrow>
          distinct (map ms_cipher_digest (ms @ listed es))
          \<and> ms_cipher_digest ` set (ms @ listed es) \<inter> set seen = {}
          \<and> (\<forall>m \<in> set (ms @ listed es). bt_contains table (ms_cipher_digest m) \<and> delivered ig m es))"

lemma pages_sent_nothing:
  "paced deadline wait es \<Longrightarrow> quiet es \<Longrightarrow> filter is_listing es = []
     \<Longrightarrow> pages_sent ig deadline wait table left ms seen (Inl e) es"
  using quiet_none [of es] by (simp add: pages_sent_def uploads_ok_quiet)

text \<open>A page whose objects were sent, and what came after it.\<close>

lemma objects_bounded:
  assumes "objects_sent ig deadline wait ms r es"
  shows "uploads_of d es \<le> 5" "d \<notin> ms_cipher_digest ` set ms \<Longrightarrow> uploads_of d es = 0"
  using assms sends_only_none [of ig ms es d] by (force simp: objects_sent_def)+

lemma pages_sent_last:
  assumes page: "check_page table seen ms = Inr seen'"
    and objects: "objects_sent ig deadline wait ms r es1"
    and es0: "paced deadline wait es0" "quiet es0" "filter is_listing es0 = []"
    and es2: "paced deadline wait es2" "quiet es2" "length (filter is_listing es2) \<le> left"
    and r': "r' = Inr () \<Longrightarrow> r = Inr ()"
  shows "pages_sent ig deadline wait table left ms seen r' (es0 @ es1 @ es2)"
proof -
  note page = check_page_ok [OF page]
  have es1: "sends_only ig ms es1" "paced deadline wait es1"
    using objects by (simp_all add: objects_sent_def)
  have zero: "uploads_of d es1 = 0" if "d \<in> set seen" for d
    by (rule objects_bounded [OF objects]) (use page that in auto)
  have only: "listed (es0 @ es1 @ es2) = []"
    using quiet_none [OF es0(2)] quiet_none [OF es2(2)] sent_not_listed [OF es1(1)] by simp
  show ?thesis
    unfolding pages_sent_def only
    using page es0 es1 es2 objects r' zero quiet_none [OF es0(2)] quiet_none [OF es2(2)]
      sent_not_listed [OF es1(1)] objects_bounded(1) [OF objects]
    by (auto simp: paced_append uploads_ok_quiet uploads_ok_sent objects_sent_def)
qed

lemma pages_sent_more:
  assumes page: "check_page table seen ms = Inr seen'"
    and objects: "objects_sent ig deadline wait ms (Inr ()) es1"
    and es0: "paced deadline wait es0" "quiet es0" "filter is_listing es0 = []"
    and es2: "paced deadline wait (es2 @ [Listed c t (Inr next_page)])" "quiet es2"
      "filter is_listing es2 = []"
    and rest: "pages_sent ig deadline wait table left (mp_missing_objects next_page) seen' r es3"
  shows "pages_sent ig deadline wait table (Suc left) ms seen r
    (es0 @ es1 @ es2 @ [Listed c t (Inr next_page)] @ es3)"
proof -
  note page = check_page_ok [OF page]
  note quiets = quiet_none [OF es0(2)] quiet_none [OF es2(2)]
  have es1: "sends_only ig ms es1" "paced deadline wait es1" "\<forall>m \<in> set ms. delivered ig m es1"
    using objects by (simp_all add: objects_sent_def)
  note es1' = sent_not_listed [OF es1(1)]
  let ?es = "es0 @ es1 @ es2 @ [Listed c t (Inr next_page)] @ es3"
  let ?later = "mp_missing_objects next_page @ listed es3"
  have all: "ms @ listed ?es = ms @ ?later" using quiets es1' by simp
  have count: "uploads_of d ?es = uploads_of d es1 + uploads_of d es3" for d
    using quiets by simp
  have zero: "uploads_of d es1 = 0 \<or> uploads_of d es3 = 0" for d
    using objects_bounded(2) [OF objects, of d] rest page
    by (cases "d \<in> ms_cipher_digest ` set ms") (simp_all add: pages_sent_def)
  have bounded: "uploads_of d ?es \<le> 5" for d
    unfolding count using zero [of d] objects_bounded(1) [OF objects, of d] rest
    by (auto simp: pages_sent_def)
  have unseen: "uploads_of d ?es = 0" if "d \<in> set seen" for d
    unfolding count using that page rest objects_bounded(2) [OF objects, of d]
    by (auto simp: pages_sent_def)
  have paced: "paced deadline wait ?es"
    using paced_append [OF _ es2(1), of es3] rest es0(1) es1(2)
    by (simp add: paced_append pages_sent_def)
  have "uploads_ok ig table (ms @ ?later) es1"
    by (rule uploads_ok_mono [OF uploads_ok_sent [OF es1(1)]]) (use page in auto)
  moreover have "uploads_ok ig table (ms @ ?later) es3"
    by (rule uploads_ok_mono [of _ _ ?later]) (use rest in \<open>auto simp: pages_sent_def\<close>)
  moreover have "uploads_ok ig table all [Listed c t (Inr next_page)]" for all
    by (simp add: uploads_ok_def)
  ultimately have known: "uploads_ok ig table (ms @ ?later) ?es"
    unfolding uploads_ok_append
    using uploads_ok_quiet [OF es0(2)] uploads_ok_quiet [OF es2(2)] by (intro conjI) assumption+
  have finished: "distinct (map ms_cipher_digest (ms @ ?later))
      \<and> ms_cipher_digest ` set (ms @ ?later) \<inter> set seen = {}
      \<and> (\<forall>m \<in> set (ms @ ?later). bt_contains table (ms_cipher_digest m) \<and> delivered ig m ?es)"
    if "r = Inr ()"
    using that rest page es1(3) by (auto simp: pages_sent_def)
  show ?thesis
    unfolding pages_sent_def all
    using paced known bounded unseen finished rest es0(3) es1' es2(3) by (auto simp: pages_sent_def)
qed

lemma timed_listing:
  assumes "timed deadline GRANT_TIMEOUT (Inr t) es"
  shows "paced deadline wait (es @ [Listed c t r])"
  by (rule timed_request [where t = t]) (use assms in simp_all)

text \<open>What follows the objects of a page.\<close>

definition after_page ::
  "'s ingress \<Rightarrow> nat option \<Rightarrow> nat \<Rightarrow> (digest, digest) btree \<Rightarrow> nat \<Rightarrow> digest list \<Rightarrow> unit res
     \<Rightarrow> delivery_event list \<Rightarrow> bool" where
  "after_page ig deadline wait table left seen r es \<longleftrightarrow>
     paced deadline wait es \<and> quiet es \<and> length (filter is_listing es) \<le> Suc left
     \<or> (\<exists>es2 c t next_page es3. es = es2 @ [Listed c t (Inr next_page)] @ es3
          \<and> paced deadline wait (es2 @ [Listed c t (Inr next_page)]) \<and> quiet es2
          \<and> filter is_listing es2 = []
          \<and> pages_sent ig deadline wait table left (mp_missing_objects next_page) seen r es3)"

lemma listing_after:
  assumes "\<And>page. emits (rest page) (pages_sent ig deadline wait table left (mp_missing_objects page) seen)"
  shows "emits (act_bind (deadline_timeout ig deadline GRANT_TIMEOUT) (\<lambda>t.
      act_bind (calling (ask t) (Listed c t)) rest)) (after_page ig deadline wait table left seen)"
proof (rule emits_mono [OF emits_bind [OF emits_timeout emits_bind [OF emits_calling assms]]])
  fix r es
  let ?listing = "\<lambda>t r es. (\<exists>e. r = Inl e \<and> es = [Listed c t (Inl e)])
      \<or> (\<exists>page es1 es2. es = es1 @ es2 \<and> es1 = [Listed c t (Inr page)]
           \<and> pages_sent ig deadline wait table left (mp_missing_objects page) seen r es2)"
  assume "(\<exists>e. r = Inl e \<and> timed deadline GRANT_TIMEOUT (Inl e) es)
    \<or> (\<exists>t es1 es2. es = es1 @ es2 \<and> timed deadline GRANT_TIMEOUT (Inr t) es1 \<and> ?listing t r es2)"
  then consider e where "r = Inl e" "timed deadline GRANT_TIMEOUT (Inl e) es"
    | t es1 e where "es = es1 @ [Listed c t (Inl e)]" "timed deadline GRANT_TIMEOUT (Inr t) es1" "r = Inl e"
    | t es1 page es2 where "es = es1 @ [Listed c t (Inr page)] @ es2"
      "timed deadline GRANT_TIMEOUT (Inr t) es1"
      "pages_sent ig deadline wait table left (mp_missing_objects page) seen r es2"
    by auto
  then show "after_page ig deadline wait table left seen r es"
  proof cases
    case 1
    then show ?thesis using timed_paced timed_quiet by (fastforce simp: after_page_def)
  next
    case (2 t es1 e)
    then show ?thesis using timed_listing [OF 2(2)] timed_quiet [OF 2(2)]
      by (auto simp: after_page_def quiet_def)
  next
    case (3 t es1 page es2)
    then show ?thesis using timed_listing [OF 3(2)] timed_quiet [OF 3(2)]
      unfolding after_page_def by blast
  qed
qed

lemma page_then:
  assumes page: "check_page table seen ms = Inr seen'"
    and "objects_sent ig deadline wait ms (Inr ()) es1"
    and "paced deadline wait es0" "quiet es0" "filter is_listing es0 = []"
    and "after_page ig deadline wait table left seen' r es"
  shows "pages_sent ig deadline wait table (Suc left) ms seen r (es0 @ es1 @ es)"
  using assms(6) unfolding after_page_def
proof (elim disjE exE conjE)
  assume "paced deadline wait es" "quiet es" "length (filter is_listing es) \<le> Suc left"
  then show ?thesis using pages_sent_last [OF page assms(2-5)] by blast
next
  fix es2 c t next_page es3
  assume es: "es = es2 @ [Listed c t (Inr next_page)] @ es3"
    and "paced deadline wait (es2 @ [Listed c t (Inr next_page)])" "quiet es2"
      "filter is_listing es2 = []"
      "pages_sent ig deadline wait table left (mp_missing_objects next_page) seen' r es3"
  then show ?thesis unfolding es by (intro pages_sent_more [OF page assms(2-5)])
qed

lemma upload_pages_sent:
  "emits (upload_pages ig deadline start table left page seen)
     (pages_sent ig deadline wait table left (mp_missing_objects page) seen)"
proof (induction left arbitrary: page seen)
  case 0
  show ?case
    unfolding upload_pages.simps
    by (rule emits_mono [OF emits_res]) (simp add: pages_sent_nothing paced_nil quiet_def)
next
  case (Suc left)
  let ?ms = "mp_missing_objects page"
  let ?tail = "\<lambda>seen'. case mp_next_missing_cursor page of
             None \<Rightarrow> act_res (Inr ())
           | Some cursor \<Rightarrow>
               act_bind (deadline_timeout ig deadline GRANT_TIMEOUT) (\<lambda>timeout.
               act_bind (calling (in_missing ig (us_upload_id start) (us_upload_token start)
                     (Some cursor) timeout) (Listed (Some cursor) timeout)) (\<lambda>page'.
                 upload_pages ig deadline start table left page' seen'))"
  let ?objects = "upload_batches ig deadline (us_object_attempts start) table
      (slice_chunks MAX_CONCURRENT_OBJECT_UPLOADS ?ms)"
  have tail: "emits (?tail seen') (after_page ig deadline wait table left seen')" for seen'
  proof (cases "mp_next_missing_cursor page")
    case None
    then show ?thesis
      using emits_mono [OF emits_res, of "Inr ()" "after_page ig deadline wait table left seen'"]
      by (simp add: after_page_def paced_nil quiet_def)
  next
    case (Some cursor)
    then show ?thesis using listing_after [OF Suc.IH] by simp
  qed
  have rest: "emits (if length ?ms > 100 then act_res (Inl ServiceUnavailable)
       else act_bind (act_res (check_page table seen ?ms)) (\<lambda>seen'.
            act_bind ?objects (\<lambda>_. ?tail seen')))
     (\<lambda>r es. \<forall>es0. paced deadline wait es0 \<longrightarrow> quiet es0 \<longrightarrow> filter is_listing es0 = []
        \<longrightarrow> pages_sent ig deadline wait table (Suc left) ?ms seen r (es0 @ es))" (is "emits ?page ?Q")
  proof -
    consider e where "?page = act_res (Inl e)"
      | seen' where "check_page table seen ?ms = Inr seen'" "?page = act_bind ?objects (\<lambda>_. ?tail seen')"
    proof (cases "length ?ms > 100")
      case True
      then show thesis by (intro that(1) [of ServiceUnavailable]) simp
    next
      case False
      then show thesis using that
        by (cases "check_page table seen ?ms") (simp_all add: act_bind_result)
    qed
    then show ?thesis
    proof cases
      case 1
      show ?thesis unfolding 1 by (rule emits_mono [OF emits_res]) (simp add: pages_sent_nothing)
    next
      case (2 seen')
      have "concat (slice_chunks MAX_CONCURRENT_OBJECT_UPLOADS ?ms) = ?ms"
        by (rule chunks_concat) (simp add: limits)
      then have sent: "emits ?objects (objects_sent ig deadline wait ?ms)"
        using upload_batches_sent [of "slice_chunks MAX_CONCURRENT_OBJECT_UPLOADS ?ms" ig deadline
          "us_object_attempts start" table wait] check_page_ok [OF 2(1)] by simp
      show ?thesis
        unfolding 2(2)
      proof (rule emits_mono [OF emits_bind [OF sent tail]])
        fix r es
        assume "(\<exists>e. r = Inl e \<and> objects_sent ig deadline wait ?ms (Inl e) es)
          \<or> (\<exists>x es1 es2. es = es1 @ es2 \<and> objects_sent ig deadline wait ?ms (Inr x) es1
               \<and> after_page ig deadline wait table left seen' r es2)"
        then show "?Q r es"
          using pages_sent_last [OF 2(1), of ig deadline wait _ es _ "[]" "Suc left" r]
            page_then [OF 2(1), of ig deadline wait]
          by (auto simp: paced_nil quiet_def)
      qed
    qed
  qed
  show ?case
    unfolding upload_pages.simps deadline_check_def
  proof (rule emits_mono [OF emits_bind [OF emits_timeout rest]])
    fix r es
    assume "(\<exists>e. r = Inl e \<and> timed deadline DURATION_MAX (Inl e) es)
      \<or> (\<exists>x es1 es2. es = es1 @ es2 \<and> timed deadline DURATION_MAX (Inr x) es1
        \<and> (\<forall>es0. paced deadline wait es0 \<longrightarrow> quiet es0 \<longrightarrow> filter is_listing es0 = []
          \<longrightarrow> pages_sent ig deadline wait table (Suc left) ?ms seen r (es0 @ es2)))"
    then show "pages_sent ig deadline wait table (Suc left) ?ms seen r es"
      using timed_paced timed_quiet by (blast intro: pages_sent_nothing)
  qed
qed

section \<open>The upload\<close>

text \<open>The upload is cancelled, or the deadline has passed.\<close>

definition ended :: "nat option \<Rightarrow> delivery_event list \<Rightarrow> bool" where
  "ended deadline es \<longleftrightarrow>
     (\<exists>es0 t a. es = es0 @ [Cancelled t a] \<and> timed deadline GRANT_TIMEOUT (Inr t) es0)
     \<or> (\<exists>d now. deadline = Some d \<and> d \<le> now \<and> es = [ClockRead now])"

definition commit_wait :: "sealed_candidate \<Rightarrow> nat" where
  "commit_wait sealed =
     commit_timeout (ci_total_ciphertext_bytes (ur_ciphertext_identity (sc_request sealed)))"

definition maximum_pages :: "sealed_candidate \<Rightarrow> nat" where
  "maximum_pages sealed = saturating_add (div_ceil (length (sc_ciphertext sealed)) 100) 1"

abbreviation all_pages ::
  "'s ingress \<Rightarrow> nat option \<Rightarrow> sealed_candidate \<Rightarrow> upload_start \<Rightarrow> unit res \<Rightarrow> delivery_event list \<Rightarrow> bool"
  where
  "all_pages ig deadline sealed start \<equiv>
     pages_sent ig deadline (commit_wait sealed) (sc_ciphertext sealed) (maximum_pages sealed)
       (us_missing_objects start) []"

text \<open>The logs of an upload that was started, with its result.\<close>

inductive started_trace ::
  "'s ingress \<Rightarrow> nat option \<Rightarrow> sealed_candidate \<Rightarrow> upload_start \<Rightarrow> upload_commit res
     \<Rightarrow> delivery_event list \<Rightarrow> bool" for ig deadline sealed start where
  not_open: "us_state start \<notin> {StateCommitted, StateOpen, StateUploading}
    \<Longrightarrow> started_trace ig deadline sealed start (Inl ServiceUnavailable) []"
| already_late: "us_state start = StateCommitted \<Longrightarrow> timed deadline (commit_wait sealed) (Inl e) es
    \<Longrightarrow> started_trace ig deadline sealed start (Inl e) es"
| already: "us_state start = StateCommitted \<Longrightarrow> timed deadline (commit_wait sealed) (Inr t) es
    \<Longrightarrow> started_trace ig deadline sealed start r (es @ [Committed t r])"
| objects_failed: "us_state start \<in> {StateOpen, StateUploading}
    \<Longrightarrow> all_pages ig deadline sealed start (Inl e) es \<Longrightarrow> ended deadline es'
    \<Longrightarrow> started_trace ig deadline sealed start (Inl e) (es @ es')"
| commit_late: "us_state start \<in> {StateOpen, StateUploading}
    \<Longrightarrow> all_pages ig deadline sealed start (Inr ()) es
    \<Longrightarrow> timed deadline (commit_wait sealed) (Inl e) es'
    \<Longrightarrow> started_trace ig deadline sealed start (Inl e) (es @ es')"
| commit_failed: "us_state start \<in> {StateOpen, StateUploading}
    \<Longrightarrow> all_pages ig deadline sealed start (Inr ()) es
    \<Longrightarrow> timed deadline (commit_wait sealed) (Inr t) es' \<Longrightarrow> ended deadline es''
    \<Longrightarrow> started_trace ig deadline sealed start (Inl e) (es @ es' @ [Committed t (Inl e)] @ es'')"
| commit_answered: "us_state start \<in> {StateOpen, StateUploading}
    \<Longrightarrow> all_pages ig deadline sealed start (Inr ()) es
    \<Longrightarrow> timed deadline (commit_wait sealed) (Inr t) es' \<Longrightarrow> timed deadline DURATION_MAX x es''
    \<Longrightarrow> r = bind_res x (\<lambda>_. if commit_matches (sc_request sealed) commit then Inr commit
                           else Inl ServiceUnavailable)
    \<Longrightarrow> started_trace ig deadline sealed start r (es @ es' @ [Committed t (Inr commit)] @ es'')"

inductive upload_trace ::
  "'s ingress \<Rightarrow> nat option \<Rightarrow> sealed_candidate \<Rightarrow> upload_commit res \<Rightarrow> delivery_event list \<Rightarrow> bool"
  for ig deadline sealed where
  expired: "timed deadline GRANT_TIMEOUT (Inl e) es \<Longrightarrow> upload_trace ig deadline sealed (Inl e) es"
| refused: "timed deadline GRANT_TIMEOUT (Inr t) es
    \<Longrightarrow> upload_trace ig deadline sealed (Inl e) (es @ [Started t (Inl e)])"
| started: "timed deadline GRANT_TIMEOUT (Inr t) es \<Longrightarrow> started_trace ig deadline sealed start r es'
    \<Longrightarrow> upload_trace ig deadline sealed r (es @ [Started t (Inr start)] @ es')"

lemma cancel_ended:
  obtains es where "ex_log (cancel_upload ig deadline start s) = ex_log s @ es" "ended deadline es"
proof -
  obtain r s1 where timeout: "deadline_timeout ig deadline GRANT_TIMEOUT s = (r, s1)" by fastforce
  obtain es where es: "ex_log s1 = ex_log s @ es" "timed deadline GRANT_TIMEOUT r es"
    by (rule emitsE [OF emits_timeout timeout])
  show thesis
  proof (cases r)
    case (Inl e)
    then have "ended deadline es" using es(2)
      by (auto simp: ended_def timed_def split: option.splits if_splits)
    then show ?thesis using that es(1) timeout Inl by (simp add: cancel_upload_def)
  next
    case (Inr t)
    let ?cancel = "calling (in_cancel ig (us_upload_id start) (us_upload_token start) t) (Cancelled t)"
    obtain a s2 where sent: "?cancel s1 = (a, s2)" by fastforce
    have "ex_log s2 = ex_log s @ es @ [Cancelled t a]"
      using emitsE [OF emits_calling sent] es(1) by (metis append_assoc)
    moreover have "ended deadline (es @ [Cancelled t a])"
      using es(2) Inr by (auto simp: ended_def)
    ultimately show ?thesis using that timeout Inr sent by (simp add: cancel_upload_def)
  qed
qed

lemma commit_upload_trace:
  assumes state: "us_state start \<in> {StateOpen, StateUploading}"
    and sent: "all_pages ig deadline sealed start (Inr ()) es0"
    and run: "commit_upload ig deadline sealed start (commit_wait sealed) s = (r, s')"
  shows "\<exists>es. ex_log s' = ex_log s @ es \<and> started_trace ig deadline sealed start r (es0 @ es)"
proof -
  obtain r1 s1 where timeout: "deadline_timeout ig deadline (commit_wait sealed) s = (r1, s1)" by fastforce
  obtain es1 where es1: "ex_log s1 = ex_log s @ es1" "timed deadline (commit_wait sealed) r1 es1"
    by (rule emitsE [OF emits_timeout timeout])
  show ?thesis
  proof (cases r1)
    case (Inl e)
    then show ?thesis using run timeout es1 commit_late [OF state sent, of e es1]
      by (intro exI [where x = es1]) (simp add: commit_upload_def act_bind_def)
  next
    case (Inr t)
    obtain c s2 where commit: "send_commit ig start t s1 = (c, s2)" by fastforce
    have log2: "ex_log s2 = ex_log s @ es1 @ [Committed t c]"
      using emitsE [OF emits_calling commit [unfolded send_commit_def]] es1(1)
      by (metis append_assoc)
    show ?thesis
    proof (cases c)
      case (Inl e)
      obtain es3 where es3: "ex_log (cancel_upload ig deadline start s2) = ex_log s2 @ es3"
        "ended deadline es3" by (rule cancel_ended)
      have "r = Inl e" "s' = cancel_upload ig deadline start s2"
        using run timeout Inr commit Inl by (simp_all add: commit_upload_def act_bind_def)
      then show ?thesis
        using commit_failed [OF state sent _ es3(2), of t es1 e] es1(2) Inr Inl es3(1) log2
        by (intro exI [where x = "es1 @ [Committed t (Inl e)] @ es3"]) simp
    next
      case (Inr commit)
      obtain x s3 where check: "deadline_timeout ig deadline DURATION_MAX s2 = (x, s3)" by fastforce
      obtain es3 where es3: "ex_log s3 = ex_log s2 @ es3" "timed deadline DURATION_MAX x es3"
        by (rule emitsE [OF emits_timeout check])
      have "r = bind_res x (\<lambda>_. if commit_matches (sc_request sealed) commit then Inr commit
              else Inl ServiceUnavailable)" "s' = s3"
        using run timeout \<open>r1 = Inr t\<close> \<open>send_commit ig start t s1 = (c, s2)\<close> Inr check
        by (auto simp: commit_upload_def act_bind_def act_res_def deadline_check_def split: sum.splits)
      then show ?thesis
        using commit_answered [OF state sent _ es3(2), of t es1 r commit] es1(2) \<open>r1 = Inr t\<close> Inr
          es3(1) log2
        by (intro exI [where x = "es1 @ [Committed t (Inr commit)] @ es3"]) simp
    qed
  qed
qed

lemma missing_within_sent:
  "emits (upload_missing_within ig deadline sealed start) (all_pages ig deadline sealed start)"
  unfolding upload_missing_within_def maximum_pages_def [symmetric]
  by (rule emits_mono [OF upload_pages_sent]) simp

lemma emits_case:
  "(P \<Longrightarrow> emits m Q) \<Longrightarrow> (\<not> P \<Longrightarrow> emits m' Q) \<Longrightarrow> emits (if P then m else m') Q"
  by simp

lemma upload_started_trace:
  "emits (if us_state start = StateCommitted
          then act_bind (deadline_timeout ig deadline (commit_wait sealed)) (send_commit ig start)
          else if us_state start \<notin> {StateOpen, StateUploading}
          then act_res (Inl ServiceUnavailable)
          else (\<lambda>s. case upload_missing_within ig deadline sealed start s of
               (Inl e, s1) \<Rightarrow> (Inl e, cancel_upload ig deadline start s1)
             | (Inr _, s1) \<Rightarrow> commit_upload ig deadline sealed start (commit_wait sealed) s1))
     (started_trace ig deadline sealed start)"
proof (intro emits_case)
  assume "us_state start = StateCommitted"
  then show "emits (act_bind (deadline_timeout ig deadline (commit_wait sealed)) (send_commit ig start))
      (started_trace ig deadline sealed start)"
    unfolding send_commit_def
    by (intro emits_mono [OF emits_bind [OF emits_timeout emits_calling]])
      (auto intro: already already_late)
next
  assume "us_state start \<noteq> StateCommitted" "us_state start \<notin> {StateOpen, StateUploading}"
  then show "emits (act_res (Inl ServiceUnavailable)) (started_trace ig deadline sealed start)"
    by (intro emits_mono [OF emits_res]) (auto intro: not_open)
next
  assume "\<not> us_state start \<notin> {StateOpen, StateUploading}"
  then have state: "us_state start \<in> {StateOpen, StateUploading}" by blast
  show "emits (\<lambda>s. case upload_missing_within ig deadline sealed start s of
               (Inl e, s1) \<Rightarrow> (Inl e, cancel_upload ig deadline start s1)
             | (Inr _, s1) \<Rightarrow> commit_upload ig deadline sealed start (commit_wait sealed) s1)
      (started_trace ig deadline sealed start)"
  proof (rule emitsI, goal_cases)
    case (1 s r s')
    obtain r1 s1 where sent: "upload_missing_within ig deadline sealed start s = (r1, s1)" by fastforce
    obtain es where es: "ex_log s1 = ex_log s @ es" "all_pages ig deadline sealed start r1 es"
      by (rule emitsE [OF missing_within_sent sent])
    show ?case
    proof (cases r1)
      case (Inl e)
      obtain es' where es': "ex_log (cancel_upload ig deadline start s1) = ex_log s1 @ es'"
        "ended deadline es'" by (rule cancel_ended)
      have "r = Inl e" "s' = cancel_upload ig deadline start s1" using 1 sent Inl by simp_all
      then show ?thesis using objects_failed [OF state _ es'(2), where e = e and es = es] es Inl es'(1)
        by (intro exI [where x = "es @ es'"]) simp
    next
      case (Inr u)
      then have run: "commit_upload ig deadline sealed start (commit_wait sealed) s1 = (r, s')"
        using 1 sent by simp
      have ok: "all_pages ig deadline sealed start (Inr ()) es" using es(2) Inr by simp
      from commit_upload_trace [OF state ok run] obtain es' where
        "ex_log s' = ex_log s1 @ es'" "started_trace ig deadline sealed start r (es @ es')" by blast
      then show ?thesis using es(1) by (intro exI [where x = "es @ es'"]) simp
    qed
  qed
qed

lemma upload_within_trace:
  "emits (upload_within ig deadline sealed) (upload_trace ig deadline sealed)"
  unfolding upload_within_def Let_def commit_wait_def [symmetric]
proof (rule emits_mono [OF emits_bind [OF emits_timeout emits_bind [OF emits_calling upload_started_trace]]],
    elim disjE exE conjE)
  fix r :: "upload_commit res" and es e
  assume "r = Inl e" "timed deadline GRANT_TIMEOUT (Inl e) es"
  then show "upload_trace ig deadline sealed r es" by (simp add: expired)
next
  fix r :: "upload_commit res" and es t es1 es2 e
  assume "es = es1 @ es2" "timed deadline GRANT_TIMEOUT (Inr t) es1" "r = Inl e"
    "es2 = [Started t (Inl e)]"
  then show "upload_trace ig deadline sealed r es" by (simp add: refused)
next
  fix r :: "upload_commit res" and es t es1 es2 start es3 es4
  assume "es = es1 @ es2" "timed deadline GRANT_TIMEOUT (Inr t) es1" "es2 = es3 @ es4"
    "es3 = [Started t (Inr start)]" "started_trace ig deadline sealed start r es4"
  then show "upload_trace ig deadline sealed r es" using started [of deadline t es1] by simp
qed

lemma upload_within_log:
  assumes "upload_within ig deadline sealed \<lparr>ex_world = w, ex_log = []\<rparr> = (r, s)"
  shows "upload_trace ig deadline sealed r (ex_log s)"
  using emitsE [OF upload_within_trace assms] by auto

section \<open>Properties\<close>

lemma timed_events: "timed deadline maximum r es \<Longrightarrow> e \<in> set es \<Longrightarrow> \<exists>now. e = ClockRead now"
  by (auto simp: timed_def split: option.splits)

lemma pages_events:
  assumes "pages_sent ig deadline wait table left ms seen r es" "e \<in> set es"
  shows "e \<noteq> Started t a" "e \<noteq> Committed t c" "e \<noteq> Cancelled t x"
  using assms by (fastforce simp: pages_sent_def uploads_ok_def split: delivery_event.splits)+

lemma ended_events:
  "ended deadline es \<Longrightarrow> e \<in> set es \<Longrightarrow> (\<exists>now. e = ClockRead now) \<or> (\<exists>t a. e = Cancelled t a)"
  by (auto simp: ended_def dest: timed_events)

text \<open>The service answered the request to start with \<open>start\<close>.\<close>

lemma upload_started:
  assumes "upload_trace ig deadline sealed r log" "Started t0 (Inr start) \<in> set log"
  obtains es t es' where "log = es @ [Started t (Inr start)] @ es'"
    "timed deadline GRANT_TIMEOUT (Inr t) es" "started_trace ig deadline sealed start r es'"
  using assms(1)
proof cases
  case (started t es start' es')
  have "Started t0 (Inr start) \<notin> set es'"
    using started(3) by cases (auto dest: timed_events pages_events ended_events)
  then have "start' = start"
    using assms(2) started(1,2) by (auto dest: timed_events)
  then show ?thesis using that started by blast
qed (use assms(2) in \<open>auto dest: timed_events\<close>)

text \<open>The objects the service asked for.\<close>

definition asked :: "upload_start \<Rightarrow> delivery_event list \<Rightarrow> missing_entry list" where
  "asked start log = us_missing_objects start @ listed log"

definition upload_complete ::
  "'s ingress \<Rightarrow> sealed_candidate \<Rightarrow> upload_commit \<Rightarrow> delivery_event list \<Rightarrow> bool" where
  "upload_complete ig sealed commit log \<longleftrightarrow>
     (\<exists>start before t t' rest.
    log = before @ [Committed t (Inr commit)] @ rest
    \<and> Started t' (Inr start) \<in> set before
    \<and> (us_state start = StateCommitted \<and> listed before = [] \<and> (\<forall>d. uploads_of d before = 0) \<and> rest = []
       \<or> us_state start \<in> {StateOpen, StateUploading}
         \<and> commit_matches (sc_request sealed) commit
         \<and> distinct (map ms_cipher_digest (asked start before))
         \<and> (\<forall>m \<in> set (asked start before).
              bt_contains (sc_ciphertext sealed) (ms_cipher_digest m) \<and> delivered ig m before)))"

lemma trace_complete:
  assumes "upload_trace ig deadline sealed (Inr commit) log"
  shows "upload_complete ig sealed commit log"
  using assms
proof cases
  case (started t es start es')
  note es = quiet_none [OF conjunct1 [OF timed_quiet [OF started(2)]]]
  from started(3) show ?thesis
  proof cases
    case (already t1 es1)
    have "listed es1 = []" "uploads_of d es1 = 0" for d
      using quiet_none [OF conjunct1 [OF timed_quiet [OF already(3)]]] by simp_all
    then show ?thesis unfolding upload_complete_def using started(1) already es
      by (intro exI [where x = start] exI [where x = "es @ [Started t (Inr start)] @ es1"]
          exI [where x = t1] exI [where x = t] exI [where x = "[]"]) simp
  next
    case (commit_answered es1 t1 es2 x es3 commit')
    have r: "commit' = commit" "commit_matches (sc_request sealed) commit"
      using commit_answered(6) [symmetric] by (auto simp: bind_res_eq_Inr split: if_splits)
    let ?before = "es @ [Started t (Inr start)] @ es1 @ es2"
    have "listed es2 = []"
      using quiet_none [OF conjunct1 [OF timed_quiet [OF commit_answered(4)]]] by simp
    then have all: "asked start ?before = us_missing_objects start @ listed es1"
      using es by (simp add: asked_def)
    have log: "log = ?before @ [Committed t1 (Inr commit)] @ es3"
      using started(1) commit_answered(1) r by simp
    have "distinct (map ms_cipher_digest (asked start ?before))
      \<and> (\<forall>m \<in> set (asked start ?before).
           bt_contains (sc_ciphertext sealed) (ms_cipher_digest m) \<and> delivered ig m ?before)"
      unfolding all using commit_answered(3) by (auto simp: pages_sent_def)
    then show ?thesis unfolding upload_complete_def using log commit_answered(2) r(2)
      by (intro exI [where x = start] exI [where x = ?before] exI [where x = t1]
          exI [where x = t] exI [where x = es3]) simp
  qed
qed

text \<open>
  C16: An accepted upload is complete.  When \<open>upload\<close> or \<open>upload_before\<close> returns a commit, either the
  service had answered the request to start that the candidate is committed already, and the commit
  is its answer to the only request that followed; or the upload was open, every object the service
  asked for, on the first page or a later one, was taken by the service before the commit was
  requested, with bytes of the digest asked for, no two of them had the same digest, all belong to
  the candidate, and the commit carries the capture, the identity, the key reference and the
  ciphertext digest of the request and is durable.  This holds for any service, files, clock and
  order of the threads.
\<close>

theorem committed_upload_complete:
  assumes "upload_within ig deadline sealed \<lparr>ex_world = w, ex_log = []\<rparr> = (Inr commit, s)"
  shows "upload_complete ig sealed commit (ex_log s)"
  by (rule trace_complete [OF upload_within_log [OF assms]])

text \<open>The objects sent belong to the candidate and were asked for.\<close>

definition sent_ok ::
  "'s ingress \<Rightarrow> (digest, digest) btree \<Rightarrow> missing_entry list \<Rightarrow> delivery_event \<Rightarrow> bool" where
  "sent_ok ig table all e \<longleftrightarrow>
     (case e of
        Uploaded u d b t r \<Rightarrow> bt_contains table d \<and> in_digest ig b = d
          \<and> (\<exists>m \<in> set all. u = ms_upload_url m \<and> d = ms_cipher_digest m)
      | _ \<Rightarrow> True)"

definition inert :: "delivery_event list \<Rightarrow> bool" where
  "inert es \<longleftrightarrow> (\<forall>e \<in> set es. case e of Uploaded _ _ _ _ _ \<Rightarrow> False | Listed _ _ _ \<Rightarrow> False | _ \<Rightarrow> True)"

lemma inert_simps [simp]:
  "inert []" "inert (es @ es') \<longleftrightarrow> inert es \<and> inert es'"
  "inert (Committed t c # es) \<longleftrightarrow> inert es" "inert (Started t a # es) \<longleftrightarrow> inert es"
  by (auto simp: inert_def)

lemma inert_none:
  assumes "inert es"
  shows "uploads_of d es = 0" "listed es = []" "filter is_listing es = []"
    and "list_all (sent_ok ig table all) es"
  using assms
  by (induction es) (auto simp: inert_def sent_ok_def elim: is_upload_of.elims(2)
      split: delivery_event.splits)

lemma timed_inert: "timed deadline maximum r es \<Longrightarrow> inert es"
  by (auto simp: inert_def dest: timed_events)

lemma ended_inert: "ended deadline es \<Longrightarrow> inert es"
  by (fastforce simp: inert_def dest: ended_events)

text \<open>What the objects of a started upload and of everything around them amount to.\<close>

definition within_bounds ::
  "'s ingress \<Rightarrow> sealed_candidate \<Rightarrow> upload_start \<Rightarrow> delivery_event list \<Rightarrow> bool" where
  "within_bounds ig sealed start es \<longleftrightarrow>
     list_all (sent_ok ig (sc_ciphertext sealed) (asked start es)) es
     \<and> (\<forall>d. uploads_of d es \<le> 5) \<and> length (filter is_listing es) \<le> maximum_pages sealed"

lemma within_bounds_inert:
  "within_bounds ig sealed start es \<Longrightarrow> inert es0 \<Longrightarrow> inert es1
     \<Longrightarrow> within_bounds ig sealed start (es0 @ es @ es1)"
  by (simp add: within_bounds_def asked_def inert_none)

lemma within_bounds_none: "inert es \<Longrightarrow> within_bounds ig sealed start es"
  by (simp add: within_bounds_def inert_none)

lemma within_bounds_pages:
  assumes "all_pages ig deadline sealed start r es"
  shows "within_bounds ig sealed start es"
proof -
  have "sent_ok ig (sc_ciphertext sealed) (asked start es) e" if "e \<in> set es" for e
    using assms that
    by (cases e) (auto simp: pages_sent_def uploads_ok_def sent_ok_def asked_def)
  then show ?thesis using assms by (auto simp: within_bounds_def pages_sent_def list_all_iff)
qed

lemma started_bounds:
  assumes "started_trace ig deadline sealed start r es"
  shows "within_bounds ig sealed start es"
  using assms
proof cases
  case (objects_failed e es1 es2)
  then show ?thesis
    using within_bounds_inert [OF within_bounds_pages, of _ _ _ _ _ es1 "[]" es2] ended_inert by auto
next
  case (commit_late es1 e es2)
  then show ?thesis
    using within_bounds_inert [OF within_bounds_pages, of _ _ _ _ _ es1 "[]" es2] timed_inert by auto
next
  case (commit_failed es1 t es2 es3 e)
  then show ?thesis
    using within_bounds_inert [OF within_bounds_pages, of _ _ _ _ _ es1 "[]" "es2 @ [Committed t (Inl e)] @ es3"]
      timed_inert ended_inert by auto
next
  case (commit_answered es1 t es2 x es3 commit)
  then show ?thesis
    using within_bounds_inert [OF within_bounds_pages, of _ _ _ _ _ es1 "[]" "es2 @ [Committed t (Inr commit)] @ es3"]
      timed_inert by auto
qed (auto intro!: within_bounds_none dest: timed_inert)

text \<open>
  C18: Only the candidate's own ciphertexts leave the process, and not too often.  Whatever the service
  answers and however the threads interleave, every object sent in an upload has a digest of the
  candidate's table and bytes of that digest, and goes to the place the service named for it; no
  object is sent more than five times, and the service is asked for at most as many further pages as
  the candidate has hundreds of ciphertexts, rounded up, plus one.
\<close>

theorem uploads_are_bounded:
  assumes "upload_within ig deadline sealed \<lparr>ex_world = w, ex_log = []\<rparr> = (r, s)"
  shows "(\<forall>u d b t a. Uploaded u d b t a \<in> set (ex_log s) \<longrightarrow>
        bt_contains (sc_ciphertext sealed) d \<and> in_digest ig b = d
        \<and> (\<exists>t' start. Started t' (Inr start) \<in> set (ex_log s)
            \<and> (\<exists>m \<in> set (asked start (ex_log s)). u = ms_upload_url m \<and> d = ms_cipher_digest m)))
    \<and> (\<forall>d. uploads_of d (ex_log s) \<le> 5)
    \<and> length (filter is_listing (ex_log s))
        \<le> saturating_add (div_ceil (length (sc_ciphertext sealed)) 100) 1"
  using upload_within_log [OF assms]
proof cases
  case (started t es start es')
  have "within_bounds ig sealed start ((es @ [Started t (Inr start)]) @ es' @ [])"
    by (intro within_bounds_inert started_bounds [OF started(3)])
      (use timed_inert [OF started(2)] in simp_all)
  then have ok: "within_bounds ig sealed start (ex_log s)" by (simp add: started(1))
  have here: "Started t (Inr start) \<in> set (ex_log s)" by (simp add: started(1))
  show ?thesis
    using ok here unfolding within_bounds_def list_all_iff maximum_pages_def
    by (fastforce simp: sent_ok_def)
qed (auto dest!: timed_inert simp: inert_none, auto simp: inert_def)

section \<open>Time\<close>

lemma commit_timeout_bounds:
  "COMMIT_TIMEOUT_FLOOR \<le> commit_timeout n" "commit_timeout n \<le> COMMIT_TIMEOUT_CAP"
  by (simp_all add: commit_timeout_def Let_def limits)

lemma ended_paced: "ended deadline es \<Longrightarrow> paced deadline wait es"
  unfolding ended_def
  by (elim disjE exE conjE)
    (auto intro: timed_request paced_check [OF paced_nil, simplified])

lemma committed_paced: "timed deadline wait (Inr t) es \<Longrightarrow> paced deadline wait (es @ [Committed t c])"
  by (rule timed_request [where t = t]) simp_all

lemma started_paced:
  assumes "started_trace ig deadline sealed start r es"
  shows "paced deadline (commit_wait sealed) es"
  using assms
proof cases
  case (objects_failed e es1 es2)
  then show ?thesis using paced_append [OF ended_paced [OF objects_failed(5)]]
    by (simp add: pages_sent_def)
next
  case (commit_late es1 e es2)
  then show ?thesis using paced_append [OF timed_paced [OF commit_late(5)]]
    by (simp add: pages_sent_def)
next
  case (commit_failed es1 t es2 es3 e)
  then show ?thesis
    using paced_append [OF paced_append [OF ended_paced [OF commit_failed(6)]
        committed_paced [OF commit_failed(5)]], of es1]
    by (simp add: pages_sent_def)
next
  case (commit_answered es1 t es2 x es3 commit)
  then show ?thesis
    using paced_append [OF paced_append [OF timed_paced [OF commit_answered(5)]
        committed_paced [OF commit_answered(4)]], of es1]
    by (simp add: pages_sent_def)
qed (auto simp: paced_nil intro: timed_paced committed_paced)

lemma upload_paced:
  assumes "upload_trace ig deadline sealed r es"
  shows "paced deadline (commit_wait sealed) es"
  using assms
proof cases
  case (started t es1 start es2)
  have "paced deadline (commit_wait sealed) (es1 @ [Started t (Inr start)])"
    by (rule timed_request [where t = t]) (use started(2) in simp_all)
  from paced_append [OF started_paced [OF started(3)] this] show ?thesis by (simp add: started(1))
next
  case (refused t es1 e)
  then show ?thesis by (auto intro: timed_request)
qed (auto intro: timed_paced)

lemma paced_nth:
  "paced (Some deadline) wait es \<Longrightarrow> i < length es \<Longrightarrow> timeout_of (es ! i) = Some t
     \<Longrightarrow> 0 < i \<and> (\<exists>now. es ! (i - 1) = ClockRead now \<and> now < deadline
           \<and> t = min (longest wait (es ! i)) (deadline - now))"
proof (induction arbitrary: i rule: paced.induct)
  case (paced_check es d now)
  then have "i < length es" by (cases "i = length es") simp_all
  with paced_check show ?case by (auto simp: nth_append)
next
  case (paced_request es d now e)
  then have "i \<noteq> length es" by (auto simp: nth_append)
  moreover have "i \<le> Suc (length es)" using paced_request.prems(1) by simp
  ultimately consider "i < length es" | "i = Suc (length es)" by linarith
  then show ?case
  proof cases
    case 1
    then show ?thesis using paced_request by (auto simp: nth_append)
  next
    case 2
    then show ?thesis using paced_request by (auto simp: nth_append)
  qed
qed simp_all

text \<open>
  No request outlives the deadline.  In an upload with a deadline every request directly follows a
  reading of the clock before the deadline, and its timeout is what was then left, at most the longest
  wait of its kind: five seconds, and for a commit five seconds and one for every four mebibytes of
  ciphertext, at most three minutes.
\<close>

theorem requests_end_in_time:
  assumes "upload_before ig deadline sealed \<lparr>ex_world = w, ex_log = []\<rparr> = (r, s)"
    and "i < length (ex_log s)" "timeout_of (ex_log s ! i) = Some t"
  shows "0 < i \<and> (\<exists>now. ex_log s ! (i - 1) = ClockRead now \<and> now < deadline
      \<and> t = min (longest (commit_timeout (ci_total_ciphertext_bytes
                  (ur_ciphertext_identity (sc_request sealed)))) (ex_log s ! i)) (deadline - now)
      \<and> now + t \<le> deadline)
    \<and> 0 < t \<and> t \<le> 180 * NANOS"
proof -
  let ?wait = "commit_wait sealed"
  have paced: "paced (Some deadline) ?wait (ex_log s)"
    using upload_paced [OF upload_within_log [OF assms(1) [unfolded upload_before_def]]] .
  obtain now where now: "0 < i" "ex_log s ! (i - 1) = ClockRead now" "now < deadline"
    "t = min (longest ?wait (ex_log s ! i)) (deadline - now)"
    using paced_nth [OF paced assms(2,3)] by blast
  have "0 < longest ?wait (ex_log s ! i)" "longest ?wait (ex_log s ! i) \<le> 180 * NANOS"
    using commit_timeout_bounds [of "ci_total_ciphertext_bytes (ur_ciphertext_identity (sc_request sealed))"]
    by (cases "ex_log s ! i"; simp add: commit_wait_def limits)+
  moreover have "0 < t" "t \<le> longest ?wait (ex_log s ! i)" "now + t \<le> deadline"
    using now(3,4) calculation by auto
  ultimately show ?thesis using now(1-3) now(4) [unfolded commit_wait_def] by auto
qed

text \<open>
  C17: A failed upload is given up.  When an upload that was opened fails, its last act is to cancel it
  at the service, unless the deadline has passed, or the service did commit it and the commit does not
  match the request.  And no commit is ever requested unless every object the service asked for has
  been taken.
\<close>

theorem failed_upload_is_cancelled:
  assumes run: "upload_within ig deadline sealed \<lparr>ex_world = w, ex_log = []\<rparr> = (Inl e, s)"
    and start: "Started t0 (Inr start) \<in> set (ex_log s)" "us_state start \<in> {StateOpen, StateUploading}"
  shows "((\<exists>t a. last (ex_log s) = Cancelled t a)
      \<or> (\<exists>d now. deadline = Some d \<and> d \<le> now \<and> last (ex_log s) = ClockRead now)
      \<or> (\<exists>t commit. Committed t (Inr commit) \<in> set (ex_log s)
           \<and> \<not> commit_matches (sc_request sealed) commit))
    \<and> ((\<exists>t a. Committed t a \<in> set (ex_log s)) \<longrightarrow>
         (\<forall>m \<in> set (asked start (ex_log s)). delivered ig m (ex_log s)))"
proof -
  obtain es t es' where log: "ex_log s = es @ [Started t (Inr start)] @ es'"
    "timed deadline GRANT_TIMEOUT (Inr t) es" "started_trace ig deadline sealed start (Inl e) es'"
    by (rule upload_started [OF upload_within_log [OF run] start(1)])
  have es: "listed es = []" using timed_inert [OF log(2)] by (rule inert_none)
  have asked: "asked start (ex_log s) = asked start es'" by (simp add: asked_def log(1) es)
  have no_commit: "Committed t' a \<notin> set es" for t' a
    using timed_events [OF log(2)] by blast
  have kept: "(\<exists>t a. Committed t a \<in> set (ex_log s)) \<longrightarrow>
      (\<forall>m \<in> set (asked start (ex_log s)). delivered ig m (ex_log s))"
    if sent: "all_pages ig deadline sealed start (Inr ()) es1" and rest: "es' = es1 @ es2" "inert es2"
    for es1 es2
  proof -
    have "asked start (ex_log s) = us_missing_objects start @ listed es1"
      by (simp add: asked_def log(1) es rest(1) inert_none(2) [OF rest(2)])
    then show ?thesis using sent by (auto simp: pages_sent_def log(1) rest(1))
  qed
  have ends: "(\<exists>t a. last (before @ tail) = Cancelled t a)
      \<or> (\<exists>d now. deadline = Some d \<and> d \<le> now \<and> last (before @ tail) = ClockRead now)"
    if "ended deadline tail" for before tail
    using that by (auto simp: ended_def)
  have late: "ended deadline tail" if "timed deadline maximum (Inl e') tail" for maximum e' tail
    using that by (auto simp: timed_def ended_def split: option.splits if_splits)
  from log(3) show ?thesis
  proof cases
    case (objects_failed es1 es2)
    have "Committed t' a \<notin> set es'" for t' a
      using objects_failed(1) pages_events(2) [OF objects_failed(3)] ended_events [OF objects_failed(4)]
      by fastforce
    then have "Committed t' a \<notin> set (ex_log s)" for t' a using no_commit by (simp add: log(1))
    moreover have "ex_log s = (es @ [Started t (Inr start)] @ es1) @ es2"
      by (simp add: log(1) objects_failed(1))
    ultimately show ?thesis
      using ends [OF objects_failed(4), of "es @ [Started t (Inr start)] @ es1"] by metis
  next
    case (commit_late es1 es2)
    have "ex_log s = (es @ [Started t (Inr start)] @ es1) @ es2"
      by (simp add: log(1) commit_late(1))
    then show ?thesis
      using ends [OF late [OF commit_late(4)], of "es @ [Started t (Inr start)] @ es1"]
        kept [OF commit_late(3,1) timed_inert [OF commit_late(4)]] by metis
  next
    case (commit_failed es1 t1 es2 es3)
    have "inert (es2 @ [Committed t1 (Inl e)] @ es3)"
      using timed_inert [OF commit_failed(4)] ended_inert [OF commit_failed(5)] by simp
    note kept = kept [OF commit_failed(3,1) this]
    have "ex_log s = (es @ [Started t (Inr start)] @ es1 @ es2 @ [Committed t1 (Inl e)]) @ es3"
      by (simp add: log(1) commit_failed(1))
    then show ?thesis
      using ends [OF commit_failed(5), of "es @ [Started t (Inr start)] @ es1 @ es2 @ [Committed t1 (Inl e)]"]
        kept by metis
  next
    case (commit_answered es1 t1 es2 x es3 commit)
    have "inert (es2 @ [Committed t1 (Inr commit)] @ es3)"
      using timed_inert [OF commit_answered(4)] timed_inert [OF commit_answered(5)] by simp
    note kept = kept [OF commit_answered(3,1) this]
    show ?thesis
    proof (cases x)
      case (Inl e')
      have "ex_log s = (es @ [Started t (Inr start)] @ es1 @ es2 @ [Committed t1 (Inr commit)]) @ es3"
        by (simp add: log(1) commit_answered(1))
      then show ?thesis
        using ends [OF late [OF commit_answered(5) [unfolded Inl]],
            of "es @ [Started t (Inr start)] @ es1 @ es2 @ [Committed t1 (Inr commit)]"] kept by metis
    next
      case (Inr n)
      then have "\<not> commit_matches (sc_request sealed) commit"
        using commit_answered(6) by (auto split: if_splits)
      moreover have "Committed t1 (Inr commit) \<in> set (ex_log s)"
        by (simp add: log(1) commit_answered(1))
      ultimately show ?thesis using kept by blast
    qed
  qed (use start(2) in auto)
qed

end
