(* ===== verification/Managed_Witnesses.thy ===== *)
theory Managed_Witnesses
  imports Seal_Theorems Upload_Theorems Operation_Witnesses
begin

text \<open>
  The delivery of a small candidate: five objects sealed under a cipher that puts the nonce in front
  of the text.  The witnesses of the properties of sealing and uploading apply them to it.
\<close>

section \<open>Sealing\<close>

definition text_of :: "bytes \<Rightarrow> string" where
  "text_of bs = map (\<lambda>w. char_of (unat w)) bs"

definition bytes_of :: "string \<Rightarrow> bytes" where
  "bytes_of t = map (\<lambda>c. word_of_nat (of_char c)) t"

lemma bytes_of_text: "bytes_of (text_of bs) = bs"
proof -
  have "(word_of_nat (of_char (char_of (unat w) :: char)) :: byte) = w" for w :: byte
    using unsigned_less [of w, where 'a = nat] by simp
  then show ?thesis by (simp add: bytes_of_def text_of_def comp_def)
qed

definition demo_register :: "bytes \<Rightarrow> bytes list \<Rightarrow> unit res \<times> bytes list" where
  "demo_register n reg = (if n \<in> set reg then (Inl SchemaInvalid, reg) else (Inr (), n # reg))"

definition demo_seal_env :: "(bytes, bytes list) seal_env" where
  "demo_seal_env =
     \<lparr>se_world = demo_env\<lparr>we_core := demo_core\<lparr>encode_base64url := text_of\<rparr>\<rparr>,
      se_objects = demo_closure_core,
      derive_object_key = (\<lambda>k _ _. Inr k), derive_chunk_key = (\<lambda>k _. Inr k),
      encrypt_chunk = (\<lambda>k n p _. Inr (n @ p)), no_nonces = [], register_nonce = demo_register,
      sign_bytes = (\<lambda>_ _. ''s''), digest_context = (\<lambda>_. Inr (Digest 40)),
      digest_identity = (\<lambda>_. Inr (Digest 41)), digest_ciphertext = (\<lambda>_. Inr (Digest 42)),
      canonical_manifest = (\<lambda>_. Inr [9, 9, 9, 9, 9, 9]), canonical_grant_request = (\<lambda>_. Inr [1]),
      validate_response = (\<lambda>_. Inr ()), validate_identity = (\<lambda>_. Inr ()),
      validate_manifest = (\<lambda>_. Inr ()), validate_ciphertext = (\<lambda>_. Inr ()),
      validate_upload_request = (\<lambda>_. Inr ()), validate_grant_request = (\<lambda>_. Inr ()),
      verify_capture_grant = (\<lambda>_ _ _ _. Inr ())\<rparr>"

definition demo_receiver :: receiver where
  "demo_receiver = \<lparr>rx_decrypt = (\<lambda>_ n ct _. Inr (drop (length n) ct)), rx_nonce = (\<lambda>t. Inr (bytes_of t))\<rparr>"

lemma demo_receives: "receives demo_receiver demo_seal_env"
  by (auto simp: receives_def demo_receiver_def demo_seal_env_def bytes_of_text)

lemma demo_refuses: "refuses_repeats demo_seal_env set"
  by (auto simp: refuses_repeats_def demo_seal_env_def demo_register_def split: if_splits)

definition demo_object :: "nat \<Rightarrow> bytes \<Rightarrow> spool_file prepared_object" where
  "demo_object object_id data =
     \<lparr>po_descriptor = \<lparr>lo_media_type = ''m'', lo_object_id = object_id,
        lo_plain_digest = Digest (length data), lo_plain_size = length data, lo_role = CandidateRole\<rparr>,
      po_source = SourceBytes data\<rparr>"

definition demo_prepared :: "spool_file prepared_candidate" where
  "demo_prepared =
     (let objects = [demo_object 1 [1], demo_object 2 [1, 2], demo_object 3 [1, 2, 3],
            demo_object 4 [], demo_object 5 [5, 5, 5, 5]]
      in \<lparr>pc_identity = \<lparr>mi_candidate_digest = Digest 1, mi_capture_id = CaptureId 1,
            mi_deployment_digest = Digest 2, mi_objects = map po_descriptor objects,
            mi_organization_id = 1, mi_project_id = 2, mi_required_capabilities = [],
            mi_service_id = 3, mi_subject_digest = Digest 3, mi_total_plaintext_bytes = 10\<rparr>,
          pc_objects = objects, pc_capture_reservation = 0\<rparr>)"

definition demo_response :: encryption_response where
  "demo_response = \<lparr>rs_candidate_key = [77], rs_capture_grant =
     \<lparr>cg_candidate_key_reference = ''key'', cg_capture_id = CaptureId 1, cg_rest = []\<rparr>\<rparr>"

definition demo_seal_io :: "spool_file seal_io" where
  "demo_seal_io = \<lparr>si_files = demo_files, si_stream = (\<lambda>_. None), si_directory = True,
     si_nonce = (\<lambda>k. Some [word_of_nat k]), si_write = (\<lambda>_. True), si_object_id = Inr 6\<rparr>"

definition demo_sealing :: "sealed_candidate res \<times> process_resources" where
  "demo_sealing = seal demo_seal_env demo_seal_io demo_response 0 ''signer'' [] demo_prepared new_resources"

lemma demo_seals: "is_ok (fst demo_sealing)"
  unfolding demo_sealing_def by code_simp

definition demo_sealed :: sealed_candidate where
  "demo_sealed = projr (fst demo_sealing)"

lemma demo_sealing_run:
  "seal demo_seal_env demo_seal_io demo_response 0 ''signer'' [] demo_prepared new_resources
     = (Inr demo_sealed, snd demo_sealing)"
proof -
  obtain sealed where "fst demo_sealing = Inr sealed"
    using demo_seals by (cases "fst demo_sealing") auto
  then show ?thesis by (simp add: demo_sealed_def demo_sealing_def [symmetric] prod_eq_iff)
qed

lemma demo_declares:
  "map ec_cipher_size (declared_chunks (ur_ciphertext_identity (sc_request demo_sealed)))
     = [2, 3, 4, 1, 5, 7]"
  unfolding demo_sealed_def demo_sealing_def by code_simp

theorem sealed_candidate_opens_witness:
  "length (ci_objects (ur_ciphertext_identity (sc_request demo_sealed))) = 5"
  using sealed_candidate_opens [OF demo_receives demo_sealing_run]
  by (auto dest: list_all2_lengthD simp: demo_prepared_def Let_def)

theorem sealed_store_exact_witness:
  "ci_total_ciphertext_bytes (ur_ciphertext_identity (sc_request demo_sealed)) = 22"
  using sealed_store_exact [OF demo_receives demo_sealing_run] demo_declares by simp

theorem nonces_never_repeat_witness:
  "distinct (map ec_nonce (declared_chunks (ur_ciphertext_identity (sc_request demo_sealed))))"
  by (rule nonces_never_repeat [OF demo_receives demo_refuses demo_sealing_run])

section \<open>Uploading\<close>

text \<open>
  A service that asks for the six ciphertexts on two pages, and refuses the first object sent to it
  with an error that allows another attempt, or with one that does not.  Its state counts the objects.
\<close>

definition demo_entry :: "nat \<Rightarrow> missing_entry" where
  "demo_entry n = \<lparr>ms_cipher_digest = Digest n, ms_upload_url = ''u''\<rparr>"

definition demo_start :: upload_start where
  "demo_start = \<lparr>us_state = StateOpen, us_upload_id = 1, us_upload_token = ''t'',
     us_missing_objects = map demo_entry [2, 3, 4, 1, 5], us_next_missing_cursor = Some ''c'',
     us_object_attempts = 2\<rparr>"

definition demo_commit :: upload_commit where
  "demo_commit = \<lparr>uc_capture_id = CaptureId 1, uc_candidate_identity_digest = Digest 41,
     uc_candidate_key_reference = ''key'', uc_encrypted_candidate_digest = Digest 42,
     uc_state = CloudProtected\<rparr>"

definition demo_ingress :: "bool \<Rightarrow> nat ingress" where
  "demo_ingress retryable = \<lparr>in_start = (\<lambda>_ _ n. (Inr demo_start, n)),
     in_missing = (\<lambda>_ _ _ _ n. (Inr \<lparr>mp_missing_objects = [demo_entry 7],
       mp_next_missing_cursor = None\<rparr>, n)),
     in_upload_object = (\<lambda>_ _ _ _ n. (if n = 0 then Inl (ServiceUnavailable, retryable) else Inr (), Suc n)),
     in_commit = (\<lambda>_ _ _ n. (Inr demo_commit, n)), in_cancel = (\<lambda>_ _ _ n. (Inr (), n)),
     in_now = (\<lambda>n. (7, n)), in_read = (\<lambda>d n. (sc_spool demo_sealed d, n)),
     in_schedule = (\<lambda>n. (n, n)), in_digest = (\<lambda>b. Digest (length b))\<rparr>"

definition demo_upload :: "bool \<Rightarrow> upload_commit res \<times> nat exchange" where
  "demo_upload retryable =
     upload_before (demo_ingress retryable) 10 demo_sealed \<lparr>ex_world = 0, ex_log = []\<rparr>"

lemma demo_uploads:
  "fst (demo_upload True) = Inr demo_commit" "1 < length (ex_log (snd (demo_upload True)))"
  "ex_log (snd (demo_upload True)) ! 1 = Started 3 (Inr demo_start)"
  unfolding demo_upload_def demo_sealed_def demo_sealing_def by code_simp+

lemma demo_upload_fails:
  "fst (demo_upload False) = Inl ServiceUnavailable"
  "ex_log (snd (demo_upload False)) ! 1 = Started 3 (Inr demo_start)"
  "1 < length (ex_log (snd (demo_upload False)))"
  "\<not> (case last (ex_log (snd (demo_upload False))) of ClockRead _ \<Rightarrow> True | _ \<Rightarrow> False)"
  "\<not> list_ex (\<lambda>e. case e of Committed _ _ \<Rightarrow> True | _ \<Rightarrow> False) (ex_log (snd (demo_upload False)))"
  unfolding demo_upload_def demo_sealed_def demo_sealing_def by code_simp+

lemma demo_upload_run:
  "upload_within (demo_ingress retryable) (Some 10) demo_sealed \<lparr>ex_world = 0, ex_log = []\<rparr>
     = (fst (demo_upload retryable), snd (demo_upload retryable))"
  by (simp add: demo_upload_def upload_before_def)

theorem committed_upload_complete_witness:
  "\<exists>before t rest. ex_log (snd (demo_upload True)) = before @ [Committed t (Inr demo_commit)] @ rest"
  using committed_upload_complete [OF demo_upload_run [of True, unfolded demo_uploads(1)]]
  unfolding upload_complete_def by blast

theorem uploads_are_bounded_witness:
  "uploads_of (Digest 2) (ex_log (snd (demo_upload True))) \<le> 5"
  using uploads_are_bounded [OF demo_upload_run [of True]] by blast

theorem requests_end_in_time_witness:
  "\<exists>now. ex_log (snd (demo_upload True)) ! 0 = ClockRead now \<and> now + 3 \<le> 10"
  using requests_end_in_time [of "demo_ingress True" 10 demo_sealed 0 "fst (demo_upload True)"
      "snd (demo_upload True)" 1 3] demo_uploads(2,3)
  by (auto simp: demo_upload_def)

theorem failed_upload_is_cancelled_witness:
  "fst (demo_upload False) = Inl ServiceUnavailable
     \<and> (\<exists>t a. last (ex_log (snd (demo_upload False))) = Cancelled t a)"
proof -
  have started: "Started 3 (Inr demo_start) \<in> set (ex_log (snd (demo_upload False)))"
    using demo_upload_fails(2,3) nth_mem by metis
  have state: "us_state demo_start \<in> {StateOpen, StateUploading}" by (simp add: demo_start_def)
  have early: "last (ex_log (snd (demo_upload False))) \<noteq> ClockRead now"
    "\<not> list_ex (\<lambda>e. case e of Committed _ _ \<Rightarrow> True | _ \<Rightarrow> False) (ex_log (snd (demo_upload False)))" for now
    using demo_upload_fails(4,5) by auto
  have "(\<exists>t a. last (ex_log (snd (demo_upload False))) = Cancelled t a)"
    using failed_upload_is_cancelled [OF demo_upload_run [of False, unfolded demo_upload_fails(1)] started state]
      early by (fastforce simp: list_ex_iff)
  then show ?thesis using demo_upload_fails(1) by simp
qed

end
