(* ===== verification/Managed_Prepare.thy ===== *)
theory Managed_Prepare
  imports Managed_Seal
begin

text \<open>
  The preparation of a candidate (\<^verbatim>\<open>crates/reproit-sdk-rust/src/managed.rs\<close>, \<open>prepare_shared\<close> and
  what it calls): the candidate, its subject package, its trigger and inputs, its failure and its
  World become a list of objects, each with a descriptor, checked against each other and sorted by
  identifier.  The artifacts of a World are either copied first or referenced where the frozen
  closure keeps them.  What the core crate reads and writes as JSON are fields of \<open>prepare_env\<close>.
\<close>

section \<open>Data\<close>

definition MAX_CANDIDATE_CLOSURE_BYTES :: nat where
  [limits]: "MAX_CANDIDATE_CLOSURE_BYTES = 4294967296"

definition CANDIDATE_MEDIA_TYPE :: string where
  "CANDIDATE_MEDIA_TYPE = ''application/vnd.reproit.candidate.v1+json''"
definition FAILURE_MEDIA_TYPE :: string where
  "FAILURE_MEDIA_TYPE = ''application/vnd.reproit.failure.v1+json''"
definition SUBJECT_MANIFEST_MEDIA_TYPE :: string where
  "SUBJECT_MANIFEST_MEDIA_TYPE = ''application/vnd.reproit.subject-closure.v1+json''"
definition TRIGGER_MEDIA_TYPE :: string where
  "TRIGGER_MEDIA_TYPE = ''application/vnd.reproit.trigger.v1+json''"
definition WORLD_MANIFEST_MEDIA_TYPE :: string where
  "WORLD_MANIFEST_MEDIA_TYPE = ''application/vnd.reproit.world-manifest.v1+json''"

text \<open>Where the bytes of an object are: a file of the subject package, of the frozen closure, or of
  the private directory this preparation copies to.\<close>

datatype prepared_path = SubjectFile string | FrozenFile digest | CopiedFile digest

type_synonym object = "prepared_path prepared_object"

text \<open>The subject package and the part of its manifest the code reads.\<close>

record declared_object =
  do_digest :: digest
  do_media_type :: string
  do_size :: nat

record package_manifest =
  pm_architecture :: string
  pm_operating_system :: string
  pm_arguments :: "string list"
  pm_environment_names :: "string list"
  pm_executable :: string
  pm_working_directory :: string
  pm_objects :: "declared_object list"
  pm_rest :: bytes

record packaged_object =
  pk_digest :: digest
  pk_path :: string
  pk_size :: nat

record subject_package =
  sp_manifest :: package_manifest
  sp_objects :: "packaged_object list"

text \<open>What is read of the Begin and Input records, and the trigger made of them.\<close>

record begin_source =
  bs_adapter_id :: string
  bs_adapter_version :: string
  bs_causal_parent_ids :: "operation_id list"
  bs_operation_kind :: operation_kind
  bs_operation_name :: string

record input_source =
  is_channel :: string
  is_content_type :: string
  is_value :: string
  is_value_digest :: digest

record trigger_input =
  ti_channel :: string
  ti_object_id :: nat
  ti_plain_digest :: digest
  ti_sequence :: nat

record trigger =
  tg_adapter_id :: string
  tg_adapter_version :: string
  tg_causal_parent_ids :: "operation_id list"
  tg_completion :: trigger_completion
  tg_inputs :: "trigger_input list"
  tg_operation_id :: operation_id
  tg_operation_kind :: operation_kind
  tg_operation_name :: string

record ('r, 'n) prepare_env =
  pe_seal :: "('r, 'n) seal_env"
  failure_object_id :: "failure_reference \<Rightarrow> nat"
  digest_candidate :: "candidate \<Rightarrow> digest res"
  digest_package :: "package_manifest \<Rightarrow> digest res"
  digest_deployment :: "deployment \<Rightarrow> digest res"
  canonical_package :: "package_manifest \<Rightarrow> bytes res"
  canonical_world :: "world_checkpoint \<Rightarrow> bytes res"
  canonical_trigger :: "trigger \<Rightarrow> bytes res"
  canonical_failure :: "failure_payload \<Rightarrow> bytes res"
  validate_package :: "package_manifest \<Rightarrow> unit res"
  validate_trigger :: "trigger \<Rightarrow> unit res"
  decode_payload :: "string \<Rightarrow> bytes res"
  parse_begin :: "bytes \<Rightarrow> begin_source res"
  parse_input :: "bytes \<Rightarrow> input_source res"
  parse_failure :: "bytes \<Rightarrow> failure_payload res"
  parse_cursor :: "bytes \<Rightarrow> dependency_cursor res"

abbreviation pe_world :: "('r, 'n) prepare_env \<Rightarrow> 'r world_env" where
  "pe_world pe \<equiv> se_world (pe_seal pe)"

abbreviation pe_objects :: "('r, 'n) prepare_env \<Rightarrow> closure_core" where
  "pe_objects pe \<equiv> se_objects (pe_seal pe)"

text \<open>
  The system during one preparation: the identifiers in the order they are asked for, the private
  directory, the artifacts as they are captured, \<open>fs::read\<close> of an object, and the files during the
  last check.
\<close>

record prepare_io =
  pi_object_id :: "nat \<Rightarrow> nat res"
  pi_directory :: bool
  pi_copy :: freeze_io
  pi_frozen :: "digest files"
  pi_read :: "prepared_path \<Rightarrow> bytes option"
  pi_files :: "prepared_path files"

record prepare_state =
  pr_objects :: "object list"
  pr_drawn :: nat
  pr_store :: frozen_spool

section \<open>Objects\<close>

definition new_object_id :: "prepare_io \<Rightarrow> (prepare_state, nat) act" where
  "new_object_id io s = (pi_object_id io (pr_drawn s), s\<lparr>pr_drawn := Suc (pr_drawn s)\<rparr>)"

text \<open>\<open>push_bytes\<close> and \<open>push_file\<close> end alike.\<close>

definition push_object ::
  "('r, 'n) prepare_env \<Rightarrow> object \<Rightarrow> (prepare_state, unit) act" where
  "push_object pe ob =
     act_bind (act_res (validate_object (pe_objects pe) (po_descriptor ob))) (\<lambda>_ s.
       (Inr (), s\<lparr>pr_objects := pr_objects s @ [ob]\<rparr>))"

definition push_bytes ::
  "('r, 'n) prepare_env \<Rightarrow> nat \<Rightarrow> object_role \<Rightarrow> string \<Rightarrow> bytes \<Rightarrow> (prepare_state, unit) act" where
  "push_bytes pe object_id role media_type data =
     push_object pe
       \<lparr>po_descriptor = \<lparr>lo_media_type = media_type, lo_object_id = object_id,
          lo_plain_digest = sha256 (pe_world pe) data, lo_plain_size = length data, lo_role = role\<rparr>,
        po_source = SourceBytes data\<rparr>"

definition push_file ::
  "('r, 'n) prepare_env \<Rightarrow> nat \<Rightarrow> string \<Rightarrow> packaged_object \<Rightarrow> (prepare_state, unit) act" where
  "push_file pe object_id media_type ob =
     push_object pe
       \<lparr>po_descriptor = \<lparr>lo_media_type = media_type, lo_object_id = object_id,
          lo_plain_digest = pk_digest ob, lo_plain_size = pk_size ob, lo_role = SubjectRole\<rparr>,
        po_source = SourceFile (SubjectFile (pk_path ob))\<rparr>"

section \<open>The subject\<close>

definition validate_subject_binding ::
  "('r, 'n) prepare_env \<Rightarrow> candidate \<Rightarrow> package_manifest \<Rightarrow> unit res" where
  "validate_subject_binding pe cand manifest =
     (let subject = dep_subject (cand_deployment cand);
          capabilities = dep_runtime_capabilities (cand_deployment cand)
      in bind_res (digest_package pe manifest) (\<lambda>manifest_digest.
         if sb_artifact_digest subject \<noteq> manifest_digest
            \<or> sb_artifact_media_type subject \<noteq> SUBJECT_MANIFEST_MEDIA_TYPE
            \<or> sb_architecture subject \<noteq> pm_architecture manifest
            \<or> sb_operating_system subject \<noteq> pm_operating_system manifest
            \<or> sb_arguments subject \<noteq> pm_arguments manifest
            \<or> sb_environment_names subject \<noteq> pm_environment_names manifest
            \<or> sb_executable subject \<noteq> pm_executable manifest
            \<or> sb_working_directory subject \<noteq> pm_working_directory manifest
            \<or> pm_architecture manifest \<notin> set capabilities
            \<or> pm_operating_system manifest \<notin> set capabilities
         then Inl SubjectDigestMismatch else Inr ()))"

definition declared_objects ::
  "package_manifest \<Rightarrow> (digest, string \<times> nat) btree" where
  "declared_objects manifest =
     fold (\<lambda>d m. bt_insert (do_digest d) (do_media_type d, do_size d) m) (pm_objects manifest) []"

fun push_subject_files ::
  "('r, 'n) prepare_env \<Rightarrow> prepare_io \<Rightarrow> (digest, string \<times> nat) btree \<Rightarrow> packaged_object list
     \<Rightarrow> (prepare_state, unit) act" where
  "push_subject_files pe io declared [] = act_res (Inr ())"
| "push_subject_files pe io declared (ob # rest) =
     act_bind (act_res (ok_or IncompleteCandidate (bt_get declared (pk_digest ob)))) (\<lambda>(media_type, size).
       if size \<noteq> pk_size ob then act_res (Inl IncompleteCandidate)
       else act_bind (new_object_id io) (\<lambda>object_id.
            act_bind (push_file pe object_id media_type ob) (\<lambda>_.
              push_subject_files pe io declared rest)))"

definition push_subject ::
  "('r, 'n) prepare_env \<Rightarrow> prepare_io \<Rightarrow> subject_package \<Rightarrow> (prepare_state, unit) act" where
  "push_subject pe io subject =
     act_bind (new_object_id io) (\<lambda>object_id.
     act_bind (act_res (canonical_package pe (sp_manifest subject))) (\<lambda>data.
     act_bind (push_bytes pe object_id SubjectRole SUBJECT_MANIFEST_MEDIA_TYPE data) (\<lambda>_.
       let declared = declared_objects (sp_manifest subject)
       in if length declared \<noteq> length (sp_objects subject) then act_res (Inl IncompleteCandidate)
          else push_subject_files pe io declared (sp_objects subject))))"

section \<open>The trigger and the failure\<close>

definition decode_record ::
  "('r, 'n) prepare_env \<Rightarrow> (bytes \<Rightarrow> 'a res) \<Rightarrow> event_record \<Rightarrow> 'a res" where
  "decode_record pe parse rec = bind_res (decode_payload pe (er_payload rec)) parse"

fun push_inputs ::
  "('r, 'n) prepare_env \<Rightarrow> prepare_io \<Rightarrow> trigger_input list \<Rightarrow> event_record list
     \<Rightarrow> (prepare_state, trigger_input list) act" where
  "push_inputs pe io inputs [] = act_res (Inr inputs)"
| "push_inputs pe io inputs (rec # recs) =
     (if er_kind rec \<noteq> Input then push_inputs pe io inputs recs
      else
        act_bind (act_res (decode_record pe (parse_input pe) rec)) (\<lambda>input.
        act_bind (act_res (decode_payload pe (is_value input))) (\<lambda>data.
        act_bind (new_object_id io) (\<lambda>object_id.
        act_bind (act_res (ok_or IncompleteCandidate (u16_try_from (length inputs)))) (\<lambda>sequence.
        act_bind (push_bytes pe object_id TriggerRole (is_content_type input) data) (\<lambda>_.
          push_inputs pe io
            (inputs @ [\<lparr>ti_channel = is_channel input, ti_object_id = object_id,
                        ti_plain_digest = is_value_digest input, ti_sequence = sequence\<rparr>])
            recs))))))"

definition push_trigger_and_inputs ::
  "('r, 'n) prepare_env \<Rightarrow> prepare_io \<Rightarrow> candidate \<Rightarrow> trigger_completion \<Rightarrow> (prepare_state, unit) act"
  where
  "push_trigger_and_inputs pe io cand completion =
     (case cand_records cand of
        [] \<Rightarrow> act_res (Inl IncompleteCandidate)
      | first # _ \<Rightarrow>
          act_bind (act_res (decode_record pe (parse_begin pe) first)) (\<lambda>source.
          act_bind (push_inputs pe io [] (cand_records cand)) (\<lambda>inputs.
          let trigger = \<lparr>tg_adapter_id = bs_adapter_id source,
                tg_adapter_version = bs_adapter_version source,
                tg_causal_parent_ids = bs_causal_parent_ids source, tg_completion = completion,
                tg_inputs = inputs, tg_operation_id = cand_operation_id cand,
                tg_operation_kind = bs_operation_kind source,
                tg_operation_name = bs_operation_name source\<rparr>
          in act_bind (act_res (validate_trigger pe trigger)) (\<lambda>_.
             act_bind (new_object_id io) (\<lambda>object_id.
             act_bind (act_res (canonical_trigger pe trigger)) (\<lambda>data.
               push_bytes pe object_id TriggerRole TRIGGER_MEDIA_TYPE data))))))"

definition push_failure ::
  "('r, 'n) prepare_env \<Rightarrow> candidate \<Rightarrow> (prepare_state, unit) act" where
  "push_failure pe cand =
     act_bind (act_res (ok_or IncompleteCandidate
         (find (\<lambda>rec. er_kind rec = Failure) (cand_records cand)))) (\<lambda>rec.
     act_bind (act_res (decode_record pe (parse_failure pe) rec)) (\<lambda>failure.
     act_bind (act_res (canonical_failure pe failure)) (\<lambda>data.
       push_bytes pe (failure_object_id pe (fp_failure failure)) FailureRole FAILURE_MEDIA_TYPE data)))"

section \<open>The artifacts of the World\<close>

text \<open>An artifact copied to the private directory, or referenced where it is.\<close>

definition copy_artifact ::
  "('r, 'n) prepare_env \<Rightarrow> prepare_io \<Rightarrow> spool_file candidate_artifact \<Rightarrow> (prepare_state, object) act"
  where
  "copy_artifact pe io a s =
     (case capture_artifact (pe_world pe) (pe_objects pe) (pi_copy io) a (pr_store s) of
        Inl e \<Rightarrow> (Inl e, s)
      | Inr (ob, store) \<Rightarrow>
          (Inr \<lparr>po_descriptor = po_descriptor ob,
                po_source = map_object_source CopiedFile (po_source ob)\<rparr>,
           s\<lparr>pr_store := store\<rparr>))"

definition reference_artifact ::
  "('r, 'n) prepare_env \<Rightarrow> prepare_io \<Rightarrow> digest candidate_artifact \<Rightarrow> (prepare_state, object) act"
  where
  "reference_artifact pe io a =
     act_bind (act_res (ok_or IncompleteCandidate (fl_stat (pi_frozen io) 0 (ca_path a)))) (\<lambda>st.
       if \<not> plain_artifact_file st then act_res (Inl IncompleteCandidate)
       else act_bind (act_res (closure_digest_file (pe_world pe) (fl_pass (pi_frozen io) 0 (ca_path a))
                (fs_len st))) (\<lambda>(digest, size).
            let descriptor = \<lparr>lo_media_type = ca_media_type a, lo_object_id = ca_object_id a,
                  lo_plain_digest = digest, lo_plain_size = size, lo_role = ca_role a\<rparr>
            in act_bind (act_res (validate_object (pe_objects pe) descriptor)) (\<lambda>_.
               act_res (Inr \<lparr>po_descriptor = descriptor,
                             po_source = SourceFile (FrozenFile (ca_path a))\<rparr>))))"

definition closure_requires_artifacts :: "candidate \<Rightarrow> world_checkpoint \<Rightarrow> bool" where
  "closure_requires_artifacts cand world \<longleftrightarrow>
     (\<exists>point \<in> set (wp_points world). rp_artifacts point \<noteq> [])
     \<or> (\<exists>rec \<in> set (cand_records cand). er_kind rec = Dependency)"

fun push_artifacts ::
  "('p candidate_artifact \<Rightarrow> (prepare_state, object) act) \<Rightarrow> expected_artifact list \<Rightarrow> string list
     \<Rightarrow> 'p candidate_artifact list \<Rightarrow> (prepare_state, unit) act" where
  "push_artifacts capture expected uris [] = act_res (Inr ())"
| "push_artifacts capture expected uris (a # rest) =
     (if ca_role a \<notin> set [DependencyTranscriptRole, WorldStateRole] \<or> ca_uri a = []
         \<or> length (ca_uri a) > 2048 \<or> ca_uri a \<in> set uris
      then act_res (Inl IncompleteCandidate)
      else act_bind (capture a) (\<lambda>ob.
        if ca_role a = WorldStateRole
           \<and> (ca_uri a, lo_plain_digest (po_descriptor ob), lo_plain_size (po_descriptor ob),
              ca_media_type a) \<notin> set expected
        then act_res (Inl IncompleteCandidate)
        else act_bind (act_do (\<lambda>s. s\<lparr>pr_objects := pr_objects s @ [ob]\<rparr>)) (\<lambda>_.
          push_artifacts capture expected (ca_uri a # uris) rest)))"

section \<open>The dependencies\<close>

definition read_prepared_object :: "prepare_io \<Rightarrow> object \<Rightarrow> bytes res" where
  "read_prepared_object io ob =
     (if lo_plain_size (po_descriptor ob) > MAX_CHUNK_BYTES then Inl IncompleteCandidate
      else case po_source ob of
          SourceBytes data \<Rightarrow> Inr data
        | SourceFile path \<Rightarrow> ok_or IncompleteCandidate (pi_read io path))"

definition descriptor_matches :: "(nat, logical_object) btree \<Rightarrow> nat \<Rightarrow> digest \<Rightarrow> bool" where
  "descriptor_matches objects object_id digest =
     (case bt_get objects object_id of None \<Rightarrow> False | Some d \<Rightarrow> lo_plain_digest d = digest)"

definition descriptor_by_id :: "object list \<Rightarrow> (nat, logical_object) btree" where
  "descriptor_by_id objects =
     fold (\<lambda>ob m. bt_insert (lo_object_id (po_descriptor ob)) (po_descriptor ob) m) objects []"

text \<open>\<open>collect\<close> into a \<open>Result\<close>: the first error, or all.\<close>

fun map_res :: "('a \<Rightarrow> 'b res) \<Rightarrow> 'a list \<Rightarrow> 'b list res" where
  "map_res f [] = Inr []"
| "map_res f (x # xs) = bind_res (f x) (\<lambda>y. bind_res (map_res f xs) (\<lambda>ys. Inr (y # ys)))"

definition is_transcript_object :: "object \<Rightarrow> bool" where
  "is_transcript_object ob \<longleftrightarrow> lo_role (po_descriptor ob) = DependencyTranscriptRole
     \<and> lo_media_type (po_descriptor ob) = DEPENDENCY_TRANSCRIPT_MEDIA_TYPE"

definition interaction_complete ::
  "candidate \<Rightarrow> (nat, logical_object) btree \<Rightarrow> interaction \<Rightarrow> bool" where
  "interaction_complete cand objects i \<longleftrightarrow>
     \<not> foreign_interaction (cand_operation_id cand) i
     \<and> descriptor_matches objects (in_request_object_id i) (in_request_digest i)
     \<and> descriptor_matches objects (in_response_object_id i) (in_response_digest i)"

definition read_transcript ::
  "('r, 'n) prepare_env \<Rightarrow> prepare_io \<Rightarrow> candidate \<Rightarrow> (nat, logical_object) btree \<Rightarrow> object
     \<Rightarrow> transcript res" where
  "read_transcript pe io cand objects ob =
     bind_res (read_prepared_object io ob) (\<lambda>data.
     bind_res (codec_parse (transcript_codec (pe_world pe)) data) (\<lambda>transcript.
     bind_res (codec_validate (transcript_codec (pe_world pe)) transcript) (\<lambda>_.
       if list_all (interaction_complete cand objects) (tr_interactions transcript)
       then Inr transcript else Inl IncompleteCandidate)))"

definition validate_dependency_closure ::
  "('r, 'n) prepare_env \<Rightarrow> prepare_io \<Rightarrow> candidate \<Rightarrow> object list \<Rightarrow> unit res" where
  "validate_dependency_closure pe io cand objects =
     bind_res (map_res (decode_record pe (parse_cursor pe))
         (filter (\<lambda>rec. er_kind rec = Dependency) (cand_records cand))) (\<lambda>cursors.
     bind_res (map_res (read_transcript pe io cand (descriptor_by_id objects))
         (filter is_transcript_object objects)) (\<lambda>transcripts.
       if length cursors \<noteq> length transcripts
          \<or> (\<exists>cursor \<in> set cursors.
               length (filter (\<lambda>t. tr_adapter_id t = dc_adapter_id cursor
                         \<and> tr_adapter_version t = dc_adapter_version cursor) transcripts) \<noteq> 1)
       then Inl IncompleteCandidate else Inr ()))"

definition push_capture_artifacts ::
  "('r, 'n) prepare_env \<Rightarrow> prepare_io \<Rightarrow> ('p candidate_artifact \<Rightarrow> (prepare_state, object) act)
     \<Rightarrow> candidate \<Rightarrow> world_checkpoint \<Rightarrow> 'p candidate_artifact list \<Rightarrow> (prepare_state, unit) act"
  where
  "push_capture_artifacts pe io capture cand world artifacts =
     (let expected = expected_world world; supplied = supplied_world artifacts
      in if length artifacts > MAX_ARTIFACTS
            \<or> artifacts = [] \<and> closure_requires_artifacts cand world
         then act_res (Inl IncompleteCandidate)
         else if length expected \<noteq> length supplied
            \<or> (\<exists>(uri, _) \<in> set expected. uri \<notin> set supplied)
         then act_res (Inl IncompleteCandidate)
         else act_bind (push_artifacts capture expected [] artifacts) (\<lambda>_ s.
           (validate_dependency_closure pe io cand (pr_objects s), s)))"

section \<open>The preparation\<close>

text \<open>The objects in the order the code pushes them.\<close>

definition push_objects ::
  "('r, 'n) prepare_env \<Rightarrow> prepare_io \<Rightarrow> ('p candidate_artifact \<Rightarrow> (prepare_state, object) act)
     \<Rightarrow> candidate \<Rightarrow> subject_package \<Rightarrow> 'p capture_closure \<Rightarrow> (prepare_state, unit) act" where
  "push_objects pe io capture cand subject closure =
     act_bind (new_object_id io) (\<lambda>candidate_id.
     act_bind (act_res (canonical_candidate (we_core (pe_world pe)) cand)) (\<lambda>candidate_bytes.
     act_bind (push_bytes pe candidate_id CandidateRole CANDIDATE_MEDIA_TYPE candidate_bytes) (\<lambda>_.
     act_bind (push_subject pe io subject) (\<lambda>_.
     act_bind (push_trigger_and_inputs pe io cand (cl_completion closure)) (\<lambda>_.
     act_bind (push_failure pe cand) (\<lambda>_.
     act_bind (new_object_id io) (\<lambda>world_object_id.
     act_bind (act_res (canonical_world pe (cl_world closure))) (\<lambda>world_data.
     act_bind (push_bytes pe world_object_id WorldManifestRole WORLD_MANIFEST_MEDIA_TYPE world_data)
       (\<lambda>_.
       push_capture_artifacts pe io capture cand (cl_world closure) (cl_artifacts closure))))))))))"

fun add_plain_sizes :: "nat \<Rightarrow> logical_object list \<Rightarrow> nat res" where
  "add_plain_sizes acc [] = Inr acc"
| "add_plain_sizes acc (d # ds) =
     bind_res (ok_or SchemaInvalid (checked_add acc (lo_plain_size d))) (\<lambda>acc'.
       add_plain_sizes acc' ds)"

definition identify ::
  "('r, 'n) prepare_env \<Rightarrow> candidate \<Rightarrow> subject_package \<Rightarrow> object list \<Rightarrow> managed_identity res" where
  "identify pe cand subject objects =
     (let descriptors = map po_descriptor objects; deployment = cand_deployment cand
      in bind_res (digest_candidate pe cand) (\<lambda>candidate_digest.
         bind_res (digest_package pe (sp_manifest subject)) (\<lambda>subject_digest.
         bind_res (add_plain_sizes 0 descriptors) (\<lambda>total_plaintext_bytes.
           if total_plaintext_bytes > MAX_CANDIDATE_CLOSURE_BYTES then Inl UploadLimitExceeded
           else bind_res (digest_deployment pe deployment) (\<lambda>deployment_digest.
             let identity = \<lparr>mi_candidate_digest = candidate_digest,
                   mi_capture_id = cand_capture_id cand, mi_deployment_digest = deployment_digest,
                   mi_objects = descriptors,
                   mi_organization_id = dep_organization_id deployment,
                   mi_project_id = dep_project_id deployment,
                   mi_required_capabilities = dep_runtime_capabilities deployment,
                   mi_service_id = dep_service_id deployment, mi_subject_digest = subject_digest,
                   mi_total_plaintext_bytes = total_plaintext_bytes\<rparr>
             in bind_res (validate_identity (pe_seal pe) identity) (\<lambda>_. Inr identity))))))"

text \<open>The checks before anything is written.\<close>

definition check_candidate ::
  "('r, 'n) prepare_env \<Rightarrow> candidate \<Rightarrow> subject_package \<Rightarrow> world_checkpoint \<Rightarrow> unit res" where
  "check_candidate pe cand subject world =
     bind_res (validate_candidate (we_core (pe_world pe)) cand) (\<lambda>_.
     bind_res (validate_package pe (sp_manifest subject)) (\<lambda>_.
     bind_res (validate_checkpoint (pe_world pe) world) (\<lambda>_.
       if cand_processing_mode cand \<noteq> Managed then Inl SchemaInvalid
       else bind_res (validate_subject_binding pe cand (sp_manifest subject)) (\<lambda>_.
            bind_res (world_id_of (pe_objects pe) world) (\<lambda>world_id.
              if world_id \<noteq> cand_world_id cand then Inl IncompleteCandidate else Inr ())))))"

definition prepare_checked ::
  "('r, 'n) prepare_env \<Rightarrow> prepare_io \<Rightarrow> bool \<Rightarrow> ('p candidate_artifact \<Rightarrow> (prepare_state, object) act)
     \<Rightarrow> candidate \<Rightarrow> subject_package \<Rightarrow> 'p capture_closure \<Rightarrow> (managed_identity \<times> object list) res"
  where
  "prepare_checked pe io copying capture cand subject closure =
     bind_res (check_candidate pe cand subject (cl_world closure)) (\<lambda>_.
       if copying \<and> cl_artifacts closure \<noteq> [] \<and> \<not> pi_directory io then Inl ServiceUnavailable
       else
         case push_objects pe io capture cand subject closure
                \<lparr>pr_objects = [], pr_drawn = 0, pr_store = (\<lambda>_. None)\<rparr> of
           (Inl e, _) \<Rightarrow> Inl e
         | (Inr _, s) \<Rightarrow>
             let objects = sort_key (\<lambda>ob. lo_object_id (po_descriptor ob)) (pr_objects s)
             in bind_res (verify_local_closure (pe_seal pe) (pi_files io) objects) (\<lambda>_.
                bind_res (identify pe cand subject objects) (\<lambda>identity.
                  Inr (identity, objects))))"

text \<open>\<open>prepare_shared\<close> owns the reservation: an error gives it back.\<close>

definition prepare_shared ::
  "('r, 'n) prepare_env \<Rightarrow> prepare_io \<Rightarrow> bool \<Rightarrow> ('p candidate_artifact \<Rightarrow> (prepare_state, object) act)
     \<Rightarrow> candidate \<Rightarrow> subject_package \<Rightarrow> 'p capture_closure \<Rightarrow> nat \<Rightarrow> process_resources
     \<Rightarrow> prepared_path prepared_candidate res \<times> process_resources" where
  "prepare_shared pe io copying capture cand subject closure held r =
     (case prepare_checked pe io copying capture cand subject closure of
        Inl e \<Rightarrow> (Inl e, reservation_drop held r)
      | Inr (identity, objects) \<Rightarrow>
          (Inr \<lparr>pc_identity = identity, pc_objects = objects, pc_capture_reservation = held\<rparr>, r))"

definition prepare_frozen_shared ::
  "('r, 'n) prepare_env \<Rightarrow> prepare_io \<Rightarrow> candidate \<Rightarrow> subject_package \<Rightarrow> frozen_closure
     \<Rightarrow> process_resources \<Rightarrow> prepared_path prepared_candidate res \<times> process_resources" where
  "prepare_frozen_shared pe io cand subject closure r =
     prepare_shared pe io False (reference_artifact pe io) cand subject (fz_closure closure) 0 r"

fun closure_artifact_sizes :: "spool_file files \<Rightarrow> nat \<Rightarrow> spool_file candidate_artifact list \<Rightarrow> nat res"
  where
  "closure_artifact_sizes fl acc [] = Inr acc"
| "closure_artifact_sizes fl acc (a # rest) =
     bind_res (ok_or IncompleteCandidate (fl_stat fl 0 (ca_path a))) (\<lambda>st.
       if \<not> plain_artifact_file st then Inl IncompleteCandidate
       else bind_res (ok_or IncompleteCandidate (checked_add acc (fs_len st))) (\<lambda>acc'.
         closure_artifact_sizes fl acc' rest))"

definition closure_artifact_bytes ::
  "spool_file files \<Rightarrow> spool_file capture_closure \<Rightarrow> nat res" where
  "closure_artifact_bytes fl closure =
     bind_res (closure_artifact_sizes fl 0 (cl_artifacts closure)) (\<lambda>n.
       if n > MAX_WORLD_BYTES then Inl UploadLimitExceeded else Inr n)"

definition prepare_complete_shared ::
  "('r, 'n) prepare_env \<Rightarrow> prepare_io \<Rightarrow> candidate \<Rightarrow> subject_package \<Rightarrow> spool_file capture_closure
     \<Rightarrow> process_resources \<Rightarrow> prepared_path prepared_candidate res \<times> process_resources" where
  "prepare_complete_shared pe io cand subject closure r =
     (case closure_artifact_bytes (fi_source (pi_copy io)) closure of
        Inl e \<Rightarrow> (Inl e, r)
      | Inr n \<Rightarrow>
          case reserve_capture_bytes 0 n r of
            (False, held, r1) \<Rightarrow> (Inl UploadLimitExceeded, reservation_drop held r1)
          | (True, held, r1) \<Rightarrow>
              prepare_shared pe io True (copy_artifact pe io) cand subject closure held r1)"

definition prepare ::
  "('r, 'n) prepare_env \<Rightarrow> prepare_io \<Rightarrow> candidate \<Rightarrow> subject_package \<Rightarrow> world_checkpoint
     \<Rightarrow> trigger_completion \<Rightarrow> process_resources
     \<Rightarrow> prepared_path prepared_candidate res \<times> process_resources" where
  "prepare pe io cand subject world completion r =
     prepare_complete_shared pe io cand subject
       \<lparr>cl_artifacts = [], cl_completion = completion, cl_world = world\<rparr> r"

end
