(* ===== verification/Prepare_Theorems.thy ===== *)
theory Prepare_Theorems
  imports Managed_Prepare Closure_Theorems Seal_Theorems
begin

text \<open>
  What a prepared candidate is: one object for each part of the candidate and of its World, with
  nothing missing, nothing twice, and the sizes and digests that its identity announces.
\<close>

section \<open>What a step pushes\<close>

definition pushes :: "(prepare_state, 'a) act \<Rightarrow> (object \<Rightarrow> bool) \<Rightarrow> bool" where
  "pushes m P \<longleftrightarrow> (\<forall>s x s'. m s = (Inr x, s') \<longrightarrow>
     (\<exists>obs. pr_objects s' = pr_objects s @ obs \<and> list_all P obs))"

named_theorems push_intros \<open>steps that push only objects of a kind\<close>

lemma pushesD:
  assumes "pushes m P" "m s = (Inr x, s')"
  obtains obs where "pr_objects s' = pr_objects s @ obs" "list_all P obs"
  using assms unfolding pushes_def by blast

lemma pushes_bind [push_intros]:
  assumes "pushes m P" "\<And>x. pushes (f x) P"
  shows "pushes (act_bind m f) P"
  unfolding pushes_def
proof (intro allI impI)
  fix s y s' assume "act_bind m f s = (Inr y, s')"
  then obtain x u where "m s = (Inr x, u)" "f x u = (Inr y, s')" by (rule act_bind_InrE)
  then show "\<exists>obs. pr_objects s' = pr_objects s @ obs \<and> list_all P obs"
    using assms by (fastforce simp: pushes_def)
qed

lemma pushes_res [push_intros]: "pushes (act_res r) P"
  by (auto simp: pushes_def act_res_def)

lemma pushes_id [push_intros]: "pushes (new_object_id io) P"
  by (auto simp: pushes_def new_object_id_def)

lemma push_object_run:
  "push_object pe ob s = (Inr x, s') \<Longrightarrow> s' = s\<lparr>pr_objects := pr_objects s @ [ob]\<rparr>"
  by (auto simp: push_object_def act_res_def elim!: act_bind_InrE)

lemma pushes_object: "P ob \<Longrightarrow> pushes (push_object pe ob) P"
  by (auto simp: pushes_def dest!: push_object_run)

lemma pushes_bytes [push_intros]:
  "(\<And>d. P \<lparr>po_descriptor = \<lparr>lo_media_type = media_type, lo_object_id = object_id,
      lo_plain_digest = d, lo_plain_size = length data, lo_role = role\<rparr>, po_source = SourceBytes data\<rparr>)
    \<Longrightarrow> pushes (push_bytes pe object_id role media_type data) P"
  unfolding push_bytes_def by (rule pushes_object)

text \<open>The role of an object.\<close>

abbreviation has_role :: "object_role \<Rightarrow> object \<Rightarrow> bool" where
  "has_role role ob \<equiv> lo_role (po_descriptor ob) = role"

lemma pushes_if [push_intros]:
  "pushes m P \<Longrightarrow> pushes m' P \<Longrightarrow> pushes (if b then m else m') P"
  by simp

lemma pushes_subject_files: "pushes (push_subject_files pe io declared obs) (has_role SubjectRole)"
proof (induction obs)
  case (Cons ob obs)
  show ?case
    unfolding push_subject_files.simps push_file_def
    by (intro pushes_bind pushes_res) (auto intro!: push_intros pushes_object Cons.IH)
qed (simp add: pushes_res)

lemma pushes_subject: "pushes (push_subject pe io subject) (has_role SubjectRole)"
  unfolding push_subject_def Let_def
  by (intro push_intros pushes_subject_files) simp

lemma pushes_inputs: "pushes (push_inputs pe io inputs recs) (has_role TriggerRole)"
proof (induction recs arbitrary: inputs)
  case (Cons rec recs)
  show ?case
    unfolding push_inputs.simps by (intro push_intros Cons.IH) simp
qed (simp add: pushes_res)

lemma pushes_trigger: "pushes (push_trigger_and_inputs pe io cand completion) (has_role TriggerRole)"
  unfolding push_trigger_and_inputs_def Let_def
  by (cases "cand_records cand") (auto intro!: push_intros pushes_inputs)

section \<open>The artifacts\<close>

text \<open>Capturing an artifact keeps its role and media type and pushes nothing by itself.\<close>

definition captures_artifact :: "('p candidate_artifact \<Rightarrow> (prepare_state, object) act) \<Rightarrow> bool" where
  "captures_artifact capture \<longleftrightarrow>
     (\<forall>a s ob s'. capture a s = (Inr ob, s') \<longrightarrow>
        pr_objects s' = pr_objects s \<and> has_role (ca_role a) ob
        \<and> lo_media_type (po_descriptor ob) = ca_media_type a)"

lemma reference_captures: "captures_artifact (reference_artifact pe io)"
  unfolding captures_artifact_def reference_artifact_def Let_def
  by (auto simp: act_res_def elim!: act_bind_InrE split: if_splits prod.splits)

lemma capture_artifact_kind:
  assumes "capture_artifact we cl fi a store = Inr (ob, store')"
  shows "lo_role (po_descriptor ob) = ca_role a" "lo_media_type (po_descriptor ob) = ca_media_type a"
  using assms unfolding capture_artifact_def Let_def
  by (auto simp: bind_res_eq_Inr split: if_splits prod.splits)

lemma copy_captures: "captures_artifact (copy_artifact pe io)"
  unfolding captures_artifact_def copy_artifact_def
  by (auto simp: capture_artifact_kind split: sum.splits prod.splits)

text \<open>An object for an artifact of the World.\<close>

definition stands_for :: "expected_artifact \<Rightarrow> object \<Rightarrow> bool" where
  "stands_for e ob \<longleftrightarrow> has_role WorldStateRole ob
     \<and> (lo_plain_digest (po_descriptor ob), lo_plain_size (po_descriptor ob),
        lo_media_type (po_descriptor ob)) = snd e"

lemma push_artifacts_run:
  assumes capture: "captures_artifact capture"
    and "push_artifacts capture expected uris artifacts s = (Inr x, s')"
  shows "\<exists>obs. pr_objects s' = pr_objects s @ obs
    \<and> list_all (\<lambda>ob. lo_role (po_descriptor ob) \<in> {DependencyTranscriptRole, WorldStateRole}) obs
    \<and> (\<forall>a \<in> set artifacts. ca_role a = WorldStateRole \<longrightarrow>
         (\<exists>e \<in> set expected. fst e = ca_uri a \<and> (\<exists>ob \<in> set obs. stands_for e ob)))"
  using assms(2)
proof (induction artifacts arbitrary: uris s)
  case Nil
  then show ?case by (auto simp: act_res_def)
next
  case (Cons a artifacts)
  obtain ob s1 where ob: "capture a s = (Inr ob, s1)"
    and role: "ca_role a \<in> {DependencyTranscriptRole, WorldStateRole}"
    and world: "ca_role a = WorldStateRole \<Longrightarrow> (ca_uri a, lo_plain_digest (po_descriptor ob),
        lo_plain_size (po_descriptor ob), ca_media_type a) \<in> set expected"
    and rest: "push_artifacts capture expected (ca_uri a # uris) artifacts
        (s1\<lparr>pr_objects := pr_objects s1 @ [ob]\<rparr>) = (Inr x, s')"
    using Cons.prems
    by (auto simp: act_res_def act_do_def elim!: act_bind_InrE split: if_splits)
  have kind: "pr_objects s1 = pr_objects s" "has_role (ca_role a) ob"
    "lo_media_type (po_descriptor ob) = ca_media_type a"
    using capture ob by (auto simp: captures_artifact_def)
  obtain obs where IH: "pr_objects s' = (pr_objects s1 @ [ob]) @ obs"
    "list_all (\<lambda>ob. lo_role (po_descriptor ob) \<in> {DependencyTranscriptRole, WorldStateRole}) obs"
    "\<forall>a \<in> set artifacts. ca_role a = WorldStateRole \<longrightarrow>
         (\<exists>e \<in> set expected. fst e = ca_uri a \<and> (\<exists>ob \<in> set obs. stands_for e ob))"
    using Cons.IH [OF rest] by auto
  have "\<exists>e \<in> set expected. fst e = ca_uri a \<and> stands_for e ob" if "ca_role a = WorldStateRole"
    using world [OF that] kind that by (intro bexI) (auto simp: stands_for_def)
  then have "\<exists>e \<in> set expected. fst e = ca_uri b \<and> (\<exists>ob' \<in> set (ob # obs). stands_for e ob')"
    if "b \<in> set (a # artifacts)" "ca_role b = WorldStateRole" for b
    using that IH(3) by (cases "b = a") (fastforce, fastforce)
  then show ?case using IH(1,2) kind role by (intro exI [where x = "ob # obs"]) auto
qed

section \<open>The shape of a candidate's objects\<close>

definition bytes_object ::
  "('r, 'n) prepare_env \<Rightarrow> nat \<Rightarrow> object_role \<Rightarrow> string \<Rightarrow> bytes \<Rightarrow> object" where
  "bytes_object pe object_id role media_type data =
     \<lparr>po_descriptor = \<lparr>lo_media_type = media_type, lo_object_id = object_id,
        lo_plain_digest = sha256 (pe_world pe) data, lo_plain_size = length data, lo_role = role\<rparr>,
      po_source = SourceBytes data\<rparr>"

lemma push_bytes_run:
  "push_bytes pe object_id role media_type data s = (Inr x, s') \<Longrightarrow>
     pr_objects s' = pr_objects s @ [bytes_object pe object_id role media_type data]"
  unfolding push_bytes_def by (drule push_object_run) (simp add: bytes_object_def)

lemma push_failure_run:
  assumes "push_failure pe cand s = (Inr x, s')"
  obtains rec failure data where
    "find (\<lambda>rec. er_kind rec = Failure) (cand_records cand) = Some rec"
    "decode_record pe (parse_failure pe) rec = Inr failure" "canonical_failure pe failure = Inr data"
    "pr_objects s' = pr_objects s
       @ [bytes_object pe (failure_object_id pe (fp_failure failure)) FailureRole FAILURE_MEDIA_TYPE data]"
  using assms unfolding push_failure_def
  by (auto simp: act_res_def elim!: act_bind_InrE dest!: push_bytes_run)

text \<open>The objects a candidate needs, each with its bytes.\<close>

definition candidate_objects ::
  "('r, 'n) prepare_env \<Rightarrow> candidate \<Rightarrow> world_checkpoint \<Rightarrow> object list \<Rightarrow> bool" where
  "candidate_objects pe cand world obs \<longleftrightarrow>
     (\<exists>id data. canonical_candidate (we_core (pe_world pe)) cand = Inr data
        \<and> filter (has_role CandidateRole) obs
          = [bytes_object pe id CandidateRole CANDIDATE_MEDIA_TYPE data])
     \<and> (\<exists>id data. canonical_world pe world = Inr data
        \<and> filter (has_role WorldManifestRole) obs
          = [bytes_object pe id WorldManifestRole WORLD_MANIFEST_MEDIA_TYPE data])
     \<and> (\<exists>rec failure data. find (\<lambda>rec. er_kind rec = Failure) (cand_records cand) = Some rec
        \<and> decode_record pe (parse_failure pe) rec = Inr failure
        \<and> canonical_failure pe failure = Inr data
        \<and> filter (has_role FailureRole) obs
          = [bytes_object pe (failure_object_id pe (fp_failure failure)) FailureRole
               FAILURE_MEDIA_TYPE data])
     \<and> list_all (\<lambda>e. \<exists>ob \<in> set obs. stands_for e ob) (expected_world world)"

lemma no_other_role:
  "list_all (has_role role) obs \<Longrightarrow> role \<noteq> role' \<Longrightarrow> filter (has_role role') obs = []"
  by (auto simp: list_all_iff filter_empty_conv)

text \<open>Every artifact the World names is supplied, and nothing else is.\<close>

lemma artifacts_cover:
  assumes capture: "captures_artifact capture"
    and run: "push_capture_artifacts pe io capture cand world artifacts s = (Inr x, s')"
  obtains obs where "pr_objects s' = pr_objects s @ obs"
    "list_all (\<lambda>ob. lo_role (po_descriptor ob) \<in> {DependencyTranscriptRole, WorldStateRole}) obs"
    "list_all (\<lambda>e. \<exists>ob \<in> set obs. stands_for e ob) (expected_world world)"
    "validate_dependency_closure pe io cand (pr_objects s') = Inr ()"
proof -
  let ?E = "set (expected_world world)" and ?S = "set (supplied_world artifacts)"
  have number: "length (expected_world world) = length (supplied_world artifacts)"
    and uris: "\<forall>e \<in> ?E. fst e \<in> ?S"
    using run by (auto simp: push_capture_artifacts_def Let_def act_res_def split: if_splits)
  obtain u s1 where pushed: "push_artifacts capture (expected_world world) [] artifacts s = (Inr u, s1)"
    and closed: "validate_dependency_closure pe io cand (pr_objects s1) = Inr x" "s' = s1"
    using run
    by (auto simp: push_capture_artifacts_def Let_def act_res_def elim!: act_bind_InrE split: if_splits)
  obtain obs where obs: "pr_objects s1 = pr_objects s @ obs"
    "list_all (\<lambda>ob. lo_role (po_descriptor ob) \<in> {DependencyTranscriptRole, WorldStateRole}) obs"
    "\<forall>a \<in> set artifacts. ca_role a = WorldStateRole \<longrightarrow>
         (\<exists>e \<in> ?E. fst e = ca_uri a \<and> (\<exists>ob \<in> set obs. stands_for e ob))"
    using push_artifacts_run [OF capture pushed] by blast
  have card: "card ?E = card ?S"
    using number by (simp add: expected_world_def supplied_world_def distinct_card [symmetric])
  have "?S \<subseteq> fst ` ?E"
  proof
    fix uri assume "uri \<in> ?S"
    then obtain a where "a \<in> set artifacts" "ca_role a = WorldStateRole" "ca_uri a = uri"
      by (auto simp: supplied_world_def)
    then show "uri \<in> fst ` ?E" using obs(3) by (metis image_eqI)
  qed
  then have inj: "inj_on fst ?E"
    using same_number_covers [of ?E ?S fst] card by simp
  have "\<exists>ob \<in> set obs. stands_for e ob" if e: "e \<in> ?E" for e
  proof -
    obtain a where a: "a \<in> set artifacts" "ca_role a = WorldStateRole" "ca_uri a = fst e"
      using uris e by (auto simp: supplied_world_def)
    then obtain e' where e': "e' \<in> ?E" "fst e' = fst e" "\<exists>ob \<in> set obs. stands_for e' ob"
      using obs(3) by fastforce
    then show ?thesis using inj e by (auto dest: inj_onD)
  qed
  then show thesis using that obs(1,2) closed by (simp add: list_all_iff)
qed

lemma push_objects_shape:
  assumes capture: "captures_artifact capture"
    and run: "push_objects pe io capture cand subject closure s = (Inr x, s')"
    and empty: "pr_objects s = []"
  shows "candidate_objects pe cand (cl_world closure) (pr_objects s')
    \<and> validate_dependency_closure pe io cand (pr_objects s') = Inr ()"
proof -
  obtain id1 data1 s1 s2 s3 s4 s5 id2 data2 s6 u where
    cand: "canonical_candidate (we_core (pe_world pe)) cand = Inr data1" and
    p1: "push_bytes pe id1 CandidateRole CANDIDATE_MEDIA_TYPE data1 (s\<lparr>pr_drawn := u\<rparr>) = (Inr (), s1)" and
    p2: "push_subject pe io subject s1 = (Inr (), s2)" and
    p3: "push_trigger_and_inputs pe io cand (cl_completion closure) s2 = (Inr (), s3)" and
    p4: "push_failure pe cand s3 = (Inr (), s4)" and
    p5: "new_object_id io s4 = (Inr id2, s5)" and
    world: "canonical_world pe (cl_world closure) = Inr data2" and
    p6: "push_bytes pe id2 WorldManifestRole WORLD_MANIFEST_MEDIA_TYPE data2 s5 = (Inr (), s6)" and
    p7: "push_capture_artifacts pe io capture cand (cl_world closure) (cl_artifacts closure) s6 = (Inr x, s')"
    using run unfolding push_objects_def
    by (auto simp: act_res_def new_object_id_def elim!: act_bind_InrE)
  obtain obs2 where o2: "pr_objects s2 = pr_objects s1 @ obs2" "list_all (has_role SubjectRole) obs2"
    by (rule pushesD [OF pushes_subject p2])
  obtain obs3 where o3: "pr_objects s3 = pr_objects s2 @ obs3" "list_all (has_role TriggerRole) obs3"
    by (rule pushesD [OF pushes_trigger p3])
  obtain rec failure data where o4: "find (\<lambda>rec. er_kind rec = Failure) (cand_records cand) = Some rec"
    "decode_record pe (parse_failure pe) rec = Inr failure" "canonical_failure pe failure = Inr data"
    "pr_objects s4 = pr_objects s3
       @ [bytes_object pe (failure_object_id pe (fp_failure failure)) FailureRole FAILURE_MEDIA_TYPE data]"
    by (rule push_failure_run [OF p4])
  have o5: "pr_objects s5 = pr_objects s4" using p5 by (auto simp: new_object_id_def)
  obtain obs7 where o7: "pr_objects s' = pr_objects s6 @ obs7"
    "list_all (\<lambda>ob. lo_role (po_descriptor ob) \<in> {DependencyTranscriptRole, WorldStateRole}) obs7"
    "list_all (\<lambda>e. \<exists>ob \<in> set obs7. stands_for e ob) (expected_world (cl_world closure))"
    "validate_dependency_closure pe io cand (pr_objects s') = Inr ()"
    by (rule artifacts_cover [OF capture p7])
  have objects: "pr_objects s' = [bytes_object pe id1 CandidateRole CANDIDATE_MEDIA_TYPE data1] @ obs2
      @ obs3 @ [bytes_object pe (failure_object_id pe (fp_failure failure)) FailureRole
                  FAILURE_MEDIA_TYPE data]
      @ [bytes_object pe id2 WorldManifestRole WORLD_MANIFEST_MEDIA_TYPE data2] @ obs7"
    using push_bytes_run [OF p1] push_bytes_run [OF p6] o2(1) o3(1) o4(4) o5 o7(1) empty by simp
  have late: "filter (has_role role) obs7 = []" if "role \<notin> {DependencyTranscriptRole, WorldStateRole}" for role
    using o7(2) that by (auto simp: list_all_iff filter_empty_conv)
  have "candidate_objects pe cand (cl_world closure) (pr_objects s')"
    unfolding candidate_objects_def objects
    using cand world o4(1-3) o7(3) late
    by (simp add: no_other_role [OF o2(2)] no_other_role [OF o3(2)] bytes_object_def list_all_iff) blast
  then show ?thesis using o7(4) by simp
qed

section \<open>Properties\<close>

lemma add_plain_sizes_sum:
  "add_plain_sizes acc ds = Inr n \<Longrightarrow> n = acc + sum_list (map lo_plain_size ds)"
  by (induction ds arbitrary: acc) (fastforce simp: bind_res_eq_Inr)+

lemma identify_run:
  assumes "identify pe cand subject objects = Inr identity"
  shows "mi_objects identity = map po_descriptor objects"
    and "mi_capture_id identity = cand_capture_id cand"
    and "digest_candidate pe cand = Inr (mi_candidate_digest identity)"
    and "digest_package pe (sp_manifest subject) = Inr (mi_subject_digest identity)"
    and "digest_deployment pe (cand_deployment cand) = Inr (mi_deployment_digest identity)"
    and "mi_total_plaintext_bytes identity = sum_list (map lo_plain_size (mi_objects identity))"
    and "mi_total_plaintext_bytes identity \<le> MAX_CANDIDATE_CLOSURE_BYTES"
  using assms unfolding identify_def Let_def
  by (auto simp: bind_res_eq_Inr dest!: add_plain_sizes_sum split: if_splits)

lemma prepare_shared_run:
  assumes "prepare_shared pe io copying capture cand subject closure held r = (Inr prepared, r')"
  obtains s where "check_candidate pe cand subject (cl_world closure) = Inr ()"
    "push_objects pe io capture cand subject closure
       \<lparr>pr_objects = [], pr_drawn = 0, pr_store = (\<lambda>_. None)\<rparr> = (Inr (), s)"
    "pc_objects prepared = sort_key (\<lambda>ob. lo_object_id (po_descriptor ob)) (pr_objects s)"
    "verify_local_closure (pe_seal pe) (pi_files io) (pc_objects prepared) = Inr ()"
    "identify pe cand subject (pc_objects prepared) = Inr (pc_identity prepared)"
    "pc_capture_reservation prepared = held" "r' = r"
  using assms unfolding prepare_shared_def prepare_checked_def Let_def
  by (auto simp: bind_res_eq_Inr split: if_splits prod.splits sum.splits)

lemma sorted_once:
  "filter P xs = [x] \<Longrightarrow> filter P (sort_key f xs) = [x]"
  by (simp add: filter_sort)

lemma candidate_objects_sorted:
  "candidate_objects pe cand world obs
     \<Longrightarrow> candidate_objects pe cand world (sort_key (\<lambda>ob. lo_object_id (po_descriptor ob)) obs)"
  unfolding candidate_objects_def by (elim conjE exE) (auto simp: filter_sort list_all_iff)

lemma verified_objects:
  "verify_objects cy fl seen obs = Inr () \<Longrightarrow>
     list_all (\<lambda>ob. actual_object cy fl (po_source ob)
       = Inr (lo_plain_size (po_descriptor ob), lo_plain_digest (po_descriptor ob))) obs"
  by (induction obs arbitrary: seen) (auto simp: bind_res_eq_Inr split: if_splits)

definition candidate_whole ::
  "('r, 'n) prepare_env \<Rightarrow> prepare_io \<Rightarrow> candidate \<Rightarrow> world_checkpoint
     \<Rightarrow> prepared_path prepared_candidate \<Rightarrow> bool" where
  "candidate_whole pe io cand world prepared \<longleftrightarrow>
     sorted (map lo_object_id (mi_objects (pc_identity prepared)))
     \<and> distinct (map lo_object_id (mi_objects (pc_identity prepared)))
     \<and> candidate_objects pe cand world (pc_objects prepared)
     \<and> world_id_of (pe_objects pe) world = Inr (cand_world_id cand)
     \<and> mi_objects (pc_identity prepared) = map po_descriptor (pc_objects prepared)
     \<and> list_all (\<lambda>ob. actual_object (pe_seal pe) (pi_files io) (po_source ob)
         = Inr (lo_plain_size (po_descriptor ob), lo_plain_digest (po_descriptor ob)))
         (pc_objects prepared)
     \<and> mi_total_plaintext_bytes (pc_identity prepared)
         = sum_list (map lo_plain_size (mi_objects (pc_identity prepared)))
     \<and> mi_total_plaintext_bytes (pc_identity prepared) \<le> MAX_CANDIDATE_CLOSURE_BYTES"

lemma prepare_shared_whole:
  assumes capture: "captures_artifact capture"
    and run: "prepare_shared pe io copying capture cand subject closure held r = (Inr prepared, r')"
  shows "candidate_whole pe io cand (cl_world closure) prepared"
proof -
  obtain s where check: "check_candidate pe cand subject (cl_world closure) = Inr ()"
    and push: "push_objects pe io capture cand subject closure
       \<lparr>pr_objects = [], pr_drawn = 0, pr_store = (\<lambda>_. None)\<rparr> = (Inr (), s)"
    and objects: "pc_objects prepared = sort_key (\<lambda>ob. lo_object_id (po_descriptor ob)) (pr_objects s)"
    and verified: "verify_local_closure (pe_seal pe) (pi_files io) (pc_objects prepared) = Inr ()"
    and identity: "identify pe cand subject (pc_objects prepared) = Inr (pc_identity prepared)"
    by (rule prepare_shared_run [OF run])
  note identity = identify_run [OF identity]
  have "candidate_objects pe cand (cl_world closure) (pc_objects prepared)"
    using push_objects_shape [OF capture push] by (simp add: objects candidate_objects_sorted)
  moreover have "world_id_of (pe_objects pe) (cl_world closure) = Inr (cand_world_id cand)"
    using check by (auto simp: check_candidate_def bind_res_eq_Inr split: if_splits)
  moreover have "list_all (\<lambda>ob. actual_object (pe_seal pe) (pi_files io) (po_source ob)
        = Inr (lo_plain_size (po_descriptor ob), lo_plain_digest (po_descriptor ob)))
        (pc_objects prepared)"
    using verified verified_objects by (auto simp: verify_local_closure_def split: if_splits)
  moreover have "sorted (map lo_object_id (mi_objects (pc_identity prepared)))"
    using sorted_sort_key [of "\<lambda>ob. lo_object_id (po_descriptor ob)" "pr_objects s"]
    by (simp add: identity(1) objects comp_def)
  moreover have "distinct (map lo_object_id (mi_objects (pc_identity prepared)))"
    using verified_closure(3) [OF verified] by (simp add: identity(1) comp_def)
  ultimately show ?thesis using identity by (simp add: candidate_whole_def)
qed

lemma complete_shared_run:
  assumes "prepare_complete_shared pe io cand subject closure r = (Inr prepared, r')"
  obtains n where "prepare_shared pe io True (copy_artifact pe io) cand subject closure n
       (r\<lparr>pr_capture_bytes := pr_capture_bytes r + n\<rparr>) = (Inr prepared, r')"
  using assms unfolding prepare_complete_shared_def closure_artifact_bytes_def
  by (auto simp: bind_res_eq_Inr reserve_capture_bytes_def wrapping_add_exact limits
      split: sum.splits prod.splits option.splits if_splits)

text \<open>
  C13: A prepared candidate is whole.  When a candidate is prepared, copying or referencing its
  artifacts, its objects are in the order of their identifiers, which are pairwise distinct; exactly
  one is the canonical candidate, one the canonical World, one the failure its first Failure record
  decodes to, and for every artifact the World names there is an object with its digest, size and
  media type.  The candidate carries the identifier of that World.  The identity lists exactly the
  descriptors, which agree with what the sources really hold, and the sum of their sizes, within
  the limit.
\<close>

theorem prepared_candidate_whole:
  assumes run: "prepare_frozen_shared pe io cand subject kept r = (Inr prepared, r')
        \<and> world = cl_world (fz_closure kept)
      \<or> prepare_complete_shared pe io cand subject closure r = (Inr prepared, r')
        \<and> world = cl_world closure"
  shows "candidate_whole pe io cand world prepared"
  using run
proof (elim disjE conjE)
  assume "prepare_frozen_shared pe io cand subject kept r = (Inr prepared, r')"
    "world = cl_world (fz_closure kept)"
  then show ?thesis
    using prepare_shared_whole [OF reference_captures] by (simp add: prepare_frozen_shared_def)
next
  assume "prepare_complete_shared pe io cand subject closure r = (Inr prepared, r')"
    and world: "world = cl_world closure"
  then obtain n where "prepare_shared pe io True (copy_artifact pe io) cand subject closure n
       (r\<lparr>pr_capture_bytes := pr_capture_bytes r + n\<rparr>) = (Inr prepared, r')"
    by (elim complete_shared_run)
  from prepare_shared_whole [OF copy_captures this] show ?thesis using world by simp
qed

lemma map_res_ok: "map_res f xs = Inr ys \<Longrightarrow> list_all2 (\<lambda>x y. f x = Inr y) xs ys"
  by (induction xs arbitrary: ys) (auto simp: bind_res_eq_Inr)

lemma descriptor_by_id_fold:
  "bt_get (fold (\<lambda>ob m. bt_insert (lo_object_id (po_descriptor ob)) (po_descriptor ob) m) obs m) k = Some d
     \<Longrightarrow> (\<exists>ob \<in> set obs. po_descriptor ob = d \<and> lo_object_id d = k) \<or> bt_get m k = Some d"
  by (induction obs arbitrary: m) (fastforce split: if_splits)+

lemma descriptor_matches_object:
  "descriptor_matches (descriptor_by_id obs) k digest \<Longrightarrow>
     \<exists>ob \<in> set obs. lo_object_id (po_descriptor ob) = k \<and> lo_plain_digest (po_descriptor ob) = digest"
  unfolding descriptor_matches_def descriptor_by_id_def
  by (auto split: option.splits dest!: descriptor_by_id_fold)

text \<open>An object the interaction refers to is among the objects.\<close>

definition refers_to :: "object list \<Rightarrow> nat \<Rightarrow> digest \<Rightarrow> bool" where
  "refers_to obs k digest \<longleftrightarrow>
     (\<exists>ob \<in> set obs. lo_object_id (po_descriptor ob) = k \<and> lo_plain_digest (po_descriptor ob) = digest)"

definition transcript_complete ::
  "('r, 'n) prepare_env \<Rightarrow> prepare_io \<Rightarrow> candidate \<Rightarrow> object list \<Rightarrow> object \<Rightarrow> transcript \<Rightarrow> bool" where
  "transcript_complete pe io cand obs ob t \<longleftrightarrow>
     (\<exists>data. read_prepared_object io ob = Inr data \<and> codec_parse (transcript_codec (pe_world pe)) data = Inr t)
     \<and> list_all (\<lambda>i. \<not> foreign_interaction (cand_operation_id cand) i
         \<and> refers_to obs (in_request_object_id i) (in_request_digest i)
         \<and> refers_to obs (in_response_object_id i) (in_response_digest i)) (tr_interactions t)"

lemma read_transcript_complete:
  "read_transcript pe io cand (descriptor_by_id obs) ob = Inr t \<Longrightarrow> transcript_complete pe io cand obs ob t"
  unfolding read_transcript_def transcript_complete_def
  by (auto simp: bind_res_eq_Inr list_all_iff interaction_complete_def refers_to_def
      dest!: descriptor_matches_object split: if_splits)

lemma dependency_closure_ok:
  assumes "validate_dependency_closure pe io cand obs = Inr ()"
  shows "list_all (\<lambda>ob. \<exists>t. transcript_complete pe io cand obs ob t) (filter is_transcript_object obs)"
    and "length (filter (\<lambda>rec. er_kind rec = Dependency) (cand_records cand))
      = length (filter is_transcript_object obs)"
    and "list_all (\<lambda>rec. \<exists>cursor. decode_record pe (parse_cursor pe) rec = Inr cursor
        \<and> (\<exists>ob \<in> set obs. is_transcript_object ob \<and> (\<exists>t. transcript_complete pe io cand obs ob t
             \<and> tr_adapter_id t = dc_adapter_id cursor \<and> tr_adapter_version t = dc_adapter_version cursor)))
      (filter (\<lambda>rec. er_kind rec = Dependency) (cand_records cand))"
proof -
  let ?recs = "filter (\<lambda>rec. er_kind rec = Dependency) (cand_records cand)"
  let ?obs = "filter is_transcript_object obs"
  obtain cursors transcripts where
    c: "map_res (decode_record pe (parse_cursor pe)) ?recs = Inr cursors" and
    t: "map_res (read_transcript pe io cand (descriptor_by_id obs)) ?obs = Inr transcripts" and
    number: "length cursors = length transcripts" and
    one: "\<forall>cursor \<in> set cursors. length (filter (\<lambda>t. tr_adapter_id t = dc_adapter_id cursor
        \<and> tr_adapter_version t = dc_adapter_version cursor) transcripts) = 1"
    using assms by (auto simp: validate_dependency_closure_def bind_res_eq_Inr split: if_splits)
  have cs: "list_all2 (\<lambda>rec cursor. decode_record pe (parse_cursor pe) rec = Inr cursor) ?recs cursors"
    by (rule map_res_ok [OF c])
  have ts: "list_all2 (\<lambda>ob t. transcript_complete pe io cand obs ob t) ?obs transcripts"
    using map_res_ok [OF t] by (rule list_all2_mono) (rule read_transcript_complete)
  show "list_all (\<lambda>ob. \<exists>t. transcript_complete pe io cand obs ob t) ?obs"
    using ts by (auto simp: list_all_length list_all2_conv_all_nth)
  show "length ?recs = length ?obs"
    using list_all2_lengthD [OF cs] list_all2_lengthD [OF ts] number by simp
  show "list_all (\<lambda>rec. \<exists>cursor. decode_record pe (parse_cursor pe) rec = Inr cursor
        \<and> (\<exists>ob \<in> set obs. is_transcript_object ob \<and> (\<exists>t. transcript_complete pe io cand obs ob t
             \<and> tr_adapter_id t = dc_adapter_id cursor \<and> tr_adapter_version t = dc_adapter_version cursor)))
      ?recs"
    unfolding list_all_iff
  proof
    fix rec assume "rec \<in> set ?recs"
    then obtain cursor where cursor: "cursor \<in> set cursors"
      "decode_record pe (parse_cursor pe) rec = Inr cursor"
      using list_all2_lengthD [OF cs] list_all2_nthD [OF cs] by (metis in_set_conv_nth)
    have "filter (\<lambda>t. tr_adapter_id t = dc_adapter_id cursor
        \<and> tr_adapter_version t = dc_adapter_version cursor) transcripts \<noteq> []"
      using one cursor(1) by fastforce
    then obtain t where t: "t \<in> set transcripts" "tr_adapter_id t = dc_adapter_id cursor"
      "tr_adapter_version t = dc_adapter_version cursor" by (auto simp: filter_empty_conv)
    then obtain i where i: "i < length transcripts" "transcripts ! i = t"
      by (auto simp: in_set_conv_nth)
    then have "?obs ! i \<in> set ?obs" "transcript_complete pe io cand obs (?obs ! i) t"
      using ts list_all2_lengthD [OF ts] by (auto simp: list_all2_conv_all_nth simp del: set_filter)
    then show "\<exists>cursor. decode_record pe (parse_cursor pe) rec = Inr cursor
        \<and> (\<exists>ob \<in> set obs. is_transcript_object ob \<and> (\<exists>t. transcript_complete pe io cand obs ob t
             \<and> tr_adapter_id t = dc_adapter_id cursor \<and> tr_adapter_version t = dc_adapter_version cursor))"
      using cursor(2) t(2,3) unfolding set_filter by blast
  qed
qed

lemma refers_to_sorted: "refers_to (sort_key f obs) k digest = refers_to obs k digest"
  by (simp add: refers_to_def)

lemma transcript_complete_sorted:
  "transcript_complete pe io cand (sort_key f obs) ob t = transcript_complete pe io cand obs ob t"
  by (simp add: transcript_complete_def refers_to_sorted)

lemma prepare_shared_closed:
  assumes capture: "captures_artifact capture"
    and run: "prepare_shared pe io copying capture cand subject closure held r = (Inr prepared, r')"
  shows "\<exists>obs. pc_objects prepared = sort_key (\<lambda>ob. lo_object_id (po_descriptor ob)) obs
    \<and> validate_dependency_closure pe io cand obs = Inr ()"
proof -
  obtain s where "push_objects pe io capture cand subject closure
       \<lparr>pr_objects = [], pr_drawn = 0, pr_store = (\<lambda>_. None)\<rparr> = (Inr (), s)"
    "pc_objects prepared = sort_key (\<lambda>ob. lo_object_id (po_descriptor ob)) (pr_objects s)"
    by (rule prepare_shared_run [OF run])
  with push_objects_shape [OF capture this(1)] show ?thesis by auto
qed

text \<open>
  C14: The dependencies of a prepared candidate are closed.  Every transcript among its objects parses,
  belongs to the operation of the candidate, and the requests and responses its interactions name are
  among the objects, under their identifiers and with their digests.  There are as many transcripts as
  the candidate has Dependency records, and each of these records decodes to a cursor whose adapter
  has a transcript.
\<close>

theorem prepared_dependencies_closed:
  assumes run: "prepare_frozen_shared pe io cand subject kept r = (Inr prepared, r')
      \<or> prepare_complete_shared pe io cand subject closure r = (Inr prepared, r')"
  shows "list_all (\<lambda>ob. \<exists>t. transcript_complete pe io cand (pc_objects prepared) ob t)
        (filter is_transcript_object (pc_objects prepared))
    \<and> length (filter (\<lambda>rec. er_kind rec = Dependency) (cand_records cand))
        = length (filter is_transcript_object (pc_objects prepared))
    \<and> list_all (\<lambda>rec. \<exists>cursor. decode_record pe (parse_cursor pe) rec = Inr cursor
        \<and> (\<exists>ob \<in> set (pc_objects prepared). is_transcript_object ob
             \<and> (\<exists>t. transcript_complete pe io cand (pc_objects prepared) ob t
                  \<and> tr_adapter_id t = dc_adapter_id cursor
                  \<and> tr_adapter_version t = dc_adapter_version cursor)))
      (filter (\<lambda>rec. er_kind rec = Dependency) (cand_records cand))"
proof -
  obtain obs where obs: "pc_objects prepared = sort_key (\<lambda>ob. lo_object_id (po_descriptor ob)) obs"
    and closed: "validate_dependency_closure pe io cand obs = Inr ()"
    using run
  proof
    assume "prepare_frozen_shared pe io cand subject kept r = (Inr prepared, r')"
    from prepare_shared_closed [OF reference_captures this [unfolded prepare_frozen_shared_def]] that
    show thesis by blast
  next
    assume "prepare_complete_shared pe io cand subject closure r = (Inr prepared, r')"
    then obtain n where "prepare_shared pe io True (copy_artifact pe io) cand subject closure n
         (r\<lparr>pr_capture_bytes := pr_capture_bytes r + n\<rparr>) = (Inr prepared, r')"
      by (rule complete_shared_run)
    from prepare_shared_closed [OF copy_captures this] that show thesis by blast
  qed
  note facts = dependency_closure_ok [OF closed]
  have "length (filter is_transcript_object (pc_objects prepared)) = length (filter is_transcript_object obs)"
    by (simp add: obs filter_sort)
  then show ?thesis using facts by (simp add: obs list_all_iff transcript_complete_sorted)
qed

text \<open>
  Preparing and sealing give back what they reserved.  A preparation that copies its artifacts and
  fails leaves the process ledger as it found it; one that succeeds holds exactly the bytes of its
  reservation, and the sealing of the candidate, which ends its life, restores the ledger, whether
  it succeeds or not.
\<close>

theorem preparation_returns_bytes:
  assumes "prepare_complete_shared pe io cand subject closure r = (result, r')"
  shows "case result of
      Inl e \<Rightarrow> r' = r
    | Inr prepared \<Rightarrow>
        r' = r\<lparr>pr_capture_bytes := pr_capture_bytes r + pc_capture_reservation prepared\<rparr>
        \<and> snd (seal (pe_seal pe) seal_io response now signer public_key prepared r') = r"
proof (cases result)
  case (Inl e)
  then show ?thesis
    using assms unfolding prepare_complete_shared_def closure_artifact_bytes_def prepare_shared_def
    by (auto simp: bind_res_eq_Inr reserve_capture_bytes_def reservation_drop_def wrapping_add_exact limits
        split: sum.splits prod.splits option.splits if_splits)
next
  case (Inr prepared)
  then obtain n where n: "prepare_shared pe io True (copy_artifact pe io) cand subject closure n
       (r\<lparr>pr_capture_bytes := pr_capture_bytes r + n\<rparr>) = (Inr prepared, r')"
    using assms by (auto elim: complete_shared_run)
  have "pc_capture_reservation prepared = n" "r' = r\<lparr>pr_capture_bytes := pr_capture_bytes r + n\<rparr>"
    using n by (auto elim: prepare_shared_run)
  then show ?thesis by (simp add: Inr seal_def reservation_drop_def)
qed

end
