(* ===== verification/Managed_Delivery.thy ===== *)
theory Managed_Delivery
  imports Prepare_Theorems Upload_Theorems
begin

text \<open>
  The delivery of one queued candidate (\<^verbatim>\<open>crates/reproit-sdk-rust/src/managed_sink.rs\<close>,
  \<open>deliver_candidate\<close>): it is prepared from its frozen closure, sealed under a key the service
  grants, its grant renewed, and its ciphertexts uploaded, all within thirty minutes of the moment
  it was queued.  Then what a delivery that reports success has done, from the candidate to the
  service.
\<close>

section \<open>The delivery\<close>

text \<open>The client: the grants beside the ingress.\<close>

record 's delivery_client =
  dv_ingress :: "'s ingress"
  dv_grant :: "grant_request \<Rightarrow> nat \<Rightarrow> 's \<Rightarrow> encryption_response res \<times> 's"

record delivery_context =
  dx_capture_signer_id :: string
  dx_capture_signer_public_key :: bytes
  dx_queued_at :: nat
  dx_workload_key_id :: string
  dx_workload_signing_key :: bytes

text \<open>What the system answers during the stages; \<open>di_now\<close> is the wall clock of the two timestamps.\<close>

record delivery_io =
  di_prepare :: prepare_io
  di_grant_files :: "prepared_path files"
  di_seal :: "prepared_path seal_io"
  di_now :: "nat \<Rightarrow> nat res"

definition request_grant ::
  "'s delivery_client \<Rightarrow> nat option \<Rightarrow> grant_request \<Rightarrow> ('s exchange, encryption_response) act" where
  "request_grant dv deadline request =
     act_bind (deadline_timeout (dv_ingress dv) deadline GRANT_TIMEOUT) (\<lambda>timeout.
       calling (dv_grant dv request timeout) (Granted timeout))"

definition request_encryption_grant_before ::
  "('r, 'n) seal_env \<Rightarrow> 's delivery_client \<Rightarrow> prepared_path files \<Rightarrow> delivery_context \<Rightarrow> nat
     \<Rightarrow> prepared_path prepared_candidate \<Rightarrow> ('s exchange, encryption_response) act" where
  "request_encryption_grant_before cy dv fl dx deadline prepared =
     act_bind (act_res (encryption_grant_request cy fl (dx_workload_key_id dx)
         (dx_workload_signing_key dx) prepared)) (request_grant dv (Some deadline))"

definition request_capture_grant_renewal_before ::
  "('r, 'n) seal_env \<Rightarrow> 's delivery_client \<Rightarrow> delivery_context \<Rightarrow> nat \<Rightarrow> sealed_candidate
     \<Rightarrow> ('s exchange, encryption_response) act" where
  "request_capture_grant_renewal_before cy dv dx deadline sealed =
     act_bind (act_res (renewal_request cy (dx_workload_key_id dx) (dx_workload_signing_key dx) sealed))
       (request_grant dv (Some deadline))"

text \<open>The bytes of a frozen closure stay where they are, so nothing is reserved for a delivery.\<close>

lemma frozen_ledger: "snd (prepare_frozen_shared pe io cand subject closure r) = r"
  unfolding prepare_frozen_shared_def prepare_shared_def
  by (auto simp: reservation_drop_def split: sum.splits prod.splits)

text \<open>\<open>deliver_candidate\<close> up to the sealed candidate, and from there.\<close>

definition deliver_sealed ::
  "('r, 'n) prepare_env \<Rightarrow> 's delivery_client \<Rightarrow> delivery_io \<Rightarrow> delivery_context \<Rightarrow> candidate
     \<Rightarrow> subject_package \<Rightarrow> frozen_closure \<Rightarrow> process_resources \<Rightarrow> nat
     \<Rightarrow> ('s exchange, sealed_candidate) act" where
  "deliver_sealed pe dv io dx cand subject closure r deadline =
     (let check = deadline_check (dv_ingress dv) (Some deadline)
      in act_bind check (\<lambda>_.
         act_bind (act_res (fst (prepare_frozen_shared pe (di_prepare io) cand subject closure r)))
           (\<lambda>prepared.
         act_bind check (\<lambda>_.
         act_bind (request_encryption_grant_before (pe_seal pe) dv (di_grant_files io) dx deadline
             prepared) (\<lambda>grant.
         act_bind check (\<lambda>_.
         act_bind (act_res (di_now io 0)) (\<lambda>now.
           act_res (fst (seal (pe_seal pe) (di_seal io) grant now (dx_capture_signer_id dx)
             (dx_capture_signer_public_key dx) prepared r)))))))))"

definition renewed_candidate ::
  "('r, 'n) seal_env \<Rightarrow> delivery_context \<Rightarrow> encryption_response \<Rightarrow> nat \<Rightarrow> sealed_candidate
     \<Rightarrow> sealed_candidate res" where
  "renewed_candidate cy dx renewal now sealed =
     (case apply_renewed_capture_grant cy renewal now (dx_capture_signer_id dx)
             (dx_capture_signer_public_key dx) sealed of
        (Inl e, _) \<Rightarrow> Inl e
      | (Inr _, renewed) \<Rightarrow> Inr renewed)"

definition deliver_renewed ::
  "('r, 'n) seal_env \<Rightarrow> 's delivery_client \<Rightarrow> delivery_io \<Rightarrow> delivery_context \<Rightarrow> nat
     \<Rightarrow> sealed_candidate \<Rightarrow> ('s exchange, unit) act" where
  "deliver_renewed cy dv io dx deadline sealed =
     (let check = deadline_check (dv_ingress dv) (Some deadline)
      in act_bind check (\<lambda>_.
         act_bind (request_capture_grant_renewal_before cy dv dx deadline sealed) (\<lambda>renewal.
         act_bind (act_res (di_now io 1)) (\<lambda>now.
         act_bind (act_res (renewed_candidate cy dx renewal now sealed)) (\<lambda>renewed.
         act_bind check (\<lambda>_.
         act_bind (upload_before (dv_ingress dv) deadline renewed) (\<lambda>_.
           act_res (Inr ()))))))))"

definition deliver_candidate ::
  "('r, 'n) prepare_env \<Rightarrow> 's delivery_client \<Rightarrow> delivery_io \<Rightarrow> delivery_context \<Rightarrow> candidate
     \<Rightarrow> subject_package \<Rightarrow> frozen_closure \<Rightarrow> process_resources \<Rightarrow> ('s exchange, unit) act" where
  "deliver_candidate pe dv io dx cand subject closure r =
     (let deadline = deadline_from_queued_at (dx_queued_at dx)
      in act_bind (deliver_sealed pe dv io dx cand subject closure r deadline)
           (deliver_renewed (pe_seal pe) dv io dx deadline))"

section \<open>Requests in time\<close>

text \<open>Every request follows a reading of the clock and ends before the deadline.\<close>

definition timely :: "nat \<Rightarrow> delivery_event list \<Rightarrow> bool" where
  "timely deadline es \<longleftrightarrow>
     (\<forall>i < length es. \<forall>t. timeout_of (es ! i) = Some t \<longrightarrow>
        0 < i \<and> 0 < t \<and> t \<le> COMMIT_TIMEOUT_CAP
        \<and> (\<exists>now. es ! (i - 1) = ClockRead now \<and> now + t \<le> deadline))"

lemma timely_nil: "timely deadline []"
  by (simp add: timely_def)

lemma timely_append:
  assumes "timely deadline es" "timely deadline es'"
  shows "timely deadline (es @ es')"
  unfolding timely_def
proof (intro allI impI)
  fix i t assume i: "i < length (es @ es')" and t: "timeout_of ((es @ es') ! i) = Some t"
  show "0 < i \<and> 0 < t \<and> t \<le> COMMIT_TIMEOUT_CAP
    \<and> (\<exists>now. (es @ es') ! (i - 1) = ClockRead now \<and> now + t \<le> deadline)"
  proof (cases "i < length es")
    case True
    then have "i - 1 < length es" by simp
    then show ?thesis using assms(1) t True by (simp add: timely_def nth_append)
  next
    case False
    then obtain j where "i = length es + j" by (metis le_Suc_ex not_less)
    moreover from this have "0 < j" using assms(2) i t by (auto simp: timely_def)
    then obtain k where "j = Suc k" by (metis gr0_implies_Suc)
    ultimately show ?thesis using assms(2) i t by (auto simp: timely_def nth_append)
  qed
qed

lemma paced_timely:
  assumes "paced (Some deadline) wait es" "0 < wait" "wait \<le> COMMIT_TIMEOUT_CAP"
  shows "timely deadline es"
  unfolding timely_def
proof (intro allI impI)
  fix i t assume i: "i < length es" and t: "timeout_of (es ! i) = Some t"
  have "0 < longest wait e" "longest wait e \<le> COMMIT_TIMEOUT_CAP" for e
    using assms(2,3) by (cases e; simp add: limits)+
  with paced_nth [OF assms(1) i t] show "0 < i \<and> 0 < t \<and> t \<le> COMMIT_TIMEOUT_CAP
    \<and> (\<exists>now. es ! (i - 1) = ClockRead now \<and> now + t \<le> deadline)"
    by (fastforce simp: min_def split: if_splits)
qed

lemma commit_wait_bounds: "0 < commit_wait sealed" "commit_wait sealed \<le> COMMIT_TIMEOUT_CAP"
  using commit_timeout_bounds [of "ci_total_ciphertext_bytes (ur_ciphertext_identity (sc_request sealed))"]
  by (simp_all add: commit_wait_def limits)

abbreviation keeps_time :: "nat \<Rightarrow> ('s exchange \<Rightarrow> 'a \<times> 's exchange) \<Rightarrow> bool" where
  "keeps_time deadline m \<equiv> emits m (\<lambda>_. timely deadline)"

named_theorems time_intros \<open>steps whose requests end in time\<close>

lemma keeps_time_bind [time_intros]:
  assumes "keeps_time deadline m" "\<And>x. keeps_time deadline (f x)"
  shows "keeps_time deadline (act_bind m f)"
  by (rule emits_mono [OF emits_bind [OF assms]]) (auto intro: timely_append)

lemma keeps_time_res [time_intros]: "keeps_time deadline (act_res r)"
  by (rule emits_mono [OF emits_res]) (simp add: timely_nil)

lemma keeps_time_check [time_intros]: "keeps_time deadline (deadline_check ig (Some deadline))"
  unfolding deadline_check_def
  by (rule emits_mono [OF emits_timeout])
    (rule paced_timely [OF timed_paced commit_wait_bounds])

lemma keeps_time_grant [time_intros]: "keeps_time deadline (request_grant dv (Some deadline) request)"
  unfolding request_grant_def
proof (rule emits_mono [OF emits_bind [OF emits_timeout emits_calling]], elim disjE exE conjE)
  fix r es e
  assume "timed (Some deadline) GRANT_TIMEOUT (Inl e) es"
  then show "timely deadline es" by (rule paced_timely [OF timed_paced commit_wait_bounds])
next
  fix r :: "encryption_response res" and es t es1 es2
  assume "es = es1 @ es2" "timed (Some deadline) GRANT_TIMEOUT (Inr t) es1" "es2 = [Granted t r]"
  then show "timely deadline es"
    using timed_request [of "Some deadline" COMMIT_TIMEOUT_CAP "Granted t r" t es1]
      paced_timely [of deadline COMMIT_TIMEOUT_CAP] by (simp add: limits)
qed

lemma keeps_time_upload [time_intros]: "keeps_time deadline (upload_before ig deadline sealed)"
  unfolding upload_before_def
  by (rule emits_mono [OF upload_within_trace])
    (blast intro: paced_timely upload_paced commit_wait_bounds)

lemma keeps_time_delivery:
  "keeps_time (deadline_from_queued_at (dx_queued_at dx)) (deliver_candidate pe dv io dx cand subject closure r)"
  unfolding deliver_candidate_def deliver_sealed_def deliver_renewed_def Let_def
    request_encryption_grant_before_def request_capture_grant_renewal_before_def
  by (intro time_intros)

section \<open>Properties\<close>

text \<open>
  C19: A delivery ends in time.  Every request of a delivery, for the key, the grant and the upload,
  directly follows a reading of the clock; it waits for at most three minutes and no longer than
  the deadline, which is thirty minutes after the candidate was queued.
\<close>

theorem delivery_ends_in_time:
  assumes "deliver_candidate pe dv io dx cand subject closure r \<lparr>ex_world = w, ex_log = []\<rparr> = (result, s)"
    and "i < length (ex_log s)" "timeout_of (ex_log s ! i) = Some t"
  shows "0 < i \<and> 0 < t \<and> t \<le> 180 * NANOS
    \<and> (\<exists>now. ex_log s ! (i - 1) = ClockRead now \<and> now + t \<le> dx_queued_at dx + 1800 * NANOS)"
proof -
  have "timely (deadline_from_queued_at (dx_queued_at dx)) (ex_log s)"
    using emitsE [OF keeps_time_delivery assms(1)] by auto
  moreover have "deadline_from_queued_at (dx_queued_at dx) \<le> dx_queued_at dx + 1800 * NANOS"
    by (simp add: deadline_from_queued_at_def limits Let_def)
  ultimately show ?thesis using assms(2,3) by (fastforce simp: timely_def limits)
qed

lemma act_res_InrE: "act_res r s = (Inr x, s') \<Longrightarrow> r = Inr x \<and> s' = s"
  by (simp add: act_res_def)

lemma deliver_sealed_run:
  assumes "deliver_sealed pe dv io dx cand subject closure r deadline s = (Inr sealed, s')"
  obtains prepared response now where
    "prepare_frozen_shared pe (di_prepare io) cand subject closure r = (Inr prepared, r)"
    "seal (pe_seal pe) (di_seal io) response now (dx_capture_signer_id dx)
       (dx_capture_signer_public_key dx) prepared r
     = (Inr sealed, snd (seal (pe_seal pe) (di_seal io) response now (dx_capture_signer_id dx)
       (dx_capture_signer_public_key dx) prepared r))"
  using assms frozen_ledger [of pe "di_prepare io" cand subject closure r]
  unfolding deliver_sealed_def Let_def
  by (force elim!: act_bind_InrE dest!: act_res_InrE simp: prod_eq_iff)

lemma deliver_renewed_run:
  assumes "deliver_renewed cy dv io dx deadline sealed s = (Inr x, s')"
  obtains renewal now renewed commit before log where
    "renewed_candidate cy dx renewal now sealed = Inr renewed"
    "ex_log s' = before @ log" "upload_complete (dv_ingress dv) renewed commit log"
proof -
  obtain renewal now renewed s1 commit s2 where
    renewed: "renewed_candidate cy dx renewal now sealed = Inr renewed" and
    run: "upload_before (dv_ingress dv) deadline renewed s1 = (Inr commit, s2)" "s' = s2"
    using assms unfolding deliver_renewed_def Let_def
    by (auto elim!: act_bind_InrE dest!: act_res_InrE)
  obtain log where "ex_log s2 = ex_log s1 @ log" "upload_trace (dv_ingress dv) (Some deadline) renewed (Inr commit) log"
    by (rule emitsE [OF upload_within_trace run(1) [unfolded upload_before_def]])
  then show thesis using that [OF renewed] run(2) trace_complete by blast
qed

text \<open>A renewal changes nothing but the grant.\<close>

lemma renewed_candidate_parts:
  assumes "renewed_candidate cy dx renewal now sealed = Inr renewed"
  shows "renewed = sealed\<lparr>sc_request := (sc_request sealed)\<lparr>ur_capture_grant := rs_capture_grant renewal\<rparr>\<rparr>"
    and "rs_candidate_key renewal = sc_candidate_key sealed"
  using assms unfolding renewed_candidate_def apply_renewed_capture_grant_def Let_def
  by (auto simp: bind_res_eq_Inr split: prod.splits sum.splits if_splits)

text \<open>
  C12: A delivered candidate is all there, and readable.  When \<open>deliver_candidate\<close> succeeds, the
  candidate was prepared whole: one object for each of its parts and for every artifact its World
  names.  It was sealed so that the key of the response opens every object to the bytes its source
  held.  What was uploaded is the sealed candidate, with another grant for the same capture key, and
  the upload is complete: the service has all it asked for and committed it.  This holds for any
  service, clock, files and order of the upload threads.
\<close>

theorem delivered_candidate_complete:
  assumes rx: "receives rx (pe_seal pe)"
    and run: "deliver_candidate pe dv io dx cand subject closure r \<lparr>ex_world = w, ex_log = []\<rparr> = (Inr (), s)"
  shows "\<exists>prepared (response :: encryption_response) sealed (renewal :: encryption_response) commit before log.
    candidate_whole pe (di_prepare io) cand (cl_world (fz_closure closure)) prepared
    \<and> list_all2 (\<lambda>ob eo. \<exists>data. object_bytes (di_seal io) ob = Some data
        \<and> opens_to (pe_seal pe) rx (rs_candidate_key response) (pc_identity prepared) (sc_spool sealed)
            eo (po_descriptor ob) data)
      (pc_objects prepared) (ci_objects (ur_ciphertext_identity (sc_request sealed)))
    \<and> rs_candidate_key renewal = rs_candidate_key response
    \<and> ex_log s = before @ log
    \<and> upload_complete (dv_ingress dv)
        (sealed\<lparr>sc_request := (sc_request sealed)\<lparr>ur_capture_grant := rs_capture_grant renewal\<rparr>\<rparr>)
        commit log"
proof -
  obtain sealed s1 where
    first: "deliver_sealed pe dv io dx cand subject closure r (deadline_from_queued_at (dx_queued_at dx))
      \<lparr>ex_world = w, ex_log = []\<rparr> = (Inr sealed, s1)" and
    rest: "deliver_renewed (pe_seal pe) dv io dx (deadline_from_queued_at (dx_queued_at dx)) sealed s1
      = (Inr (), s)"
    using run unfolding deliver_candidate_def Let_def by (rule act_bind_InrE)
  obtain prepared response now where
    prepared: "prepare_frozen_shared pe (di_prepare io) cand subject closure r = (Inr prepared, r)" and
    sealed: "seal (pe_seal pe) (di_seal io) response now (dx_capture_signer_id dx)
       (dx_capture_signer_public_key dx) prepared r
     = (Inr sealed, snd (seal (pe_seal pe) (di_seal io) response now (dx_capture_signer_id dx)
       (dx_capture_signer_public_key dx) prepared r))"
    by (rule deliver_sealed_run [OF first])
  obtain renewal now' renewed commit before log where
    renewed: "renewed_candidate (pe_seal pe) dx renewal now' sealed = Inr renewed" and
    log: "ex_log s = before @ log" "upload_complete (dv_ingress dv) renewed commit log"
    by (rule deliver_renewed_run [OF rest])
  note whole = prepare_shared_whole [OF reference_captures prepared [unfolded prepare_frozen_shared_def]]
  note opens = seal_opens [OF rx sealed, THEN conjunct1]
  have key: "rs_candidate_key renewal = rs_candidate_key response"
    using renewed_candidate_parts(2) [OF renewed] sealed_key [OF sealed] by simp
  show ?thesis
    using whole opens key log(1) log(2) [unfolded renewed_candidate_parts(1) [OF renewed]] by blast
qed

end
