(* ===== verification/Delivery_Witnesses.thy ===== *)
theory Delivery_Witnesses
  imports Managed_Witnesses Managed_Delivery
begin

text \<open>
  A candidate with an input, a dependency and a failure, whose World names one artifact, prepared
  from copied and from frozen artifacts, and delivered to a service that asks for all ciphertexts.
  The witnesses of the properties of preparation and delivery apply them to it.
\<close>

section \<open>Preparation\<close>

definition demo_interaction :: interaction where
  "demo_interaction = \<lparr>in_causal_parent_id = None, in_operation_id = OperationId 7,
     in_outcome = OutcomeResponse, in_request_digest = Digest 2, in_request_object_id = 22,
     in_response_digest = Digest 3, in_response_object_id = 23, in_sequence = 0,
     in_session_position = 0\<rparr>"

definition demo_transcript_env :: "bytes world_env" where
  "demo_transcript_env = (se_world demo_seal_env)\<lparr>transcript_codec := demo_codec
     (\<lambda>_. \<lparr>tr_adapter_id = ''pg'', tr_adapter_version = ''1'', tr_interactions = [demo_interaction]\<rparr>)
     (\<lambda>_. [1])\<rparr>"

definition demo_prepare_env :: "(bytes, bytes list) prepare_env" where
  "demo_prepare_env =
     \<lparr>pe_seal = demo_seal_env\<lparr>se_world := demo_transcript_env\<rparr>, failure_object_id = (\<lambda>_. 9),
      digest_candidate = (\<lambda>_. Inr (Digest 31)), digest_package = (\<lambda>_. Inr (Digest 30)),
      digest_deployment = (\<lambda>_. Inr (Digest 32)), canonical_package = (\<lambda>_. Inr [1, 2, 3, 4, 5]),
      canonical_world = (\<lambda>_. Inr [1, 2, 3, 4, 5, 6]), canonical_trigger = (\<lambda>_. Inr [1, 2, 3, 4, 5, 6, 7]),
      canonical_failure = (\<lambda>_. Inr [1, 2, 3, 4, 5, 6, 7, 8]), validate_package = (\<lambda>_. Inr ()),
      validate_trigger = (\<lambda>_. Inr ()), decode_payload = (\<lambda>t. Inr (replicate (length t) 0)),
      parse_begin = (\<lambda>_. Inr \<lparr>bs_adapter_id = ''axum'', bs_adapter_version = ''1'',
        bs_causal_parent_ids = [], bs_operation_kind = RequestResponse, bs_operation_name = ''orders''\<rparr>),
      parse_input = (\<lambda>_. Inr \<lparr>is_channel = ''body'', is_content_type = ''i'', is_value = ''12345678901'',
        is_value_digest = Digest 11\<rparr>),
      parse_failure = (\<lambda>_. Inr demo_failure),
      parse_cursor = (\<lambda>_. Inr \<lparr>dc_adapter_id = ''pg'', dc_adapter_version = ''1'',
        dc_causal_parent_id = None, dc_cursor = [], dc_cursor_digest = Digest 0\<rparr>)\<rparr>"

definition prepare_record :: "event_kind \<Rightarrow> nat \<Rightarrow> event_record" where
  "prepare_record kind n = \<lparr>er_kind = kind, er_payload = ''p'', er_sequence = n\<rparr>"

definition prepare_candidate :: candidate where
  "prepare_candidate = demo_candidate\<lparr>cand_records :=
     [prepare_record Begin 0, prepare_record Input 1, prepare_record Dependency 2, prepare_record Failure 3],
     cand_world_id := Digest 11\<rparr>"

definition demo_package :: subject_package where
  "demo_package = \<lparr>sp_manifest = \<lparr>pm_architecture = ''x'', pm_operating_system = ''l'', pm_arguments = [],
      pm_environment_names = [], pm_executable = ''app'', pm_working_directory = ''w'',
      pm_objects = [\<lparr>do_digest = Digest 12, do_media_type = ''elf'', do_size = 12\<rparr>], pm_rest = []\<rparr>,
     sp_objects = [\<lparr>pk_digest = Digest 12, pk_path = ''app'', pk_size = 12\<rparr>]\<rparr>"

text \<open>Four artifacts: the World's, the transcript, and the request and response it names.\<close>

definition demo_artifacts :: "(nat \<Rightarrow> 'p) \<Rightarrow> 'p candidate_artifact list" where
  "demo_artifacts path =
     [\<lparr>ca_media_type = ''a'', ca_object_id = 21, ca_path = path 1, ca_role = WorldStateRole, ca_uri = ''u''\<rparr>,
      \<lparr>ca_media_type = ''q'', ca_object_id = 22, ca_path = path 2, ca_role = DependencyTranscriptRole,
       ca_uri = ''q''\<rparr>,
      \<lparr>ca_media_type = ''r'', ca_object_id = 23, ca_path = path 3, ca_role = DependencyTranscriptRole,
       ca_uri = ''r''\<rparr>,
      \<lparr>ca_media_type = DEPENDENCY_TRANSCRIPT_MEDIA_TYPE, ca_object_id = 24, ca_path = path 10,
       ca_role = DependencyTranscriptRole, ca_uri = ''t''\<rparr>]"

definition prepare_closure :: "(nat \<Rightarrow> 'p) \<Rightarrow> 'p capture_closure" where
  "prepare_closure path = \<lparr>cl_artifacts = demo_artifacts path, cl_completion = Return,
     cl_world = cl_world demo_closure\<rparr>"

definition demo_frozen :: frozen_closure where
  "demo_frozen = \<lparr>fz_closure = prepare_closure Digest, fz_reservation = 0, fz_spool = (\<lambda>_. None)\<rparr>"

text \<open>Files that do not change; the size of each is known from its path.\<close>

definition steady :: "('p \<Rightarrow> nat) \<Rightarrow> 'p files" where
  "steady bytes =
     \<lparr>fl_stat = (\<lambda>_ f. Some \<lparr>fs_is_file = True, fs_len = bytes f, fs_modified = Some 0\<rparr>),
      fl_pass = (\<lambda>_ f. Some [Some (replicate (bytes f) 0)]), fl_read = (\<lambda>_ f. Some (replicate (bytes f) 0))\<rparr>"

fun prepared_size :: "prepared_path \<Rightarrow> nat" where
  "prepared_size (SubjectFile name) = 12"
| "prepared_size (FrozenFile d) = digest_num d"
| "prepared_size (CopiedFile d) = digest_num d"

fun spool_size :: "spool_file \<Rightarrow> nat" where
  "spool_size (ResponseFile n) = n"
| "spool_size _ = 1"

definition demo_prepare_io :: prepare_io where
  "demo_prepare_io = \<lparr>pi_object_id = (\<lambda>n. Inr n), pi_directory = True,
     pi_copy = demo_freeze_io\<lparr>fi_source := steady spool_size\<rparr>, pi_frozen = steady digest_num,
     pi_read = (\<lambda>path. Some (replicate (prepared_size path) 0)), pi_files = steady prepared_size\<rparr>"

text \<open>The objects as they are pushed, a step at a time.\<close>

abbreviation "dpe \<equiv> demo_prepare_env"
abbreviation "dio \<equiv> demo_prepare_io"

definition pushed0 :: prepare_state where
  "pushed0 = \<lparr>pr_objects = [], pr_drawn = 0, pr_store = (\<lambda>_. None)\<rparr>"
definition pushed1 :: prepare_state where
  "pushed1 = snd (push_bytes dpe 0 CandidateRole CANDIDATE_MEDIA_TYPE [7, 7, 7, 7] (pushed0\<lparr>pr_drawn := 1\<rparr>))"
definition pushed2 :: prepare_state where
  "pushed2 = snd (push_subject dpe dio demo_package pushed1)"
definition pushed3 :: prepare_state where
  "pushed3 = snd (push_trigger_and_inputs dpe dio prepare_candidate Return pushed2)"
definition pushed4 :: prepare_state where
  "pushed4 = snd (push_failure dpe prepare_candidate pushed3)"
definition pushed5 :: prepare_state where
  "pushed5 = snd (push_bytes dpe (pr_drawn pushed4) WorldManifestRole WORLD_MANIFEST_MEDIA_TYPE
     [1, 2, 3, 4, 5, 6] (pushed4\<lparr>pr_drawn := Suc (pr_drawn pushed4)\<rparr>))"
definition pushed_frozen :: prepare_state where
  "pushed_frozen = snd (push_capture_artifacts dpe dio (reference_artifact dpe dio) prepare_candidate
     (cl_world demo_closure) (demo_artifacts Digest) pushed5)"
definition pushed_copied :: prepare_state where
  "pushed_copied = snd (push_capture_artifacts dpe dio (copy_artifact dpe dio) prepare_candidate
     (cl_world demo_closure) (demo_artifacts ResponseFile) pushed5)"

lemma ok_unit: "is_ok (fst run) \<Longrightarrow> run = (Inr (), snd run)"
  by (cases run; cases "fst run") auto

lemma ok_projr: "is_ok r \<Longrightarrow> r = Inr (projr r)"
  by (cases r) auto

lemma pushed1_ok: "is_ok (fst (push_bytes dpe 0 CandidateRole CANDIDATE_MEDIA_TYPE [7, 7, 7, 7]
    (pushed0\<lparr>pr_drawn := 1\<rparr>)))"
  by code_simp

lemma pushed2_ok: "is_ok (fst (push_subject dpe dio demo_package pushed1))"
  by code_simp

lemma pushed3_ok: "is_ok (fst (push_trigger_and_inputs dpe dio prepare_candidate Return pushed2))"
  by code_simp

lemma pushed4_ok: "is_ok (fst (push_failure dpe prepare_candidate pushed3))"
  by code_simp

lemma pushed5_ok: "is_ok (fst (push_bytes dpe (pr_drawn pushed4) WorldManifestRole
    WORLD_MANIFEST_MEDIA_TYPE [1, 2, 3, 4, 5, 6] (pushed4\<lparr>pr_drawn := Suc (pr_drawn pushed4)\<rparr>)))"
  by code_simp

lemma pushed_frozen_ok: "is_ok (fst (push_capture_artifacts dpe dio (reference_artifact dpe dio)
    prepare_candidate (cl_world demo_closure) (demo_artifacts Digest) pushed5))"
  by code_simp

lemma pushed_copied_ok: "is_ok (fst (push_capture_artifacts dpe dio (copy_artifact dpe dio)
    prepare_candidate (cl_world demo_closure) (demo_artifacts ResponseFile) pushed5))"
  by code_simp

lemma pushes_all:
  assumes "push_capture_artifacts dpe dio capture prepare_candidate (cl_world demo_closure)
    (demo_artifacts path) pushed5 = (Inr (), s)"
  shows "push_objects dpe dio capture prepare_candidate demo_package (prepare_closure path)
    \<lparr>pr_objects = [], pr_drawn = 0, pr_store = (\<lambda>_. None)\<rparr> = (Inr (), s)"
proof -
  have ids: "new_object_id dio s = (Inr (pr_drawn s), s\<lparr>pr_drawn := Suc (pr_drawn s)\<rparr>)" for s
    by (simp add: new_object_id_def demo_prepare_io_def)
  have cand: "canonical_candidate (we_core (pe_world dpe)) prepare_candidate = Inr [7, 7, 7, 7]"
    by code_simp
  have world: "canonical_world dpe w = Inr [1, 2, 3, 4, 5, 6]" for w
    by (simp add: demo_prepare_env_def)
  note steps = ok_unit [OF pushed1_ok, folded pushed1_def] ok_unit [OF pushed2_ok, folded pushed2_def]
    ok_unit [OF pushed3_ok, folded pushed3_def] ok_unit [OF pushed4_ok, folded pushed4_def]
    ok_unit [OF pushed5_ok, folded pushed5_def]
  show ?thesis
    using assms unfolding push_objects_def
    by (simp add: act_bind_def act_res_def ids cand world steps prepare_closure_def
        steps(1) [unfolded pushed0_def, simplified])
qed

definition in_order :: "prepare_state \<Rightarrow> object list" where
  "in_order s = sort_key (\<lambda>ob. lo_object_id (po_descriptor ob)) (pr_objects s)"

lemma checks_pass:
  "check_candidate dpe prepare_candidate demo_package (cl_world demo_closure) = Inr ()"
  "verify_local_closure (pe_seal dpe) (pi_files dio) (in_order pushed_frozen) = Inr ()"
  "verify_local_closure (pe_seal dpe) (pi_files dio) (in_order pushed_copied) = Inr ()"
  "is_ok (identify dpe prepare_candidate demo_package (in_order pushed_frozen))"
  "is_ok (identify dpe prepare_candidate demo_package (in_order pushed_copied))"
  by code_simp+

definition prepared_of :: "prepare_state \<Rightarrow> nat \<Rightarrow> prepared_path prepared_candidate" where
  "prepared_of s held = \<lparr>pc_identity = projr (identify dpe prepare_candidate demo_package (in_order s)),
     pc_objects = in_order s, pc_capture_reservation = held\<rparr>"

lemma prepares:
  assumes "push_objects dpe dio capture prepare_candidate demo_package (prepare_closure path)
      \<lparr>pr_objects = [], pr_drawn = 0, pr_store = (\<lambda>_. None)\<rparr> = (Inr (), s)"
    and "verify_local_closure (pe_seal dpe) (pi_files dio) (in_order s) = Inr ()"
    and "is_ok (identify dpe prepare_candidate demo_package (in_order s))"
  shows "prepare_shared dpe dio copying capture prepare_candidate demo_package (prepare_closure path) held r
    = (Inr (prepared_of s held), r)"
proof -
  have "pi_directory dio" by (simp add: demo_prepare_io_def)
  moreover have "cl_world (prepare_closure path) = cl_world demo_closure"
    by (simp add: prepare_closure_def)
  moreover obtain identity where "identify dpe prepare_candidate demo_package (in_order s) = Inr identity"
    using ok_projr [OF assms(3)] ..
  ultimately show ?thesis
    using assms(1,2) checks_pass(1)
    unfolding prepare_shared_def prepare_checked_def Let_def in_order_def [symmetric]
    by (simp add: prepared_of_def in_order_def [symmetric])
qed

lemma prepares_frozen:
  "prepare_frozen_shared dpe dio prepare_candidate demo_package demo_frozen r
     = (Inr (prepared_of pushed_frozen 0), r)"
  using prepares [OF pushes_all [OF ok_unit [OF pushed_frozen_ok, folded pushed_frozen_def]] checks_pass(2,4)]
  by (simp add: prepare_frozen_shared_def demo_frozen_def)

lemma prepares_copied:
  "prepare_complete_shared dpe dio prepare_candidate demo_package (prepare_closure ResponseFile) new_resources
     = (Inr (prepared_of pushed_copied 16), new_resources\<lparr>pr_capture_bytes := 16\<rparr>)"
proof -
  have "closure_artifact_bytes (fi_source (pi_copy dio)) (prepare_closure ResponseFile) = Inr 16"
    by code_simp
  moreover have "reserve_capture_bytes 0 16 new_resources = (True, 16, new_resources\<lparr>pr_capture_bytes := 16\<rparr>)"
    by (simp add: reserve_capture_bytes_def new_resources_def limits wrapping_add_exact checked_add_def)
  ultimately show ?thesis
    using prepares [OF pushes_all [OF ok_unit [OF pushed_copied_ok, folded pushed_copied_def]] checks_pass(3,5)]
    by (simp add: prepare_complete_shared_def)
qed

theorem prepared_candidate_whole_witness:
  "candidate_whole dpe dio prepare_candidate (cl_world demo_closure) (prepared_of pushed_frozen 0)
    \<and> candidate_whole dpe dio prepare_candidate (cl_world demo_closure) (prepared_of pushed_copied 16)"
proof -
  have worlds: "cl_world demo_closure = cl_world (fz_closure demo_frozen)"
    "cl_world demo_closure = cl_world (prepare_closure ResponseFile)"
    by (simp_all add: demo_frozen_def prepare_closure_def)
  show ?thesis
    using prepared_candidate_whole [OF disjI1 [OF conjI [OF prepares_frozen worlds(1)]]]
      prepared_candidate_whole [OF disjI2 [OF conjI [OF prepares_copied worlds(2)]]] by blast
qed

theorem prepared_dependencies_closed_witness:
  "length (filter is_transcript_object (pc_objects (prepared_of pushed_frozen 0))) = 1"
proof -
  have "length (filter (\<lambda>rec. er_kind rec = Dependency) (cand_records prepare_candidate)) = 1"
    by code_simp
  then show ?thesis
    using prepared_dependencies_closed [OF disjI1 [OF prepares_frozen]] by simp
qed

definition demo_delivery_seal :: "prepared_path seal_io" where
  "demo_delivery_seal = \<lparr>si_files = steady prepared_size,
     si_stream = (\<lambda>path. Some (replicate (prepared_size path) 0, False)), si_directory = True,
     si_nonce = (\<lambda>k. Some [word_of_nat k]), si_write = (\<lambda>_. True), si_object_id = Inr 99\<rparr>"

theorem preparation_returns_bytes_witness:
  "snd (seal (pe_seal dpe) demo_delivery_seal demo_response 0 [] [] (prepared_of pushed_copied 16)
      (new_resources\<lparr>pr_capture_bytes := 16\<rparr>)) = new_resources"
  using preparation_returns_bytes [OF prepares_copied,
    of demo_delivery_seal demo_response 0 "[]" "[]", unfolded sum.case, THEN conjunct2] .

section \<open>Delivery\<close>

text \<open>A service that asks for all the ciphertexts of the request, each once.\<close>

definition demo_service :: "nat ingress" where
  "demo_service = \<lparr>in_start = (\<lambda>request _ n. (Inr (demo_start\<lparr>us_missing_objects :=
       map (\<lambda>d. \<lparr>ms_cipher_digest = d, ms_upload_url = ''u''\<rparr>) (remdups (map ec_cipher_digest
         (declared_chunks (ur_ciphertext_identity request)))), us_next_missing_cursor := None\<rparr>), n)),
     in_missing = (\<lambda>_ _ _ _ n. (Inl ServiceUnavailable, n)),
     in_upload_object = (\<lambda>_ _ _ _ n. (Inr (), Suc n)),
     in_commit = (\<lambda>_ _ _ n. (Inr demo_commit, n)), in_cancel = (\<lambda>_ _ _ n. (Inr (), n)),
     in_now = (\<lambda>n. (7, n)), in_read = (\<lambda>d n. (Some (replicate (digest_num d) 0), n)),
     in_schedule = (\<lambda>n. (n, n)), in_digest = (\<lambda>b. Digest (length b))\<rparr>"

definition demo_client :: "nat delivery_client" where
  "demo_client = \<lparr>dv_ingress = demo_service, dv_grant = (\<lambda>_ _ n. (Inr demo_response, n))\<rparr>"

definition demo_delivery_io :: delivery_io where
  "demo_delivery_io = \<lparr>di_prepare = dio, di_grant_files = steady prepared_size,
     di_seal = demo_delivery_seal, di_now = (\<lambda>_. Inr 0)\<rparr>"

definition demo_dx :: delivery_context where
  "demo_dx = \<lparr>dx_capture_signer_id = ''signer'', dx_capture_signer_public_key = [],
     dx_queued_at = 0, dx_workload_key_id = ''key'', dx_workload_signing_key = []\<rparr>"

definition shipped :: sealed_candidate where
  "shipped = projr (seal_checked (pe_seal dpe) demo_delivery_seal demo_response 0 ''signer'' []
     (prepared_of pushed_frozen 0))"

lemma ships: "is_ok (seal_checked (pe_seal dpe) demo_delivery_seal demo_response 0 ''signer'' []
     (prepared_of pushed_frozen 0))"
  by code_simp

definition renewed :: sealed_candidate where
  "renewed = projr (renewed_candidate (pe_seal dpe) demo_dx demo_response 0 shipped)"

lemma renews: "is_ok (renewed_candidate (pe_seal dpe) demo_dx demo_response 0 shipped)"
  by code_simp

lemma grants:
  "is_ok (encryption_grant_request (pe_seal dpe) (steady prepared_size) ''key'' []
     (prepared_of pushed_frozen 0))"
  "is_ok (renewal_request (pe_seal dpe) ''key'' [] shipped)"
  by code_simp+

definition before_upload :: "nat exchange" where
  "before_upload = \<lparr>ex_world = 0, ex_log = [ClockRead 7, ClockRead 7, ClockRead 7,
     Granted GRANT_TIMEOUT (Inr demo_response), ClockRead 7, ClockRead 7, ClockRead 7,
     Granted GRANT_TIMEOUT (Inr demo_response), ClockRead 7]\<rparr>"

lemma uploads: "is_ok (fst (upload_before demo_service 1800000000000 renewed before_upload))"
  by code_simp

definition demo_delivery :: "unit res \<times> nat exchange" where
  "demo_delivery = deliver_candidate dpe demo_client demo_delivery_io demo_dx prepare_candidate
     demo_package demo_frozen new_resources \<lparr>ex_world = 0, ex_log = []\<rparr>"

lemma demo_delivers:
  "demo_delivery
     = (Inr (), snd (upload_before demo_service 1800000000000 renewed before_upload))"
proof -
  have deadline: "deadline_from_queued_at (dx_queued_at demo_dx) = 1800000000000"
    by (simp add: deadline_from_queued_at_def demo_dx_def limits)
  have timeout: "deadline_timeout demo_service (Some 1800000000000) maximum s
      = (Inr (min maximum (1800000000000 - 7)), s\<lparr>ex_log := ex_log s @ [ClockRead 7]\<rparr>)" for maximum s
    by (simp add: deadline_timeout_def calling_def demo_service_def)
  have grant: "calling (dv_grant demo_client request t) (Granted t) s
      = (Inr demo_response, s\<lparr>ex_log := ex_log s @ [Granted t (Inr demo_response)]\<rparr>)" for request t s
    by (simp add: calling_def demo_client_def)
  have io: "di_prepare demo_delivery_io = dio" "di_grant_files demo_delivery_io = steady prepared_size"
    "di_seal demo_delivery_io = demo_delivery_seal" "di_now demo_delivery_io k = Inr 0"
    "dv_ingress demo_client = demo_service" "dx_workload_key_id demo_dx = ''key''"
    "dx_workload_signing_key demo_dx = []" "dx_capture_signer_id demo_dx = ''signer''"
    "dx_capture_signer_public_key demo_dx = []" for k
    by (simp_all add: demo_delivery_io_def demo_client_def demo_dx_def)
  obtain request request' where
    requests: "encryption_grant_request (pe_seal dpe) (steady prepared_size) ''key'' []
       (prepared_of pushed_frozen 0) = Inr request"
    "renewal_request (pe_seal dpe) ''key'' [] shipped = Inr request'"
    using grants [THEN ok_projr] by blast
  note made = ok_projr [OF ships, folded shipped_def] ok_projr [OF renews, folded renewed_def]
  obtain commit s where upload: "upload_before demo_service 1800000000000 renewed before_upload = (Inr commit, s)"
    using ok_projr [OF uploads] by (metis prod.collapse)
  show ?thesis
    unfolding demo_delivery_def deliver_candidate_def deliver_sealed_def deliver_renewed_def Let_def
      request_encryption_grant_before_def request_capture_grant_renewal_before_def request_grant_def
      deadline deadline_check_def
    using upload
    by (simp add: act_bind_def act_res_def timeout grant io requests made seal_def prepares_frozen
        before_upload_def limits)
qed

lemma demo_delivery_log: "\<exists>es. ex_log (snd demo_delivery) = ex_log before_upload @ es"
  using emitsE [OF keeps_time_upload, of demo_service 1800000000000 renewed before_upload]
  by (metis demo_delivers prod.collapse snd_conv)

lemma demo_delivery_run:
  "deliver_candidate dpe demo_client demo_delivery_io demo_dx prepare_candidate
     demo_package demo_frozen new_resources \<lparr>ex_world = 0, ex_log = []\<rparr> = (Inr (), snd demo_delivery)"
  using demo_delivers by (simp add: demo_delivery_def [symmetric] prod_eq_iff)

theorem delivery_ends_in_time_witness:
  "\<exists>now. ex_log (snd demo_delivery) ! 2 = ClockRead now \<and> now + GRANT_TIMEOUT \<le> 1800 * NANOS"
proof -
  obtain es where log: "ex_log (snd demo_delivery) = ex_log before_upload @ es"
    using demo_delivery_log ..
  have "3 < length (ex_log (snd demo_delivery))"
    "timeout_of (ex_log (snd demo_delivery) ! 3) = Some GRANT_TIMEOUT"
    by (simp_all add: log before_upload_def)
  from delivery_ends_in_time [OF demo_delivery_run this] show ?thesis
    by (simp add: demo_dx_def)
qed

theorem delivered_candidate_complete_witness:
  "\<exists>log sealed commit. upload_complete demo_service sealed commit log"
proof -
  have "receives demo_receiver (pe_seal dpe)"
    using demo_receives by (simp add: receives_def demo_prepare_env_def demo_transcript_env_def)
  from delivered_candidate_complete [OF this demo_delivery_run] show ?thesis
    by (auto simp: demo_client_def)
qed

end
