(* ===== verification/Spec2Isabelle.thy ===== *)
theory Spec2Isabelle
  imports Sdk_Theorems Fuzz_Context Response_Capture Sentinel_Coverage World_Witnesses Context_Theorems Failure_Task Engine_Witnesses Operation_Witnesses Registry_Witnesses Delivery_Witnesses
begin

text \<open>
  A verification of the capture core of the Repro It SDK.

  The program.  The Rust SDK runs inside the process of a service.  It records what each operation
  of the service (a request, a job) receives and observes, and when the operation fails it closes
  the records into a candidate and hands it to a sink, which keeps it or delivers it.  Beside the
  records it may capture an automatic World: every effect of the operation on the outside
  (database calls, files, clock, randomness) is an observation with its bytes, and a World is
  closed only if it is complete.  On Linux a kernel tracer, the sentinel, watches the system calls
  of the process, so that an effect no adapter has captured is noticed.  Everything runs beside
  the service and must never disturb it: all memory is bounded, and an operation that cannot be
  captured in full is dropped and counted.

  The theories, in the order they build on each other, and the code they model
  (under \<^verbatim>\<open>src/crates\<close>; \<^verbatim>\<open>rust\<close>, \<^verbatim>\<open>sentinel\<close> and \<^verbatim>\<open>engine\<close> stand for \<^verbatim>\<open>reproit-sdk-rust/src\<close>,
  \<^verbatim>\<open>reproit-sdk-sentinel/src\<close> and \<^verbatim>\<open>reproit-sdk-engine/src\<close>):

  \<^item> \<open>Prelude\<close>: error codes, identifiers, limits, 64-bit arithmetic with its overflow written out.
    \<open>BTree_Map\<close>: ordered maps, and the locale \<open>charged_store\<close> of stores whose entries are charged.
    \<open>Core_Model\<close>: the data of the core crate, and its functions as the record \<open>core\<close>.
  \<^item> \<open>Storm_Gate\<close> and \<open>Resources\<close>: \<^verbatim>\<open>rust/resources.rs\<close>, the failure storm gate and the ledger of
    the bytes and operations the process may hold.
  \<^item> \<open>Sdk_Core\<close>: \<^verbatim>\<open>rust/lib.rs\<close>, from \<open>begin\<close> to \<open>fail\<close>.  \<open>Sdk_Safety\<close> holds its invariant and the
    locale \<open>sink_contract\<close> of what \<open>fail\<close> relies on; \<open>Sdk_Behaviour\<close> and \<open>Sdk_Theorems\<close> what each
    call does on every branch and what a candidate contains.
  \<^item> \<open>Candidate_Sinks\<close> and \<open>Sink_Safety\<close>: \<^verbatim>\<open>rust/managed_sink.rs\<close>, the local recorder and the managed
    queue with its worker; both are shown to meet \<open>sink_contract\<close>.
  \<^item> \<open>Fuzz_Context\<close>: \<^verbatim>\<open>rust/distributed_fuzz.rs\<close>, contexts that cross services, and their scopes.
  \<^item> \<open>Request_Response\<close> and \<open>Response_Capture\<close>: \<^verbatim>\<open>rust/request_response.rs\<close>, the state machine of a
    captured exchange over an arbitrary operation, and its classifier (locale
    \<open>classifier_contract\<close>).
  \<^item> \<open>Sentinel_Trace\<close>, \<open>Sentinel\<close>, \<open>Sentinel_Coverage\<close>: \<^verbatim>\<open>sentinel/sentinel_linux.rs\<close> (the tracer loop,
    the event pipe, the shared memory) and \<^verbatim>\<open>sentinel/sentinel.rs\<close> (the controller that gives each
    event an owner), and what clean evidence means for the two together.
  \<^item> \<open>World_Core\<close>, \<open>Automatic_World\<close>, \<open>World_Closing\<close>: \<^verbatim>\<open>rust/automatic_world.rs\<close>,
    \<^verbatim>\<open>automatic_world_artifacts.rs\<close> and \<^verbatim>\<open>automatic_world_semantics.rs\<close>: sessions, the semantic checks of
    dependencies, artifacts, and the closing of a World.  \<open>World_Safety\<close> holds the invariant,
    \<open>World_Theorems\<close> the runs (locale \<open>coordinator_property\<close>), \<open>World_Capture\<close> one observation from its
    opening to its commit and the replay, \<open>World_Witnesses\<close> concrete Worlds.
  \<^item> \<open>Automatic_Context\<close> and \<open>Context_Theorems\<close>: \<^verbatim>\<open>rust/automatic_context.rs\<close>, the ambient contexts
    through which code inside an operation finds its coordinator.
  \<^item> \<open>Semantic_Session\<close>, \<open>Failure_Task\<close>, \<open>Engine_Witnesses\<close>: \<^verbatim>\<open>engine/semantic_dependency.rs\<close> (the
    session) and \<^verbatim>\<open>engine/failure_delivery.rs\<close> (tasks and their worker).
  \<^item> \<open>Managed_Closure\<close> and \<open>Closure_Theorems\<close>: \<^verbatim>\<open>rust/managed.rs\<close> up to the frozen closure of an
    operation: the private copy of a World's files and the check of its transcripts.
  \<^item> \<open>Automatic_Engine\<close>, \<open>Engine_Safety\<close>, \<open>Engine_Theorems\<close>, \<open>Operation_Witnesses\<close>:
    \<^verbatim>\<open>rust/automatic_engine.rs\<close> and the factory of \<^verbatim>\<open>rust/official_operation.rs\<close>: the engine of a
    process, its managed operations from \<open>start\<close> to \<open>succeed\<close>, \<open>fail\<close> or drop, over the SDK, the
    contexts, the coordinator, the sentinel and the closures.
  \<^item> \<open>Engine_Registry\<close>: \<^verbatim>\<open>engine/lib.rs\<close> and \<^verbatim>\<open>engine/observation.rs\<close>, the tables of handles behind the
    C interface, every call of it, and its boundary.  \<open>Registry_Handles\<close> is the invariant of the
    tables and the abstract machine of handles, \<open>Registry_Dependency\<close> the calls that take several
    sections (\<^verbatim>\<open>engine/semantic_dependency.rs\<close>), \<open>Registry_Failing\<close> the hand-over of a failed operation
    to its worker, \<open>Registry_Theorems\<close> and \<open>Registry_Witnesses\<close> the properties and a concrete run.
  \<^item> \<open>Managed_Prepare\<close> and \<open>Prepare_Theorems\<close>: \<^verbatim>\<open>rust/managed.rs\<close>, \<open>prepare_shared\<close>, which turns a
    candidate, its subject package and its World into a checked list of objects.
  \<^item> \<open>Managed_Seal\<close> and \<open>Seal_Theorems\<close>: the grants and \<open>seal\<close>, which encrypts the objects in chunks,
    and the receiver that opens them again.
  \<^item> \<open>Managed_Upload\<close> and \<open>Upload_Theorems\<close>: \<open>upload_before\<close> with its deadline, its pages, and the
    threads of a batch under any scheduler; every call and its answer go into a log, and the
    theorems are about the logs.
  \<^item> \<open>Managed_Delivery\<close>: \<open>deliver_candidate\<close> of \<^verbatim>\<open>rust/managed_sink.rs\<close>, which puts the last three
    together.  \<open>Managed_Witnesses\<close> and \<open>Delivery_Witnesses\<close> deliver a small candidate.

  How the parts meet.  The SDK, the coordinator, the closures and the managed worker share one process
  ledger (\<open>process_resources\<close>): it is a state handed from call to call, so what one leaves charged
  the next one sees.  \<open>fail\<close> calls the sink inside the SDK's lock, and the worker runs between calls.
  A coordinator contains the SDK of its operation, a context contains the coordinator, and an
  operation that is closed takes it out.  The automatic engine starts an operation as a coordinator
  in a context beside an operation of the sentinel, whose evidence the coordinator is given as
  coverage of its native effects before it closes its World.  A failed operation leaves a candidate
  and a frozen closure, which the delivery prepares, seals and uploads.  The registry holds engines,
  operations and observations under handles for programs in other languages.

  The interfaces are locales, each interpreted on the model of its provider: \<open>charged_store\<close> by the
  tables of the ledger and of the SDK, \<open>sink_contract\<close> by the two sinks, \<open>classifier_contract\<close> by
  the exact classifier, and \<open>coordinator_property\<close> by each property kept by the calls of a coordinator.

  What the lemmas show.  The ledger and the SDK's own counts agree in every reachable state and
  stay within their limits; every byte charged is given back; a candidate is complete, numbered
  without a gap and bounded; each candidate offered has exactly one counted outcome.  A World that
  closes names exactly the bytes that were written, has lost nothing, and owns every observation;
  a loss that is marked refuses it for good.  Clean evidence of the sentinel covers every traced
  event of its operation.  Contexts and scopes leave the thread's stack as they found it.  An
  automatic operation leaves no trace in the ledger, closes its World only on clean evidence, and
  hands a failure over with exactly its closure.  The registry's tables stay well-formed under every
  interleaving and refine a machine of handles; errors cross the C boundary whole.  A prepared
  candidate has one object for each of its parts, a sealed one can be opened to these objects, an
  upload that succeeds is complete and one that fails is cancelled, and a delivery is all of this
  within its thirty minutes.  Three properties state behaviour that the code may not intend
  (\<open>fast_delivery_misreported\<close>, \<open>late_event_covered\<close>, \<open>unowned_loss_unnoticed\<close>), and
  \<open>storm_never_evicts\<close> that a branch is never taken.

  Conventions.  A function that may fail returns \<open>error + 'a\<close> with the state it leaves, also when
  it fails.  \<open>usize\<close> and \<open>u64\<close> are natural numbers with the overflow of each operation (checked,
  saturating, wrapping) written at the place where the code has it.  A section of a mutex is one
  step; concurrency is any interleaving of such steps, by a step relation or a list of calls.  No
  thread panics while it holds a lock, so a poisoned lock is not modelled.  A channel send is
  atomic with the section around it.  The answers of the operating system during a call (clock,
  random bytes, writes and reads of files) are arguments, and so are the functions of
  \<^verbatim>\<open>reproit_core\<close>, \<^verbatim>\<open>reproit_sdk_backend\<close>, serde and SHA-256, which are not in this repository.

  Bounds and fuel.  The digest of a file reads 64 KiB at a time and ends by a measure on what is left;
  reading a replayed response needs at most as many reads as it has bytes, and one when it has
  none (\<open>replay_read_whole\<close>); the drain of the event pipe recurses on the list of queued events.  The
  pages of an upload have the bound of the code, one more than the hundreds of ciphertexts, as fuel,
  and its threads end by a measure: each has at most five attempts and the step before them.  There
  is no other fuel, and all other loops of the code are recursion on a list.

  Not modelled, and why.  Installing and stopping the tracer (fork, ptrace, pipes), the platform
  crate, the processor identity and the probe of the sentinel are system calls.  The identity and
  deployment files are cryptography and file formats, the transport (\<^verbatim>\<open>managed_transport.rs\<close>) is HTTP
  over TLS, of which the upload sees the answers, and the subject packages (\<^verbatim>\<open>subject.rs\<close>) are walks
  over the program's files.  Of \<^verbatim>\<open>managed_sink.rs\<close> the construction of a sink from project files, and
  of \<^verbatim>\<open>official_operation.rs\<close> what reads them, are left out; so are a panic of an upload thread, which
  the code turns into an error, and the replay operation (\<^verbatim>\<open>automatic_replay.rs\<close>), which reads a capsule
  and drives the modelled coordinator.  The SDKs for other languages, the axum layer, the tools and
  the conformance suites use the Rust code from outside.
\<close>

end
